(* ===== verification/Prelude.thy ===== *)
theory Prelude
  imports Main "HOL-Library.Word" "HOL-Library.Char_ord" "HOL-Library.List_Lexorder"
    "HOL-Library.Product_Lexorder"
begin

text \<open>
  Shared vocabulary of the development: the outcome of a fallible Rust function, the
  arithmetic of the contracts' integers, storage cells, and the data that contracts exchange
  with the chain (blocks, senders, messages, replies).

  Every function of the contracts either returns a value, returns an error, or panics. A panic
  and an error both abort the call, and the chain then reverts what the call stored, so the
  state travels inside the \<open>Ok\<close> branch only. The release profile of the workspace keeps
  overflow checks on, hence checked arithmetic on machine integers is a panic.

  Code of third-party crates appears as a parameter: the fields of the record \<open>cw_env\<close>
  are the functions of \<open>cw_utils\<close> and of the chain API that the contracts call.
\<close>

section \<open>Outcomes\<close>

datatype ('a, 'e) result = Ok 'a | Err 'e | Panic

primrec and_then :: "('a, 'e) result \<Rightarrow> ('a \<Rightarrow> ('b, 'e) result) \<Rightarrow> ('b, 'e) result" where
  "and_then (Ok a) f = f a"
| "and_then (Err e) f = Err e"
| "and_then Panic f = Panic"

primrec map_err :: "('e \<Rightarrow> 'f) \<Rightarrow> ('a, 'e) result \<Rightarrow> ('a, 'f) result" where
  "map_err f (Ok a) = Ok a"
| "map_err f (Err e) = Err (f e)"
| "map_err f Panic = Panic"

primrec unwrap_or :: "('a, 'e) result \<Rightarrow> 'a \<Rightarrow> ('a, 'f) result" where
  "unwrap_or (Ok a) d = Ok a"
| "unwrap_or (Err e) d = Ok d"
| "unwrap_or Panic d = Panic"

definition ok_or :: "'a option \<Rightarrow> 'e \<Rightarrow> ('a, 'e) result" where
  "ok_or x e = (case x of None \<Rightarrow> Err e | Some a \<Rightarrow> Ok a)"

definition ok_or_panic :: "'a option \<Rightarrow> ('a, 'e) result" where
  "ok_or_panic x = (case x of None \<Rightarrow> Panic | Some a \<Rightarrow> Ok a)"

definition ensure :: "bool \<Rightarrow> 'e \<Rightarrow> (unit, 'e) result" where
  "ensure b e = (if b then Ok () else Err e)"

text \<open>A loop whose body may leave the function with \<open>?\<close>, and \<open>collect\<close> of results.\<close>

primrec try_fold :: "('s \<Rightarrow> 'a \<Rightarrow> ('s, 'e) result) \<Rightarrow> 's \<Rightarrow> 'a list \<Rightarrow> ('s, 'e) result" where
  "try_fold f s [] = Ok s"
| "try_fold f s (x # xs) = and_then (f s x) (\<lambda>s'. try_fold f s' xs)"

primrec try_map :: "('a \<Rightarrow> ('b, 'e) result) \<Rightarrow> 'a list \<Rightarrow> ('b list, 'e) result" where
  "try_map f [] = Ok []"
| "try_map f (x # xs) = and_then (f x) (\<lambda>y. and_then (try_map f xs) (\<lambda>ys. Ok (y # ys)))"

text \<open>\<open>Option<T>\<close> mapped through a fallible function and transposed.\<close>

primrec transpose_opt :: "('a \<Rightarrow> ('b, 'e) result) \<Rightarrow> 'a option \<Rightarrow> ('b option, 'e) result" where
  "transpose_opt f None = Ok None"
| "transpose_opt f (Some a) = and_then (f a) (\<lambda>b. Ok (Some b))"

named_theorems result_ok \<open>what a successful outcome says about its parts\<close>

lemma and_then_Ok [result_ok]: "and_then m f = Ok y \<longleftrightarrow> (\<exists>x. m = Ok x \<and> f x = Ok y)"
  by (cases m) auto

lemma and_then_Err [result_ok]:
  "and_then m f = Err e \<longleftrightarrow> m = Err e \<or> (\<exists>x. m = Ok x \<and> f x = Err e)"
  by (cases m) auto

lemma and_then_Panic [result_ok]:
  "and_then m f = Panic \<longleftrightarrow> m = Panic \<or> (\<exists>x. m = Ok x \<and> f x = Panic)"
  by (cases m) auto

lemma map_err_Ok [result_ok]: "map_err f m = Ok y \<longleftrightarrow> m = Ok y"
  by (cases m) auto

lemma map_err_Panic [result_ok]: "map_err f m = Panic \<longleftrightarrow> m = Panic"
  by (cases m) auto

lemma ok_or_Ok [result_ok]: "ok_or x e = Ok y \<longleftrightarrow> x = Some y"
  by (cases x) (auto simp: ok_or_def)

lemma ok_or_panic_Ok [result_ok]: "ok_or_panic x = Ok y \<longleftrightarrow> x = Some y"
  by (cases x) (auto simp: ok_or_panic_def)

lemma ok_or_simps [simp]: "ok_or (Some a) e = Ok a" "ok_or None e = Err e"
  by (simp_all add: ok_or_def)

lemma ok_or_panic_simps [simp]: "ok_or_panic (Some a) = Ok a" "ok_or_panic None = Panic"
  by (simp_all add: ok_or_panic_def)

lemma ensure_Ok [result_ok]: "ensure b e = Ok u \<longleftrightarrow> b"
  by (simp add: ensure_def)

lemma ensure_simps [simp]: "ensure True e = Ok ()" "ensure False e = Err e"
  by (simp_all add: ensure_def)

lemma transpose_opt_Ok [result_ok]:
  "transpose_opt f x = Ok y \<longleftrightarrow>
     (case x of None \<Rightarrow> y = None | Some a \<Rightarrow> \<exists>b. f a = Ok b \<and> y = Some b)"
  by (cases x) (auto simp: and_then_Ok)

lemma and_then_assoc: "and_then (and_then m f) g = and_then m (\<lambda>x. and_then (f x) g)"
  by (cases m) auto

lemma try_fold_append:
  "try_fold f s (xs @ ys) = and_then (try_fold f s xs) (\<lambda>s'. try_fold f s' ys)"
  by (induction xs arbitrary: s) (simp_all add: and_then_assoc)

text \<open>A property kept by every successful iteration holds when the loop returns.\<close>

lemma try_fold_invariant:
  assumes "try_fold f s xs = Ok s'" and "P s"
    and "\<And>s x s'. P s \<Longrightarrow> x \<in> set xs \<Longrightarrow> f s x = Ok s' \<Longrightarrow> P s'"
  shows "P s'"
  using assms
proof (induction xs arbitrary: s)
  case Nil
  then show ?case by simp
next
  case (Cons x xs)
  from Cons.prems(1) obtain t where t: "f s x = Ok t" "try_fold f t xs = Ok s'"
    by (auto simp: and_then_Ok)
  from Cons.prems(2,3) t(1) have "P t" by auto
  with t(2) show ?case by (rule Cons.IH) (use Cons.prems(3) in auto)
qed

lemma try_map_Ok_length: "try_map f xs = Ok ys \<Longrightarrow> length ys = length xs"
  by (induction xs arbitrary: ys) (auto simp: and_then_Ok)

lemma try_map_Ok_nth:
  "try_map f xs = Ok ys \<Longrightarrow> i < length xs \<Longrightarrow> f (xs ! i) = Ok (ys ! i)"
  by (induction xs arbitrary: ys i) (auto simp: and_then_Ok nth_Cons split: nat.splits)

section \<open>Errors of the standard contract library\<close>

text \<open>
  The values of \<open>StdError\<close> that the contracts build or pass on. The explanatory text
  of a missing storage entry is left out.
\<close>

datatype std_error = GenericErr string | NotFound | OverflowErr | QuerierErr string

section \<open>Integers\<close>

text \<open>
  \<open>u64\<close> identifiers and heights are words. \<open>Uint128\<close> amounts are natural numbers
  together with the width check of each operation; \<open>Uint256\<close> likewise.
\<close>

type_synonym u64 = "64 word"

definition u128 :: "nat \<Rightarrow> bool" where
  "u128 n \<longleftrightarrow> n < 2 ^ 128"

definition add128 :: "nat \<Rightarrow> nat \<Rightarrow> (nat, 'e) result" where
  "add128 a b = (if a + b < 2 ^ 128 then Ok (a + b) else Panic)"

definition sub128 :: "nat \<Rightarrow> nat \<Rightarrow> (nat, 'e) result" where
  "sub128 a b = (if b \<le> a then Ok (a - b) else Panic)"

definition checked_add128 :: "nat \<Rightarrow> nat \<Rightarrow> (nat, std_error) result" where
  "checked_add128 a b = (if a + b < 2 ^ 128 then Ok (a + b) else Err OverflowErr)"

definition checked_sub128 :: "nat \<Rightarrow> nat \<Rightarrow> (nat, std_error) result" where
  "checked_sub128 a b = (if b \<le> a then Ok (a - b) else Err OverflowErr)"

definition add_u32 :: "nat \<Rightarrow> nat \<Rightarrow> (nat, 'e) result" where
  "add_u32 a b = (if a + b < 2 ^ 32 then Ok (a + b) else Panic)"

definition sub_u32 :: "nat \<Rightarrow> nat \<Rightarrow> (nat, 'e) result" where
  "sub_u32 a b = (if b \<le> a then Ok (a - b) else Panic)"

definition add_u64 :: "u64 \<Rightarrow> u64 \<Rightarrow> (u64, 'e) result" where
  "add_u64 a b = (if unat a + unat b < 2 ^ 64 then Ok (a + b) else Panic)"

text \<open>\<open>Uint256::multiply_ratio\<close>: a zero divisor and an overflowing quotient panic.\<close>

definition multiply_ratio256 :: "nat \<Rightarrow> nat \<Rightarrow> nat \<Rightarrow> (nat, 'e) result" where
  "multiply_ratio256 x num den =
     (if den = 0 then Panic
      else if x * num div den < 2 ^ 256 then Ok (x * num div den) else Panic)"

lemma add128_Ok [result_ok]: "add128 a b = Ok c \<longleftrightarrow> c = a + b \<and> a + b < 2 ^ 128"
  by (auto simp: add128_def)

lemma sub128_Ok [result_ok]: "sub128 a b = Ok c \<longleftrightarrow> c = a - b \<and> b \<le> a"
  by (auto simp: sub128_def)

lemma checked_add128_Ok [result_ok]:
  "checked_add128 a b = Ok c \<longleftrightarrow> c = a + b \<and> a + b < 2 ^ 128"
  by (auto simp: checked_add128_def)

lemma checked_sub128_Ok [result_ok]: "checked_sub128 a b = Ok c \<longleftrightarrow> c = a - b \<and> b \<le> a"
  by (auto simp: checked_sub128_def)

lemma add_u32_Ok [result_ok]: "add_u32 a b = Ok c \<longleftrightarrow> c = a + b \<and> a + b < 2 ^ 32"
  by (auto simp: add_u32_def)

lemma sub_u32_Ok [result_ok]: "sub_u32 a b = Ok c \<longleftrightarrow> c = a - b \<and> b \<le> a"
  by (auto simp: sub_u32_def)

lemma add_u64_Ok: "add_u64 a b = Ok c \<Longrightarrow> unat c = unat a + unat b"
  by (auto simp: add_u64_def unat_word_ariths split: if_splits)

lemma unat_of_nat_u64: "n < 2 ^ 64 \<Longrightarrow> unat (of_nat n :: u64) = n"
  by (simp add: unsigned_of_nat take_bit_nat_eq_self)

section \<open>Decimals\<close>

text \<open>\<open>Decimal\<close>: a \<open>Uint128\<close> count of atomics, eighteen decimal places.\<close>

datatype decimal = Decimal (atomics: nat)

definition decimal_places :: nat where
  "decimal_places = 18"

definition decimal_one :: decimal where
  "decimal_one = Decimal (10 ^ decimal_places)"

definition decimal_percent :: "nat \<Rightarrow> decimal" where
  "decimal_percent n = Decimal (n * 10 ^ (decimal_places - 2))"

definition decimal_is_zero :: "decimal \<Rightarrow> bool" where
  "decimal_is_zero d \<longleftrightarrow> atomics d = 0"

definition decimal_less :: "decimal \<Rightarrow> decimal \<Rightarrow> bool" where
  "decimal_less a b \<longleftrightarrow> atomics a < atomics b"

definition decimal_sub :: "decimal \<Rightarrow> decimal \<Rightarrow> (decimal, 'e) result" where
  "decimal_sub a b = (if atomics b \<le> atomics a then Ok (Decimal (atomics a - atomics b)) else Panic)"

text \<open>\<open>Uint128::mul_floor\<close> by a decimal.\<close>

definition mul_floor :: "nat \<Rightarrow> decimal \<Rightarrow> (nat, 'e) result" where
  "mul_floor n d =
     (if n * atomics d div 10 ^ decimal_places < 2 ^ 128
      then Ok (n * atomics d div 10 ^ decimal_places) else Panic)"

lemma decimal_percent_100: "decimal_percent 100 = decimal_one"
  by (simp add: decimal_percent_def decimal_one_def decimal_places_def)

section \<open>Blocks, time and the chain's interface\<close>

type_synonym addr = string
type_synonym binary = string

record block_info =
  height :: u64
  time :: u64

datatype expiration = AtHeight u64 | AtTime u64 | Never

datatype duration = Height u64 | Time u64

record env =
  block :: block_info
  contract_address :: addr

record coin =
  coin_denom :: string
  coin_amount :: nat

record message_info =
  sender :: addr
  funds :: "coin list"

text \<open>
  Functions of third-party crates that the contracts call: \<open>Expiration::is_expired\<close>,
  \<open>Duration::after\<close> (\<open>None\<close> where its addition overflows and the call aborts),
  \<open>Expiration + Duration\<close>, the \<open>Debug\<close> text of an expiration and
  \<open>Api::addr_validate\<close>.
\<close>

record cw_env =
  is_expired :: "expiration \<Rightarrow> block_info \<Rightarrow> bool"
  duration_after :: "duration \<Rightarrow> block_info \<Rightarrow> expiration option"
  expiration_add :: "expiration \<Rightarrow> duration \<Rightarrow> (expiration, std_error) result"
  expiration_debug :: "expiration \<Rightarrow> string"
  addr_validate :: "string \<Rightarrow> (addr, std_error) result"

text \<open>Blocks never go back in height or time, and an expired expiration stays expired.\<close>

definition block_le :: "block_info \<Rightarrow> block_info \<Rightarrow> bool" where
  "block_le b b' \<longleftrightarrow> height b \<le> height b' \<and> time b \<le> time b'"

definition expiry_monotone :: "'x cw_env_scheme \<Rightarrow> bool" where
  "expiry_monotone cw \<longleftrightarrow>
     (\<forall>e b b'. block_le b b' \<longrightarrow> is_expired cw e b \<longrightarrow> is_expired cw e b')"

lemma expiry_monotoneD:
  "expiry_monotone cw \<Longrightarrow> block_le b b' \<Longrightarrow> is_expired cw e b \<Longrightarrow> is_expired cw e b'"
  by (auto simp: expiry_monotone_def)

section \<open>Storage\<close>

text \<open>
  An \<open>Item\<close> is an optional value and a \<open>Map\<close> a partial function; \<open>load\<close> of a
  missing entry is an error. Ranges over a map run in key order.
\<close>

definition load :: "'a option \<Rightarrow> ('a, std_error) result" where
  "load x = ok_or x NotFound"

lemma load_Ok [result_ok]: "load x = Ok y \<longleftrightarrow> x = Some y"
  by (simp add: load_def ok_or_Ok)

lemma load_simps [simp]: "load (Some a) = Ok a" "load None = Err NotFound"
  by (simp_all add: load_def)

definition entries :: "('k::linorder \<rightharpoonup> 'v) \<Rightarrow> ('k \<times> 'v) list" where
  "entries m = map (\<lambda>k. (k, the (m k))) (sorted_list_of_set (dom m))"

text \<open>
  \<open>Map::range\<close> with an exclusive bound, in ascending order from a minimum and in
  descending order from a maximum. Contracts are compiled for a 32-bit target, where
  \<open>as usize\<close> keeps the low 32 bits.
\<close>

definition range_after :: "('k::linorder \<rightharpoonup> 'v) \<Rightarrow> 'k option \<Rightarrow> ('k \<times> 'v) list" where
  "range_after m mn =
     filter (\<lambda>(k, _). case mn of None \<Rightarrow> True | Some a \<Rightarrow> a < k) (entries m)"

definition range_before :: "('k::linorder \<rightharpoonup> 'v) \<Rightarrow> 'k option \<Rightarrow> ('k \<times> 'v) list" where
  "range_before m mx =
     rev (filter (\<lambda>(k, _). case mx of None \<Rightarrow> True | Some a \<Rightarrow> k < a) (entries m))"

definition as_usize :: "u64 \<Rightarrow> nat" where
  "as_usize n = unat n mod 2 ^ 32"

lemma as_usize_small: "unat n < 2 ^ 32 \<Longrightarrow> as_usize n = unat n"
  by (simp add: as_usize_def)

lemma set_entries: "finite (dom m) \<Longrightarrow> set (entries m) = {(k, v). m k = Some v}"
  by (auto simp: entries_def image_iff)

lemma sorted_entries: "finite (dom m) \<Longrightarrow> map fst (entries m) = sorted_list_of_set (dom m)"
  by (simp add: entries_def comp_def)

lemma distinct_entries: "distinct (map fst (entries m))"
  by (simp add: entries_def comp_def)

section \<open>Messages\<close>

datatype reply_on = ReplyAlways | ReplyOnError | ReplyOnSuccess | ReplyNever

text \<open>
  Messages to other contracts: \<open>'p\<close> is the payload before its encoding as JSON,
  \<open>'m\<close> stands for the messages that a proposal carries and the contracts only forward.
\<close>

datatype 'p wasm_msg =
    WasmExecute (contract_addr: addr) (payload: 'p) (exec_funds: "coin list")
  | WasmInstantiate (inst_admin: "addr option") (inst_code_id: u64) (inst_msg: binary)
      (inst_funds: "coin list") (inst_label: string)
  | WasmInstantiate2 (inst_admin: "addr option") (inst_code_id: u64) (inst_msg: binary)
      (inst_funds: "coin list") (inst_label: string) (inst_salt: binary)

datatype ('p, 'm) cosmos_msg = Wasm "'p wasm_msg" | Forwarded 'm

record 'c sub_msg =
  msg_id :: u64
  msg_body :: 'c
  msg_reply_on :: reply_on

definition sub_msg_new :: "'c \<Rightarrow> 'c sub_msg" where
  "sub_msg_new m = \<lparr>msg_id = 0, msg_body = m, msg_reply_on = ReplyNever\<rparr>"

definition reply_on_error :: "'c \<Rightarrow> u64 \<Rightarrow> 'c sub_msg" where
  "reply_on_error m i = \<lparr>msg_id = i, msg_body = m, msg_reply_on = ReplyOnError\<rparr>"

definition reply_on_success :: "'c \<Rightarrow> u64 \<Rightarrow> 'c sub_msg" where
  "reply_on_success m i = \<lparr>msg_id = i, msg_body = m, msg_reply_on = ReplyOnSuccess\<rparr>"

text \<open>
  A reply: the identifier of the sub-message, and what \<open>parse_reply_instantiate_data\<close> of
  \<open>cw_utils\<close> makes of its result.
\<close>

record instantiate_data =
  res_contract_address :: addr
  res_data :: "binary option"

record reply =
  rep_id :: u64
  parsed_instantiate_data :: "(instantiate_data, string) result"

end
