(* ===== verification/Cw_Hooks.thy ===== *)
theory Cw_Hooks
  imports Prelude
begin

text \<open>
  The hook registry of \<open>packages/cw-hooks\<close>: one storage item with the list of the
  addresses to notify. The registry is the option of the list; \<open>None\<close> is the item that
  was never saved.
\<close>

section \<open>The registry\<close>

datatype hook_error = HookStd std_error | HookAlreadyRegistered | HookNotRegistered

type_synonym hooks = "addr list option"

definition hooks_or_default :: "hooks \<Rightarrow> addr list" where
  "hooks_or_default h = (case h of None \<Rightarrow> [] | Some xs \<Rightarrow> xs)"

definition add_hook :: "hooks \<Rightarrow> addr \<Rightarrow> (hooks, hook_error) result" where
  "add_hook self a =
     (let hs = hooks_or_default self
      in if a \<notin> set hs then Ok (Some (hs @ [a])) else Err HookAlreadyRegistered)"

text \<open>\<open>Vec::remove\<close>: the element leaves, later ones move down; out of range it panics.\<close>

definition vec_remove :: "'a list \<Rightarrow> nat \<Rightarrow> ('a \<times> 'a list, 'e) result" where
  "vec_remove xs i = (if i < length xs then Ok (xs ! i, take i xs @ drop (Suc i) xs) else Panic)"

fun position :: "('a \<Rightarrow> bool) \<Rightarrow> 'a list \<Rightarrow> nat option" where
  "position P [] = None"
| "position P (x # xs) = (if P x then Some 0 else map_option Suc (position P xs))"

definition remove_hook :: "hooks \<Rightarrow> addr \<Rightarrow> (hooks, hook_error) result" where
  "remove_hook self a =
     and_then (map_err HookStd (load self)) (\<lambda>hs.
       case position (\<lambda>h. h = a) hs of
         Some p \<Rightarrow> and_then (vec_remove hs p) (\<lambda>(_, hs'). Ok (Some hs'))
       | None \<Rightarrow> Err HookNotRegistered)"

definition remove_hook_by_index :: "hooks \<Rightarrow> u64 \<Rightarrow> (addr \<times> hooks, hook_error) result" where
  "remove_hook_by_index self index =
     and_then (map_err HookStd (load self)) (\<lambda>hs.
     and_then (vec_remove hs (as_usize index)) (\<lambda>(hook, hs'). Ok (hook, Some hs')))"

definition prepare_hooks ::
  "hooks \<Rightarrow> (addr \<Rightarrow> ('c, std_error) result) \<Rightarrow> ('c list, std_error) result" where
  "prepare_hooks self prep = try_map prep (hooks_or_default self)"

definition hook_count :: "hooks \<Rightarrow> nat" where
  "hook_count self = length (hooks_or_default self)"

definition query_hooks :: "hooks \<Rightarrow> addr list" where
  "query_hooks self = hooks_or_default self"

section \<open>Properties\<close>

text \<open>No address is registered twice.\<close>

definition hooks_distinct :: "hooks \<Rightarrow> bool" where
  "hooks_distinct h \<longleftrightarrow> distinct (hooks_or_default h)"

lemma hooks_or_default_simps [simp]:
  "hooks_or_default None = []" "hooks_or_default (Some xs) = xs"
  by (simp_all add: hooks_or_default_def)

lemma vec_remove_Ok [result_ok]:
  "vec_remove xs i = Ok (y, ys) \<longleftrightarrow> i < length xs \<and> y = xs ! i \<and> ys = take i xs @ drop (Suc i) xs"
  by (auto simp: vec_remove_def)

lemma position_Some:
  "position P xs = Some i \<Longrightarrow> i < length xs \<and> P (xs ! i) \<and> (\<forall>j < i. \<not> P (xs ! j))"
proof (induction xs arbitrary: i)
  case Nil
  then show ?case by simp
next
  case (Cons x xs)
  then show ?case
    by (auto simp: nth_Cons less_Suc_eq_0_disj split: if_splits nat.splits)
qed

lemma position_None: "position P xs = None \<longleftrightarrow> (\<forall>x \<in> set xs. \<not> P x)"
  by (induction xs) auto

lemma distinct_remove_nth: "distinct xs \<Longrightarrow> distinct (take i xs @ drop (Suc i) xs)"
  by (metis Un_commute distinct_append distinct_drop distinct_take
      set_take_disj_set_drop_if_distinct le_SucI order_refl)

lemma set_remove_nth:
  assumes "distinct xs" and "i < length xs"
  shows "set (take i xs @ drop (Suc i) xs) = set xs - {xs ! i}"
proof -
  have xs: "xs = take i xs @ xs ! i # drop (Suc i) xs"
    using assms(2) by (rule id_take_nth_drop)
  have "distinct (take i xs @ xs ! i # drop (Suc i) xs)"
    using assms(1) xs by simp
  then have "xs ! i \<notin> set (take i xs)" "xs ! i \<notin> set (drop (Suc i) xs)" by auto
  moreover have "set xs = set (take i xs) \<union> insert (xs ! i) (set (drop (Suc i) xs))"
    using arg_cong [OF xs, of set] by simp
  ultimately show ?thesis by auto
qed

lemma add_hook_distinct: "add_hook h a = Ok h' \<Longrightarrow> hooks_distinct h \<Longrightarrow> hooks_distinct h'"
  by (auto simp: add_hook_def hooks_distinct_def Let_def split: if_splits)

lemma remove_hook_distinct: "remove_hook h a = Ok h' \<Longrightarrow> hooks_distinct h \<Longrightarrow> hooks_distinct h'"
  by (auto simp: remove_hook_def hooks_distinct_def distinct_remove_nth result_ok
      simp del: distinct_append split: option.splits)

lemma remove_hook_by_index_distinct:
  "remove_hook_by_index h i = Ok (a, h') \<Longrightarrow> hooks_distinct h \<Longrightarrow> hooks_distinct h'"
  by (auto simp: remove_hook_by_index_def hooks_distinct_def distinct_remove_nth result_ok
      simp del: distinct_append)

lemma add_hook_set:
  "add_hook h a = Ok h' \<Longrightarrow> set (query_hooks h') = insert a (set (query_hooks h)) \<and> a \<notin> set (query_hooks h)"
  by (auto simp: add_hook_def query_hooks_def Let_def split: if_splits)

lemma remove_hook_set:
  assumes "remove_hook h a = Ok h'" and "hooks_distinct h"
  shows "set (query_hooks h') = set (query_hooks h) - {a} \<and> a \<in> set (query_hooks h)"
proof -
  from assms(1) obtain hs p where hs: "h = Some hs" and p: "position (\<lambda>h. h = a) hs = Some p"
    and h': "h' = Some (take p hs @ drop (Suc p) hs)"
    by (auto simp: remove_hook_def result_ok split: option.splits)
  from position_Some [OF p] have "p < length hs" "hs ! p = a" by auto
  with assms(2) hs h' show ?thesis
    by (auto simp: hooks_distinct_def query_hooks_def set_remove_nth simp del: set_append)
qed

end
