(* ===== verification/Dao_Interface.thy ===== *)
theory Dao_Interface
  imports Prelude
begin

text \<open>
  Types shared by the contracts of a DAO (\<open>packages/dao-interface\<close>): the core module's
  configuration, proposal-module records and the instantiation of modules.
\<close>

section \<open>Core configuration and proposal modules (state.rs)\<close>

record core_config =
  name :: string
  description :: string
  image_url :: "string option"
  automatically_add_cw20s :: bool
  automatically_add_cw721s :: bool
  dao_uri :: "string option"

datatype proposal_module_status = Enabled | Disabled

record proposal_module =
  address :: addr
  prefix :: string
  module_status :: proposal_module_status

section \<open>Instantiating modules (state.rs)\<close>

datatype admin = AdminAddress addr | CoreModule

record module_instantiate_info =
  code_id :: u64
  info_msg :: binary
  info_admin :: "admin option"
  info_funds :: "coin list option"
  info_label :: string
  info_salt :: "binary option"

definition into_wasm_msg :: "module_instantiate_info \<Rightarrow> addr \<Rightarrow> 'p wasm_msg" where
  "into_wasm_msg self core_module_admin =
     (let admin = map_option (\<lambda>a. case a of AdminAddress x \<Rightarrow> x | CoreModule \<Rightarrow> core_module_admin)
                    (info_admin self);
          fs = (case info_funds self of None \<Rightarrow> [] | Some xs \<Rightarrow> xs)
      in case info_salt self of
           Some salt \<Rightarrow> WasmInstantiate2 admin (code_id self) (info_msg self) fs (info_label self) salt
         | None \<Rightarrow> WasmInstantiate admin (code_id self) (info_msg self) fs (info_label self))"

text \<open>A module update either instantiates a new module or records an existing one.\<close>

datatype module_update = ModuleNew module_instantiate_info | ModuleExisting string

definition module_update_update ::
  "'x cw_env_scheme \<Rightarrow> module_update \<Rightarrow> addr option \<Rightarrow> u64 \<Rightarrow> addr
     \<Rightarrow> (addr option \<times> 'p wasm_msg sub_msg list, std_error) result" where
  "module_update_update cw self cell reply_id owner =
     (case self of
        ModuleNew info \<Rightarrow> Ok (cell, [reply_on_success (into_wasm_msg info owner) reply_id])
      | ModuleExisting a \<Rightarrow>
          and_then (addr_validate cw a) (\<lambda>a'. Ok (Some a', [])))"

section \<open>Query responses (query.rs)\<close>

datatype pause_info_response = Paused expiration | Unpaused

record sub_dao =
  sub_addr :: string
  charter :: "string option"

section \<open>Optional updates (helpers.rs)\<close>

datatype 'a update = SetTo 'a | ClearIt

definition maybe_update_result_with_value ::
  "'a update option \<Rightarrow> ('a option \<Rightarrow> ('r, 'e) result) \<Rightarrow> 'r \<Rightarrow> ('r, 'e) result" where
  "maybe_update_result_with_value self f dflt =
     (case self of
        Some (SetTo v) \<Rightarrow> f (Some v)
      | Some ClearIt \<Rightarrow> f None
      | None \<Rightarrow> Ok dflt)"

definition maybe_update_result ::
  "'a update option \<Rightarrow> ('a option \<Rightarrow> (unit, 'e) result) \<Rightarrow> (unit, 'e) result" where
  "maybe_update_result self f = maybe_update_result_with_value self f ()"

end
