(* ===== verification/Dao_Voting.thy ===== *)
theory Dao_Voting
  imports Prelude Dao_Interface
begin

text \<open>
  The voting package \<open>packages/dao-voting\<close>: thresholds and the arithmetic that compares
  a tally with them, statuses, vetoes, reply identifiers, creation policies and the queries
  for voting power. Functions that may panic on overflow return a \<open>result\<close>.
\<close>

unbundle bit_operations_syntax

section \<open>Thresholds (threshold.rs)\<close>

datatype active_threshold = ActiveAbsoluteCount nat | ActivePercentage decimal

datatype active_threshold_error = InvalidAbsoluteCount | InvalidActivePercentage | ZeroActiveCount

definition assert_valid_absolute_count_threshold ::
  "nat \<Rightarrow> nat \<Rightarrow> (unit, active_threshold_error) result" where
  "assert_valid_absolute_count_threshold count supply =
     (if count = 0 then Err ZeroActiveCount
      else if count > supply then Err InvalidAbsoluteCount
      else Ok ())"

definition assert_valid_percentage_threshold ::
  "decimal \<Rightarrow> (unit, active_threshold_error) result" where
  "assert_valid_percentage_threshold percent =
     (if decimal_is_zero percent \<or> decimal_less decimal_one percent
      then Err InvalidActivePercentage else Ok ())"

datatype threshold_error = ZeroThreshold | UnreachableThreshold

datatype percentage_threshold = Majority | Percent decimal

datatype threshold =
    AbsolutePercentage percentage_threshold
  | ThresholdQuorum percentage_threshold percentage_threshold
  | AbsoluteCount nat

definition validate_percentage :: "percentage_threshold \<Rightarrow> (unit, threshold_error) result" where
  "validate_percentage p =
     (case p of
        Percent percent \<Rightarrow>
          if decimal_is_zero percent then Err ZeroThreshold
          else if decimal_less decimal_one percent then Err UnreachableThreshold
          else Ok ()
      | Majority \<Rightarrow> Ok ())"

definition validate_quorum :: "percentage_threshold \<Rightarrow> (unit, threshold_error) result" where
  "validate_quorum quorum =
     (case quorum of
        Majority \<Rightarrow> Ok ()
      | Percent q \<Rightarrow> if decimal_less decimal_one q then Err UnreachableThreshold else Ok ())"

definition threshold_validate :: "threshold \<Rightarrow> (unit, threshold_error) result" where
  "threshold_validate self =
     (case self of
        AbsolutePercentage percentage_needed \<Rightarrow> validate_percentage percentage_needed
      | ThresholdQuorum t q \<Rightarrow> and_then (validate_percentage t) (\<lambda>_. validate_quorum q)
      | AbsoluteCount t \<Rightarrow> if t = 0 then Err ZeroThreshold else Ok ())"

section \<open>Votes and their comparison with thresholds (voting.rs)\<close>

definition PRECISION_FACTOR :: nat where
  "PRECISION_FACTOR = 10 ^ 9"

record votes =
  yes :: nat
  no :: nat
  abstain :: nat

datatype vote = Yes | No | Abstain

record single_choice_auto_vote =
  auto_vote :: vote
  auto_rationale :: "string option"

datatype vote_cmp = Greater | Geq

definition compare_vote_count ::
  "nat \<Rightarrow> vote_cmp \<Rightarrow> nat \<Rightarrow> decimal \<Rightarrow> (bool, 'e) result" where
  "compare_vote_count vs cmp total_pow passing_percentage =
     (let vs' = vs * PRECISION_FACTOR;
          total' = total_pow * PRECISION_FACTOR
      in and_then (multiply_ratio256 total' (atomics passing_percentage) (10 ^ decimal_places))
           (\<lambda>thr. case cmp of
                Greater \<Rightarrow> Ok (vs' > thr)
              | Geq \<Rightarrow> Ok (vs' \<ge> thr)))"

definition does_vote_count_pass ::
  "nat \<Rightarrow> nat \<Rightarrow> percentage_threshold \<Rightarrow> (bool, 'e) result" where
  "does_vote_count_pass vote_weights options percent =
     (if options = 0 then Ok False
      else case percent of
             Majority \<Rightarrow> Ok (vote_weights * 2 > options)
           | Percent p \<Rightarrow> compare_vote_count vote_weights Geq options p)"

definition does_vote_count_fail ::
  "nat \<Rightarrow> nat \<Rightarrow> percentage_threshold \<Rightarrow> (bool, 'e) result" where
  "does_vote_count_fail no_votes options percent =
     (if options = 0 then Ok True
      else case percent of
             Majority \<Rightarrow> Ok (no_votes * 2 \<ge> options)
           | Percent p \<Rightarrow>
               and_then (decimal_sub decimal_one p) (\<lambda>q.
                 compare_vote_count no_votes Greater options q))"

definition votes_zero :: votes where
  "votes_zero = \<lparr>yes = 0, no = 0, abstain = 0\<rparr>"

definition add_vote :: "vote \<Rightarrow> nat \<Rightarrow> votes \<Rightarrow> (votes, 'e) result" where
  "add_vote v pow self =
     (case v of
        Yes \<Rightarrow> and_then (add128 (yes self) pow) (\<lambda>n. Ok (self\<lparr>yes := n\<rparr>))
      | No \<Rightarrow> and_then (add128 (no self) pow) (\<lambda>n. Ok (self\<lparr>no := n\<rparr>))
      | Abstain \<Rightarrow> and_then (add128 (abstain self) pow) (\<lambda>n. Ok (self\<lparr>abstain := n\<rparr>)))"

definition remove_vote :: "vote \<Rightarrow> nat \<Rightarrow> votes \<Rightarrow> (votes, 'e) result" where
  "remove_vote v pow self =
     (case v of
        Yes \<Rightarrow> and_then (sub128 (yes self) pow) (\<lambda>n. Ok (self\<lparr>yes := n\<rparr>))
      | No \<Rightarrow> and_then (sub128 (no self) pow) (\<lambda>n. Ok (self\<lparr>no := n\<rparr>))
      | Abstain \<Rightarrow> and_then (sub128 (abstain self) pow) (\<lambda>n. Ok (self\<lparr>abstain := n\<rparr>)))"

definition votes_total :: "votes \<Rightarrow> (nat, 'e) result" where
  "votes_total self = and_then (add128 (yes self) (no self)) (\<lambda>n. add128 n (abstain self))"

definition votes_get :: "vote \<Rightarrow> votes \<Rightarrow> nat" where
  "votes_get v self = (case v of Yes \<Rightarrow> yes self | No \<Rightarrow> no self | Abstain \<Rightarrow> abstain self)"

definition vote_to_string :: "vote \<Rightarrow> string" where
  "vote_to_string v = (case v of Yes \<Rightarrow> ''yes'' | No \<Rightarrow> ''no'' | Abstain \<Rightarrow> ''abstain'')"

datatype voting_error = VotingStd std_error | DurationUnitsConflict | InvalidMinVotingPeriod

definition validate_voting_period ::
  "duration option \<Rightarrow> duration \<Rightarrow> (duration option \<times> duration, voting_error) result" where
  "validate_voting_period mn mx =
     and_then
       (transpose_opt (\<lambda>m.
          case (m, mx) of
            (Time a, Time b) \<Rightarrow> if a \<le> b then Ok m else Err InvalidMinVotingPeriod
          | (Height a, Height b) \<Rightarrow> if a \<le> b then Ok m else Err InvalidMinVotingPeriod
          | _ \<Rightarrow> Err DurationUnitsConflict) mn)
       (\<lambda>mn'. Ok (mn', mx))"

section \<open>Statuses (status.rs)\<close>

datatype status =
    Open | Rejected | Passed | Executed | Closed | ExecutionFailed
  | VetoTimelock expiration | Vetoed

definition status_to_string :: "'x cw_env_scheme \<Rightarrow> status \<Rightarrow> string" where
  "status_to_string cw s =
     (case s of
        Open \<Rightarrow> ''open''
      | Rejected \<Rightarrow> ''rejected''
      | Passed \<Rightarrow> ''passed''
      | Executed \<Rightarrow> ''executed''
      | Closed \<Rightarrow> ''closed''
      | ExecutionFailed \<Rightarrow> ''execution_failed''
      | VetoTimelock e \<Rightarrow> ''veto_timelock_until_'' @ expiration_debug cw e
      | Vetoed \<Rightarrow> ''vetoed'')"

section \<open>Ballots (proposal.rs)\<close>

definition DEFAULT_LIMIT :: u64 where
  "DEFAULT_LIMIT = 30"

definition MAX_PROPOSAL_SIZE :: nat where
  "MAX_PROPOSAL_SIZE = 30000"

record 'v ballot =
  power :: nat
  individual_power :: nat
  ballot_vote :: 'v
  rationale :: "string option"

type_synonym 'v ballots = "u64 \<times> addr \<rightharpoonup> 'v ballot"

record 'm single_choice_propose_msg =
  pm_title :: string
  pm_description :: string
  pm_msgs :: "'m list"
  pm_proposer :: "string option"
  pm_vote :: "single_choice_auto_vote option"

section \<open>Vetoes (veto.rs)\<close>

datatype veto_error =
    VetoStd std_error
  | InvalidProposalStatus string
  | NoEarlyExecute
  | NoVetoConfiguration
  | NoVetoBeforePassed
  | Timelocked
  | TimelockExpired
  | TimelockDurationUnitMismatch
  | VetoUnauthorized

record veto_config =
  timelock_duration :: duration
  vetoer :: string
  early_execute :: bool
  veto_before_passed :: bool

definition veto_validate ::
  "'x cw_env_scheme \<Rightarrow> veto_config \<Rightarrow> duration \<Rightarrow> (unit, veto_error) result" where
  "veto_validate cw self max_period =
     and_then (map_err VetoStd (addr_validate cw (vetoer self))) (\<lambda>_.
       case (timelock_duration self, max_period) of
         (Time _, Time _) \<Rightarrow> Ok ()
       | (Height _, Height _) \<Rightarrow> Ok ()
       | _ \<Rightarrow> Err TimelockDurationUnitMismatch)"

definition check_early_execute_enabled :: "veto_config \<Rightarrow> (unit, veto_error) result" where
  "check_early_execute_enabled self = (if early_execute self then Ok () else Err NoEarlyExecute)"

definition check_is_vetoer :: "veto_config \<Rightarrow> message_info \<Rightarrow> (unit, veto_error) result" where
  "check_is_vetoer self info = (if vetoer self = sender info then Ok () else Err VetoUnauthorized)"

definition check_veto_before_passed_enabled :: "veto_config \<Rightarrow> (unit, veto_error) result" where
  "check_veto_before_passed_enabled self =
     (if veto_before_passed self then Ok () else Err NoVetoBeforePassed)"

section \<open>Reply identifiers (reply.rs)\<close>

definition FAILED_PROPOSAL_EXECUTION_MASK :: u64 where
  "FAILED_PROPOSAL_EXECUTION_MASK = 0"

definition FAILED_PROPOSAL_HOOK_MASK :: u64 where
  "FAILED_PROPOSAL_HOOK_MASK = 1"

definition FAILED_VOTE_HOOK_MASK :: u64 where
  "FAILED_VOTE_HOOK_MASK = 2"

definition PRE_PROPOSE_MODULE_INSTANTIATION_ID :: u64 where
  "PRE_PROPOSE_MODULE_INSTANTIATION_ID = 3"

definition FAILED_PRE_PROPOSE_MODULE_HOOK_ID :: u64 where
  "FAILED_PRE_PROPOSE_MODULE_HOOK_ID = 4"

definition BITS_RESERVED_FOR_REPLY_TYPE :: nat where
  "BITS_RESERVED_FOR_REPLY_TYPE = 3"

definition REPLY_TYPE_MASK :: u64 where
  "REPLY_TYPE_MASK = push_bit BITS_RESERVED_FOR_REPLY_TYPE 1 - 1"

datatype tagged_reply_id =
    FailedProposalExecution u64
  | FailedProposalHook u64
  | FailedVoteHook u64
  | FailedPreProposeModuleHook
  | PreProposeModuleInstantiation

datatype tag_error = UnknownReplyId u64

definition tagged_reply_id_new :: "u64 \<Rightarrow> (tagged_reply_id, tag_error) result" where
  "tagged_reply_id_new i =
     (let reply_type = i AND REPLY_TYPE_MASK;
          id_after_shift = drop_bit BITS_RESERVED_FOR_REPLY_TYPE i
      in if reply_type = FAILED_PROPOSAL_EXECUTION_MASK then Ok (FailedProposalExecution id_after_shift)
         else if reply_type = FAILED_PROPOSAL_HOOK_MASK then Ok (FailedProposalHook id_after_shift)
         else if reply_type = FAILED_VOTE_HOOK_MASK then Ok (FailedVoteHook id_after_shift)
         else if reply_type = PRE_PROPOSE_MODULE_INSTANTIATION_ID then Ok PreProposeModuleInstantiation
         else if reply_type = FAILED_PRE_PROPOSE_MODULE_HOOK_ID then Ok FailedPreProposeModuleHook
         else Err (UnknownReplyId i))"

definition mask_proposal_execution_proposal_id :: "u64 \<Rightarrow> u64" where
  "mask_proposal_execution_proposal_id proposal_id =
     FAILED_PROPOSAL_EXECUTION_MASK OR push_bit BITS_RESERVED_FOR_REPLY_TYPE proposal_id"

definition mask_proposal_hook_index :: "u64 \<Rightarrow> u64" where
  "mask_proposal_hook_index index =
     FAILED_PROPOSAL_HOOK_MASK OR push_bit BITS_RESERVED_FOR_REPLY_TYPE index"

definition mask_vote_hook_index :: "u64 \<Rightarrow> u64" where
  "mask_vote_hook_index index =
     FAILED_VOTE_HOOK_MASK OR push_bit BITS_RESERVED_FOR_REPLY_TYPE index"

definition pre_propose_module_instantiation_id :: u64 where
  "pre_propose_module_instantiation_id = PRE_PROPOSE_MODULE_INSTANTIATION_ID"

definition failed_pre_propose_module_hook_id :: u64 where
  "failed_pre_propose_module_hook_id = FAILED_PRE_PROPOSE_MODULE_HOOK_ID"

section \<open>Creation policies (pre_propose.rs)\<close>

datatype pre_propose_info = AnyoneMayPropose | ModuleMayPropose module_instantiate_info

datatype proposal_creation_policy = Anyone | Module addr

definition is_permitted :: "proposal_creation_policy \<Rightarrow> addr \<Rightarrow> bool" where
  "is_permitted self creator = (case self of Anyone \<Rightarrow> True | Module a \<Rightarrow> creator = a)"

definition into_initial_policy_and_messages ::
  "pre_propose_info \<Rightarrow> addr \<Rightarrow> proposal_creation_policy \<times> 'p wasm_msg sub_msg list" where
  "into_initial_policy_and_messages self dao =
     (case self of
        AnyoneMayPropose \<Rightarrow> (Anyone, [])
      | ModuleMayPropose info \<Rightarrow>
          (Anyone, [reply_on_success (into_wasm_msg info dao) pre_propose_module_instantiation_id]))"

datatype pre_propose_submission_policy =
    SubmitAnyone "addr list"
  | SubmitSpecific bool "addr list" "addr list"

datatype pre_propose_submission_policy_error =
    NoOneAllowed | DenylistAllowlistOverlap | SubmissionUnauthorized | AnyoneInvalidUpdateFields

definition submission_policy_validate ::
  "pre_propose_submission_policy \<Rightarrow> (unit, pre_propose_submission_policy_error) result" where
  "submission_policy_validate self =
     (case self of
        SubmitSpecific dao_members allowlist denylist \<Rightarrow>
          if list_ex (\<lambda>a. list_ex (\<lambda>b. a = b) allowlist) denylist then Err DenylistAllowlistOverlap
          else if \<not> dao_members \<and> allowlist = [] then Err NoOneAllowed
          else Ok ()
      | SubmitAnyone _ \<Rightarrow> Ok ())"

section \<open>Durations (duration.rs)\<close>

datatype unstaking_duration_error = InvalidUnstakingDuration

definition validate_duration :: "duration option \<Rightarrow> (unit, unstaking_duration_error) result" where
  "validate_duration d =
     (case d of
        None \<Rightarrow> Ok ()
      | Some (Height h) \<Rightarrow> if h = 0 then Err InvalidUnstakingDuration else Ok ()
      | Some (Time t) \<Rightarrow> if t = 0 then Err InvalidUnstakingDuration else Ok ())"

section \<open>Voting power (voting.rs, delegation.rs)\<close>

text \<open>The \<open>Delegations\<close> and \<open>UnvotedDelegatedVotingPower\<close> responses.\<close>

record delegation_response =
  delegate :: addr
  percent :: decimal
  active :: bool
  expiration_height :: "u64 option"

record unvoted_delegated_voting_power_response =
  udvp_total :: nat
  udvp_effective :: nat

definition udvp_default :: unvoted_delegated_voting_power_response where
  "udvp_default = \<lparr>udvp_total = 0, udvp_effective = 0\<rparr>"

text \<open>
  The querier: what the DAO core, its voting module and a delegation module answer. The first
  argument of each query is the contract asked.
\<close>

record dao_querier = cw_env +
  query_voting_module :: "addr \<Rightarrow> (addr, std_error) result"
  query_is_active :: "addr \<Rightarrow> (bool, std_error) result"
  query_voting_power :: "addr \<Rightarrow> string \<Rightarrow> u64 option \<Rightarrow> (nat, std_error) result"
  query_total_power :: "addr \<Rightarrow> u64 option \<Rightarrow> (nat, std_error) result"
  query_delegations :: "addr \<Rightarrow> string \<Rightarrow> u64 option \<Rightarrow> (delegation_response list, std_error) result"
  query_udvp :: "addr \<Rightarrow> string \<Rightarrow> string \<Rightarrow> u64 \<Rightarrow> u64
     \<Rightarrow> (unvoted_delegated_voting_power_response, std_error) result"
  query_udvp_reduction :: "addr \<Rightarrow> string \<Rightarrow> u64 \<Rightarrow> u64 \<Rightarrow> string \<Rightarrow> nat \<Rightarrow> (nat, std_error) result"

definition get_voting_power ::
  "'x dao_querier_scheme \<Rightarrow> addr \<Rightarrow> addr \<Rightarrow> u64 option \<Rightarrow> (nat, std_error) result" where
  "get_voting_power deps who dao h = query_voting_power deps dao who h"

definition get_total_power ::
  "'x dao_querier_scheme \<Rightarrow> addr \<Rightarrow> u64 option \<Rightarrow> (nat, std_error) result" where
  "get_total_power deps dao h = query_total_power deps dao h"

record voting_power_with_delegation =
  vp_individual :: nat
  vp_total :: nat

definition get_voting_power_with_delegation ::
  "'x dao_querier_scheme \<Rightarrow> addr \<Rightarrow> addr option \<Rightarrow> addr \<Rightarrow> addr \<Rightarrow> u64 \<Rightarrow> u64
     \<Rightarrow> (voting_power_with_delegation, std_error) result" where
  "get_voting_power_with_delegation deps proposal_module delegation_module dao who proposal_id
       proposal_height =
     and_then (get_voting_power deps who dao (Some proposal_height)) (\<lambda>individual.
     and_then (unwrap_or
        (case delegation_module of
           None \<Rightarrow> Ok udvp_default
         | Some dm \<Rightarrow> query_udvp deps dm who proposal_module proposal_id proposal_height)
        udvp_default) (\<lambda>resp.
     and_then (checked_add128 individual (udvp_effective resp)) (\<lambda>total.
       Ok \<lparr>vp_individual = individual, vp_total = total\<rparr>)))"

section \<open>Arithmetic of the thresholds\<close>

text \<open>
  Within the range of \<open>Uint128\<close> the comparison never panics, and it compares against the
  product of the total and the percentage, rounded down to nine decimal places.
\<close>

lemma ratio256_bound:
  assumes "u128 t" and "u128 a"
  shows "t * PRECISION_FACTOR * a div 10 ^ decimal_places < 2 ^ 256"
proof -
  have "t * PRECISION_FACTOR * a div 10 ^ decimal_places \<le> (t * a * 10 ^ 9) div 10 ^ 9"
    by (simp add: PRECISION_FACTOR_def decimal_places_def div_le_mono2 mult.commute mult.left_commute)
  also have "\<dots> = t * a" by simp
  also have "\<dots> < 2 ^ 128 * 2 ^ 128"
    using assms unfolding u128_def by (intro mult_strict_mono') auto
  also have "\<dots> = (2::nat) ^ 256" by simp
  finally show ?thesis .
qed

lemma compare_vote_count_total:
  assumes "u128 t" and "u128 (atomics p)"
  shows "compare_vote_count v Geq t p =
      Ok (v * PRECISION_FACTOR \<ge> t * PRECISION_FACTOR * atomics p div 10 ^ decimal_places)"
    and "compare_vote_count v Greater t p =
      Ok (v * PRECISION_FACTOR > t * PRECISION_FACTOR * atomics p div 10 ^ decimal_places)"
  using ratio256_bound [OF assms]
  by (simp_all add: compare_vote_count_def multiply_ratio256_def Let_def)

text \<open>
  Specification of the two comparisons over the natural numbers: \<open>passes\<close> holds when the
  weight reaches the percentage of the total up to an error below \<open>10 ^ -9\<close>, \<open>fails\<close>
  when the no votes strictly exceed the complement. Validated percentages are at most one.
\<close>

definition passes :: "nat \<Rightarrow> nat \<Rightarrow> percentage_threshold \<Rightarrow> bool" where
  "passes w t p \<longleftrightarrow> 0 < t \<and>
     (case p of
        Majority \<Rightarrow> t < 2 * w
      | Percent d \<Rightarrow> t * atomics d < w * 10 ^ 18 + 10 ^ 9)"

definition fails :: "nat \<Rightarrow> nat \<Rightarrow> percentage_threshold \<Rightarrow> bool" where
  "fails n t p \<longleftrightarrow> t = 0 \<or>
     (case p of
        Majority \<Rightarrow> t \<le> 2 * n
      | Percent d \<Rightarrow> t * (10 ^ 18 - atomics d) < n * 10 ^ 18)"

definition valid_percentage :: "percentage_threshold \<Rightarrow> bool" where
  "valid_percentage p \<longleftrightarrow> (case p of Majority \<Rightarrow> True | Percent d \<Rightarrow> atomics d \<le> 10 ^ 18)"

definition nine_decimals :: "percentage_threshold \<Rightarrow> bool" where
  "nine_decimals p \<longleftrightarrow> (case p of Majority \<Rightarrow> True | Percent d \<Rightarrow> 10 ^ 9 dvd atomics d)"

lemma ge_floor_iff:
  fixes x y d :: nat assumes "0 < d"
  shows "y div d \<le> x \<longleftrightarrow> y < (x + 1) * d"
  using assms by (metis Suc_eq_plus1 less_mult_imp_div_less div_less_iff_less_mult less_Suc_eq_le)

lemma gt_floor_iff:
  fixes x y d :: nat assumes "0 < d"
  shows "y div d < x \<longleftrightarrow> y < x * d"
  using assms by (rule div_less_iff_less_mult)

lemma compare_vote_count_Geq_iff:
  assumes "u128 t" and "u128 (atomics p)"
  shows "compare_vote_count v Geq t p = Ok (t * atomics p < v * 10 ^ 18 + 10 ^ 9)"
proof -
  have "t * 10 ^ 9 * atomics p div 10 ^ 18 \<le> v * 10 ^ 9 \<longleftrightarrow>
      t * 10 ^ 9 * atomics p < (v * 10 ^ 9 + 1) * 10 ^ 18"
    by (rule ge_floor_iff) simp
  also have "\<dots> \<longleftrightarrow> t * atomics p * 10 ^ 9 < (v * 10 ^ 18 + 10 ^ 9) * 10 ^ 9"
    by (simp add: algebra_simps)
  also have "\<dots> \<longleftrightarrow> t * atomics p < v * 10 ^ 18 + 10 ^ 9"
    by (subst mult_less_cancel2) simp
  finally show ?thesis
    using compare_vote_count_total(1) [OF assms, of v]
    by (simp add: PRECISION_FACTOR_def decimal_places_def)
qed

lemma compare_vote_count_Greater_iff:
  assumes "u128 t" and "u128 (atomics p)"
  shows "compare_vote_count v Greater t p = Ok (t * atomics p < v * 10 ^ 18)"
proof -
  have "t * 10 ^ 9 * atomics p div 10 ^ 18 < v * 10 ^ 9 \<longleftrightarrow>
      t * 10 ^ 9 * atomics p < v * 10 ^ 9 * 10 ^ 18"
    by (rule gt_floor_iff) simp
  also have "\<dots> \<longleftrightarrow> t * atomics p * 10 ^ 9 < (v * 10 ^ 18) * 10 ^ 9"
    by (simp add: algebra_simps)
  also have "\<dots> \<longleftrightarrow> t * atomics p < v * 10 ^ 18"
    by (subst mult_less_cancel2) simp
  finally show ?thesis
    using compare_vote_count_total(2) [OF assms, of v]
    by (simp add: PRECISION_FACTOR_def decimal_places_def)
qed

lemma does_vote_count_pass_eq:
  "u128 t \<Longrightarrow> valid_percentage p \<Longrightarrow> does_vote_count_pass w t p = Ok (passes w t p)"
  by (auto simp: does_vote_count_pass_def passes_def valid_percentage_def
      compare_vote_count_Geq_iff u128_def mult.commute split: percentage_threshold.splits)

lemma does_vote_count_fail_eq:
  "u128 t \<Longrightarrow> valid_percentage p \<Longrightarrow> does_vote_count_fail w t p = Ok (fails w t p)"
  by (auto simp: does_vote_count_fail_def fails_def valid_percentage_def
      compare_vote_count_Greater_iff decimal_sub_def decimal_one_def decimal_places_def
      u128_def mult.commute split: percentage_threshold.splits)

lemma passes_mono:
  assumes "passes w t p" and "w \<le> w'" and "t' \<le> t" and "0 < t'"
  shows "passes w' t' p"
proof (cases p)
  case Majority
  then show ?thesis using assms by (simp add: passes_def)
next
  case (Percent d)
  have "t' * atomics d \<le> t * atomics d" using assms(3) by simp
  also have "\<dots> < w * 10 ^ 18 + 10 ^ 9" using assms(1) Percent by (simp add: passes_def)
  also have "\<dots> \<le> w' * 10 ^ 18 + 10 ^ 9" using assms(2) by simp
  finally show ?thesis using assms(4) Percent by (simp add: passes_def)
qed

lemma fails_mono:
  assumes "fails n t p" and "n \<le> n'" and "t' \<le> t"
  shows "fails n' t' p"
proof (cases p)
  case Majority
  then show ?thesis using assms by (auto simp: fails_def)
next
  case (Percent d)
  show ?thesis
  proof (cases "t' = 0")
    case False
    then have "t * (10 ^ 18 - atomics d) < n * 10 ^ 18"
      using assms(1,3) Percent by (auto simp: fails_def)
    moreover have "t' * (10 ^ 18 - atomics d) \<le> t * (10 ^ 18 - atomics d)" using assms(3) by simp
    moreover have "n * 10 ^ 18 \<le> n' * 10 ^ 18" using assms(2) by simp
    ultimately have "t' * (10 ^ 18 - atomics d) < n' * 10 ^ 18" by linarith
    then show ?thesis using Percent by (simp add: fails_def)
  qed (simp add: fails_def)
qed

lemma passes_exact:
  assumes "nine_decimals (Percent d)"
  shows "passes w t (Percent d) \<longleftrightarrow> 0 < t \<and> t * atomics d \<le> w * 10 ^ 18"
proof -
  from assms obtain k where "atomics d = 10 ^ 9 * k"
    by (auto simp: nine_decimals_def)
  then have "t * atomics d < w * 10 ^ 18 + 10 ^ 9 \<longleftrightarrow> (t * k) * 10 ^ 9 < (w * 10 ^ 9 + 1) * 10 ^ 9"
    by (simp add: algebra_simps)
  also have "\<dots> \<longleftrightarrow> t * k < w * 10 ^ 9 + 1" by (subst mult_less_cancel2) simp
  also have "\<dots> \<longleftrightarrow> (t * k) * 10 ^ 9 \<le> (w * 10 ^ 9) * 10 ^ 9" by (subst mult_le_cancel2) auto
  finally show ?thesis using \<open>atomics d = 10 ^ 9 * k\<close> by (simp add: passes_def algebra_simps)
qed

lemma passes_fails_exclusive:
  assumes "nine_decimals p" and "valid_percentage p" and "w + n \<le> t"
  shows "\<not> (passes w t p \<and> fails n t p)"
proof (cases p)
  case Majority
  then show ?thesis using assms by (auto simp: passes_def fails_def)
next
  case (Percent d)
  show ?thesis
  proof
    assume "passes w t p \<and> fails n t p"
    then have "t * atomics d \<le> w * 10 ^ 18" and "t * (10 ^ 18 - atomics d) < n * 10 ^ 18"
      using assms(1) Percent passes_exact [of d w t] by (auto simp: fails_def passes_def)
    then have "t * atomics d + t * (10 ^ 18 - atomics d) < (w + n) * 10 ^ 18"
      by (simp add: add_mult_distrib)
    moreover have "atomics d \<le> 10 ^ 18" using assms(2) Percent by (simp add: valid_percentage_def)
    then have "t * atomics d + t * (10 ^ 18 - atomics d) = t * 10 ^ 18"
      by (simp flip: distrib_left)
    moreover have "(w + n) * 10 ^ 18 \<le> t * 10 ^ 18" using assms(3) by (rule mult_le_mono1)
    ultimately show False by linarith
  qed
qed

section \<open>Reply identifiers\<close>

text \<open>The three low bits carry the kind of the reply; the other sixty-one the index.\<close>

lemma REPLY_TYPE_MASK_mask: "REPLY_TYPE_MASK = mask 3"
  by (simp add: REPLY_TYPE_MASK_def BITS_RESERVED_FOR_REPLY_TYPE_def mask_eq_exp_minus_1)

lemma drop_push: "drop_bit 3 (push_bit 3 i) = take_bit 61 (i::u64)"
  by (rule bit_word_eqI) (auto simp: bit_simps)

lemma and_mask_push: "(k OR push_bit 3 i) AND mask 3 = take_bit 3 (k::u64)"
  by (rule bit_word_eqI) (auto simp: bit_simps)

lemma drop_or: "drop_bit 3 (k OR push_bit 3 i) = drop_bit 3 (k::u64) OR take_bit 61 i"
  by (rule bit_word_eqI) (auto simp: bit_simps)

lemmas reply_id_defs =
  tagged_reply_id_new_def REPLY_TYPE_MASK_mask and_mask_push drop_or drop_push Let_def
  BITS_RESERVED_FOR_REPLY_TYPE_def FAILED_PROPOSAL_EXECUTION_MASK_def
  FAILED_PROPOSAL_HOOK_MASK_def FAILED_VOTE_HOOK_MASK_def
  PRE_PROPOSE_MODULE_INSTANTIATION_ID_def FAILED_PRE_PROPOSE_MODULE_HOOK_ID_def

lemma tagged_execution_id:
  "tagged_reply_id_new (mask_proposal_execution_proposal_id i) =
     Ok (FailedProposalExecution (take_bit 61 i))"
  using and_mask_push [of 0 i] by (simp add: reply_id_defs mask_proposal_execution_proposal_id_def)

lemma tagged_proposal_hook_index:
  "tagged_reply_id_new (mask_proposal_hook_index i) = Ok (FailedProposalHook (take_bit 61 i))"
  by (simp add: reply_id_defs mask_proposal_hook_index_def)

lemma tagged_vote_hook_index:
  "tagged_reply_id_new (mask_vote_hook_index i) = Ok (FailedVoteHook (take_bit 61 i))"
  by (simp add: reply_id_defs mask_vote_hook_index_def)

lemma tagged_module_ids:
  "tagged_reply_id_new pre_propose_module_instantiation_id = Ok PreProposeModuleInstantiation"
  "tagged_reply_id_new failed_pre_propose_module_hook_id = Ok FailedPreProposeModuleHook"
  by (simp_all add: reply_id_defs pre_propose_module_instantiation_id_def
      failed_pre_propose_module_hook_id_def mask_eq_exp_minus_1)

lemma take_bit_61_small: "unat i < 2 ^ 61 \<Longrightarrow> take_bit 61 (i::u64) = i"
  by (simp add: word_unat_eq_iff unsigned_take_bit_eq take_bit_nat_eq_self_iff)

section \<open>What the comparisons guarantee\<close>

text \<open>C40: for a percentage of at most nine decimal places the check that a vote passes compares
  exactly, without overflow: it succeeds when there are options and the votes are at least the
  percentage of the options, \<open>votes \<ge> options * percentage\<close>.\<close>

theorem vote_count_pass_exact:
  assumes "u128 options" and "nine_decimals (Percent d)" and "atomics d \<le> 10 ^ 18"
  shows "does_vote_count_pass w options (Percent d) =
    Ok (0 < options \<and> options * atomics d \<le> w * 10 ^ 18)"
  using assms passes_exact [of d w options]
  by (simp add: does_vote_count_pass_eq valid_percentage_def)

theorem vote_count_pass_exact_witness:
  "does_vote_count_pass 50 100 (Percent (decimal_percent 50)) =
    Ok (0 < (100 :: nat) \<and> 100 * atomics (decimal_percent 50) \<le> 50 * 10 ^ 18)"
  by (rule vote_count_pass_exact)
     (simp_all add: u128_def nine_decimals_def decimal_percent_def decimal_places_def)

text \<open>The two checks never contradict each other for percentages of at most nine decimal
  places: when yes and no votes together do not exceed the options, a vote count cannot both pass
  and fail.\<close>

theorem vote_count_never_both:
  assumes "u128 options" and "nine_decimals p" and "valid_percentage p" and "w + n \<le> options"
  shows "\<not> (does_vote_count_pass w options p = (Ok True :: (bool, std_error) result) \<and>
    does_vote_count_fail n options p = (Ok True :: (bool, std_error) result))"
  using passes_fails_exclusive [OF assms(2-4)] assms(1,3)
  by (simp add: does_vote_count_pass_eq does_vote_count_fail_eq)

theorem vote_count_never_both_witness:
  "\<not> (does_vote_count_pass 50 100 Majority = (Ok True :: (bool, std_error) result) \<and>
      does_vote_count_fail 50 100 Majority = (Ok True :: (bool, std_error) result))"
  by (rule vote_count_never_both) (simp_all add: u128_def nine_decimals_def valid_percentage_def)

text \<open>with more than nine decimal places they can contradict each other. With a threshold of
  0.333333333333333334 and three options, one yes vote passes while the two no votes fail the
  proposal: the product with the percentage is rounded down to nine decimal places, although the
  comment in \<open>voting.rs\<close> rules out that both are reported.\<close>

theorem vote_count_both_beyond_nine_decimals:
  "does_vote_count_pass 1 3 (Percent (Decimal 333333333333333334)) = (Ok True :: (bool, std_error) result) \<and>
   does_vote_count_fail 2 3 (Percent (Decimal 333333333333333334)) = (Ok True :: (bool, std_error) result)"
  by (simp add: does_vote_count_pass_def does_vote_count_fail_def compare_vote_count_def
      multiply_ratio256_def PRECISION_FACTOR_def decimal_places_def decimal_sub_def decimal_one_def)

text \<open>reply identifiers round-trip. Masking a proposal identifier, a proposal hook index or a
  vote hook index below \<open>2 ^ 61\<close> and decoding the result gives back the kind and the number, and
  the two fixed identifiers of the pre-propose module decode to themselves.\<close>

theorem reply_ids_round_trip:
  assumes "unat i < 2 ^ 61"
  shows "tagged_reply_id_new (mask_proposal_execution_proposal_id i) = Ok (FailedProposalExecution i) \<and>
    tagged_reply_id_new (mask_proposal_hook_index i) = Ok (FailedProposalHook i) \<and>
    tagged_reply_id_new (mask_vote_hook_index i) = Ok (FailedVoteHook i) \<and>
    tagged_reply_id_new pre_propose_module_instantiation_id = Ok PreProposeModuleInstantiation \<and>
    tagged_reply_id_new failed_pre_propose_module_hook_id = Ok FailedPreProposeModuleHook"
  using take_bit_61_small [OF assms]
  by (simp add: tagged_execution_id tagged_proposal_hook_index tagged_vote_hook_index tagged_module_ids)

theorem reply_ids_round_trip_witness:
  "tagged_reply_id_new (mask_vote_hook_index 5) = Ok (FailedVoteHook 5)"
  using reply_ids_round_trip [of 5] by simp

end
