(* ===== verification/Dao_Hooks.thy ===== *)
theory Dao_Hooks
  imports Cw_Hooks Dao_Voting
begin

text \<open>
  The hook messages of \<open>packages/dao-hooks\<close>: what a proposal module sends to its hook
  receivers, to its pre-propose module and to the DAO. Proposal and vote hooks reply on error
  with an identifier that carries the receiver's index in the registry, so that the module can
  drop a receiver that fails.
\<close>

datatype proposal_hook_msg =
    NewProposal u64 string
  | ProposalStatusChanged u64 string string

datatype vote_hook_msg =
    NewVote (nv_proposal_id: u64) (nv_voter: string) (nv_vote: string) (nv_power: nat)
      (nv_individual_power: nat) (nv_height: u64) (nv_is_first_vote: bool)

datatype stake_changed_hook_msg = Stake addr nat | Unstake addr nat

datatype nft_stake_changed_hook_msg = NftStake addr string | NftUnstake addr "string list"

text \<open>The payloads of the messages a proposal module sends.\<close>

datatype 'm module_payload =
    ExecuteProposalHook "'m list"
  | ProposalHook proposal_hook_msg
  | VoteHook vote_hook_msg
  | ProposalCompletedHook u64 status

type_synonym 'm module_sub_msg = "'m module_payload wasm_msg sub_msg"

text \<open>
  The closure that \<open>prepare_hooks\<close> maps over the receivers counts them: the n-th receiver
  is called with index n.
\<close>

definition indexed_hooks :: "hooks \<Rightarrow> (u64 \<Rightarrow> u64) \<Rightarrow> 'p \<Rightarrow> 'p wasm_msg sub_msg list" where
  "indexed_hooks hs mask_index msg =
     map (\<lambda>(i, a). reply_on_error (WasmExecute a msg []) (mask_index (of_nat i)))
       (enumerate 0 (hooks_or_default hs))"

definition new_proposal_hooks :: "hooks \<Rightarrow> u64 \<Rightarrow> string \<Rightarrow> 'm module_sub_msg list" where
  "new_proposal_hooks hs i proposer =
     indexed_hooks hs mask_proposal_hook_index (ProposalHook (NewProposal i proposer))"

definition proposal_status_changed_hooks ::
  "hooks \<Rightarrow> u64 \<Rightarrow> string \<Rightarrow> string \<Rightarrow> 'm module_sub_msg list" where
  "proposal_status_changed_hooks hs i old_status new_status =
     (if old_status = new_status then []
      else indexed_hooks hs mask_proposal_hook_index
             (ProposalHook (ProposalStatusChanged i old_status new_status)))"

definition proposal_completed_hooks ::
  "proposal_creation_policy \<Rightarrow> u64 \<Rightarrow> status \<Rightarrow> 'm module_sub_msg list" where
  "proposal_completed_hooks policy proposal_id new_status =
     (case policy of
        Anyone \<Rightarrow> []
      | Module a \<Rightarrow>
          [reply_on_error (WasmExecute a (ProposalCompletedHook proposal_id new_status) [])
             failed_pre_propose_module_hook_id])"

definition new_vote_hooks ::
  "hooks \<Rightarrow> u64 \<Rightarrow> string \<Rightarrow> string \<Rightarrow> nat \<Rightarrow> nat \<Rightarrow> u64 \<Rightarrow> bool \<Rightarrow> 'm module_sub_msg list" where
  "new_vote_hooks hs proposal_id voter v pow individual h is_first_vote =
     indexed_hooks hs mask_vote_hook_index
       (VoteHook (NewVote proposal_id voter v pow individual h is_first_vote))"

definition stake_hook_msgs :: "hooks \<Rightarrow> addr \<Rightarrow> nat \<Rightarrow> stake_changed_hook_msg wasm_msg sub_msg list" where
  "stake_hook_msgs hs a amount =
     map (\<lambda>h. sub_msg_new (WasmExecute h (Stake a amount) [])) (hooks_or_default hs)"

definition unstake_hook_msgs :: "hooks \<Rightarrow> addr \<Rightarrow> nat \<Rightarrow> stake_changed_hook_msg wasm_msg sub_msg list" where
  "unstake_hook_msgs hs a amount =
     map (\<lambda>h. sub_msg_new (WasmExecute h (Unstake a amount) [])) (hooks_or_default hs)"

definition stake_nft_hook_msgs ::
  "hooks \<Rightarrow> addr \<Rightarrow> string \<Rightarrow> nft_stake_changed_hook_msg wasm_msg sub_msg list" where
  "stake_nft_hook_msgs hs a token_id =
     map (\<lambda>h. sub_msg_new (WasmExecute h (NftStake a token_id) [])) (hooks_or_default hs)"

definition unstake_nft_hook_msgs ::
  "hooks \<Rightarrow> addr \<Rightarrow> string list \<Rightarrow> nft_stake_changed_hook_msg wasm_msg sub_msg list" where
  "unstake_nft_hook_msgs hs a token_ids =
     map (\<lambda>h. sub_msg_new (WasmExecute h (NftUnstake a token_ids) [])) (hooks_or_default hs)"

section \<open>Properties\<close>

lemma length_indexed_hooks [simp]:
  "length (indexed_hooks hs f m) = length (hooks_or_default hs)"
  by (simp add: indexed_hooks_def)

lemma nth_indexed_hooks:
  "n < length (hooks_or_default hs) \<Longrightarrow>
     indexed_hooks hs f m ! n =
       reply_on_error (WasmExecute (hooks_or_default hs ! n) m []) (f (of_nat n))"
  by (simp add: indexed_hooks_def nth_enumerate_eq)

text \<open>None of the hook messages asks the DAO to execute a proposal's messages.\<close>

definition is_dispatch :: "'m module_sub_msg \<Rightarrow> bool" where
  "is_dispatch m =
     (case msg_body m of
        WasmExecute _ (ExecuteProposalHook _) _ \<Rightarrow> True
      | _ \<Rightarrow> False)"

lemma hooks_no_dispatch [simp]:
  "filter is_dispatch (new_proposal_hooks hs i p) = []"
  "filter is_dispatch (proposal_status_changed_hooks hs i old new) = []"
  "filter is_dispatch (proposal_completed_hooks pol i s) = []"
  "filter is_dispatch (new_vote_hooks hs i a v pow ind h f) = []"
  by (auto simp: filter_empty_conv is_dispatch_def new_proposal_hooks_def
      proposal_status_changed_hooks_def proposal_completed_hooks_def new_vote_hooks_def
      indexed_hooks_def reply_on_error_def split: proposal_creation_policy.splits)

end
