(* ===== verification/Dao_Delegation.thy ===== *)
theory Dao_Delegation
  imports Dao_Voting
begin

text \<open>
  Overriding a delegate's vote (\<open>packages/dao-voting/src/delegation.rs\<close>). The function is
  generic in the type of votes and in the tally from which a delegate's power is removed, as in
  the source, where the caller passes the map of ballots and a closure.

  The locale \<open>vote_tally\<close> is the contract of such a tally; its lemmas show once, for both
  proposal modules, that the tally stays the sum of the ballots.
\<close>

section \<open>The override\<close>

definition calculate_delegated_vp :: "nat \<Rightarrow> decimal \<Rightarrow> (nat, 'e) result" where
  "calculate_delegated_vp vp pct =
     (if decimal_is_zero pct \<or> vp = 0 then Ok 0 else mul_floor vp pct)"

definition override_delegate ::
  "'x dao_querier_scheme \<Rightarrow> addr \<Rightarrow> addr \<Rightarrow> u64 \<Rightarrow> u64 \<Rightarrow> nat
     \<Rightarrow> ('v \<Rightarrow> nat \<Rightarrow> 't \<Rightarrow> ('t, std_error) result)
     \<Rightarrow> 'v ballots \<times> 't \<Rightarrow> delegation_response \<Rightarrow> ('v ballots \<times> 't, std_error) result" where
  "override_delegate deps dm proposal_module proposal_id proposal_height individual_vote_power
       rm acc d =
     (case acc of (ballots, t) \<Rightarrow>
       if \<not> active d then Ok (ballots, t)
       else case ballots (proposal_id, delegate d) of
         None \<Rightarrow> Ok (ballots, t)
       | Some delegate_ballot \<Rightarrow>
           and_then (calculate_delegated_vp individual_vote_power (percent d)) (\<lambda>delegated_vp.
           and_then (query_udvp_reduction deps dm proposal_module proposal_id proposal_height
                       (delegate d) delegated_vp) (\<lambda>reduction.
             if reduction = 0 then Ok (ballots, t)
             else
               and_then (sub128 (power delegate_ballot) reduction) (\<lambda>p.
               and_then (rm (ballot_vote delegate_ballot) reduction t) (\<lambda>t'.
                 Ok (ballots((proposal_id, delegate d) \<mapsto> delegate_ballot\<lparr>power := p\<rparr>), t'))))))"

definition handle_delegate_vote_override ::
  "'x dao_querier_scheme \<Rightarrow> addr \<Rightarrow> addr option \<Rightarrow> addr \<Rightarrow> u64 \<Rightarrow> u64 \<Rightarrow> nat
     \<Rightarrow> ('v \<Rightarrow> nat \<Rightarrow> 't \<Rightarrow> ('t, std_error) result)
     \<Rightarrow> 'v ballots \<Rightarrow> 't \<Rightarrow> ('v ballots \<times> 't, std_error) result" where
  "handle_delegate_vote_override deps delegator delegation_module proposal_module proposal_id
       proposal_height individual_vote_power rm ballots t =
     (case delegation_module of
        None \<Rightarrow> Ok (ballots, t)
      | Some dm \<Rightarrow>
          and_then (query_delegations deps dm delegator (Some proposal_height)) (\<lambda>delegations.
            try_fold (override_delegate deps dm proposal_module proposal_id proposal_height
                        individual_vote_power rm) (ballots, t) delegations))"

section \<open>Sums over ballots\<close>

definition contribution :: "('v ballot \<Rightarrow> nat) \<Rightarrow> 'v ballots \<Rightarrow> u64 \<Rightarrow> 'v \<Rightarrow> addr \<Rightarrow> nat" where
  "contribution f bs pid v a =
     (case bs (pid, a) of None \<Rightarrow> 0 | Some b \<Rightarrow> if ballot_vote b = v then f b else 0)"

definition ballot_sum :: "('v ballot \<Rightarrow> nat) \<Rightarrow> 'v ballots \<Rightarrow> u64 \<Rightarrow> 'v \<Rightarrow> nat" where
  "ballot_sum f bs pid v = (\<Sum>a | (pid, a) \<in> dom bs. contribution f bs pid v a)"

lemma finite_voters: "finite (dom bs) \<Longrightarrow> finite {a. (pid, a) \<in> dom bs}"
  by (rule finite_subset [where B = "snd ` dom bs"]) force+

lemma ballot_sum_split:
  assumes "finite (dom bs)"
  shows "ballot_sum f bs pid v =
    contribution f bs pid v a + (\<Sum>x | (pid, x) \<in> dom bs \<and> x \<noteq> a. contribution f bs pid v x)"
proof (cases "(pid, a) \<in> dom bs")
  case True
  have "{x. (pid, x) \<in> dom bs} = insert a {x. (pid, x) \<in> dom bs \<and> x \<noteq> a}" using True by auto
  with finite_voters [OF assms, of pid] show ?thesis
    by (simp add: ballot_sum_def)
next
  case False
  then have "{x. (pid, x) \<in> dom bs} = {x. (pid, x) \<in> dom bs \<and> x \<noteq> a}" by auto
  moreover have "contribution f bs pid v a = 0"
    using False by (simp add: contribution_def domIff)
  ultimately show ?thesis by (simp add: ballot_sum_def)
qed

lemma ballot_sum_mono:
  assumes "\<And>a b. bs (pid, a) = Some b \<Longrightarrow> f b \<le> g b"
  shows "ballot_sum f bs pid v \<le> ballot_sum g bs pid v"
  unfolding ballot_sum_def using assms
  by (intro sum_mono) (auto simp: contribution_def split: option.splits)

lemma contribution_le: "finite (dom bs) \<Longrightarrow> contribution f bs pid v a \<le> ballot_sum f bs pid v"
  using ballot_sum_split [of bs f pid v a] by simp

lemma ballot_sum_upd:
  assumes "finite (dom bs)"
  shows "ballot_sum f (bs((pid, a) \<mapsto> b)) pid v + contribution f bs pid v a =
    ballot_sum f bs pid v + (if ballot_vote b = v then f b else 0)"
proof -
  let ?bs = "bs((pid, a) \<mapsto> b)"
  have "{x. (pid, x) \<in> dom ?bs \<and> x \<noteq> a} = {x. (pid, x) \<in> dom bs \<and> x \<noteq> a}" by auto
  then have "(\<Sum>x | (pid, x) \<in> dom ?bs \<and> x \<noteq> a. contribution f ?bs pid v x) =
      (\<Sum>x | (pid, x) \<in> dom bs \<and> x \<noteq> a. contribution f bs pid v x)"
    by (intro sum.cong) (auto simp: contribution_def)
  moreover have "contribution f ?bs pid v a = (if ballot_vote b = v then f b else 0)"
    by (simp add: contribution_def)
  moreover have "finite (dom ?bs)" using assms by simp
  ultimately show ?thesis
    using ballot_sum_split [OF assms, of f pid v a] ballot_sum_split [of ?bs f pid v a] by simp
qed

lemma ballot_sum_other:
  assumes "pid \<noteq> q"
  shows "ballot_sum f (bs((q, a) \<mapsto> b)) pid v = ballot_sum f bs pid v"
  using assms unfolding ballot_sum_def
  by (intro sum.cong) (auto simp: contribution_def)

lemma ballot_sum_empty: "\<forall>a. (pid, a) \<notin> dom bs \<Longrightarrow> ballot_sum f bs pid v = 0"
  by (simp add: ballot_sum_def)

lemma contribution_le_sum: "finite (dom bs) \<Longrightarrow> contribution f bs pid v a \<le> ballot_sum f bs pid v"
  by (simp add: ballot_sum_split [where a = a])

section \<open>The contract of a tally\<close>

locale vote_tally =
  fixes add_vote :: "'v \<Rightarrow> nat \<Rightarrow> 't \<Rightarrow> ('t, std_error) result"
    and remove_vote :: "'v \<Rightarrow> nat \<Rightarrow> 't \<Rightarrow> ('t, std_error) result"
    and get :: "'v \<Rightarrow> 't \<Rightarrow> nat"
  assumes get_add: "add_vote v n t = Ok t' \<Longrightarrow> get w t' = (if w = v then get w t + n else get w t)"
    and remove_le: "remove_vote v n t = Ok t' \<Longrightarrow> n \<le> get v t"
    and get_remove: "remove_vote v n t = Ok t' \<Longrightarrow> get w t' = (if w = v then get w t - n else get w t)"
begin

text \<open>
  \<open>tallies t pending bs pid\<close>: for every option, the tally together with the power still to
  be added is the power of the ballots for it.
\<close>

definition tallies :: "('v ballot \<Rightarrow> nat) \<Rightarrow> 't \<Rightarrow> ('v \<Rightarrow> nat) \<Rightarrow> 'v ballots \<Rightarrow> u64 \<Rightarrow> bool" where
  "tallies f t pending bs pid \<longleftrightarrow> (\<forall>v. get v t + pending v = ballot_sum f bs pid v)"

lemma tallies_add:
  assumes "add_vote v n t = Ok t'" and "tallies f t (\<lambda>w. if w = v then n else 0) bs pid"
  shows "tallies f t' (\<lambda>_. 0) bs pid"
  unfolding tallies_def
proof
  fix w
  from assms(2) have "get w t + (if w = v then n else 0) = ballot_sum f bs pid w"
    by (simp add: tallies_def)
  with get_add [OF assms(1), of w] show "get w t' + 0 = ballot_sum f bs pid w"
    by (simp split: if_splits)
qed

text \<open>A first ballot: its power is pending until it is added.\<close>

lemma tallies_new_ballot:
  assumes "finite (dom bs)" and "bs (pid, a) = None" and "tallies f t (\<lambda>_. 0) bs pid"
  shows "tallies f t (\<lambda>w. if w = ballot_vote b then f b else 0) (bs((pid, a) \<mapsto> b)) pid"
  unfolding tallies_def
proof
  fix w
  have "contribution f bs pid w a = 0" using assms(2) by (simp add: contribution_def)
  with ballot_sum_upd [OF assms(1), of f pid a b w] assms(3)
  show "get w t + (if w = ballot_vote b then f b else 0) = ballot_sum f (bs((pid, a) \<mapsto> b)) pid w"
    by (auto simp: tallies_def)
qed

text \<open>A changed ballot: the old one is removed from the tally, the new one is pending.\<close>

lemma tallies_change_ballot:
  assumes "finite (dom bs)" and "bs (pid, a) = Some old" and "tallies f t (\<lambda>_. 0) bs pid"
    and "remove_vote (ballot_vote old) (f old) t = Ok t'"
  shows "tallies f t' (\<lambda>w. if w = ballot_vote b then f b else 0) (bs((pid, a) \<mapsto> b)) pid"
  unfolding tallies_def
proof
  fix w
  have "contribution f bs pid w a = (if ballot_vote old = w then f old else 0)"
    using assms(2) by (simp add: contribution_def)
  with ballot_sum_upd [OF assms(1), of f pid a b w] assms(3)
    get_remove [OF assms(4), of w] remove_le [OF assms(4)]
  show "get w t' + (if w = ballot_vote b then f b else 0) = ballot_sum f (bs((pid, a) \<mapsto> b)) pid w"
    by (auto simp: tallies_def split: if_splits)
qed

text \<open>The override takes the same power from a delegate's ballot and from the tally.\<close>

lemma override_delegate_cases:
  assumes "override_delegate deps dm pm pid h ind remove_vote (bs, t) d = Ok (bs', t')"
  obtains (same) "bs' = bs" "t' = t"
  | (reduced) b r where "bs (pid, delegate d) = Some b" "r \<le> power b"
      "remove_vote (ballot_vote b) r t = Ok t'"
      "bs' = bs((pid, delegate d) \<mapsto> b\<lparr>power := power b - r\<rparr>)"
proof (cases "active d")
  case False
  with assms same show ?thesis by (simp add: override_delegate_def)
next
  case True
  show ?thesis
  proof (cases "bs (pid, delegate d)")
    case None
    with True assms same show ?thesis by (simp add: override_delegate_def)
  next
    case (Some b)
    from True Some assms obtain r where
      r: "(if r = 0 then Ok (bs, t)
           else and_then (sub128 (power b) r) (\<lambda>p.
             and_then (remove_vote (ballot_vote b) r t) (\<lambda>u.
               Ok (bs((pid, delegate d) \<mapsto> b\<lparr>power := p\<rparr>), u)))) = Ok (bs', t')"
      by (auto simp: override_delegate_def result_ok)
    show ?thesis
    proof (cases "r = 0")
      case True
      with r same show ?thesis by simp
    next
      case False
      with r Some reduced show ?thesis by (auto simp: result_ok)
    qed
  qed
qed

lemma override_delegate_tallies:
  assumes "override_delegate deps dm pm pid h ind remove_vote (bs, t) d = Ok (bs', t')"
    and "finite (dom bs)" and "tallies power t pending bs pid"
  shows "finite (dom bs') \<and> tallies power t' pending bs' pid"
  using assms(1)
proof (cases rule: override_delegate_cases)
  case same
  with assms show ?thesis by simp
next
  case (reduced b r)
  have "tallies power t' pending bs' pid"
    unfolding tallies_def
  proof
    fix w
    have "contribution power bs pid w (delegate d) = (if ballot_vote b = w then power b else 0)"
      using reduced(1) by (simp add: contribution_def)
    moreover have "power b \<le> ballot_sum power bs pid (ballot_vote b)"
      using contribution_le_sum [OF assms(2), of power pid "ballot_vote b" "delegate d"] reduced(1)
      by (simp add: contribution_def)
    ultimately show "get w t' + pending w = ballot_sum power bs' pid w"
      using ballot_sum_upd [OF assms(2), of power pid "delegate d" "b\<lparr>power := power b - r\<rparr>" w]
        assms(3) get_remove [OF reduced(3), of w] remove_le [OF reduced(3)] reduced(2,4)
      by (auto simp: tallies_def split: if_splits)
  qed
  with assms(2) reduced(4) show ?thesis by simp
qed

text \<open>What the override leaves alone: who voted, for what, and with what power of their own.\<close>

definition same_individual :: "'v ballots \<Rightarrow> 'v ballots \<Rightarrow> bool" where
  "same_individual bs bs' \<longleftrightarrow>
     (\<forall>k. map_option (\<lambda>b. (ballot_vote b, individual_power b)) (bs' k) =
          map_option (\<lambda>b. (ballot_vote b, individual_power b)) (bs k))"

lemma same_individual_sum:
  assumes "same_individual bs bs'"
  shows "ballot_sum individual_power bs' pid v = ballot_sum individual_power bs pid v"
proof -
  have k: "map_option (\<lambda>b. (ballot_vote b, individual_power b)) (bs' (pid, a)) =
      map_option (\<lambda>b. (ballot_vote b, individual_power b)) (bs (pid, a))" for a
    using assms by (simp add: same_individual_def)
  have "contribution individual_power bs' pid v a = contribution individual_power bs pid v a" for a
    using k [of a] by (auto simp: contribution_def split: option.splits)
  moreover have "(pid, a) \<in> dom bs' \<longleftrightarrow> (pid, a) \<in> dom bs" for a
    using k [of a] by (cases "bs (pid, a)") (auto simp: domIff)
  ultimately show ?thesis by (simp add: ballot_sum_def)
qed

lemma override_delegate_frame:
  assumes "override_delegate deps dm pm pid h ind remove_vote (bs, t) d = Ok (bs', t')"
  shows "same_individual bs bs' \<and> (\<forall>q a. q \<noteq> pid \<longrightarrow> bs' (q, a) = bs (q, a))"
  using assms by (cases rule: override_delegate_cases) (auto simp: same_individual_def)

lemma same_individual_trans:
  "same_individual a b \<Longrightarrow> same_individual b c \<Longrightarrow> same_individual a c"
  by (simp add: same_individual_def)

lemma override_invariant:
  assumes "handle_delegate_vote_override deps who dmo pm pid h ind remove_vote bs t = Ok (bs', t')"
    and "P bs t"
    and "\<And>dm c u d c' u'. P c u \<Longrightarrow>
      override_delegate deps dm pm pid h ind remove_vote (c, u) d = Ok (c', u') \<Longrightarrow> P c' u'"
  shows "P bs' t'"
proof (cases dmo)
  case None
  with assms(1,2) show ?thesis by (simp add: handle_delegate_vote_override_def)
next
  case (Some dm)
  let ?f = "override_delegate deps dm pm pid h ind remove_vote"
  from assms(1) Some obtain ds where ds: "try_fold ?f (bs, t) ds = Ok (bs', t')"
    by (auto simp: handle_delegate_vote_override_def result_ok)
  have "case (bs', t') of (c, u) \<Rightarrow> P c u"
    by (rule try_fold_invariant [OF ds]) (use assms(2,3) in \<open>auto split: prod.splits\<close>)
  then show ?thesis by simp
qed

lemma override_frame:
  assumes "handle_delegate_vote_override deps who dmo pm pid h ind remove_vote bs t = Ok (bs', t')"
  shows "same_individual bs bs' \<and> (\<forall>q a. q \<noteq> pid \<longrightarrow> bs' (q, a) = bs (q, a))"
proof (rule override_invariant [OF assms])
  fix dm c u d c' u'
  assume "same_individual bs c \<and> (\<forall>q a. q \<noteq> pid \<longrightarrow> c (q, a) = bs (q, a))"
    and "override_delegate deps dm pm pid h ind remove_vote (c, u) d = Ok (c', u')"
  then show "same_individual bs c' \<and> (\<forall>q a. q \<noteq> pid \<longrightarrow> c' (q, a) = bs (q, a))"
    by (auto dest!: override_delegate_frame intro: same_individual_trans)
qed (simp add: same_individual_def)

theorem override_tallies:
  assumes "handle_delegate_vote_override deps who dmo pm pid h ind remove_vote bs t = Ok (bs', t')"
    and "finite (dom bs)" and "tallies power t pending bs pid"
  shows "finite (dom bs') \<and> tallies power t' pending bs' pid"
  by (rule override_invariant [OF assms(1)]) (use assms(2,3) override_delegate_tallies in blast)+

end

section \<open>The yes, no, abstain tally keeps the contract\<close>

interpretation single_tally: vote_tally add_vote remove_vote votes_get
  by unfold_locales
    (auto simp: add_vote_def remove_vote_def votes_get_def result_ok split: vote.splits)

end
