(* ===== verification/Proposal_Module.thy ===== *)
theory Proposal_Module
  imports Dao_Hooks Dao_Delegation
begin

text \<open>
  What the two proposal modules share: the layout of their storage
  (\<open>dao-proposal-single/src/state.rs\<close>, \<open>dao-proposal-multiple/src/state.rs\<close>), the
  counter that numbers proposals, and the response of a handler. Event attributes, which no
  contract reads, are left out of responses.
\<close>

section \<open>Storage\<close>

text \<open>
  \<open>'c\<close> is the configuration, \<open>'p\<close> a proposal and \<open>'v\<close> a vote.
  \<open>CONTRACT_INFO\<close> is the name and version that \<open>cw2\<close> keeps.
\<close>

record ('c, 'p, 'v) module_state =
  CONTRACT_INFO :: "(string \<times> string) option"
  CONFIG :: "'c option"
  PROPOSAL_COUNT :: "u64 option"
  PROPOSALS :: "u64 \<rightharpoonup> 'p"
  BALLOTS :: "'v ballots"
  PROPOSAL_HOOKS :: hooks
  VOTE_HOOKS :: hooks
  CREATION_POLICY :: "proposal_creation_policy option"
  DELEGATION_MODULE :: "addr option"

text \<open>The querier together with the size of a proposal's JSON encoding (\<open>to_json_vec\<close>).\<close>

record 'p module_deps = dao_querier +
  proposal_size :: "'p \<Rightarrow> (nat, std_error) result"

record 'm response =
  messages :: "'m module_sub_msg list"
  data :: "binary option"

definition CONTRACT_VERSION :: string where
  "CONTRACT_VERSION = ''2.8.0-alpha.2''"

section \<open>Numbering proposals\<close>

definition next_proposal_id :: "('c, 'p, 'v) module_state \<Rightarrow> (u64, std_error) result" where
  "next_proposal_id st =
     add_u64 (case PROPOSAL_COUNT st of None \<Rightarrow> 0 | Some n \<Rightarrow> n) 1"

definition advance_proposal_id ::
  "('c, 'p, 'v) module_state \<Rightarrow> (u64 \<times> ('c, 'p, 'v) module_state, std_error) result" where
  "advance_proposal_id st =
     and_then (next_proposal_id st) (\<lambda>i. Ok (i, st\<lparr>PROPOSAL_COUNT := Some i\<rparr>))"

text \<open>
  \<open>numbered\<close>: proposals carry the numbers one to the count, and ballots belong to
  proposals.
\<close>

definition proposal_count :: "('c, 'p, 'v) module_state \<Rightarrow> nat" where
  "proposal_count st = (case PROPOSAL_COUNT st of None \<Rightarrow> 0 | Some n \<Rightarrow> unat n)"

definition numbered :: "('c, 'p, 'v) module_state \<Rightarrow> bool" where
  "numbered st \<longleftrightarrow>
     dom (PROPOSALS st) = {i. 0 < unat i \<and> unat i \<le> proposal_count st} \<and>
     (\<forall>i a. (i, a) \<in> dom (BALLOTS st) \<longrightarrow> i \<in> dom (PROPOSALS st))"

lemma advance_proposal_id_Ok:
  assumes "advance_proposal_id st = Ok (i, st')"
  shows "unat i = proposal_count st + 1" and "st' = st\<lparr>PROPOSAL_COUNT := Some i\<rparr>"
proof -
  from assms have "next_proposal_id st = Ok i" and st: "st' = st\<lparr>PROPOSAL_COUNT := Some i\<rparr>"
    by (auto simp: advance_proposal_id_def result_ok)
  from this(1) have "unat i = unat (case PROPOSAL_COUNT st of None \<Rightarrow> 0 | Some n \<Rightarrow> n) + unat (1 :: u64)"
    unfolding next_proposal_id_def by (rule add_u64_Ok)
  then show "unat i = proposal_count st + 1" by (simp add: proposal_count_def split: option.splits)
  from st show "st' = st\<lparr>PROPOSAL_COUNT := Some i\<rparr>" .
qed

lemma numbered_next_free:
  assumes "numbered st" and "unat i = proposal_count st + 1"
  shows "PROPOSALS st i = None" and "BALLOTS st (i, a) = None"
proof -
  have "i \<notin> dom (PROPOSALS st)" using assms unfolding numbered_def by simp
  moreover from this have "(i, a) \<notin> dom (BALLOTS st)" using assms(1) unfolding numbered_def by blast
  ultimately show "PROPOSALS st i = None" and "BALLOTS st (i, a) = None" by (simp_all add: domIff)
qed

lemma numbered_add:
  assumes "numbered st" and "unat i = proposal_count st + 1"
  shows "numbered (st\<lparr>PROPOSAL_COUNT := Some i, PROPOSALS := (PROPOSALS st)(i \<mapsto> p)\<rparr>)"
proof -
  have "{j. 0 < unat j \<and> unat j \<le> unat i} = insert i {j. 0 < unat j \<and> unat j \<le> proposal_count st}"
    using assms(2) by (auto simp: le_Suc_eq word_unat_eq_iff)
  moreover have "dom ((PROPOSALS st)(i \<mapsto> p)) = insert i (dom (PROPOSALS st))" by simp
  ultimately show ?thesis
    using assms(1) unfolding numbered_def proposal_count_def by simp blast
qed

text \<open>Writing back a proposal that was there, and a ballot on it, keeps the numbering.\<close>

lemma numbered_update:
  assumes "numbered st" and "i \<in> dom (PROPOSALS st)"
    and "PROPOSAL_COUNT st' = PROPOSAL_COUNT st" and "dom (PROPOSALS st') = dom (PROPOSALS st)"
    and "\<And>j a. (j, a) \<in> dom (BALLOTS st') \<Longrightarrow> j = i \<or> (j, a) \<in> dom (BALLOTS st)"
  shows "numbered st'"
proof -
  have "proposal_count st' = proposal_count st" using assms(3) by (simp add: proposal_count_def)
  moreover have "j \<in> dom (PROPOSALS st')" if "(j, a) \<in> dom (BALLOTS st')" for j a
    using assms(5) [OF that] assms(1,2,4) unfolding numbered_def by blast
  ultimately show ?thesis using assms(1,4) unfolding numbered_def by simp
qed

section \<open>Tallies and ballots\<close>

text \<open>
  The contract between a proposal and the ballots of its module: the two tallies of every stored
  proposal are the sums of the powers of its ballots. The lemmas say how storing a vote, a new
  proposal or an unrelated change of a proposal keeps it.
\<close>

locale module_tally = vote_tally add_vote remove_vote get
  for add_vote :: "'v \<Rightarrow> nat \<Rightarrow> 't \<Rightarrow> ('t, std_error) result"
    and remove_vote :: "'v \<Rightarrow> nat \<Rightarrow> 't \<Rightarrow> ('t, std_error) result"
    and get :: "'v \<Rightarrow> 't \<Rightarrow> nat" +
  fixes votes_of :: "'p \<Rightarrow> 't" and individual_votes_of :: "'p \<Rightarrow> 't"
begin

definition proposal_tallied :: "'v ballots \<Rightarrow> u64 \<Rightarrow> 'p \<Rightarrow> bool" where
  "proposal_tallied bs pid p \<longleftrightarrow>
     tallies power (votes_of p) (\<lambda>_. 0) bs pid \<and>
     tallies individual_power (individual_votes_of p) (\<lambda>_. 0) bs pid"

definition tally_inv :: "(u64 \<rightharpoonup> 'p) \<Rightarrow> 'v ballots \<Rightarrow> bool" where
  "tally_inv ps bs \<longleftrightarrow> finite (dom bs) \<and> (\<forall>pid p. ps pid = Some p \<longrightarrow> proposal_tallied bs pid p)"

lemma tally_invD:
  assumes "tally_inv ps bs" and "ps pid = Some p"
  shows "finite (dom bs)" and "tallies power (votes_of p) (\<lambda>_. 0) bs pid"
    and "tallies individual_power (individual_votes_of p) (\<lambda>_. 0) bs pid"
  using assms by (auto simp: tally_inv_def proposal_tallied_def)

lemma tally_inv_same:
  assumes "tally_inv ps bs" and "ps pid = Some p"
    and "votes_of p' = votes_of p" and "individual_votes_of p' = individual_votes_of p"
  shows "tally_inv (ps(pid \<mapsto> p')) bs"
  using assms by (auto simp: tally_inv_def proposal_tallied_def)

lemma tally_inv_new:
  assumes "tally_inv ps bs" and "\<And>a. bs (pid, a) = None"
    and "\<And>v. get v (votes_of p) = 0" and "\<And>v. get v (individual_votes_of p) = 0"
  shows "tally_inv (ps(pid \<mapsto> p)) bs"
  using assms by (auto simp: tally_inv_def proposal_tallied_def tallies_def ballot_sum_empty domIff)

text \<open>Ballots that differ only on one proposal, and not on the tallies there.\<close>

lemma tallies_cong:
  assumes "\<And>a. bs' (pid, a) = bs (pid, a)"
  shows "tallies f t w bs' pid \<longleftrightarrow> tallies f t w bs pid"
proof -
  have "ballot_sum f bs' pid v = ballot_sum f bs pid v" for v
    using assms by (simp add: ballot_sum_def contribution_def dom_def)
  then show ?thesis by (simp add: tallies_def)
qed

lemma tally_inv_update:
  assumes "tally_inv ps bs" and "finite (dom bs')"
    and "\<And>q a. q \<noteq> pid \<Longrightarrow> bs' (q, a) = bs (q, a)" and "proposal_tallied bs' pid p'"
  shows "tally_inv (ps(pid \<mapsto> p')) bs'"
  using assms tallies_cong [of bs' _ bs]
  by (auto simp: tally_inv_def proposal_tallied_def)

lemma tally_inv_first_vote:
  assumes inv: "tally_inv ps bs" and p: "ps pid = Some p" and free: "bs (pid, who) = None"
    and over: "handle_delegate_vote_override deps who dmo pm pid h ind remove_vote
       (bs((pid, who) \<mapsto> b)) (votes_of p) = Ok (bs', vs)"
    and "add_vote (ballot_vote b) (power b) vs = Ok (votes_of p')"
    and "add_vote (ballot_vote b) (individual_power b) (individual_votes_of p) =
           Ok (individual_votes_of p')"
  shows "tally_inv (ps(pid \<mapsto> p')) bs'"
proof -
  let ?bs = "bs((pid, who) \<mapsto> b)"
  note p_tallied = tally_invD [OF inv p]
  have fin: "finite (dom ?bs)" using p_tallied(1) by simp
  note moved = override_tallies [OF over fin tallies_new_ballot [OF p_tallied(1) free p_tallied(2)]]
  note frame = override_frame [OF over]
  have "tallies individual_power (individual_votes_of p)
      (\<lambda>w. if w = ballot_vote b then individual_power b else 0) ?bs pid"
    by (rule tallies_new_ballot [OF p_tallied(1) free p_tallied(3)])
  then have "tallies individual_power (individual_votes_of p)
      (\<lambda>w. if w = ballot_vote b then individual_power b else 0) bs' pid"
    using frame same_individual_sum [of ?bs bs'] by (simp add: tallies_def)
  with moved assms(5,6) have "proposal_tallied bs' pid p'"
    unfolding proposal_tallied_def by (blast intro: tallies_add)
  with inv moved frame show ?thesis
    by (intro tally_inv_update) auto
qed

lemma tally_inv_revote:
  assumes inv: "tally_inv ps bs" and p: "ps pid = Some p" and old: "bs (pid, who) = Some old"
    and "remove_vote (ballot_vote old) (power old) (votes_of p) = Ok vs"
    and "remove_vote (ballot_vote old) (individual_power old) (individual_votes_of p) = Ok ivs"
    and "add_vote (ballot_vote b) (power b) vs = Ok (votes_of p')"
    and "add_vote (ballot_vote b) (individual_power b) ivs = Ok (individual_votes_of p')"
  shows "tally_inv (ps(pid \<mapsto> p')) (bs((pid, who) \<mapsto> b))"
proof -
  note p_tallied = tally_invD [OF inv p]
  from p_tallied assms(4-7) have "proposal_tallied (bs((pid, who) \<mapsto> b)) pid p'"
    unfolding proposal_tallied_def
    by (blast intro: tallies_add tallies_change_ballot [OF p_tallied(1) old])
  with inv p_tallied(1) show ?thesis by (intro tally_inv_update) auto
qed

text \<open>A change of a ballot that keeps its vote and its powers.\<close>

lemma tally_inv_same_ballot:
  assumes "tally_inv ps bs" and "bs k = Some b"
    and "ballot_vote b' = ballot_vote b" "power b' = power b" "individual_power b' = individual_power b"
  shows "tally_inv ps (bs(k \<mapsto> b'))"
proof -
  have dom: "dom (bs(k \<mapsto> b')) = dom bs" using assms(2) by auto
  have "contribution f (bs(k \<mapsto> b')) pid v a = contribution f bs pid v a"
    if "f b' = f b" for f pid v a
    using that assms(2,3) by (auto simp: contribution_def)
  then have "ballot_sum f (bs(k \<mapsto> b')) pid v = ballot_sum f bs pid v" if "f b' = f b" for f pid v
    using that dom unfolding ballot_sum_def by simp
  then show ?thesis
    using assms dom unfolding tally_inv_def proposal_tallied_def tallies_def by simp
qed

end

end
