(* ===== verification/Single_Proposal.thy ===== *)
theory Single_Proposal
  imports Dao_Voting
begin

text \<open>
  A single-choice proposal and its status (\<open>dao-proposal-single/src/proposal.rs\<close>): when a
  tally passes or rejects the proposal, before and after its expiration, and the status that
  follows from it.
\<close>

section \<open>The proposal\<close>

record 'm single_choice_proposal =
  title :: string
  description :: string
  proposer :: addr
  start_height :: u64
  min_voting_period :: "expiration option"
  expiration :: expiration
  threshold :: threshold
  total_power :: nat
  msgs :: "'m list"
  status :: status
  votes :: votes
  individual_votes :: votes
  allow_revoting :: bool
  veto :: "veto_config option"
  delegation_module :: "addr option"

definition is_passed ::
  "'x cw_env_scheme \<Rightarrow> 'm single_choice_proposal \<Rightarrow> block_info \<Rightarrow> (bool, 'e) result" where
  "is_passed cw self blk =
     (let expired = is_expired cw (expiration self) blk in
      if allow_revoting self \<and> \<not> expired then Ok False
      else if (case min_voting_period self of Some mn \<Rightarrow> \<not> is_expired cw mn blk | None \<Rightarrow> False)
      then Ok False
      else let vs = (if expired then votes self else individual_votes self) in
        case threshold self of
          AbsolutePercentage percentage \<Rightarrow>
            and_then (sub128 (total_power self) (abstain vs)) (\<lambda>options.
              does_vote_count_pass (yes vs) options percentage)
        | ThresholdQuorum thr quorum \<Rightarrow>
            and_then (votes_total vs) (\<lambda>tot.
            and_then (does_vote_count_pass tot (total_power self) quorum) (\<lambda>met.
              if \<not> met then Ok False
              else if is_expired cw (expiration self) blk then
                and_then (votes_total vs) (\<lambda>tot'.
                and_then (sub128 tot' (abstain vs)) (\<lambda>options.
                  does_vote_count_pass (yes vs) options thr))
              else
                and_then (sub128 (total_power self) (abstain vs)) (\<lambda>options.
                  does_vote_count_pass (yes vs) options thr)))
        | AbsoluteCount thr \<Rightarrow> Ok (yes vs \<ge> thr))"

text \<open>
  The check that the source repeats for each kind of options: with a passing threshold of
  100%, no options at all or a single no vote reject the proposal.
\<close>

definition options_rejected ::
  "votes \<Rightarrow> nat \<Rightarrow> percentage_threshold \<Rightarrow> (bool, 'e) result" where
  "options_rejected vs options thr =
     (if thr = Percent (decimal_percent 100) then
        (if options = 0 then Ok True else Ok (no vs \<ge> 1))
      else does_vote_count_fail (no vs) options thr)"

definition is_rejected ::
  "'x cw_env_scheme \<Rightarrow> 'm single_choice_proposal \<Rightarrow> block_info \<Rightarrow> (bool, 'e) result" where
  "is_rejected cw self blk =
     (let expired = is_expired cw (expiration self) blk in
      if allow_revoting self \<and> \<not> expired then Ok False
      else let vs = (if expired then votes self else individual_votes self) in
        case threshold self of
          AbsolutePercentage percentage_needed \<Rightarrow>
            and_then (sub128 (total_power self) (abstain vs)) (\<lambda>options.
              options_rejected vs options percentage_needed)
        | ThresholdQuorum thr quorum \<Rightarrow>
            and_then (votes_total vs) (\<lambda>tot.
            and_then (does_vote_count_pass tot (total_power self) quorum) (\<lambda>met.
              case (met, is_expired cw (expiration self) blk) of
                (True, True) \<Rightarrow>
                  and_then (votes_total vs) (\<lambda>tot'.
                  and_then (sub128 tot' (abstain vs)) (\<lambda>options.
                    options_rejected vs options thr))
              | (_, False) \<Rightarrow>
                  and_then (sub128 (total_power self) (abstain vs)) (\<lambda>options.
                    options_rejected vs options thr)
              | (False, True) \<Rightarrow> Ok True))
        | AbsoluteCount thr \<Rightarrow>
            and_then (votes_total vs) (\<lambda>tot.
            and_then (sub128 (total_power self) tot) (\<lambda>outstanding.
            and_then (add128 (yes vs) outstanding) (\<lambda>n. Ok (n < thr)))))"

definition current_status ::
  "'x cw_env_scheme \<Rightarrow> 'm single_choice_proposal \<Rightarrow> block_info \<Rightarrow> (status, std_error) result" where
  "current_status cw self blk =
     (case status self of
        Open \<Rightarrow>
          and_then (is_passed cw self blk) (\<lambda>passed.
            if passed then
              (case veto self of
                 Some veto_config \<Rightarrow>
                   and_then (expiration_add cw (expiration self) (timelock_duration veto_config)) (\<lambda>e.
                     if is_expired cw e blk then Ok Passed else Ok (VetoTimelock e))
               | None \<Rightarrow> Ok Passed)
            else if is_expired cw (expiration self) blk then Ok Rejected
            else
              and_then (is_rejected cw self blk) (\<lambda>rejected.
                if rejected then Ok Rejected else Ok (status self)))
      | VetoTimelock e \<Rightarrow> if is_expired cw e blk then Ok Passed else Ok (status self)
      | _ \<Rightarrow> Ok (status self))"

definition update_status ::
  "'x cw_env_scheme \<Rightarrow> 'm single_choice_proposal \<Rightarrow> block_info
     \<Rightarrow> ('m single_choice_proposal, std_error) result" where
  "update_status cw self blk =
     and_then (current_status cw self blk) (\<lambda>new_status. Ok (self\<lparr>status := new_status\<rparr>))"

record 'm proposal_response =
  pr_id :: u64
  pr_proposal :: "'m single_choice_proposal"

definition into_response ::
  "'x cw_env_scheme \<Rightarrow> 'm single_choice_proposal \<Rightarrow> block_info \<Rightarrow> u64
     \<Rightarrow> ('m proposal_response, std_error) result" where
  "into_response cw self blk i =
     and_then (update_status cw self blk) (\<lambda>p. Ok \<lparr>pr_id = i, pr_proposal = p\<rparr>)"

section \<open>Well-formed proposals\<close>

text \<open>
  \<open>fits\<close>: the votes counted never exceed the total power of the proposal, which itself
  fits \<open>Uint128\<close>. \<open>extends\<close>: votes that are only added to, as when revoting is off.
\<close>

definition fits :: "nat \<Rightarrow> votes \<Rightarrow> bool" where
  "fits tp v \<longleftrightarrow> yes v + no v + abstain v \<le> tp"

definition extends :: "votes \<Rightarrow> votes \<Rightarrow> bool" where
  "extends v v' \<longleftrightarrow> yes v \<le> yes v' \<and> no v \<le> no v' \<and> abstain v \<le> abstain v'"

definition valid_threshold :: "threshold \<Rightarrow> bool" where
  "valid_threshold t \<longleftrightarrow> threshold_validate t = Ok ()"

definition threshold_nine_decimals :: "threshold \<Rightarrow> bool" where
  "threshold_nine_decimals t =
     (case t of
        AbsolutePercentage p \<Rightarrow> nine_decimals p
      | ThresholdQuorum p q \<Rightarrow> nine_decimals p
      | AbsoluteCount _ \<Rightarrow> True)"

definition wf_proposal :: "'m single_choice_proposal \<Rightarrow> bool" where
  "wf_proposal p \<longleftrightarrow> u128 (total_power p) \<and> valid_threshold (threshold p) \<and>
     fits (total_power p) (votes p) \<and> fits (total_power p) (individual_votes p)"

section \<open>What the checks compute\<close>

text \<open>The decision on a tally, free of panics: \<open>closed\<close> says whether voting has ended.\<close>

definition tally_options :: "bool \<Rightarrow> nat \<Rightarrow> votes \<Rightarrow> nat" where
  "tally_options closed tp v = (if closed then yes v + no v else tp - abstain v)"

definition tally_passes :: "threshold \<Rightarrow> bool \<Rightarrow> nat \<Rightarrow> votes \<Rightarrow> bool" where
  "tally_passes t closed tp v =
     (case t of
        AbsolutePercentage p \<Rightarrow> passes (yes v) (tp - abstain v) p
      | ThresholdQuorum p q \<Rightarrow>
          passes (yes v + no v + abstain v) tp q \<and> passes (yes v) (tally_options closed tp v) p
      | AbsoluteCount n \<Rightarrow> n \<le> yes v)"

definition rejects :: "nat \<Rightarrow> nat \<Rightarrow> percentage_threshold \<Rightarrow> bool" where
  "rejects n t p \<longleftrightarrow>
     (if p = Percent (decimal_percent 100) then t = 0 \<or> 1 \<le> n else fails n t p)"

definition tally_rejects :: "threshold \<Rightarrow> bool \<Rightarrow> nat \<Rightarrow> votes \<Rightarrow> bool" where
  "tally_rejects t closed tp v =
     (case t of
        AbsolutePercentage p \<Rightarrow> rejects (no v) (tp - abstain v) p
      | ThresholdQuorum p q \<Rightarrow>
          (closed \<and> \<not> passes (yes v + no v + abstain v) tp q) \<or>
          rejects (no v) (tally_options closed tp v) p
      | AbsoluteCount n \<Rightarrow> yes v + (tp - (yes v + no v + abstain v)) < n)"

lemma valid_threshold_percentages:
  "valid_threshold (AbsolutePercentage p) \<Longrightarrow> valid_percentage p"
  "valid_threshold (ThresholdQuorum p q) \<Longrightarrow> valid_percentage p \<and> valid_percentage q"
  by (auto simp: valid_threshold_def threshold_validate_def validate_percentage_def
      validate_quorum_def valid_percentage_def decimal_less_def decimal_one_def
      decimal_places_def result_ok split: percentage_threshold.splits if_splits)

lemma fits_total:
  "fits tp v \<Longrightarrow> u128 tp \<Longrightarrow> votes_total v = Ok (yes v + no v + abstain v)"
  by (auto simp: fits_def u128_def votes_total_def add128_def)

lemma fits_options:
  "fits tp v \<Longrightarrow> sub128 tp (abstain v) = Ok (tp - abstain v)"
  "sub128 (yes v + no v + abstain v) (abstain v) = Ok (yes v + no v)"
  by (auto simp: fits_def sub128_def)

lemma options_rejected_eq:
  "u128 t \<Longrightarrow> valid_percentage p \<Longrightarrow> options_rejected v t p = Ok (rejects (no v) t p)"
  by (simp add: options_rejected_def rejects_def does_vote_count_fail_eq)

definition considered :: "'x cw_env_scheme \<Rightarrow> 'm single_choice_proposal \<Rightarrow> block_info \<Rightarrow> votes" where
  "considered cw p blk =
     (if is_expired cw (expiration p) blk then votes p else individual_votes p)"

definition undecided_yet :: "'x cw_env_scheme \<Rightarrow> 'm single_choice_proposal \<Rightarrow> block_info \<Rightarrow> bool" where
  "undecided_yet cw p blk \<longleftrightarrow> allow_revoting p \<and> \<not> is_expired cw (expiration p) blk"

definition min_period_over :: "'x cw_env_scheme \<Rightarrow> 'm single_choice_proposal \<Rightarrow> block_info \<Rightarrow> bool" where
  "min_period_over cw p blk \<longleftrightarrow>
     (case min_voting_period p of None \<Rightarrow> True | Some mn \<Rightarrow> is_expired cw mn blk)"

lemma u128_mono: "u128 t \<Longrightarrow> s \<le> t \<Longrightarrow> u128 s"
  by (simp add: u128_def)

lemma fits_considered: "wf_proposal p \<Longrightarrow> fits (total_power p) (considered cw p blk)"
  by (simp add: wf_proposal_def considered_def)

lemma is_passed_eq:
  assumes "wf_proposal p"
  shows "is_passed cw p blk =
    Ok (\<not> undecided_yet cw p blk \<and> min_period_over cw p blk \<and>
        tally_passes (threshold p) (is_expired cw (expiration p) blk) (total_power p)
          (considered cw p blk))"
proof -
  let ?v = "considered cw p blk"
  have v: "fits (total_power p) ?v" and t: "u128 (total_power p)"
    using assms by (auto simp: fits_considered wf_proposal_def)
  have o: "u128 (total_power p - abstain ?v)" "u128 (yes ?v + no ?v)"
    using t v by (auto intro: u128_mono simp: fits_def)
  show ?thesis
    using valid_threshold_percentages assms t o
    by (cases "threshold p")
       (auto simp: is_passed_def undecided_yet_def min_period_over_def tally_passes_def
         tally_options_def wf_proposal_def Let_def fits_total [OF v t] fits_options(1) [OF v] fits_options(2)
         does_vote_count_pass_eq simp flip: considered_def split: option.splits)
qed

lemma is_rejected_eq:
  assumes "wf_proposal p"
  shows "is_rejected cw p blk =
    Ok (\<not> undecided_yet cw p blk \<and>
        tally_rejects (threshold p) (is_expired cw (expiration p) blk) (total_power p)
          (considered cw p blk))"
proof -
  let ?v = "considered cw p blk"
  have v: "fits (total_power p) ?v" and t: "u128 (total_power p)"
    using assms by (auto simp: fits_considered wf_proposal_def)
  have o: "u128 (total_power p - abstain ?v)" "u128 (yes ?v + no ?v)"
    "yes ?v + (total_power p - (yes ?v + no ?v + abstain ?v)) < 2 ^ 128"
    using t v by (auto intro: u128_mono simp: fits_def u128_def)
  show ?thesis
    using valid_threshold_percentages assms t o v
    by (cases "threshold p")
       (auto simp: is_rejected_def undecided_yet_def tally_rejects_def
         tally_options_def wf_proposal_def Let_def fits_total [OF v t] fits_options(1) [OF v] fits_options(2)
         does_vote_count_pass_eq options_rejected_eq add128_def sub128_def fits_def
         simp flip: considered_def split: option.splits bool.splits)
qed

section \<open>Decisions are final\<close>

text \<open>A valid percentage of nine decimal places is not reached by no votes at all.\<close>

definition positive_percentage :: "percentage_threshold \<Rightarrow> bool" where
  "positive_percentage p \<longleftrightarrow> (case p of Majority \<Rightarrow> True | Percent d \<Rightarrow> 0 < atomics d)"

lemma valid_threshold_positive:
  "valid_threshold (AbsolutePercentage p) \<Longrightarrow> positive_percentage p"
  "valid_threshold (ThresholdQuorum p q) \<Longrightarrow> positive_percentage p"
  by (auto simp: valid_threshold_def threshold_validate_def validate_percentage_def
      positive_percentage_def decimal_is_zero_def result_ok split: percentage_threshold.splits if_splits)

lemma passes_positive:
  assumes "passes w t p" and "nine_decimals p" and "positive_percentage p"
  shows "0 < w"
proof (cases p)
  case Majority
  then show ?thesis using assms by (simp add: passes_def)
next
  case (Percent d)
  then have "0 < t * atomics d" and "t * atomics d \<le> w * 10 ^ 18"
    using assms passes_exact [of d w t] by (auto simp: positive_percentage_def)
  then show ?thesis by (cases w) auto
qed

lemma rejects_not_passes:
  assumes "rejects n t p" and "n \<le> n'" and "t' \<le> t" and "w + n' \<le> t'"
    and "nine_decimals p" and "valid_percentage p"
  shows "\<not> passes w t' p"
proof (cases "p = Percent (decimal_percent 100)")
  case True
  then have "passes w t' p \<longleftrightarrow> 0 < t' \<and> t' \<le> w"
    using passes_exact [of "decimal_percent 100" w t'] assms(5)
    by (simp add: decimal_percent_def decimal_places_def)
  with True assms(1-4) show ?thesis by (auto simp: rejects_def)
next
  case False
  with assms(1) have "fails n t p" by (simp add: rejects_def)
  then have "fails n' t' p" using assms(2,3) by (rule fails_mono)
  with passes_fails_exclusive [OF assms(5,6,4)] show ?thesis by blast
qed

text \<open>Further votes never widen the options, which always cover the votes for and against.\<close>

lemma options_shrink:
  assumes "extends v v'" and "fits tp v'" and "c \<longrightarrow> c' \<and> v' = v"
  shows "tally_options c' tp v' \<le> tally_options c tp v" and "yes v' + no v' \<le> tally_options c' tp v'"
  using assms by (auto simp: tally_options_def extends_def fits_def)

lemma rejection_persists:
  assumes "rejects (no v) (tally_options c tp v) p" and "extends v v'" and "fits tp v'"
    and "nine_decimals p" and "valid_percentage p" and "c \<longrightarrow> c' \<and> v' = v"
  shows "\<not> passes (yes v') (tally_options c' tp v') p"
  using options_shrink [OF assms(2,3,6)] assms
  by (intro rejects_not_passes [OF assms(1), of "no v'"]) (auto simp: extends_def)

text \<open>The tally of the ended vote decides as an earlier tally that was already decisive.\<close>

lemma tally_passes_final:
  assumes "tally_passes t False tp v" and "extends v v'" and "fits tp v'"
    and "valid_threshold t" and "threshold_nine_decimals t \<or> 0 < yes v"
  shows "tally_passes t True tp v'"
proof (cases t)
  case (AbsolutePercentage p)
  have "0 < yes v" using assms valid_threshold_positive AbsolutePercentage
    by (auto simp: tally_passes_def threshold_nine_decimals_def intro: passes_positive)
  moreover have "passes (yes v) (tp - abstain v) p"
    using assms(1) AbsolutePercentage by (simp add: tally_passes_def)
  ultimately have "passes (yes v') (tp - abstain v') p"
    using assms(2,3) by (elim passes_mono) (auto simp: extends_def fits_def)
  with AbsolutePercentage show ?thesis by (simp add: tally_passes_def)
next
  case (ThresholdQuorum p q)
  have w: "0 < yes v" using assms valid_threshold_positive ThresholdQuorum
    by (auto simp: tally_passes_def threshold_nine_decimals_def intro: passes_positive)
  have q: "passes (yes v + no v + abstain v) tp q" and
    p: "passes (yes v) (tp - abstain v) p"
    using assms(1) ThresholdQuorum by (auto simp: tally_passes_def tally_options_def)
  have "passes (yes v' + no v' + abstain v') tp q"
    using assms(2) by (intro passes_mono [OF q]) (use w assms(3) in \<open>auto simp: extends_def fits_def\<close>)
  moreover have "passes (yes v') (yes v' + no v') p"
    using assms(2,3) w by (intro passes_mono [OF p]) (auto simp: extends_def fits_def)
  ultimately show ?thesis using ThresholdQuorum by (simp add: tally_passes_def tally_options_def)
next
  case (AbsoluteCount n)
  with assms show ?thesis by (auto simp: tally_passes_def extends_def)
qed

lemma tally_rejects_final:
  assumes "tally_rejects t c tp v" and "extends v v'" and "fits tp v'"
    and "valid_threshold t" and "threshold_nine_decimals t" and "c \<longrightarrow> c' \<and> v' = v"
  shows "\<not> tally_passes t c' tp v'"
proof (cases t)
  case (AbsolutePercentage p)
  with assms have "\<not> passes (yes v') (tally_options False tp v') p"
    using valid_threshold_percentages(1) [of p]
    by (intro rejection_persists [where v = v and c = False])
       (auto simp: tally_rejects_def threshold_nine_decimals_def tally_options_def)
  with AbsolutePercentage show ?thesis by (simp add: tally_passes_def tally_options_def)
next
  case (ThresholdQuorum p q)
  then consider "c" "v' = v" "\<not> passes (yes v + no v + abstain v) tp q"
    | "rejects (no v) (tally_options c tp v) p"
    using assms(1,6) by (auto simp: tally_rejects_def)
  then show ?thesis
  proof cases
    case 1
    with ThresholdQuorum show ?thesis by (simp add: tally_passes_def)
  next
    case 2
    then have "\<not> passes (yes v') (tally_options c' tp v') p"
      using assms ThresholdQuorum valid_threshold_percentages(2) [of p q]
      by (intro rejection_persists [OF 2]) (auto simp: threshold_nine_decimals_def)
    with ThresholdQuorum show ?thesis by (simp add: tally_passes_def)
  qed
next
  case (AbsoluteCount n)
  with assms show ?thesis by (auto simp: tally_passes_def tally_rejects_def extends_def fits_def)
qed

text \<open>
  \<open>continues p q\<close>: \<open>q\<close> is the proposal \<open>p\<close> after further votes and no revote.
  The final tally contains at least what voters had cast with their own power.
\<close>

definition continues :: "'m single_choice_proposal \<Rightarrow> 'm single_choice_proposal \<Rightarrow> bool" where
  "continues p q \<longleftrightarrow>
     threshold q = threshold p \<and> total_power q = total_power p \<and> expiration q = expiration p \<and>
     min_voting_period q = min_voting_period p \<and> allow_revoting q = allow_revoting p \<and>
     extends (individual_votes p) (votes q)"

lemma early_pass_holds:
  assumes "wf_proposal p" and "wf_proposal q" and "continues p q"
    and "threshold_nine_decimals (threshold p) \<or> 0 < yes (individual_votes p)"
    and "expiry_monotone cw" and "block_le b b'"
    and "\<not> is_expired cw (expiration p) b" and "is_expired cw (expiration p) b'"
    and "is_passed cw p b = Ok True"
  shows "is_passed cw q b' = Ok True"
proof -
  from assms(1,7,9) have "min_period_over cw p b"
    and v: "tally_passes (threshold p) False (total_power p) (individual_votes p)"
    by (auto simp: is_passed_eq considered_def)
  then have "min_period_over cw q b'"
    using assms(3,5,6) by (auto simp: min_period_over_def continues_def
        split: option.splits intro: expiry_monotoneD)
  moreover have "tally_passes (threshold p) True (total_power p) (votes q)"
    using v assms(1-4) by (intro tally_passes_final [OF v]) (auto simp: wf_proposal_def continues_def)
  ultimately show ?thesis
    using assms(2,3,8) by (auto simp: is_passed_eq undecided_yet_def considered_def continues_def)
qed

lemma early_rejection_holds:
  assumes "wf_proposal p" and "wf_proposal q" and "continues p q"
    and "threshold_nine_decimals (threshold p)"
    and "\<not> is_expired cw (expiration p) b" and "is_expired cw (expiration p) b'"
    and "is_rejected cw p b = Ok True"
  shows "is_passed cw q b' = Ok False"
proof -
  have v: "tally_rejects (threshold p) False (total_power p) (individual_votes p)"
    using assms(1,5,7) by (auto simp: is_rejected_eq considered_def)
  have "\<not> tally_passes (threshold p) True (total_power p) (votes q)"
    using assms(1-4) by (intro tally_rejects_final [OF v]) (auto simp: wf_proposal_def continues_def)
  then show ?thesis
    using assms(2,3,6) by (auto simp: is_passed_eq considered_def continues_def)
qed

lemma extends_refl [simp]: "extends v v"
  by (simp add: extends_def)

lemma never_passed_and_rejected:
  assumes "wf_proposal p" and "threshold_nine_decimals (threshold p)"
  shows "\<not> (is_passed cw p b = Ok True \<and> is_rejected cw p b = Ok True)"
  using assms tally_rejects_final [of "threshold p" "is_expired cw (expiration p) b" "total_power p"
      "considered cw p b" "considered cw p b" "is_expired cw (expiration p) b"]
  by (auto simp: is_passed_eq is_rejected_eq fits_considered wf_proposal_def considered_def)

text \<open>What an open proposal's status says before its expiration.\<close>

lemma early_status:
  assumes "status p = Open" and "\<not> is_expired cw (expiration p) b" and "current_status cw p b = Ok s"
  shows "s = Rejected \<Longrightarrow> is_rejected cw p b = (Ok True :: (bool, std_error) result)"
    and "s \<noteq> Open \<Longrightarrow> s \<noteq> Rejected \<Longrightarrow> is_passed cw p b = (Ok True :: (bool, std_error) result)"
    and "allow_revoting p \<Longrightarrow> s = Open"
  using assms
  by (auto simp: current_status_def result_ok split: if_splits option.splits)
    (auto simp: is_passed_def is_rejected_def)

lemma fits_extends: "extends v v' \<Longrightarrow> fits tp v' \<Longrightarrow> fits tp v"
  by (auto simp: extends_def fits_def)

end
