(* ===== verification/Proposal_Single.thy ===== *)
theory Proposal_Single
  imports Proposal_Module Single_Proposal
begin

text \<open>
  The contract \<open>dao-proposal-single\<close>: its configuration, every message handler, replies,
  queries and migrations (\<open>contract.rs\<close>, \<open>state.rs\<close>, \<open>error.rs\<close>, \<open>v1_state.rs\<close>).
  A handler maps the storage to the new storage and a response.
\<close>

section \<open>State and errors\<close>

record config =
  cfg_threshold :: threshold
  cfg_max_voting_period :: duration
  cfg_min_voting_period :: "duration option"
  cfg_only_members_execute :: bool
  cfg_allow_revoting :: bool
  cfg_dao :: addr
  cfg_close_proposal_on_execution_failure :: bool
  cfg_veto :: "veto_config option"

type_synonym 'm single_state = "(config, 'm single_choice_proposal, vote) module_state"

text \<open>The errors that the contract returns; variants that no code builds are left out.\<close>

datatype contract_error =
    Std std_error
  | ParseReplyError string
  | HookError hook_error
  | VetoError veto_error
  | Unauthorized
  | ThresholdError threshold_error
  | VotingError voting_error
  | NoSuchProposal u64
  | NoSuchVote u64 string
  | ProposalTooLarge nat nat
  | Expired u64
  | NotRegistered
  | AlreadyVoted
  | AlreadyCast
  | NotPassed
  | WrongCloseStatus
  | InactiveDao
  | InvalidProposer
  | Tag tag_error
  | PendingProposals
  | InvalidReplyID u64
  | AlreadyMigrated

type_synonym 'm outcome = "('m single_state \<times> 'm response, contract_error) result"

definition respond :: "'m single_state \<Rightarrow> 'm module_sub_msg list \<Rightarrow> 'm outcome" where
  "respond st ms = Ok (st, \<lparr>messages = ms, data = None\<rparr>)"

section \<open>Instantiation\<close>

definition CONTRACT_NAME :: string where
  "CONTRACT_NAME = ''crates.io:dao-proposal-single''"

record instantiate_msg =
  im_threshold :: threshold
  im_max_voting_period :: duration
  im_min_voting_period :: "duration option"
  im_only_members_execute :: bool
  im_allow_revoting :: bool
  im_pre_propose_info :: pre_propose_info
  im_close_proposal_on_execution_failure :: bool
  im_veto :: "veto_config option"
  im_delegation_module :: "string option"

definition validate_veto ::
  "'x cw_env_scheme \<Rightarrow> veto_config option \<Rightarrow> duration \<Rightarrow> (unit, contract_error) result" where
  "validate_veto cw v max_period =
     (case v of
        Some veto_config \<Rightarrow> map_err VetoError (veto_validate cw veto_config max_period)
      | None \<Rightarrow> Ok ())"

definition instantiate ::
  "'x cw_env_scheme \<Rightarrow> 'm single_state \<Rightarrow> message_info \<Rightarrow> instantiate_msg \<Rightarrow> 'm outcome" where
  "instantiate deps st info msg =
     and_then (map_err ThresholdError (threshold_validate (im_threshold msg))) (\<lambda>_.
     and_then (map_err VotingError
        (validate_voting_period (im_min_voting_period msg) (im_max_voting_period msg)))
       (\<lambda>(min_voting_period, max_voting_period).
     case into_initial_policy_and_messages (im_pre_propose_info msg) (sender info) of
       (initial_policy, pre_propose_messages) \<Rightarrow>
     and_then (validate_veto deps (im_veto msg) max_voting_period) (\<lambda>_.
     and_then
       (case im_delegation_module msg of
          Some m \<Rightarrow> and_then (map_err Std (addr_validate deps m)) (\<lambda>a. Ok (Some a))
        | None \<Rightarrow> Ok (DELEGATION_MODULE st)) (\<lambda>dm.
     respond
       (st\<lparr>CONTRACT_INFO := Some (CONTRACT_NAME, CONTRACT_VERSION),
          PROPOSAL_COUNT := Some 0,
          CONFIG := Some
            \<lparr>cfg_threshold = im_threshold msg,
             cfg_max_voting_period = max_voting_period,
             cfg_min_voting_period = min_voting_period,
             cfg_only_members_execute = im_only_members_execute msg,
             cfg_allow_revoting = im_allow_revoting msg,
             cfg_dao = sender info,
             cfg_close_proposal_on_execution_failure = im_close_proposal_on_execution_failure msg,
             cfg_veto = im_veto msg\<rparr>,
          CREATION_POLICY := Some initial_policy,
          DELEGATION_MODULE := dm\<rparr>)
       pre_propose_messages))))"

section \<open>Voting\<close>

text \<open>
  The closure of \<open>BALLOTS.update\<close> in \<open>execute_vote\<close>: the new ballot, the proposal with a
  previous ballot removed, and whether this is the voter's first vote.
\<close>

definition update_ballot ::
  "'m single_choice_proposal \<Rightarrow> voting_power_with_delegation \<Rightarrow> vote \<Rightarrow> string option
     \<Rightarrow> vote ballot option
     \<Rightarrow> (vote ballot \<times> 'm single_choice_proposal \<times> bool, contract_error) result" where
  "update_ballot prop vote_power v why bal =
     (let new_ballot = \<lparr>power = vp_total vote_power, individual_power = vp_individual vote_power,
            ballot_vote = v, rationale = why\<rparr>
      in case bal of
        Some current_ballot \<Rightarrow>
          if allow_revoting prop then
            (if ballot_vote current_ballot = v then Err AlreadyCast
             else
               and_then (remove_vote (ballot_vote current_ballot) (power current_ballot) (votes prop)) (\<lambda>vs.
               and_then (remove_vote (ballot_vote current_ballot) (individual_power current_ballot)
                           (individual_votes prop)) (\<lambda>ivs.
                 Ok (new_ballot, prop\<lparr>votes := vs, individual_votes := ivs\<rparr>, False))))
          else Err AlreadyVoted
      | None \<Rightarrow> Ok (new_ballot, prop, True))"

definition execute_vote ::
  "'x dao_querier_scheme \<Rightarrow> 'm single_state \<Rightarrow> env \<Rightarrow> addr \<Rightarrow> u64 \<Rightarrow> vote \<Rightarrow> string option
     \<Rightarrow> 'm outcome" where
  "execute_vote deps st env who proposal_id v why =
     and_then (map_err Std (load (CONFIG st))) (\<lambda>config.
     and_then (ok_or (PROPOSALS st proposal_id) (NoSuchProposal proposal_id)) (\<lambda>prop.
     if is_expired deps (expiration prop) (block env) then Err (Expired proposal_id)
     else
     and_then (map_err Std (get_voting_power_with_delegation deps (contract_address env)
        (delegation_module prop) (cfg_dao config) who proposal_id (start_height prop))) (\<lambda>vote_power.
     if vp_individual vote_power = 0 then Err NotRegistered
     else
     and_then (update_ballot prop vote_power v why (BALLOTS st (proposal_id, who)))
       (\<lambda>(ballot, prop, is_first_vote).
     let ballots = (BALLOTS st)((proposal_id, who) \<mapsto> ballot) in
     and_then
       (if is_first_vote then
          map_err Std (handle_delegate_vote_override deps who (delegation_module prop)
            (contract_address env) proposal_id (start_height prop) (vp_individual vote_power)
            remove_vote ballots (votes prop))
        else Ok (ballots, votes prop)) (\<lambda>(ballots, vs).
     let old_status = status prop in
     and_then (add_vote v (vp_total vote_power) vs) (\<lambda>vs.
     and_then (add_vote v (vp_individual vote_power) (individual_votes prop)) (\<lambda>ivs.
     and_then (map_err Std (update_status deps (prop\<lparr>votes := vs, individual_votes := ivs\<rparr>)
        (block env))) (\<lambda>prop.
     respond
       (st\<lparr>PROPOSALS := (PROPOSALS st)(proposal_id \<mapsto> prop), BALLOTS := ballots\<rparr>)
       (proposal_status_changed_hooks (PROPOSAL_HOOKS st) proposal_id
          (status_to_string deps old_status) (status_to_string deps (status prop)) @
        new_vote_hooks (VOTE_HOOKS st) proposal_id who (vote_to_string v) (vp_total vote_power)
          (vp_individual vote_power) (start_height prop) is_first_vote)))))))))"

definition execute_update_rationale ::
  "'m single_state \<Rightarrow> message_info \<Rightarrow> u64 \<Rightarrow> string option \<Rightarrow> 'm outcome" where
  "execute_update_rationale st info proposal_id why =
     (case BALLOTS st (proposal_id, sender info) of
        Some ballot \<Rightarrow>
          respond (st\<lparr>BALLOTS := (BALLOTS st)((proposal_id, sender info) \<mapsto> ballot\<lparr>rationale := why\<rparr>)\<rparr>) []
      | None \<Rightarrow> Err (NoSuchVote proposal_id (sender info)))"

section \<open>Proposing\<close>

definition choose_proposer ::
  "'x cw_env_scheme \<Rightarrow> addr \<Rightarrow> string option \<Rightarrow> proposal_creation_policy
     \<Rightarrow> (addr, contract_error) result" where
  "choose_proposer deps who specified policy =
     (case (specified, policy) of
        (None, Anyone) \<Rightarrow> Ok who
      | (Some p, Module _) \<Rightarrow> map_err Std (addr_validate deps p)
      | _ \<Rightarrow> Err InvalidProposer)"

definition execute_propose ::
  "'m single_choice_proposal module_deps \<Rightarrow> 'm single_state \<Rightarrow> env \<Rightarrow> addr
     \<Rightarrow> 'm single_choice_propose_msg \<Rightarrow> 'm outcome" where
  "execute_propose deps st env who msg =
     and_then (map_err Std (load (CONFIG st))) (\<lambda>config.
     and_then (map_err Std (load (CREATION_POLICY st))) (\<lambda>policy.
     if \<not> is_permitted policy who then Err Unauthorized
     else
     and_then (choose_proposer deps who (pm_proposer msg) policy) (\<lambda>the_proposer.
     and_then (map_err Std (query_voting_module deps (cfg_dao config))) (\<lambda>voting_module.
     and_then (unwrap_or (query_is_active deps voting_module) True) (\<lambda>active_resp.
     if \<not> active_resp then Err InactiveDao
     else
     and_then (ok_or_panic (duration_after deps (cfg_max_voting_period config) (block env))) (\<lambda>expir.
     and_then (map_err Std (get_total_power deps (cfg_dao config) (Some (height (block env))))) (\<lambda>tp.
     and_then (transpose_opt (\<lambda>mn. ok_or_panic (duration_after deps mn (block env)))
        (cfg_min_voting_period config)) (\<lambda>min_period.
     and_then (map_err Std (update_status deps
        \<lparr>title = pm_title msg, description = pm_description msg, proposer = the_proposer,
         start_height = height (block env), min_voting_period = min_period, expiration = expir,
         threshold = cfg_threshold config, total_power = tp, msgs = pm_msgs msg, status = Open,
         votes = votes_zero, individual_votes = votes_zero,
         allow_revoting = cfg_allow_revoting config, veto = cfg_veto config,
         delegation_module = DELEGATION_MODULE st\<rparr> (block env))) (\<lambda>proposal.
     and_then (map_err Std (advance_proposal_id st)) (\<lambda>(i, st).
     and_then (map_err Std (proposal_size deps proposal)) (\<lambda>size.
     if size > MAX_PROPOSAL_SIZE then Err (ProposalTooLarge size MAX_PROPOSAL_SIZE)
     else
     let st = st\<lparr>PROPOSALS := (PROPOSALS st)(i \<mapsto> proposal)\<rparr>;
         hooks = new_proposal_hooks (PROPOSAL_HOOKS st) i the_proposer in
     and_then
       (case pm_vote msg of
          Some v \<Rightarrow>
            and_then (execute_vote deps st env the_proposer i (auto_vote v) (auto_rationale v))
              (\<lambda>(st, response). Ok (st, messages response))
        | None \<Rightarrow> Ok (st, [])) (\<lambda>(st, vote_hooks).
     respond st (hooks @ vote_hooks)))))))))))))"

section \<open>Vetoing, executing and closing\<close>

definition completion_hooks ::
  "'x cw_env_scheme \<Rightarrow> 'm single_state \<Rightarrow> u64 \<Rightarrow> status \<Rightarrow> status
     \<Rightarrow> ('m module_sub_msg list, contract_error) result" where
  "completion_hooks deps st proposal_id old_status new_status =
     (let changed = proposal_status_changed_hooks (PROPOSAL_HOOKS st) proposal_id
            (status_to_string deps old_status) (status_to_string deps new_status) in
      and_then (map_err Std (load (CREATION_POLICY st))) (\<lambda>policy.
        Ok (changed @ proposal_completed_hooks policy proposal_id new_status)))"

text \<open>The match on the status in \<open>execute_veto\<close>: when the vetoer may veto.\<close>

definition check_vetoable ::
  "'x cw_env_scheme \<Rightarrow> 'm single_choice_proposal \<Rightarrow> veto_config \<Rightarrow> block_info
     \<Rightarrow> (unit, contract_error) result" where
  "check_vetoable deps prop veto_config blk =
     (case status prop of
        Open \<Rightarrow> map_err VetoError (check_veto_before_passed_enabled veto_config)
      | Passed \<Rightarrow> Err (VetoError TimelockExpired)
      | VetoTimelock e \<Rightarrow>
          if is_expired deps e blk then Err (VetoError TimelockExpired) else Ok ()
      | s \<Rightarrow> Err (VetoError (InvalidProposalStatus (status_to_string deps s))))"

definition execute_veto ::
  "'x cw_env_scheme \<Rightarrow> 'm single_state \<Rightarrow> env \<Rightarrow> message_info \<Rightarrow> u64 \<Rightarrow> 'm outcome" where
  "execute_veto deps st env info proposal_id =
     and_then (ok_or (PROPOSALS st proposal_id) (NoSuchProposal proposal_id)) (\<lambda>prop.
     and_then (map_err Std (update_status deps prop (block env))) (\<lambda>prop.
     and_then (ok_or (veto prop) (VetoError NoVetoConfiguration)) (\<lambda>veto_config.
     and_then (map_err VetoError (check_is_vetoer veto_config info)) (\<lambda>_.
     and_then (check_vetoable deps prop veto_config (block env)) (\<lambda>_.
     let vetoed = prop\<lparr>status := Vetoed\<rparr>;
         st = st\<lparr>PROPOSALS := (PROPOSALS st)(proposal_id \<mapsto> vetoed)\<rparr> in
     and_then (completion_hooks deps st proposal_id (status prop) Vetoed) (\<lambda>hooks.
     respond st hooks))))))"

text \<open>The determination of \<open>sender_can_execute\<close> in \<open>execute_execute\<close>.\<close>

definition sender_can_execute ::
  "'x dao_querier_scheme \<Rightarrow> config \<Rightarrow> message_info \<Rightarrow> 'm single_choice_proposal
     \<Rightarrow> (bool, contract_error) result" where
  "sender_can_execute deps config info prop =
     (if cfg_only_members_execute config then
        and_then (map_err Std (get_voting_power deps (sender info) (cfg_dao config)
           (Some (start_height prop)))) (\<lambda>p. Ok (p \<noteq> 0))
      else Ok True)"

text \<open>The match on the status in \<open>execute_execute\<close>: who may execute, and when.\<close>

definition check_executable ::
  "'m single_choice_proposal \<Rightarrow> message_info \<Rightarrow> bool \<Rightarrow> (unit, contract_error) result" where
  "check_executable prop info can_execute =
     (case status prop of
        Passed \<Rightarrow> if \<not> can_execute then Err Unauthorized else Ok ()
      | VetoTimelock _ \<Rightarrow>
          and_then (ok_or (veto prop) (VetoError NoVetoConfiguration)) (\<lambda>veto_config.
          if vetoer veto_config \<noteq> sender info then
            (if can_execute then Err (VetoError Timelocked) else Err Unauthorized)
          else map_err VetoError (check_early_execute_enabled veto_config))
      | _ \<Rightarrow> Err NotPassed)"

definition dispatch :: "config \<Rightarrow> u64 \<Rightarrow> 'm list \<Rightarrow> 'm module_sub_msg list" where
  "dispatch config proposal_id ms =
     (if ms \<noteq> [] then
        let execute_message = WasmExecute (cfg_dao config) (ExecuteProposalHook ms) [] in
        if cfg_close_proposal_on_execution_failure config
        then [reply_on_error execute_message (mask_proposal_execution_proposal_id proposal_id)]
        else [sub_msg_new execute_message]
      else [])"

definition execute_execute ::
  "'x dao_querier_scheme \<Rightarrow> 'm single_state \<Rightarrow> env \<Rightarrow> message_info \<Rightarrow> u64 \<Rightarrow> 'm outcome" where
  "execute_execute deps st env info proposal_id =
     and_then (ok_or (PROPOSALS st proposal_id) (NoSuchProposal proposal_id)) (\<lambda>prop.
     and_then (map_err Std (load (CONFIG st))) (\<lambda>config.
     and_then (sender_can_execute deps config info prop) (\<lambda>can_execute.
     and_then (map_err Std (update_status deps prop (block env))) (\<lambda>prop.
     and_then (check_executable prop info can_execute) (\<lambda>_.
     let executed = prop\<lparr>status := Executed\<rparr>;
         st = st\<lparr>PROPOSALS := (PROPOSALS st)(proposal_id \<mapsto> executed)\<rparr> in
     and_then (completion_hooks deps st proposal_id (status prop) Executed) (\<lambda>hooks.
     respond st (dispatch config proposal_id (msgs prop) @ hooks)))))))"

definition execute_close ::
  "'x cw_env_scheme \<Rightarrow> 'm single_state \<Rightarrow> env \<Rightarrow> message_info \<Rightarrow> u64 \<Rightarrow> 'm outcome" where
  "execute_close deps st env info proposal_id =
     and_then (map_err Std (load (PROPOSALS st proposal_id))) (\<lambda>prop.
     and_then (map_err Std (update_status deps prop (block env))) (\<lambda>prop.
     if status prop \<noteq> Rejected then Err WrongCloseStatus
     else
     let closed = prop\<lparr>status := Closed\<rparr>;
         st = st\<lparr>PROPOSALS := (PROPOSALS st)(proposal_id \<mapsto> closed)\<rparr> in
     and_then (completion_hooks deps st proposal_id (status prop) Closed) (\<lambda>hooks.
     respond st hooks)))"

section \<open>Reconfiguration by the DAO\<close>

definition execute_update_config ::
  "'x cw_env_scheme \<Rightarrow> 'm single_state \<Rightarrow> message_info \<Rightarrow> threshold \<Rightarrow> duration \<Rightarrow> duration option
     \<Rightarrow> bool \<Rightarrow> bool \<Rightarrow> string \<Rightarrow> bool \<Rightarrow> veto_config option \<Rightarrow> 'm outcome" where
  "execute_update_config deps st info thr max_period min_period only_members revoting dao
       close_on_failure new_veto =
     and_then (map_err Std (load (CONFIG st))) (\<lambda>config.
     if sender info \<noteq> cfg_dao config then Err Unauthorized
     else
     and_then (map_err ThresholdError (threshold_validate thr)) (\<lambda>_.
     and_then (map_err Std (addr_validate deps dao)) (\<lambda>dao.
     and_then (map_err VotingError (validate_voting_period min_period max_period))
       (\<lambda>(min_period, max_period).
     and_then (validate_veto deps new_veto max_period) (\<lambda>_.
     respond
       (st\<lparr>CONFIG := Some
          \<lparr>cfg_threshold = thr,
           cfg_max_voting_period = max_period,
           cfg_min_voting_period = min_period,
           cfg_only_members_execute = only_members,
           cfg_allow_revoting = revoting,
           cfg_dao = dao,
           cfg_close_proposal_on_execution_failure = close_on_failure,
           cfg_veto = new_veto\<rparr>\<rparr>) [])))))"

definition execute_update_proposal_creation_policy ::
  "'m single_state \<Rightarrow> message_info \<Rightarrow> pre_propose_info \<Rightarrow> 'm outcome" where
  "execute_update_proposal_creation_policy st info new_info =
     and_then (map_err Std (load (CONFIG st))) (\<lambda>config.
     if cfg_dao config \<noteq> sender info then Err Unauthorized
     else case into_initial_policy_and_messages new_info (cfg_dao config) of
       (initial_policy, ms) \<Rightarrow> respond (st\<lparr>CREATION_POLICY := Some initial_policy\<rparr>) ms)"

definition execute_update_delegation_module ::
  "'x cw_env_scheme \<Rightarrow> 'm single_state \<Rightarrow> message_info \<Rightarrow> string \<Rightarrow> 'm outcome" where
  "execute_update_delegation_module deps st info module =
     and_then (map_err Std (load (CONFIG st))) (\<lambda>config.
     if cfg_dao config \<noteq> sender info then Err Unauthorized
     else and_then (map_err Std (addr_validate deps module)) (\<lambda>a.
       respond (st\<lparr>DELEGATION_MODULE := Some a\<rparr>) []))"

definition execute_add_proposal_hook ::
  "'x cw_env_scheme \<Rightarrow> 'm single_state \<Rightarrow> message_info \<Rightarrow> string \<Rightarrow> 'm outcome" where
  "execute_add_proposal_hook deps st info a =
     and_then (map_err Std (load (CONFIG st))) (\<lambda>config.
     if cfg_dao config \<noteq> sender info then Err Unauthorized
     else and_then (map_err Std (addr_validate deps a)) (\<lambda>validated.
       and_then (map_err HookError (add_hook (PROPOSAL_HOOKS st) validated)) (\<lambda>hs.
       respond (st\<lparr>PROPOSAL_HOOKS := hs\<rparr>) [])))"

definition execute_remove_proposal_hook ::
  "'x cw_env_scheme \<Rightarrow> 'm single_state \<Rightarrow> message_info \<Rightarrow> string \<Rightarrow> 'm outcome" where
  "execute_remove_proposal_hook deps st info a =
     and_then (map_err Std (load (CONFIG st))) (\<lambda>config.
     if cfg_dao config \<noteq> sender info then Err Unauthorized
     else and_then (map_err Std (addr_validate deps a)) (\<lambda>validated.
       and_then (map_err HookError (remove_hook (PROPOSAL_HOOKS st) validated)) (\<lambda>hs.
       respond (st\<lparr>PROPOSAL_HOOKS := hs\<rparr>) [])))"

definition execute_add_vote_hook ::
  "'x cw_env_scheme \<Rightarrow> 'm single_state \<Rightarrow> message_info \<Rightarrow> string \<Rightarrow> 'm outcome" where
  "execute_add_vote_hook deps st info a =
     and_then (map_err Std (load (CONFIG st))) (\<lambda>config.
     if cfg_dao config \<noteq> sender info then Err Unauthorized
     else and_then (map_err Std (addr_validate deps a)) (\<lambda>validated.
       and_then (map_err HookError (add_hook (VOTE_HOOKS st) validated)) (\<lambda>hs.
       respond (st\<lparr>VOTE_HOOKS := hs\<rparr>) [])))"

definition execute_remove_vote_hook ::
  "'x cw_env_scheme \<Rightarrow> 'm single_state \<Rightarrow> message_info \<Rightarrow> string \<Rightarrow> 'm outcome" where
  "execute_remove_vote_hook deps st info a =
     and_then (map_err Std (load (CONFIG st))) (\<lambda>config.
     if cfg_dao config \<noteq> sender info then Err Unauthorized
     else and_then (map_err Std (addr_validate deps a)) (\<lambda>validated.
       and_then (map_err HookError (remove_hook (VOTE_HOOKS st) validated)) (\<lambda>hs.
       respond (st\<lparr>VOTE_HOOKS := hs\<rparr>) [])))"

section \<open>The entry points\<close>

datatype 'm execute_msg =
    Propose "'m single_choice_propose_msg"
  | Vote u64 vote "string option"
  | UpdateRationale u64 "string option"
  | Execute u64
  | Veto u64
  | Close u64
  | UpdateConfig threshold duration "duration option" bool bool string bool "veto_config option"
  | UpdatePreProposeInfo pre_propose_info
  | UpdateDelegationModule string
  | AddProposalHook string
  | RemoveProposalHook string
  | AddVoteHook string
  | RemoveVoteHook string

definition execute ::
  "'m single_choice_proposal module_deps \<Rightarrow> 'm single_state \<Rightarrow> env \<Rightarrow> message_info
     \<Rightarrow> 'm execute_msg \<Rightarrow> 'm outcome" where
  "execute deps st env info msg =
     (case msg of
        Propose propose_msg \<Rightarrow> execute_propose deps st env (sender info) propose_msg
      | Vote proposal_id v why \<Rightarrow> execute_vote deps st env (sender info) proposal_id v why
      | UpdateRationale proposal_id why \<Rightarrow> execute_update_rationale st info proposal_id why
      | Execute proposal_id \<Rightarrow> execute_execute deps st env info proposal_id
      | Close proposal_id \<Rightarrow> execute_close deps st env info proposal_id
      | UpdateConfig thr max_period min_period only_members revoting dao close_on_failure new_veto \<Rightarrow>
          execute_update_config deps st info thr max_period min_period only_members revoting dao
            close_on_failure new_veto
      | UpdatePreProposeInfo new_info \<Rightarrow> execute_update_proposal_creation_policy st info new_info
      | UpdateDelegationModule module \<Rightarrow> execute_update_delegation_module deps st info module
      | AddProposalHook a \<Rightarrow> execute_add_proposal_hook deps st info a
      | RemoveProposalHook a \<Rightarrow> execute_remove_proposal_hook deps st info a
      | AddVoteHook a \<Rightarrow> execute_add_vote_hook deps st info a
      | RemoveVoteHook a \<Rightarrow> execute_remove_vote_hook deps st info a
      | Veto proposal_id \<Rightarrow> execute_veto deps st env info proposal_id)"

definition reply :: "'x cw_env_scheme \<Rightarrow> 'm single_state \<Rightarrow> reply \<Rightarrow> 'm outcome" where
  "reply deps st msg =
     and_then (map_err Tag (tagged_reply_id_new (rep_id msg))) (\<lambda>repl.
     case repl of
       FailedProposalExecution proposal_id \<Rightarrow>
         (case PROPOSALS st proposal_id of
            Some prop \<Rightarrow>
              respond (st\<lparr>PROPOSALS := (PROPOSALS st)(proposal_id \<mapsto> prop\<lparr>status := ExecutionFailed\<rparr>)\<rparr>) []
          | None \<Rightarrow> Err (NoSuchProposal proposal_id))
     | FailedProposalHook idx \<Rightarrow>
         and_then (map_err HookError (remove_hook_by_index (PROPOSAL_HOOKS st) idx)) (\<lambda>(_, hs).
         respond (st\<lparr>PROPOSAL_HOOKS := hs\<rparr>) [])
     | FailedVoteHook idx \<Rightarrow>
         and_then (map_err HookError (remove_hook_by_index (VOTE_HOOKS st) idx)) (\<lambda>(_, hs).
         respond (st\<lparr>VOTE_HOOKS := hs\<rparr>) [])
     | PreProposeModuleInstantiation \<Rightarrow>
         and_then (map_err ParseReplyError (parsed_instantiate_data msg)) (\<lambda>res.
         and_then (map_err Std (addr_validate deps (res_contract_address res))) (\<lambda>module.
         Ok (st\<lparr>CREATION_POLICY := Some (Module module)\<rparr>, \<lparr>messages = [], data = res_data res\<rparr>)))
     | FailedPreProposeModuleHook \<Rightarrow>
         and_then (map_err Std (load (CREATION_POLICY st))) (\<lambda>policy.
         case policy of
           Anyone \<Rightarrow> Err (InvalidReplyID failed_pre_propose_module_hook_id)
         | Module _ \<Rightarrow> respond (st\<lparr>CREATION_POLICY := Some Anyone\<rparr>) []))"

section \<open>Queries\<close>

text \<open>The value of each query before its encoding as JSON.\<close>

definition query_config :: "'m single_state \<Rightarrow> (config, std_error) result" where
  "query_config st = load (CONFIG st)"

definition query_dao :: "'m single_state \<Rightarrow> (addr, std_error) result" where
  "query_dao st = and_then (load (CONFIG st)) (\<lambda>config. Ok (cfg_dao config))"

definition query_proposal ::
  "'x cw_env_scheme \<Rightarrow> 'm single_state \<Rightarrow> env \<Rightarrow> u64 \<Rightarrow> ('m proposal_response, std_error) result" where
  "query_proposal deps st env i =
     and_then (load (PROPOSALS st i)) (\<lambda>proposal. into_response deps proposal (block env) i)"

definition query_creation_policy ::
  "'m single_state \<Rightarrow> (proposal_creation_policy, std_error) result" where
  "query_creation_policy st = load (CREATION_POLICY st)"

definition query_delegation_module :: "'m single_state \<Rightarrow> (addr option, std_error) result" where
  "query_delegation_module st = Ok (DELEGATION_MODULE st)"

definition query_list_proposals ::
  "'x cw_env_scheme \<Rightarrow> 'm single_state \<Rightarrow> env \<Rightarrow> u64 option \<Rightarrow> u64 option
     \<Rightarrow> ('m proposal_response list, std_error) result" where
  "query_list_proposals deps st env start_after limit =
     (let lim = (case limit of None \<Rightarrow> DEFAULT_LIMIT | Some l \<Rightarrow> l) in
      try_map (\<lambda>(i, proposal). into_response deps proposal (block env) i)
        (take (as_usize lim) (range_after (PROPOSALS st) start_after)))"

definition query_reverse_proposals ::
  "'x cw_env_scheme \<Rightarrow> 'm single_state \<Rightarrow> env \<Rightarrow> u64 option \<Rightarrow> u64 option
     \<Rightarrow> ('m proposal_response list, std_error) result" where
  "query_reverse_proposals deps st env start_before limit =
     (let lim = (case limit of None \<Rightarrow> DEFAULT_LIMIT | Some l \<Rightarrow> l) in
      try_map (\<lambda>(i, proposal). into_response deps proposal (block env) i)
        (take (as_usize lim) (range_before (PROPOSALS st) start_before)))"

definition query_proposal_count :: "'m single_state \<Rightarrow> (u64, std_error) result" where
  "query_proposal_count st = load (PROPOSAL_COUNT st)"

definition query_next_proposal_id :: "'m single_state \<Rightarrow> (u64, std_error) result" where
  "query_next_proposal_id st = next_proposal_id st"

record vote_info =
  vi_voter :: addr
  vi_vote :: vote
  vi_power :: nat
  vi_individual_power :: nat
  vi_rationale :: "string option"

definition vote_info_of :: "addr \<Rightarrow> vote ballot \<Rightarrow> vote_info" where
  "vote_info_of who ballot =
     \<lparr>vi_voter = who, vi_vote = ballot_vote ballot, vi_power = power ballot,
      vi_individual_power = individual_power ballot, vi_rationale = rationale ballot\<rparr>"

definition query_vote ::
  "'x cw_env_scheme \<Rightarrow> 'm single_state \<Rightarrow> u64 \<Rightarrow> string \<Rightarrow> (vote_info option, std_error) result" where
  "query_vote deps st proposal_id voter =
     and_then (addr_validate deps voter) (\<lambda>who.
       Ok (map_option (vote_info_of who) (BALLOTS st (proposal_id, who))))"

definition query_list_votes ::
  "'x cw_env_scheme \<Rightarrow> 'm single_state \<Rightarrow> u64 \<Rightarrow> string option \<Rightarrow> u64 option
     \<Rightarrow> (vote_info list, std_error) result" where
  "query_list_votes deps st proposal_id start_after limit =
     (let lim = (case limit of None \<Rightarrow> DEFAULT_LIMIT | Some l \<Rightarrow> l) in
      and_then (transpose_opt (addr_validate deps) start_after) (\<lambda>mn.
      Ok (map (\<lambda>(who, ballot). vote_info_of who ballot)
        (take (as_usize lim) (range_after (\<lambda>a. BALLOTS st (proposal_id, a)) mn)))))"

definition query_info :: "'m single_state \<Rightarrow> (string \<times> string, std_error) result" where
  "query_info st = load (CONTRACT_INFO st)"

definition query_proposal_hooks :: "'m single_state \<Rightarrow> addr list" where
  "query_proposal_hooks st = query_hooks (PROPOSAL_HOOKS st)"

definition query_vote_hooks :: "'m single_state \<Rightarrow> addr list" where
  "query_vote_hooks st = query_hooks (VOTE_HOOKS st)"

section \<open>Migration\<close>

text \<open>
  The types of version 1, with the variants and fields that \<open>v1_state.rs\<close> and
  \<open>migrate\<close> read. The stored data of version 1 is an argument of \<open>migrate\<close>.
\<close>

datatype v1_percentage_threshold = V1Majority | V1Percent decimal

datatype v1_threshold =
    V1AbsolutePercentage v1_percentage_threshold
  | V1ThresholdQuorum v1_percentage_threshold v1_percentage_threshold
  | V1AbsoluteCount nat

datatype v1_duration = V1Height u64 | V1Time u64

datatype v1_expiration = V1AtHeight u64 | V1AtTime u64 | V1Never

record v1_votes =
  v1_yes :: nat
  v1_no :: nat
  v1_abstain :: nat

datatype v1_status = V1Open | V1Rejected | V1Passed | V1Executed | V1Closed

record v1_config =
  v1_cfg_threshold :: v1_threshold
  v1_cfg_max_voting_period :: v1_duration
  v1_cfg_min_voting_period :: "v1_duration option"
  v1_cfg_only_members_execute :: bool
  v1_cfg_allow_revoting :: bool
  v1_cfg_dao :: addr

record 'm v1_proposal =
  v1_title :: string
  v1_description :: string
  v1_proposer :: addr
  v1_start_height :: u64
  v1_min_voting_period :: "v1_expiration option"
  v1_prop_expiration :: v1_expiration
  v1_prop_threshold :: v1_threshold
  v1_total_power :: nat
  v1_msgs :: "'m list"
  v1_prop_status :: v1_status
  v1_prop_votes :: v1_votes
  v1_allow_revoting :: bool
  v1_deposit :: "nat option"

record 'm v1_state =
  V1_CONFIG :: "v1_config option"
  V1_PROPOSALS :: "u64 \<rightharpoonup> 'm v1_proposal"

definition v1_percentage_threshold_to_v2 :: "v1_percentage_threshold \<Rightarrow> percentage_threshold" where
  "v1_percentage_threshold_to_v2 v1 = (case v1 of V1Majority \<Rightarrow> Majority | V1Percent p \<Rightarrow> Percent p)"

definition v1_threshold_to_v2 :: "v1_threshold \<Rightarrow> threshold" where
  "v1_threshold_to_v2 v1 =
     (case v1 of
        V1AbsolutePercentage p \<Rightarrow> AbsolutePercentage (v1_percentage_threshold_to_v2 p)
      | V1ThresholdQuorum t q \<Rightarrow>
          ThresholdQuorum (v1_percentage_threshold_to_v2 t) (v1_percentage_threshold_to_v2 q)
      | V1AbsoluteCount t \<Rightarrow> AbsoluteCount t)"

definition v1_duration_to_v2 :: "v1_duration \<Rightarrow> duration" where
  "v1_duration_to_v2 v1 = (case v1 of V1Height h \<Rightarrow> Height h | V1Time t \<Rightarrow> Time t)"

definition v1_expiration_to_v2 :: "v1_expiration \<Rightarrow> expiration" where
  "v1_expiration_to_v2 v1 =
     (case v1 of V1AtHeight h \<Rightarrow> AtHeight h | V1AtTime t \<Rightarrow> AtTime t | V1Never \<Rightarrow> Never)"

definition v1_votes_to_v2 :: "v1_votes \<Rightarrow> votes" where
  "v1_votes_to_v2 v1 = \<lparr>yes = v1_yes v1, no = v1_no v1, abstain = v1_abstain v1\<rparr>"

definition v1_status_to_v2 :: "v1_status \<Rightarrow> status" where
  "v1_status_to_v2 v1 =
     (case v1 of
        V1Open \<Rightarrow> Open | V1Rejected \<Rightarrow> Rejected | V1Passed \<Rightarrow> Passed
      | V1Executed \<Rightarrow> Executed | V1Closed \<Rightarrow> Closed)"

definition v1_proposal_to_v2 :: "'m v1_proposal \<Rightarrow> 'm single_choice_proposal" where
  "v1_proposal_to_v2 prop =
     \<lparr>title = v1_title prop, description = v1_description prop, proposer = v1_proposer prop,
      start_height = v1_start_height prop,
      min_voting_period = map_option v1_expiration_to_v2 (v1_min_voting_period prop),
      expiration = v1_expiration_to_v2 (v1_prop_expiration prop),
      threshold = v1_threshold_to_v2 (v1_prop_threshold prop),
      total_power = v1_total_power prop, msgs = v1_msgs prop,
      status = v1_status_to_v2 (v1_prop_status prop),
      votes = v1_votes_to_v2 (v1_prop_votes prop),
      individual_votes = v1_votes_to_v2 (v1_prop_votes prop),
      allow_revoting = v1_allow_revoting prop, veto = None, delegation_module = None\<rparr>"

definition migrate_proposal ::
  "(u64 \<rightharpoonup> 'm single_choice_proposal) \<Rightarrow> u64 \<times> 'm v1_proposal
     \<Rightarrow> (u64 \<rightharpoonup> 'm single_choice_proposal, contract_error) result" where
  "migrate_proposal ps ip =
     (case ip of (i, prop) \<Rightarrow>
      if (case v1_deposit prop of Some d \<Rightarrow> d \<noteq> 0 | None \<Rightarrow> False) \<and>
         v1_prop_status prop \<noteq> V1Closed \<and> v1_prop_status prop \<noteq> V1Executed
      then Err PendingProposals
      else Ok (ps(i \<mapsto> v1_proposal_to_v2 prop)))"

datatype migrate_msg = FromV1 bool pre_propose_info "veto_config option" | FromCompatible

definition migrate ::
  "'x cw_env_scheme \<Rightarrow> 'm v1_state \<Rightarrow> 'm single_state \<Rightarrow> migrate_msg \<Rightarrow> 'm outcome" where
  "migrate deps v1 st msg =
     and_then (map_err Std (load (CONTRACT_INFO st))) (\<lambda>(_, version).
     let st = st\<lparr>CONTRACT_INFO := Some (CONTRACT_NAME, CONTRACT_VERSION)\<rparr> in
     case msg of
       FromV1 close_on_failure pre_propose new_veto \<Rightarrow>
         if version = CONTRACT_VERSION then Err AlreadyMigrated
         else
         and_then (map_err Std (load (V1_CONFIG v1))) (\<lambda>current_config.
         let max_period = v1_duration_to_v2 (v1_cfg_max_voting_period current_config) in
         and_then (validate_veto deps new_veto max_period) (\<lambda>_.
         case into_initial_policy_and_messages pre_propose (v1_cfg_dao current_config) of
           (initial_policy, pre_propose_messages) \<Rightarrow>
         and_then (try_fold migrate_proposal (PROPOSALS st) (entries (V1_PROPOSALS v1))) (\<lambda>ps.
         respond
           (st\<lparr>CONFIG := Some
              \<lparr>cfg_threshold = v1_threshold_to_v2 (v1_cfg_threshold current_config),
               cfg_max_voting_period = max_period,
               cfg_min_voting_period =
                 map_option v1_duration_to_v2 (v1_cfg_min_voting_period current_config),
               cfg_only_members_execute = v1_cfg_only_members_execute current_config,
               cfg_allow_revoting = v1_cfg_allow_revoting current_config,
               cfg_dao = v1_cfg_dao current_config,
               cfg_close_proposal_on_execution_failure = close_on_failure,
               cfg_veto = new_veto\<rparr>,
              CREATION_POLICY := Some initial_policy,
              PROPOSALS := ps\<rparr>) pre_propose_messages)))
     | FromCompatible \<Rightarrow> respond st [])"

end
