(* ===== verification/Proposal_Lifecycle.thy ===== *)
theory Proposal_Lifecycle
  imports Proposal_Module
begin

text \<open>
  The life of a proposal, the same for both proposal modules: the statuses that can follow a
  status, runs of a module as sequences of steps, and the contract that a module's steps keep,
  from which the properties of runs follow.
\<close>

section \<open>Statuses\<close>

text \<open>
  The statuses a proposal can reach from each status: an open proposal can still go anywhere, a
  vetoed, closed or failed one stays as it is, an executed one can only turn out to have failed.
\<close>

definition may_become :: "status \<Rightarrow> status \<Rightarrow> bool" where
  "may_become s s' \<longleftrightarrow> s' = s \<or>
     (case s of
        Open \<Rightarrow> True
      | VetoTimelock e \<Rightarrow> s' \<in> {Passed, Vetoed, Executed, ExecutionFailed}
      | Passed \<Rightarrow> s' \<in> {Executed, ExecutionFailed}
      | Executed \<Rightarrow> s' = ExecutionFailed
      | Rejected \<Rightarrow> s' = Closed
      | _ \<Rightarrow> False)"

text \<open>
  A proposal is concluded by a veto, an execution or a closing; each moves the up-to-date status
  to its own final status.
\<close>

definition concludes :: "status \<Rightarrow> status \<Rightarrow> bool" where
  "concludes s new \<longleftrightarrow>
     new = Vetoed \<and> (s = Open \<or> (\<exists>e. s = VetoTimelock e)) \<or>
     new = Executed \<and> (s = Passed \<or> (\<exists>e. s = VetoTimelock e)) \<or>
     new = Closed \<and> s = Rejected"

lemma may_become_refl [simp]: "may_become s s"
  by (simp add: may_become_def)

lemma may_become_trans: "may_become a b \<Longrightarrow> may_become b c \<Longrightarrow> may_become a c"
  by (auto simp: may_become_def split: status.splits)

lemma concludes_becomes: "concludes s new \<Longrightarrow> may_become s new"
  by (auto simp: concludes_def may_become_def)

section \<open>Handlers of both modules\<close>

definition cast_ballot :: "voting_power_with_delegation \<Rightarrow> 'v \<Rightarrow> string option \<Rightarrow> 'v ballot" where
  "cast_ballot vp v why =
     \<lparr>power = vp_total vp, individual_power = vp_individual vp, ballot_vote = v, rationale = why\<rparr>"

lemma cast_ballot_simps [simp]:
  "ballot_vote (cast_ballot vp v why) = v" "power (cast_ballot vp v why) = vp_total vp"
  "individual_power (cast_ballot vp v why) = vp_individual vp"
  "rationale (cast_ballot vp v why) = why"
  by (simp_all add: cast_ballot_def)

definition may_veto :: "'x cw_env_scheme \<Rightarrow> veto_config \<Rightarrow> block_info \<Rightarrow> status \<Rightarrow> bool" where
  "may_veto cw vc blk s \<longleftrightarrow>
     s = Open \<and> veto_before_passed vc \<or> (\<exists>e. s = VetoTimelock e \<and> \<not> is_expired cw e blk)"

definition may_execute :: "veto_config option \<Rightarrow> message_info \<Rightarrow> bool \<Rightarrow> status \<Rightarrow> bool" where
  "may_execute vo info member s \<longleftrightarrow>
     s = Passed \<and> member \<or>
     (\<exists>e vc. s = VetoTimelock e \<and> vo = Some vc \<and> vetoer vc = sender info \<and> early_execute vc)"

text \<open>What settings stay, and what the settings are when a message of the DAO changes them.\<close>

definition same_settings :: "('c, 'p, 'v) module_state \<Rightarrow> ('c, 'p, 'v) module_state \<Rightarrow> bool" where
  "same_settings st st' \<longleftrightarrow>
     CONFIG st' = CONFIG st \<and> PROPOSAL_HOOKS st' = PROPOSAL_HOOKS st \<and>
     VOTE_HOOKS st' = VOTE_HOOKS st \<and> CREATION_POLICY st' = CREATION_POLICY st \<and>
     DELEGATION_MODULE st' = DELEGATION_MODULE st \<and> CONTRACT_INFO st' = CONTRACT_INFO st"

definition same_records :: "('c, 'p, 'v) module_state \<Rightarrow> ('c, 'p, 'v) module_state \<Rightarrow> bool" where
  "same_records st st' \<longleftrightarrow>
     PROPOSALS st' = PROPOSALS st \<and> BALLOTS st' = BALLOTS st \<and>
     PROPOSAL_COUNT st' = PROPOSAL_COUNT st"

lemma initial_policy_no_dispatch:
  "into_initial_policy_and_messages info dao = (policy, ms) \<Longrightarrow> filter is_dispatch ms = []"
  by (auto simp: into_initial_policy_and_messages_def is_dispatch_def reply_on_success_def
      into_wasm_msg_def Let_def split: pre_propose_info.splits option.splits)

definition valid_periods :: "duration option \<Rightarrow> duration \<Rightarrow> bool" where
  "valid_periods mn mx =
     (case (mn, mx) of
        (None, _) \<Rightarrow> True
      | (Some (Time a), Time b) \<Rightarrow> a \<le> b
      | (Some (Height a), Height b) \<Rightarrow> a \<le> b
      | _ \<Rightarrow> False)"

definition valid_timelock :: "veto_config option \<Rightarrow> duration \<Rightarrow> bool" where
  "valid_timelock v mx =
     (case v of
        None \<Rightarrow> True
      | Some vc \<Rightarrow>
          (case (timelock_duration vc, mx) of
             (Time _, Time _) \<Rightarrow> True | (Height _, Height _) \<Rightarrow> True | _ \<Rightarrow> False))"

lemma validate_voting_period_Ok:
  "validate_voting_period mn mx = Ok (mn', mx') \<longleftrightarrow> mn' = mn \<and> mx' = mx \<and> valid_periods mn mx"
  by (cases mn; cases mx; auto simp: validate_voting_period_def valid_periods_def result_ok
      split: duration.splits if_splits)

definition empty_state :: "('c, 'p, 'v) module_state" where
  "empty_state =
     \<lparr>CONTRACT_INFO = None, CONFIG = None, PROPOSAL_COUNT = None, PROPOSALS = Map.empty,
      BALLOTS = Map.empty, PROPOSAL_HOOKS = None, VOTE_HOOKS = None, CREATION_POLICY = None,
      DELEGATION_MODULE = None\<rparr>"

lemma same_records_numbered: "same_records st st' \<Longrightarrow> numbered st' \<longleftrightarrow> numbered st"
  unfolding same_records_def numbered_def proposal_count_def by metis

section \<open>Runs\<close>

text \<open>A run collects what its steps log, oldest first.\<close>

inductive module_run :: "('s \<Rightarrow> 'l list \<Rightarrow> 's \<Rightarrow> bool) \<Rightarrow> 's \<Rightarrow> 'l list \<Rightarrow> 's \<Rightarrow> bool" for step where
  run_start: "module_run step st [] st"
| run_step: "module_run step st log st' \<Longrightarrow> step st' l st'' \<Longrightarrow> module_run step st (log @ l) st''"

lemma run_one: "step st l st' \<Longrightarrow> module_run step st l st'"
  using run_step [of step, OF run_start] by simp

lemma module_run_append:
  "module_run step st' log' st'' \<Longrightarrow> module_run step st log st' \<Longrightarrow> module_run step st (log @ log') st''"
  by (induction rule: module_run.induct)
     (simp_all add: module_run.run_step flip: append_assoc)

definition was_executed :: "('p \<Rightarrow> status) \<Rightarrow> ('c, 'p, 'v) module_state \<Rightarrow> u64 \<Rightarrow> bool" where
  "was_executed status_of st pid \<longleftrightarrow>
     (\<exists>p. PROPOSALS st pid = Some p \<and> status_of p \<in> {Executed, ExecutionFailed})"

section \<open>The contract of a module's steps\<close>

locale proposal_lifecycle =
  fixes step :: "('c, 'p, 'v) module_state \<Rightarrow> u64 list \<Rightarrow> ('c, 'p, 'v) module_state \<Rightarrow> bool"
    and inv :: "('c, 'p, 'v) module_state \<Rightarrow> bool"
    and status_of :: "'p \<Rightarrow> status"
    and evolves :: "'p \<Rightarrow> 'p \<Rightarrow> bool"
  assumes step_inv: "step st l st' \<Longrightarrow> inv st \<Longrightarrow> inv st'"
    and evolves_refl: "evolves p p"
    and evolves_trans: "evolves p q \<Longrightarrow> evolves q r \<Longrightarrow> evolves p r"
    and evolves_status: "evolves p q \<Longrightarrow> may_become (status_of p) (status_of q)"
    and step_evolves: "step st l st' \<Longrightarrow> inv st \<Longrightarrow> PROPOSALS st i = Some p \<Longrightarrow>
      \<exists>q. PROPOSALS st' i = Some q \<and> evolves p q"
    and step_dispatches: "step st l st' \<Longrightarrow>
      l = [] \<or> (\<exists>pid. l = [pid] \<and> \<not> was_executed status_of st pid \<and> was_executed status_of st' pid)"
begin

lemma run_inv: "module_run step st log st' \<Longrightarrow> inv st \<Longrightarrow> inv st'"
  by (induction rule: module_run.induct) (auto intro: step_inv)

lemma run_evolves:
  assumes "module_run step st log st'" and "inv st" and "PROPOSALS st i = Some p"
  shows "\<exists>q. PROPOSALS st' i = Some q \<and> evolves p q"
  using assms
proof (induction rule: module_run.induct)
  case (run_step st log st' l st'')
  then obtain q where "PROPOSALS st' i = Some q" "evolves p q" by blast
  moreover have "inv st'" using run_step by (blast intro: run_inv)
  ultimately show ?case using run_step.hyps(2) by (blast dest: step_evolves intro: evolves_trans)
qed (auto intro: evolves_refl)

lemma step_was_executed:
  assumes "step st l st'" and "inv st" and "was_executed status_of st pid"
  shows "was_executed status_of st' pid"
proof -
  from assms(3) obtain p where p: "PROPOSALS st pid = Some p" "status_of p \<in> {Executed, ExecutionFailed}"
    by (auto simp: was_executed_def)
  with step_evolves [OF assms(1,2) p(1)] obtain q where q: "PROPOSALS st' pid = Some q" "evolves p q"
    by blast
  from evolves_status [OF q(2)] p(2) q(1) show ?thesis by (auto simp: was_executed_def may_become_def)
qed

text \<open>No proposal is logged twice, and every logged proposal has been executed.\<close>

lemma run_dispatches_once:
  assumes "module_run step st log st'" and "inv st"
  shows "distinct log \<and> (\<forall>pid \<in> set log. was_executed status_of st' pid)"
  using assms
proof (induction rule: module_run.induct)
  case (run_step st log st' l st'')
  then have IH: "distinct log" "\<forall>pid \<in> set log. was_executed status_of st' pid" and inv: "inv st'"
    by (auto intro: run_inv)
  from step_dispatches [OF run_step.hyps(2)] show ?case
    using IH step_was_executed [OF run_step.hyps(2) inv] by auto
qed simp

end

text \<open>Without revoting, the individual votes of a proposal only grow.\<close>

locale counted_lifecycle = proposal_lifecycle step inv status_of evolves
  for step :: "('c, 'p, 'v) module_state \<Rightarrow> u64 list \<Rightarrow> ('c, 'p, 'v) module_state \<Rightarrow> bool"
    and inv :: "('c, 'p, 'v) module_state \<Rightarrow> bool"
    and status_of :: "'p \<Rightarrow> status"
    and evolves :: "'p \<Rightarrow> 'p \<Rightarrow> bool" +
  fixes revoting :: "'p \<Rightarrow> bool" and grows :: "'p \<Rightarrow> 'p \<Rightarrow> bool"
  assumes evolves_revoting: "evolves p q \<Longrightarrow> revoting q = revoting p"
    and grows_refl: "grows p p"
    and grows_trans: "grows p q \<Longrightarrow> grows q r \<Longrightarrow> grows p r"
    and step_grows: "step st l st' \<Longrightarrow> inv st \<Longrightarrow> PROPOSALS st i = Some p \<Longrightarrow>
      PROPOSALS st' i = Some q \<Longrightarrow> \<not> revoting p \<Longrightarrow> grows p q"
begin

lemma run_grows:
  assumes "module_run step st log st'" and "inv st"
    and "PROPOSALS st i = Some p" and "PROPOSALS st' i = Some q" and "\<not> revoting p"
  shows "grows p q"
  using assms
proof (induction arbitrary: q rule: module_run.induct)
  case (run_step st log st' l st'')
  then obtain q' where q': "PROPOSALS st' i = Some q'" "evolves p q'"
    using run_evolves by blast
  then have "grows q' q"
    using run_step evolves_revoting by (blast intro: step_grows run_inv)
  moreover have "grows p q'" using run_step q'(1) by blast
  ultimately show ?case by (blast intro: grows_trans)
qed (simp add: grows_refl)

end

end
