(* ===== verification/Proposal_Single_Effects.thy ===== *)
theory Proposal_Single_Effects
  imports Proposal_Single Proposal_Lifecycle
begin

text \<open>
  What a successful handler of \<open>dao-proposal-single\<close> did: for each handler the storage it
  leaves and the conditions under which it succeeds. The invariants of the contract are proved
  from these facts, without unfolding a handler again.
\<close>

lemma respond_Ok [result_ok]:
  "respond st ms = Ok (st', r) \<longleftrightarrow> st' = st \<and> r = \<lparr>messages = ms, data = None\<rparr>"
  by (auto simp: respond_def)

lemma update_status_Ok [result_ok]:
  "update_status cw p b = Ok q \<longleftrightarrow> (\<exists>s. current_status cw p b = Ok s \<and> q = p\<lparr>status := s\<rparr>)"
  by (auto simp: update_status_def result_ok)

lemma completion_hooks_Ok [result_ok]:
  "completion_hooks deps st i old new = Ok hs \<longleftrightarrow>
     (\<exists>policy. CREATION_POLICY st = Some policy \<and>
        hs = proposal_status_changed_hooks (PROPOSAL_HOOKS st) i (status_to_string deps old)
               (status_to_string deps new) @ proposal_completed_hooks policy i new)"
  by (auto simp: completion_hooks_def result_ok Let_def)

section \<open>Votes\<close>

text \<open>Whether a tally can change does not depend on the error type of the caller.\<close>

lemma remove_vote_any:
  "remove_vote w n t = (Ok u :: (votes, 'e) result) \<Longrightarrow> remove_vote w n t = (Ok u :: (votes, 'f) result)"
  by (auto simp: remove_vote_def result_ok split: vote.splits)

lemma add_vote_any:
  "add_vote w n t = (Ok u :: (votes, 'e) result) \<Longrightarrow> add_vote w n t = (Ok u :: (votes, 'f) result)"
  by (auto simp: add_vote_def result_ok split: vote.splits)

lemma update_ballot_cases:
  assumes "update_ballot prop vp v why bal = Ok (ballot, prop', first)"
  obtains (fresh) "bal = None" "prop' = prop" "first" "ballot = cast_ballot vp v why"
  | (changed) old vs ivs where "bal = Some old" "\<not> first" "allow_revoting prop" "ballot_vote old \<noteq> v"
      "remove_vote (ballot_vote old) (power old) (votes prop) = (Ok vs :: (votes, std_error) result)"
      "remove_vote (ballot_vote old) (individual_power old) (individual_votes prop) =
         (Ok ivs :: (votes, std_error) result)"
      "prop' = prop\<lparr>votes := vs, individual_votes := ivs\<rparr>" "ballot = cast_ballot vp v why"
proof (cases bal)
  case None
  with assms fresh show ?thesis by (auto simp: update_ballot_def cast_ballot_def Let_def)
next
  case (Some old)
  with assms have "allow_revoting prop" "ballot_vote old \<noteq> v" "\<not> first" "ballot = cast_ballot vp v why"
    by (auto simp: update_ballot_def cast_ballot_def Let_def result_ok split: if_splits)
  moreover from calculation Some assms obtain vs ivs where
    "remove_vote (ballot_vote old) (power old) (votes prop) = (Ok vs :: (votes, contract_error) result)"
    "remove_vote (ballot_vote old) (individual_power old) (individual_votes prop) =
       (Ok ivs :: (votes, contract_error) result)"
    "prop' = prop\<lparr>votes := vs, individual_votes := ivs\<rparr>"
    by (auto simp: update_ballot_def Let_def result_ok)
  ultimately show ?thesis using changed [OF Some] remove_vote_any by blast
qed

text \<open>A successful vote, step by step.\<close>

lemma execute_vote_cases:
  assumes "execute_vote deps st env who pid v why = Ok (st', r)"
  obtains config p vp ballot prop1 first bs vs vs' ivs s where
    "CONFIG st = Some config" and "PROPOSALS st pid = Some p"
    and "\<not> is_expired deps (expiration p) (block env)"
    and "get_voting_power_with_delegation deps (contract_address env) (delegation_module p)
           (cfg_dao config) who pid (start_height p) = Ok vp"
    and "vp_individual vp \<noteq> 0"
    and "update_ballot p vp v why (BALLOTS st (pid, who)) = Ok (ballot, prop1, first)"
    and "(if first then handle_delegate_vote_override deps who (delegation_module prop1)
            (contract_address env) pid (start_height prop1) (vp_individual vp) remove_vote
            ((BALLOTS st)((pid, who) \<mapsto> ballot)) (votes prop1)
          else Ok ((BALLOTS st)((pid, who) \<mapsto> ballot), votes prop1)) = Ok (bs, vs)"
    and "add_vote v (vp_total vp) vs = (Ok vs' :: (votes, std_error) result)"
    and "add_vote v (vp_individual vp) (individual_votes prop1) = (Ok ivs :: (votes, std_error) result)"
    and "current_status deps (prop1\<lparr>votes := vs', individual_votes := ivs\<rparr>) (block env) = Ok s"
    and "st' = st\<lparr>PROPOSALS := (PROPOSALS st)(pid \<mapsto>
             prop1\<lparr>votes := vs', individual_votes := ivs, status := s\<rparr>), BALLOTS := bs\<rparr>"
    and "messages r = proposal_status_changed_hooks (PROPOSAL_HOOKS st) pid
             (status_to_string deps (status prop1)) (status_to_string deps s) @
           new_vote_hooks (VOTE_HOOKS st) pid who (vote_to_string v) (vp_total vp)
             (vp_individual vp) (start_height prop1) first"
    and "data r = None"
  using assms
  by (auto simp: execute_vote_def result_ok Let_def split: if_splits prod.splits
      dest!: add_vote_any [where 'e = contract_error and 'f = std_error])

section \<open>Vetoes, executions and closings\<close>

lemma check_vetoable_Ok [result_ok]:
  "check_vetoable deps p vc blk = Ok u \<longleftrightarrow> may_veto deps vc blk (status p)"
  by (auto simp: check_vetoable_def may_veto_def check_veto_before_passed_enabled_def result_ok
      split: status.splits if_splits)

lemma execute_veto_cases:
  assumes "execute_veto deps st env info pid = Ok (st', r)"
  obtains p s vc where
    "PROPOSALS st pid = Some p" and "current_status deps p (block env) = Ok s"
    and "veto p = Some vc" and "vetoer vc = sender info"
    and "may_veto deps vc (block env) s"
    and "st' = st\<lparr>PROPOSALS := (PROPOSALS st)(pid \<mapsto> p\<lparr>status := Vetoed\<rparr>)\<rparr>"
    and "filter is_dispatch (messages r) = []" and "data r = None"
  using assms
  by (auto simp: execute_veto_def result_ok Let_def check_is_vetoer_def split: if_splits)

lemma check_executable_Ok [result_ok]:
  "check_executable p info member = Ok u \<longleftrightarrow> may_execute (veto p) info member (status p)"
  by (auto simp: check_executable_def may_execute_def check_early_execute_enabled_def result_ok
      split: status.splits if_splits)

lemma execute_execute_cases:
  assumes "execute_execute deps st env info pid = Ok (st', r)"
  obtains p config member s where
    "PROPOSALS st pid = Some p" and "CONFIG st = Some config"
    and "sender_can_execute deps config info p = Ok member"
    and "current_status deps p (block env) = Ok s" and "may_execute (veto p) info member s"
    and "st' = st\<lparr>PROPOSALS := (PROPOSALS st)(pid \<mapsto> p\<lparr>status := Executed\<rparr>)\<rparr>"
    and "filter is_dispatch (messages r) = filter is_dispatch (dispatch config pid (msgs p))"
    and "data r = None"
  using assms
  by (auto simp: execute_execute_def result_ok Let_def)

lemma execute_close_cases:
  assumes "execute_close deps st env info pid = Ok (st', r)"
  obtains p where
    "PROPOSALS st pid = Some p" and "current_status deps p (block env) = Ok Rejected"
    and "st' = st\<lparr>PROPOSALS := (PROPOSALS st)(pid \<mapsto> p\<lparr>status := Closed\<rparr>)\<rparr>"
    and "filter is_dispatch (messages r) = []" and "data r = None"
  using assms
  by (auto simp: execute_close_def result_ok Let_def split: if_splits)

lemma execute_update_rationale_cases:
  assumes "execute_update_rationale st info pid why = Ok (st', r)"
  obtains b where "BALLOTS st (pid, sender info) = Some b"
    and "st' = st\<lparr>BALLOTS := (BALLOTS st)((pid, sender info) \<mapsto> b\<lparr>rationale := why\<rparr>)\<rparr>"
    and "messages r = []"
  using assms by (auto simp: execute_update_rationale_def result_ok split: option.splits)

section \<open>Proposals\<close>

definition fresh_proposal ::
  "config \<Rightarrow> 'm single_choice_propose_msg \<Rightarrow> addr \<Rightarrow> addr option \<Rightarrow> env \<Rightarrow> expiration
     \<Rightarrow> expiration option \<Rightarrow> nat \<Rightarrow> status \<Rightarrow> 'm single_choice_proposal" where
  "fresh_proposal config msg who dm env expir min_period tp s =
     \<lparr>title = pm_title msg, description = pm_description msg, proposer = who,
      start_height = height (block env), min_voting_period = min_period, expiration = expir,
      threshold = cfg_threshold config, total_power = tp, msgs = pm_msgs msg, status = s,
      votes = votes_zero, individual_votes = votes_zero,
      allow_revoting = cfg_allow_revoting config, veto = cfg_veto config, delegation_module = dm\<rparr>"

lemma execute_propose_cases:
  assumes "execute_propose deps st env who msg = Ok (st', r)"
  obtains config policy author voting_module expir tp min_period s i size st1 ms where
    "CONFIG st = Some config" and "CREATION_POLICY st = Some policy" and "is_permitted policy who"
    and "choose_proposer deps who (pm_proposer msg) policy = Ok author"
    and "query_voting_module deps (cfg_dao config) = Ok voting_module"
    and "query_is_active deps voting_module \<noteq> Ok False"
    and "duration_after deps (cfg_max_voting_period config) (block env) = Some expir"
    and "query_total_power deps (cfg_dao config) (Some (height (block env))) = Ok tp"
    and "current_status deps
       (fresh_proposal config msg author (DELEGATION_MODULE st) env expir min_period tp Open)
       (block env) = Ok s"
    and "advance_proposal_id st = Ok (i, st\<lparr>PROPOSAL_COUNT := Some i\<rparr>)"
    and "proposal_size deps
       (fresh_proposal config msg author (DELEGATION_MODULE st) env expir min_period tp s) = Ok size"
    and "\<not> MAX_PROPOSAL_SIZE < size"
    and "st1 = st\<lparr>PROPOSAL_COUNT := Some i, PROPOSALS := (PROPOSALS st)(i \<mapsto>
           fresh_proposal config msg author (DELEGATION_MODULE st) env expir min_period tp s)\<rparr>"
    and "(case pm_vote msg of
            Some v \<Rightarrow>
              and_then (execute_vote deps st1 env author i (auto_vote v) (auto_rationale v))
                (\<lambda>(st, response). Ok (st, messages response))
          | None \<Rightarrow> Ok (st1, [])) = Ok (st', ms)"
    and "messages r = new_proposal_hooks (PROPOSAL_HOOKS st) i author @ ms"
proof -
  note finish = that [unfolded fresh_proposal_def]
  have active: "unwrap_or m True = (Ok True :: (bool, contract_error) result) \<Longrightarrow> m \<noteq> Ok False" for m
    by auto
  from assms show ?thesis
    apply (auto simp: execute_propose_def result_ok Let_def get_total_power_def split: if_splits)
    apply (frule advance_proposal_id_Ok(2))
    apply (drule active)
    apply hypsubst
    apply (simp cong: option.case_cong)
    apply (rule finish)
    apply (assumption | rule refl | simp)+
    done
qed

section \<open>Messages of the DAO\<close>

definition is_admin_msg :: "'m execute_msg \<Rightarrow> bool" where
  "is_admin_msg msg =
     (case msg of
        UpdateConfig _ _ _ _ _ _ _ _ \<Rightarrow> True
      | UpdatePreProposeInfo _ \<Rightarrow> True
      | UpdateDelegationModule _ \<Rightarrow> True
      | AddProposalHook _ \<Rightarrow> True
      | RemoveProposalHook _ \<Rightarrow> True
      | AddVoteHook _ \<Rightarrow> True
      | RemoveVoteHook _ \<Rightarrow> True
      | _ \<Rightarrow> False)"

lemmas admin_handler_defs =
  execute_update_config_def execute_update_proposal_creation_policy_def
  execute_update_delegation_module_def execute_add_proposal_hook_def
  execute_remove_proposal_hook_def execute_add_vote_hook_def execute_remove_vote_hook_def

lemma execute_admin:
  assumes "execute deps st env info msg = Ok (st', r)" and "is_admin_msg msg"
  shows "\<exists>config. CONFIG st = Some config \<and> sender info = cfg_dao config"
    and "same_records st st'" and "filter is_dispatch (messages r) = []"
  using assms
  by (cases msg; auto simp: execute_def is_admin_msg_def admin_handler_defs result_ok
      same_records_def initial_policy_no_dispatch split: if_splits prod.splits)+

section \<open>Every message\<close>

lemma execute_cases:
  assumes "execute deps st env info msg = Ok (st', r)"
  obtains
    (propose) m where "msg = Propose m" "execute_propose deps st env (sender info) m = Ok (st', r)"
  | (vote) pid v why where "msg = Vote pid v why"
      "execute_vote deps st env (sender info) pid v why = Ok (st', r)"
  | (rationale) pid why where "msg = UpdateRationale pid why"
      "execute_update_rationale st info pid why = Ok (st', r)"
  | (conclude) pid p s new where "PROPOSALS st pid = Some p"
      "current_status deps p (block env) = Ok s" "concludes s new"
      "st' = st\<lparr>PROPOSALS := (PROPOSALS st)(pid \<mapsto> p\<lparr>status := new\<rparr>)\<rparr>"
      "filter is_dispatch (messages r) \<noteq> [] \<longrightarrow> msg = Execute pid \<and> new = Executed"
  | (admin) "is_admin_msg msg"
proof (cases msg)
  case (Execute pid)
  with assms have "execute_execute deps st env info pid = Ok (st', r)" by (simp add: execute_def)
  then show ?thesis
    by (cases rule: execute_execute_cases)
       (rule conclude, auto simp: concludes_def may_execute_def Execute)
next
  case (Veto pid)
  with assms have "execute_veto deps st env info pid = Ok (st', r)" by (simp add: execute_def)
  then show ?thesis
    by (cases rule: execute_veto_cases) (rule conclude, auto simp: concludes_def may_veto_def)
next
  case (Close pid)
  with assms have "execute_close deps st env info pid = Ok (st', r)" by (simp add: execute_def)
  then show ?thesis
    by (cases rule: execute_close_cases) (rule conclude, auto simp: concludes_def)
qed (use assms propose vote rationale admin in \<open>auto simp: execute_def is_admin_msg_def\<close>)

section \<open>Replies\<close>

lemma reply_cases:
  assumes "reply deps st msg = Ok (st', r)"
  obtains
    (failed) pid p where "tagged_reply_id_new (rep_id msg) = Ok (FailedProposalExecution pid)"
      "PROPOSALS st pid = Some p"
      "st' = st\<lparr>PROPOSALS := (PROPOSALS st)(pid \<mapsto> p\<lparr>status := ExecutionFailed\<rparr>)\<rparr>" "messages r = []"
  | (hook) idx a hs where "tagged_reply_id_new (rep_id msg) = Ok (FailedProposalHook idx)"
      "remove_hook_by_index (PROPOSAL_HOOKS st) idx = Ok (a, hs)"
      "st' = st\<lparr>PROPOSAL_HOOKS := hs\<rparr>" "messages r = []"
  | (vote_hook) idx a hs where "tagged_reply_id_new (rep_id msg) = Ok (FailedVoteHook idx)"
      "remove_hook_by_index (VOTE_HOOKS st) idx = Ok (a, hs)"
      "st' = st\<lparr>VOTE_HOOKS := hs\<rparr>" "messages r = []"
  | (policy) policy where "st' = st\<lparr>CREATION_POLICY := Some policy\<rparr>" "messages r = []"
proof -
  from assms obtain t where t: "tagged_reply_id_new (rep_id msg) = Ok t"
    by (auto simp: reply_def result_ok)
  show ?thesis
  proof (cases t)
    case (FailedProposalExecution pid)
    with assms t show ?thesis
      by (auto simp: reply_def result_ok split: option.splits intro: failed)
  next
    case (FailedProposalHook idx)
    with assms t show ?thesis by (auto simp: reply_def result_ok intro: hook)
  next
    case (FailedVoteHook idx)
    with assms t show ?thesis by (auto simp: reply_def result_ok intro: vote_hook)
  next
    case FailedPreProposeModuleHook
    with assms t obtain pol where pol: "CREATION_POLICY st = Some pol"
      by (auto simp: reply_def result_ok)
    with assms t FailedPreProposeModuleHook policy show ?thesis
      by (cases pol) (auto simp: reply_def result_ok)
  next
    case PreProposeModuleInstantiation
    with assms t show ?thesis by (auto simp: reply_def result_ok intro: policy)
  qed
qed

end
