(* ===== verification/Proposal_Single_Props.thy ===== *)
theory Proposal_Single_Props
  imports Proposal_Single_Effects
begin

text \<open>
  Invariants of \<open>dao-proposal-single\<close>: the numbering of proposals, the tallies, the
  configuration and the hook registries. Then the lifecycle of proposals over every sequence of
  messages and replies.
\<close>

interpretation single_module:
  module_tally add_vote remove_vote votes_get votes individual_votes
  by unfold_locales

section \<open>The invariant\<close>

definition valid_config :: "config \<Rightarrow> bool" where
  "valid_config c \<longleftrightarrow>
     valid_threshold (cfg_threshold c) \<and>
     valid_periods (cfg_min_voting_period c) (cfg_max_voting_period c) \<and>
     valid_timelock (cfg_veto c) (cfg_max_voting_period c)"

definition single_tallied :: "'m single_state \<Rightarrow> bool" where
  "single_tallied st \<longleftrightarrow>
     single_module.tally_inv (PROPOSALS st) (BALLOTS st)"

definition single_inv :: "'m single_state \<Rightarrow> bool" where
  "single_inv st \<longleftrightarrow>
     numbered st \<and> single_tallied st \<and>
     hooks_distinct (PROPOSAL_HOOKS st) \<and> hooks_distinct (VOTE_HOOKS st) \<and>
     (\<forall>c. CONFIG st = Some c \<longrightarrow> valid_config c) \<and>
     (\<forall>pid p. PROPOSALS st pid = Some p \<longrightarrow> valid_threshold (threshold p))"

lemma validate_veto_Ok: "validate_veto cw v mx = Ok u \<Longrightarrow> valid_timelock v mx"
  by (auto simp: validate_veto_def veto_validate_def valid_timelock_def result_ok
      split: option.splits duration.splits)

section \<open>Votes keep the tallies\<close>

lemma vote_keeps_tallies:
  assumes "execute_vote deps st env who pid v why = Ok (st', r)" and "single_tallied st"
  shows "single_tallied st'"
  using assms(1)
proof (cases rule: execute_vote_cases)
  case (1 config p vp ballot prop1 first bs vs vs' ivs s)
  let ?q = "prop1\<lparr>votes := vs', individual_votes := ivs, status := s\<rparr>"
  have inv: "single_module.tally_inv (PROPOSALS st) (BALLOTS st)"
    using assms(2) by (simp add: single_tallied_def)
  from 1(6) have "single_module.tally_inv ((PROPOSALS st)(pid \<mapsto> ?q)) bs"
  proof (cases rule: update_ballot_cases)
    case fresh
    with 1 show ?thesis
      by (intro single_module.tally_inv_first_vote [OF inv 1(2) fresh(1), where b = ballot]) auto
  next
    case (changed old us ius)
    with 1 have "bs = (BALLOTS st)((pid, who) \<mapsto> ballot)" "vs = us" by auto
    with 1 changed single_module.tally_inv_revote [OF inv 1(2) changed(1,5,6), of ballot ?q]
    show ?thesis by simp
  qed
  with 1(11) show ?thesis by (simp add: single_tallied_def)
qed

lemma vote_frame:
  assumes "execute_vote deps st env who pid v why = Ok (st', r)"
  obtains p q where "PROPOSALS st pid = Some p" and "PROPOSALS st' = (PROPOSALS st)(pid \<mapsto> q)"
    and "q = p\<lparr>votes := votes q, individual_votes := individual_votes q, status := status q\<rparr>"
    and "\<exists>us ius. current_status deps (p\<lparr>votes := us, individual_votes := ius\<rparr>) (block env) = Ok (status q)"
    and "same_settings st st'" and "PROPOSAL_COUNT st' = PROPOSAL_COUNT st"
    and "\<And>i a. (i, a) \<in> dom (BALLOTS st') \<Longrightarrow> i = pid \<or> (i, a) \<in> dom (BALLOTS st)"
    and "filter is_dispatch (messages r) = []"
proof -
  from assms show ?thesis
  proof (cases rule: execute_vote_cases)
    case (1 config p vp ballot prop1 first bs vs vs' ivs s)
    obtain us ius where prop1: "prop1 = p\<lparr>votes := us, individual_votes := ius\<rparr>"
    proof -
      from 1(6) have "prop1 = p\<lparr>votes := votes prop1, individual_votes := individual_votes prop1\<rparr>"
        by (cases rule: update_ballot_cases) simp_all
      then show ?thesis by (rule that)
    qed
    have new: "i = pid \<or> (i, a) \<in> dom (BALLOTS st)" if "(i, a) \<in> dom bs" for i a
    proof (cases first)
      case True
      with 1(7) that show ?thesis by (auto dest!: single_tally.override_frame)
    next
      case False
      with 1(7) that show ?thesis by auto
    qed
    show ?thesis
      by (rule that [of p "p\<lparr>votes := vs', individual_votes := ivs, status := s\<rparr>"])
         (use 1(2,10-12) prop1 new in \<open>auto simp: same_settings_def\<close>)
  qed
qed

section \<open>Every message keeps the invariant\<close>

lemma vote_keeps_inv:
  assumes "execute_vote deps st env who pid v why = Ok (st', r)" and "single_inv st"
  shows "single_inv st'"
  using assms(1)
proof (cases rule: vote_frame)
  case (1 p q)
  have "numbered st'"
    by (rule numbered_update [of st pid]) (use assms(2) 1 in \<open>auto simp: single_inv_def\<close>)
  moreover have "single_tallied st'"
    using assms by (auto simp: single_inv_def intro: vote_keeps_tallies)
  moreover have "threshold q = threshold p"
    using arg_cong [OF 1(3), of threshold] by simp
  ultimately show ?thesis
    using assms(2) 1(1,2,5) by (auto simp: single_inv_def same_settings_def)
qed

lemma votes_get_zero [simp]: "votes_get v votes_zero = 0"
  by (simp add: votes_get_def votes_zero_def split: vote.splits)

lemma fresh_proposal_simps [simp]:
  "threshold (fresh_proposal c m who dm env e mn tp s) = cfg_threshold c"
  "votes (fresh_proposal c m who dm env e mn tp s) = votes_zero"
  "individual_votes (fresh_proposal c m who dm env e mn tp s) = votes_zero"
  "status (fresh_proposal c m who dm env e mn tp s) = s"
  "allow_revoting (fresh_proposal c m who dm env e mn tp s) = cfg_allow_revoting c"
  "delegation_module (fresh_proposal c m who dm env e mn tp s) = dm"
  "expiration (fresh_proposal c m who dm env e mn tp s) = e"
  "veto (fresh_proposal c m who dm env e mn tp s) = cfg_veto c"
  by (simp_all add: fresh_proposal_def)

lemma new_proposal_keeps_inv:
  assumes "single_inv st" and "advance_proposal_id st = Ok (i, st0)" and "CONFIG st = Some c"
  shows "single_inv (st\<lparr>PROPOSAL_COUNT := Some i, PROPOSALS := (PROPOSALS st)(i \<mapsto>
      fresh_proposal c m who dm env e mn tp s)\<rparr>)"
proof -
  have i: "unat i = proposal_count st + 1" using assms(2) by (rule advance_proposal_id_Ok)
  have n: "numbered st" using assms(1) by (simp add: single_inv_def)
  have "single_module.tally_inv ((PROPOSALS st)(i \<mapsto> fresh_proposal c m who dm env e mn tp s)) (BALLOTS st)"
    using assms(1) numbered_next_free(2) [OF n i]
    by (intro single_module.tally_inv_new) (auto simp: single_inv_def single_tallied_def)
  with numbered_add [OF n i] assms(1,3) show ?thesis
    by (auto simp: single_inv_def single_tallied_def valid_config_def)
qed

lemma propose_keeps_inv:
  assumes "execute_propose deps st env who m = Ok (st', r)" and "single_inv st"
  shows "single_inv st'"
  using assms(1)
proof (cases rule: execute_propose_cases)
  case (1 config policy author voting_module expir tp min_period s i size st1 ms)
  have st1: "single_inv st1"
    unfolding 1(13) using assms(2) 1(10) 1(1) by (rule new_proposal_keeps_inv)
  show ?thesis
  proof (cases "pm_vote m")
    case None
    with 1(14) st1 show ?thesis by simp
  next
    case (Some v)
    with 1(14) obtain r' where
      "execute_vote deps st1 env author i (auto_vote v) (auto_rationale v) = Ok (st', r')"
      by (auto simp: result_ok)
    then show ?thesis using st1 by (rule vote_keeps_inv)
  qed
qed

lemma rationale_keeps_inv:
  assumes "execute_update_rationale st info pid why = Ok (st', r)" and "single_inv st"
  shows "single_inv st'"
  using assms(1)
proof (cases rule: execute_update_rationale_cases)
  case (1 b)
  have "single_tallied st'"
    using assms(2) 1(1,2)
    by (auto simp: single_inv_def single_tallied_def intro!: single_module.tally_inv_same_ballot)
  moreover have "numbered st'"
  proof (rule numbered_update [of st pid])
    show "pid \<in> dom (PROPOSALS st)"
      using assms(2) 1(1) unfolding single_inv_def numbered_def by blast
  qed (use assms(2) 1(2) in \<open>auto simp: single_inv_def\<close>)
  ultimately show ?thesis using assms(2) 1(2) by (auto simp: single_inv_def)
qed

lemma status_keeps_inv:
  assumes "single_inv st" and "PROPOSALS st pid = Some p"
  shows "single_inv (st\<lparr>PROPOSALS := (PROPOSALS st)(pid \<mapsto> p\<lparr>status := s\<rparr>)\<rparr>)"
proof -
  have "numbered (st\<lparr>PROPOSALS := (PROPOSALS st)(pid \<mapsto> p\<lparr>status := s\<rparr>)\<rparr>)"
    by (rule numbered_update [of st pid]) (use assms in \<open>auto simp: single_inv_def\<close>)
  with assms show ?thesis
    by (auto simp: single_inv_def single_tallied_def intro!: single_module.tally_inv_same)
qed

lemma admin_config_valid:
  assumes "execute deps st env info msg = Ok (st', r)" and "is_admin_msg msg"
    and "\<forall>c. CONFIG st = Some c \<longrightarrow> valid_config c" and "CONFIG st' = Some c"
  shows "valid_config c"
proof (cases msg)
  case (UpdateConfig thr mx mn mem rv dao cl vt)
  with assms(1,4) show ?thesis
    by (auto simp: execute_def execute_update_config_def result_ok valid_config_def
        valid_threshold_def validate_voting_period_Ok split: if_splits dest!: validate_veto_Ok)
qed (use assms in \<open>auto simp: execute_def is_admin_msg_def admin_handler_defs result_ok
      split: if_splits prod.splits\<close>)

lemma admin_hooks_distinct:
  assumes "execute deps st env info msg = Ok (st', r)" and "is_admin_msg msg"
    and "hooks_distinct (PROPOSAL_HOOKS st)" and "hooks_distinct (VOTE_HOOKS st)"
  shows "hooks_distinct (PROPOSAL_HOOKS st') \<and> hooks_distinct (VOTE_HOOKS st')"
  using assms
  by (cases msg) (auto simp: execute_def is_admin_msg_def admin_handler_defs result_ok
      intro: add_hook_distinct remove_hook_distinct split: if_splits prod.splits)

lemma same_records_keeps_inv:
  assumes "single_inv st" and "same_records st st'"
    and "hooks_distinct (PROPOSAL_HOOKS st')" and "hooks_distinct (VOTE_HOOKS st')"
    and "\<And>c. CONFIG st' = Some c \<Longrightarrow> valid_config c"
  shows "single_inv st'"
proof -
  have "numbered st' \<longleftrightarrow> numbered st" using assms(2) by (rule same_records_numbered)
  with assms show ?thesis by (simp add: single_inv_def single_tallied_def same_records_def)
qed

lemma execute_keeps_inv:
  assumes "execute deps st env info msg = Ok (st', r)" and "single_inv st"
  shows "single_inv st'"
  using assms(1)
proof (cases rule: execute_cases)
  case (propose m)
  with assms(2) show ?thesis by (blast intro: propose_keeps_inv)
next
  case (vote pid v why)
  with assms(2) show ?thesis by (blast intro: vote_keeps_inv)
next
  case (rationale pid why)
  with assms(2) show ?thesis by (blast intro: rationale_keeps_inv)
next
  case (conclude pid p s new)
  with assms(2) show ?thesis by (simp add: status_keeps_inv)
next
  case admin
  with assms(2) admin_hooks_distinct [OF assms(1) admin]
  show ?thesis
    by (intro same_records_keeps_inv [OF assms(2) execute_admin(2) [OF assms(1)]])
       (auto simp: single_inv_def intro: admin_config_valid [OF assms(1)])
qed

lemma reply_keeps_inv:
  assumes "reply deps st msg = Ok (st', r)" and "single_inv st"
  shows "single_inv st'"
proof -
  have inv: "hooks_distinct (PROPOSAL_HOOKS st)" "hooks_distinct (VOTE_HOOKS st)"
    "\<And>c. CONFIG st = Some c \<Longrightarrow> valid_config c"
    using assms(2) by (auto simp: single_inv_def)
  from assms(1) show ?thesis
  proof (cases rule: reply_cases)
    case (failed pid p)
    with assms(2) show ?thesis by (simp add: status_keeps_inv)
  qed (rule same_records_keeps_inv [OF assms(2)],
      use inv in \<open>auto simp: same_records_def dest: remove_hook_by_index_distinct\<close>)+
qed

section \<open>The lifecycle of a proposal\<close>

definition evolves :: "'m single_choice_proposal \<Rightarrow> 'm single_choice_proposal \<Rightarrow> bool" where
  "evolves p q \<longleftrightarrow>
     q = p\<lparr>votes := votes q, individual_votes := individual_votes q, status := status q\<rparr> \<and>
     may_become (status p) (status q)"

lemma evolves_refl [simp]: "evolves p p"
  by (simp add: evolves_def)

lemma evolves_trans:
  assumes "evolves p q" and "evolves q r"
  shows "evolves p r"
proof -
  have "r = p\<lparr>votes := votes r, individual_votes := individual_votes r, status := status r\<rparr>"
    using assms by (cases p; cases q; cases r) (simp add: evolves_def)
  with assms show ?thesis by (auto simp: evolves_def intro: may_become_trans)
qed

lemma current_status_becomes: "current_status cw p b = Ok s \<Longrightarrow> may_become (status p) s"
  by (auto simp: current_status_def may_become_def result_ok split: status.splits if_splits)

lemma vote_evolves:
  assumes "execute_vote deps st env who pid v why = Ok (st', r)" and "PROPOSALS st i = Some p"
  shows "\<exists>q. PROPOSALS st' i = Some q \<and> evolves p q"
  using assms(1)
proof (cases rule: vote_frame)
  case (1 p' q)
  from 1(4) have "may_become (status p') (status q)"
    by (auto dest: current_status_becomes)
  with 1(1-3) assms(2) show ?thesis by (auto simp: evolves_def)
qed

lemma propose_evolves:
  assumes "execute_propose deps st env who m = Ok (st', r)" and "numbered st" and "PROPOSALS st i = Some p"
  shows "\<exists>q. PROPOSALS st' i = Some q \<and> evolves p q"
  using assms(1)
proof (cases rule: execute_propose_cases)
  case (1 config policy author voting_module expir tp min_period s j size st1 ms)
  have "PROPOSALS st j = None"
    using assms(2) advance_proposal_id_Ok(1) [OF 1(10)] by (rule numbered_next_free)
  with 1(13) assms(3) have p: "PROPOSALS st1 i = Some p" by auto
  show ?thesis
  proof (cases "pm_vote m")
    case None
    with 1(14) p show ?thesis by auto
  next
    case (Some v)
    with 1(14) p show ?thesis by (auto simp: result_ok dest: vote_evolves)
  qed
qed

lemma status_evolves:
  "PROPOSALS st pid = Some p' \<Longrightarrow> may_become (status p') s \<Longrightarrow> PROPOSALS st i = Some p \<Longrightarrow>
     \<exists>q. ((PROPOSALS st)(pid \<mapsto> p'\<lparr>status := s\<rparr>)) i = Some q \<and> evolves p q"
  by (auto simp: evolves_def)

lemma execute_evolves:
  assumes "execute deps st env info msg = Ok (st', r)" and "numbered st" and "PROPOSALS st i = Some p"
  shows "\<exists>q. PROPOSALS st' i = Some q \<and> evolves p q"
  using assms(1)
proof (cases rule: execute_cases)
  case (propose m)
  with assms show ?thesis by (blast intro: propose_evolves)
next
  case (vote pid v why)
  with assms show ?thesis by (blast intro: vote_evolves)
next
  case (rationale pid why)
  from rationale(2) show ?thesis
    by (cases rule: execute_update_rationale_cases) (use assms(3) in auto)
next
  case (conclude pid p' s new)
  then have "may_become (status p') new"
    by (auto dest!: current_status_becomes concludes_becomes intro: may_become_trans)
  with conclude(1,4) assms(3) show ?thesis using status_evolves [of st pid p' new i p] by simp
next
  case admin
  from execute_admin(2) [OF assms(1) admin] assms(3) show ?thesis
    by (auto simp: same_records_def)
qed

section \<open>Runs of the module\<close>

text \<open>
  A step is a message or a reply. A reply that an execution failed arrives right after the
  execution, since the chain reverts what the failed message did: the proposal is then executed.
  \<open>dispatched\<close> is the proposal whose messages the step handed to the DAO.
\<close>

definition dispatched :: "'m execute_msg \<Rightarrow> 'm response \<Rightarrow> u64 list" where
  "dispatched msg r =
     (case msg of Execute pid \<Rightarrow> if filter is_dispatch (messages r) = [] then [] else [pid] | _ \<Rightarrow> [])"

definition reply_expected :: "'m single_state \<Rightarrow> reply \<Rightarrow> bool" where
  "reply_expected st msg \<longleftrightarrow>
     (case tagged_reply_id_new (rep_id msg) of
        Ok (FailedProposalExecution pid) \<Rightarrow> (\<exists>p. PROPOSALS st pid = Some p \<and> status p = Executed)
      | _ \<Rightarrow> True)"

inductive single_step :: "'m single_state \<Rightarrow> u64 list \<Rightarrow> 'm single_state \<Rightarrow> bool" where
  step_execute: "execute deps st env info msg = Ok (st', r) \<Longrightarrow> single_step st (dispatched msg r) st'"
| step_reply: "reply (deps :: 'm single_choice_proposal module_deps) st msg = Ok (st', r) \<Longrightarrow>
      reply_expected st msg \<Longrightarrow> single_step st [] st'"

abbreviation single_run :: "'m single_state \<Rightarrow> u64 list \<Rightarrow> 'm single_state \<Rightarrow> bool" where
  "single_run \<equiv> module_run single_step"

inductive_cases single_stepE: "single_step st l st'"

lemma step_keeps_inv: "single_step st l st' \<Longrightarrow> single_inv st \<Longrightarrow> single_inv st'"
  by (auto elim!: single_stepE intro: execute_keeps_inv reply_keeps_inv)

lemma reply_evolves:
  assumes "reply deps st msg = Ok (st', r)" and "reply_expected st msg" and "PROPOSALS st i = Some p"
  shows "\<exists>q. PROPOSALS st' i = Some q \<and> evolves p q"
  using assms(1)
proof (cases rule: reply_cases)
  case (failed pid p')
  with assms(2) have "may_become (status p') ExecutionFailed"
    by (auto simp: reply_expected_def may_become_def)
  with failed assms(3) show ?thesis using status_evolves [of st pid p' ExecutionFailed i p] by simp
qed (use assms(3) in auto)

lemma step_evolves:
  "single_step st l st' \<Longrightarrow> single_inv st \<Longrightarrow> PROPOSALS st i = Some p \<Longrightarrow>
     \<exists>q. PROPOSALS st' i = Some q \<and> evolves p q"
  by (auto elim!: single_stepE intro: execute_evolves reply_evolves simp: single_inv_def)

section \<open>Dispatching\<close>

lemma current_status_final:
  "status p \<in> {Executed, ExecutionFailed} \<Longrightarrow> current_status cw p b = Ok (status p)"
  by (auto simp: current_status_def)

lemma step_dispatches:
  assumes "single_step st l st'"
  shows "l = [] \<or> (\<exists>pid. l = [pid] \<and> \<not> was_executed status st pid \<and> was_executed status st' pid)"
  using assms
proof (cases rule: single_step.cases)
  case (step_execute deps env info msg r)
  show ?thesis
  proof (cases "\<exists>pid. msg = Execute pid \<and> filter is_dispatch (messages r) \<noteq> []")
    case True
    then obtain pid where pid: "msg = Execute pid" "l = [pid]"
      using step_execute(1) by (auto simp: dispatched_def)
    with step_execute(2) have "execute_execute deps st env info pid = Ok (st', r)"
      by (simp add: execute_def)
    then show ?thesis
    proof (cases rule: execute_execute_cases)
      case (1 p config member s)
      then have "s = Passed \<or> (\<exists>e. s = VetoTimelock e)" by (auto simp: may_execute_def)
      with 1(4) have "status p \<notin> {Executed, ExecutionFailed}"
        using current_status_final [of p deps "block env"] by auto
      with 1(1,6) pid show ?thesis by (auto simp: was_executed_def)
    qed
  next
    case False
    then have "l = []" using step_execute(1) by (auto simp: dispatched_def split: execute_msg.splits)
    then show ?thesis by simp
  qed
qed auto

section \<open>Votes without revoting only grow\<close>

lemma votes_get_eqI: "(\<And>v. votes_get v a = votes_get v b) \<Longrightarrow> a = b"
  for a b :: votes
proof -
  assume eq: "\<And>v. votes_get v a = votes_get v b"
  show "a = b"
    using eq [of Yes] eq [of No] eq [of Abstain] by (simp add: votes_get_def)
qed

lemma add_vote_extends: "add_vote v n t = (Ok t' :: (votes, std_error) result) \<Longrightarrow> extends t t'"
  by (auto simp: add_vote_def extends_def result_ok split: vote.splits)

lemma extends_trans: "extends a b \<Longrightarrow> extends b c \<Longrightarrow> extends a c"
  by (auto simp: extends_def)

lemma vote_extends:
  assumes "execute_vote deps st env who pid v why = Ok (st', r)"
    and "PROPOSALS st i = Some p" and "PROPOSALS st' i = Some q" and "\<not> allow_revoting p"
  shows "extends (individual_votes p) (individual_votes q)"
  using assms(1)
proof (cases rule: execute_vote_cases)
  case (1 config p' vp ballot prop1 first bs vs vs' ivs s)
  show ?thesis
  proof (cases "i = pid")
    case True
    then have "p' = p" using 1(2) assms(2) by simp
    from 1(6) have "individual_votes prop1 = individual_votes p'"
      by (cases rule: update_ballot_cases) (use assms(4) \<open>p' = p\<close> in auto)
    with 1(9,11) assms(3) True \<open>p' = p\<close> show ?thesis by (auto dest: add_vote_extends)
  next
    case False
    with 1(11) assms(2,3) show ?thesis by simp
  qed
qed

text \<open>Steps that are not votes leave the tallies of stored proposals alone.\<close>

lemma step_extends:
  assumes "single_step st l st'" and "single_inv st"
    and "PROPOSALS st i = Some p" and "PROPOSALS st' i = Some q" and "\<not> allow_revoting p"
  shows "extends (individual_votes p) (individual_votes q)"
  using assms(1)
proof (cases rule: single_step.cases)
  case (step_reply deps msg r)
  from step_reply(2) show ?thesis
    by (cases rule: reply_cases) (use assms(3,4) in \<open>auto split: if_splits\<close>)
next
  case (step_execute deps env info msg r)
  from step_execute(2) show ?thesis
  proof (cases rule: execute_cases)
    case (propose m)
    from propose(2) show ?thesis
    proof (cases rule: execute_propose_cases)
      case (1 config policy author voting_module expir tp min_period s j size st1 ms)
      have "numbered st" using assms(2) by (simp add: single_inv_def)
      then have "PROPOSALS st j = None"
        using advance_proposal_id_Ok(1) [OF 1(10)] by (rule numbered_next_free)
      with 1(13) assms(3) have p: "PROPOSALS st1 i = Some p" by auto
      with 1(14) assms(4,5) show ?thesis
        by (auto simp: result_ok split: option.splits dest: vote_extends)
    qed
  next
    case (vote pid v why)
    with assms(3-5) show ?thesis by (auto intro: vote_extends)
  next
    case (rationale pid why)
    from rationale(2) show ?thesis
      by (cases rule: execute_update_rationale_cases) (use assms(3,4) in auto)
  next
    case (conclude pid p' s new)
    with assms(3,4) show ?thesis by (auto split: if_splits)
  next
    case admin
    from execute_admin(2) [OF step_execute(2) admin] assms(3,4) show ?thesis
      by (simp add: same_records_def)
  qed
qed

section \<open>Runs keep the contract\<close>

interpretation single_proposals: counted_lifecycle single_step single_inv status evolves
  allow_revoting "\<lambda>p q. extends (individual_votes p) (individual_votes q)"
proof unfold_locales
  fix p q :: "'a single_choice_proposal"
  assume "evolves p q"
  then show "may_become (status p) (status q)" and "allow_revoting q = allow_revoting p"
    by (cases p; cases q; simp add: evolves_def)+
qed (auto intro: step_keeps_inv evolves_trans step_evolves extends_trans step_extends dest: step_dispatches)

lemmas run_keeps_inv = single_proposals.run_inv
lemmas run_evolves = single_proposals.run_evolves
lemmas run_dispatches_once = single_proposals.run_dispatches_once
lemmas run_extends = single_proposals.run_grows

section \<open>Without delegation\<close>

text \<open>Ballots on a proposal without delegation module carry the voter's own power only.\<close>

definition undelegated :: "'m single_state \<Rightarrow> bool" where
  "undelegated st \<longleftrightarrow>
     (\<forall>pid p a b. PROPOSALS st pid = Some p \<longrightarrow> delegation_module p = None \<longrightarrow>
        BALLOTS st (pid, a) = Some b \<longrightarrow> power b = individual_power b)"

lemma undelegated_tallies:
  assumes "single_tallied st" and "undelegated st" and "PROPOSALS st pid = Some p"
    and "delegation_module p = None"
  shows "votes p = individual_votes p"
proof (rule votes_get_eqI)
  fix v
  have "contribution power (BALLOTS st) pid v a = contribution individual_power (BALLOTS st) pid v a" for a
    using assms(2-4) by (auto simp: contribution_def undelegated_def split: option.splits)
  then have "ballot_sum power (BALLOTS st) pid v = ballot_sum individual_power (BALLOTS st) pid v"
    by (simp add: ballot_sum_def)
  with single_module.tally_invD(2,3) [of "PROPOSALS st" "BALLOTS st" pid p] assms(1,3)
  show "votes_get v (votes p) = votes_get v (individual_votes p)"
    by (simp add: single_tallied_def single_tally.tallies_def)
qed

lemma undelegated_power:
  "get_voting_power_with_delegation deps pm None dao who pid h = Ok vp \<Longrightarrow>
     vp_total vp = vp_individual vp"
  by (auto simp: get_voting_power_with_delegation_def udvp_default_def result_ok)

lemma vote_keeps_undelegated:
  assumes "execute_vote deps st env who pid v why = Ok (st', r)" and "undelegated st"
  shows "undelegated st'"
  using assms(1)
proof (cases rule: execute_vote_cases)
  case (1 config p vp ballot prop1 first bs vs vs' ivs s)
  have other: "bs (i, a) = BALLOTS st (i, a)" if "i \<noteq> pid" for i a
    using 1(7) that by (cases first) (auto dest!: single_tally.override_frame)
  have dm: "delegation_module prop1 = delegation_module p" and b: "ballot = cast_ballot vp v why"
    using 1(6) by (cases rule: update_ballot_cases; simp)+
  have same: "bs = (BALLOTS st)((pid, who) \<mapsto> ballot)" if "delegation_module p = None"
    using 1(7) dm that by (auto simp: handle_delegate_vote_override_def split: if_splits)
  show ?thesis
    unfolding undelegated_def
  proof (intro allI impI)
    fix i q a c
    assume q: "PROPOSALS st' i = Some q" "delegation_module q = None" "BALLOTS st' (i, a) = Some c"
    show "power c = individual_power c"
    proof (cases "i = pid")
      case True
      with q 1(11) dm have "delegation_module p = None" by auto
      moreover from this 1(4) have "vp_total vp = vp_individual vp" by (auto intro: undelegated_power)
      ultimately show ?thesis
        using q(3) 1(2,11) same b True assms(2) by (auto simp: undelegated_def split: if_splits)
    next
      case False
      with q 1(11) other assms(2) show ?thesis by (auto simp: undelegated_def)
    qed
  qed
qed

lemma undelegated_cong:
  assumes "undelegated st" and "BALLOTS st' = BALLOTS st"
    and "\<And>pid q. PROPOSALS st' pid = Some q \<Longrightarrow>
      (\<forall>a. BALLOTS st (pid, a) = None) \<or>
      (\<exists>p. PROPOSALS st pid = Some p \<and> delegation_module q = delegation_module p)"
  shows "undelegated st'"
  unfolding undelegated_def
proof (intro allI impI)
  fix i q a c
  assume q: "PROPOSALS st' i = Some q" "delegation_module q = None" "BALLOTS st' (i, a) = Some c"
  from assms(3) [OF q(1)] show "power c = individual_power c"
  proof
    assume "\<exists>p. PROPOSALS st i = Some p \<and> delegation_module q = delegation_module p"
    then obtain p where "PROPOSALS st i = Some p" "delegation_module p = None" using q(2) by auto
    with assms(1,2) q(3) show ?thesis unfolding undelegated_def by auto
  qed (use assms(2) q(3) in auto)
qed

lemma execute_keeps_undelegated:
  assumes "execute deps st env info msg = Ok (st', r)" and "numbered st" and "undelegated st"
  shows "undelegated st'"
  using assms(1)
proof (cases rule: execute_cases)
  case (propose m)
  from propose(2) show ?thesis
  proof (cases rule: execute_propose_cases)
    case (1 config policy author voting_module expir tp min_period s j size st1 ms)
    have "undelegated st1"
      using numbered_next_free(2) [OF assms(2) advance_proposal_id_Ok(1) [OF 1(10)]] 1(13)
      by (intro undelegated_cong [OF assms(3)]) (auto split: if_splits)
    with 1(14) show ?thesis
      by (auto simp: result_ok split: option.splits intro: vote_keeps_undelegated)
  qed
next
  case (vote pid v why)
  with assms(3) show ?thesis by (blast intro: vote_keeps_undelegated)
next
  case (rationale pid why)
  from rationale(2) show ?thesis
    by (cases rule: execute_update_rationale_cases)
       (use assms(3) in \<open>auto simp: undelegated_def split: if_splits\<close>)
next
  case (conclude pid p' s new)
  with assms(3) show ?thesis by (intro undelegated_cong [OF assms(3)]) (auto split: if_splits)
next
  case admin
  from execute_admin(2) [OF assms(1) admin] show ?thesis
    by (intro undelegated_cong [OF assms(3)]) (auto simp: same_records_def)
qed

lemma run_keeps_undelegated:
  assumes "single_run st log st'" and "single_inv st" and "undelegated st"
  shows "undelegated st'"
  using assms
proof (induction rule: module_run.induct)
  case (run_step st log st' l st'')
  then have u: "undelegated st'" and n: "numbered st'"
    by (auto dest: run_keeps_inv simp: single_inv_def)
  from run_step.hyps(2) show ?case
  proof (cases rule: single_step.cases)
    case (step_execute deps env info msg r)
    with u n show ?thesis by (blast intro: execute_keeps_undelegated)
  next
    case (step_reply deps msg r)
    from step_reply(2) show ?thesis
      by (cases rule: reply_cases) (rule undelegated_cong [OF u]; auto split: if_splits)+
  qed
qed simp

section \<open>Instantiation\<close>

lemma instantiate_inv:
  assumes "instantiate deps empty_state info msg = Ok (st, r)"
  shows "single_inv st" and "CONFIG st \<noteq> None" and "CREATION_POLICY st \<noteq> None"
    and "filter is_dispatch (messages r) = []" and "undelegated st"
proof -
  from assms obtain mn mx dm policy ms where
    v: "threshold_validate (im_threshold msg) = Ok ()" "valid_periods mn mx"
    "valid_timelock (im_veto msg) mx"
    "into_initial_policy_and_messages (im_pre_propose_info msg) (sender info) = (policy, ms)"
    and st: "st = empty_state\<lparr>CONTRACT_INFO := Some (CONTRACT_NAME, CONTRACT_VERSION),
          PROPOSAL_COUNT := Some 0,
          CONFIG := Some
            \<lparr>cfg_threshold = im_threshold msg, cfg_max_voting_period = mx, cfg_min_voting_period = mn,
             cfg_only_members_execute = im_only_members_execute msg,
             cfg_allow_revoting = im_allow_revoting msg, cfg_dao = sender info,
             cfg_close_proposal_on_execution_failure = im_close_proposal_on_execution_failure msg,
             cfg_veto = im_veto msg\<rparr>,
          CREATION_POLICY := Some policy, DELEGATION_MODULE := dm\<rparr>" and r: "messages r = ms"
    by (auto simp: instantiate_def result_ok validate_voting_period_Ok split: prod.splits
        dest!: validate_veto_Ok)
  have "single_tallied st"
    by (simp add: st empty_state_def single_tallied_def single_module.tally_inv_def)
  moreover have "numbered st"
    by (auto simp: st empty_state_def numbered_def proposal_count_def)
  ultimately show "single_inv st"
    using v st by (auto simp: single_inv_def empty_state_def hooks_distinct_def valid_config_def
        valid_threshold_def)
  show "CONFIG st \<noteq> None" and "CREATION_POLICY st \<noteq> None" by (simp_all add: st)
  show "filter is_dispatch (messages r) = []" using v(4) r by (simp add: initial_policy_no_dispatch)
  show "undelegated st" by (simp add: st empty_state_def undelegated_def)
qed

section \<open>Votes that are accepted\<close>

definition votes_cast :: "votes \<Rightarrow> nat" where
  "votes_cast v = yes v + no v + abstain v"

lemma fits_cast: "fits tp v \<longleftrightarrow> votes_cast v \<le> tp"
  by (simp add: fits_def votes_cast_def)

lemma add_vote_fits:
  assumes "votes_cast t + n \<le> tp" and "u128 tp"
  shows "\<exists>t'. add_vote v n t = Ok t' \<and> votes_cast t' \<le> tp"
  using assms by (cases v) (simp_all add: add_vote_def add128_def votes_cast_def u128_def)

lemma remove_vote_fits:
  assumes "n \<le> votes_get v t"
  shows "\<exists>t'. remove_vote v n t = Ok t' \<and> votes_cast t' + n = votes_cast t"
  using assms by (cases v) (simp_all add: remove_vote_def sub128_def votes_cast_def votes_get_def)

lemma current_status_Ok:
  assumes "wf_proposal p"
    and "\<forall>vc. veto p = Some vc \<longrightarrow> (\<exists>e. expiration_add cw (expiration p) (timelock_duration vc) = Ok e)"
  shows "\<exists>s. current_status cw p b = Ok s"
proof (cases "status p = Open")
  case True
  with assms show ?thesis
    by (cases "veto p") (auto simp: current_status_def is_passed_eq is_rejected_eq)
next
  case False
  then show ?thesis by (cases "status p") (simp_all add: current_status_def)
qed

text \<open>The ballot of a revote can be taken out of the tally.\<close>

lemma ballot_counted:
  assumes "single_tallied st" and "PROPOSALS st pid = Some p" and "BALLOTS st (pid, a) = Some b"
  shows "power b \<le> votes_get (ballot_vote b) (votes p)"
proof -
  have inv: "single_module.tally_inv (PROPOSALS st) (BALLOTS st)" using assms(1) by (simp add: single_tallied_def)
  note t = single_module.tally_invD(1,2) [OF inv assms(2)]
  from contribution_le [OF t(1), of power pid "ballot_vote b" a] t(2) assms(3) show ?thesis
    by (simp add: contribution_def single_tally.tallies_def)
qed

lemma ballot_updated:
  assumes "single_tallied st" and "PROPOSALS st pid = Some p" and "votes p = individual_votes p"
    and "\<forall>b. BALLOTS st (pid, who) = Some b \<longrightarrow>
      allow_revoting p \<and> ballot_vote b \<noteq> v \<and> power b = individual_power b"
    and "votes_cast (votes p) + n \<le>
      tp + (case BALLOTS st (pid, who) of None \<Rightarrow> 0 | Some b \<Rightarrow> individual_power b)"
  shows "\<exists>ballot first t. update_ballot p \<lparr>vp_individual = n, vp_total = n\<rparr> v why (BALLOTS st (pid, who)) =
      Ok (ballot, p\<lparr>votes := t, individual_votes := t\<rparr>, first) \<and> votes_cast t + n \<le> tp"
proof (cases "BALLOTS st (pid, who)")
  case None
  have "p\<lparr>votes := votes p, individual_votes := votes p\<rparr> = p" using assms(3) by simp
  with None assms(5) show ?thesis
    by (intro exI [of _ "\<lparr>power = n, individual_power = n, ballot_vote = v, rationale = why\<rparr>"] exI [of _ True]
        exI [of _ "votes p"]) (simp add: update_ballot_def)
next
  case (Some b)
  from remove_vote_fits [OF ballot_counted [OF assms(1,2) Some]] obtain t where
    t: "remove_vote (ballot_vote b) (power b) (votes p) = (Ok t :: (_, contract_error) result)"
    "votes_cast t + power b = votes_cast (votes p)" by blast
  with Some assms(3-5) show ?thesis
    by (intro exI [of _ "\<lparr>power = n, individual_power = n, ballot_vote = v, rationale = why\<rparr>"] exI [of _ False]
        exI [of _ t]) (simp add: update_ballot_def)
qed

lemma vote_succeeds:
  assumes "single_tallied st" and "undelegated st" and "CONFIG st = Some config" and "PROPOSALS st pid = Some p"
    and "delegation_module p = None" and "valid_threshold (threshold p)"
    and "query_voting_power deps (cfg_dao config) who (Some (start_height p)) = Ok n" and "u128 (total_power p)"
    and "votes_cast (votes p) + n \<le>
      total_power p + (case BALLOTS st (pid, who) of None \<Rightarrow> 0 | Some b \<Rightarrow> individual_power b)"
    and "\<forall>vc. veto p = Some vc \<longrightarrow> (\<exists>e. expiration_add deps (expiration p) (timelock_duration vc) = Ok e)"
    and "\<not> is_expired deps (expiration p) (block env)" and "n \<noteq> 0"
    and "\<forall>b. BALLOTS st (pid, who) = Some b \<longrightarrow> allow_revoting p \<and> ballot_vote b \<noteq> v"
  shows "\<exists>st' r. execute_vote deps st env who pid v why = Ok (st', r)"
proof -
  have same: "votes p = individual_votes p" by (rule undelegated_tallies [OF assms(1,2,4,5)])
  have "\<forall>b. BALLOTS st (pid, who) = Some b \<longrightarrow> allow_revoting p \<and> ballot_vote b \<noteq> v \<and> power b = individual_power b"
    using assms(2,4,5,13) by (simp add: undelegated_def)
  from ballot_updated [OF assms(1,4) same this assms(9)] obtain ballot first t where
    u: "update_ballot p \<lparr>vp_individual = n, vp_total = n\<rparr> v why (BALLOTS st (pid, who)) =
      Ok (ballot, p\<lparr>votes := t, individual_votes := t\<rparr>, first)" and t: "votes_cast t + n \<le> total_power p" by blast
  from add_vote_fits [OF t assms(8)] obtain t' where
    t': "add_vote v n t = (Ok t' :: (_, contract_error) result)" "votes_cast t' \<le> total_power p" by blast
  let ?p = "p\<lparr>votes := t', individual_votes := t'\<rparr>"
  have "wf_proposal ?p" using t'(2) assms(6,8) by (simp add: wf_proposal_def fits_cast)
  from current_status_Ok [OF this, of deps "block env"] assms(10) obtain s where
    "current_status deps ?p (block env) = Ok s" by auto
  moreover have "get_voting_power_with_delegation deps (contract_address env) None (cfg_dao config) who pid
      (start_height p) = Ok \<lparr>vp_individual = n, vp_total = n\<rparr>"
    using t assms(7,8)
    by (simp add: get_voting_power_with_delegation_def get_voting_power_def udvp_default_def checked_add128_def u128_def)
  ultimately show ?thesis
    using u t'(1) assms(3-5,11,12)
    by (simp add: execute_vote_def handle_delegate_vote_override_def update_status_def respond_def Let_def)
qed

text \<open>Own power only: the votes counted with own power are among those counted in full.\<close>

lemma single_individual_below:
  assumes "single_inv st" and "PROPOSALS st pid = Some p"
    and "\<And>a b. BALLOTS st (pid, a) = Some b \<Longrightarrow> individual_power b \<le> power b"
  shows "extends (individual_votes p) (votes p)"
proof -
  have "votes_get v (individual_votes p) \<le> votes_get v (votes p)" for v
    using assms single_module.tally_invD(2,3) [of "PROPOSALS st" "BALLOTS st" pid p]
      ballot_sum_mono [of "BALLOTS st" pid individual_power power v]
    by (simp add: single_inv_def single_tallied_def single_tally.tallies_def)
  from this [of Yes] this [of No] this [of Abstain] show ?thesis by (simp add: extends_def votes_get_def)
qed

end
