(* ===== verification/Samples.thy ===== *)
theory Samples
  imports Dao_Delegation
begin

text \<open>
  A concrete chain environment for the examples of the development: expirations compare with the
  block as \<open>cw_utils\<close> documents it, and a DAO of three members answers the queries.
\<close>

definition sample_is_expired :: "expiration \<Rightarrow> block_info \<Rightarrow> bool" where
  "sample_is_expired e b =
     (case e of AtHeight h \<Rightarrow> h \<le> height b | AtTime t \<Rightarrow> t \<le> time b | Never \<Rightarrow> False)"

definition sample_after :: "duration \<Rightarrow> block_info \<Rightarrow> expiration option" where
  "sample_after d b =
     (case d of
        Height h \<Rightarrow> if unat (height b) + unat h < 2 ^ 64 then Some (AtHeight (height b + h)) else None
      | Time t \<Rightarrow> if unat (time b) + unat t * 10 ^ 9 < 2 ^ 64
                   then Some (AtTime (time b + t * 10 ^ 9)) else None)"

definition sample_add :: "expiration \<Rightarrow> duration \<Rightarrow> (expiration, std_error) result" where
  "sample_add e d =
     (case (e, d) of
        (AtHeight h, Height k) \<Rightarrow> Ok (AtHeight (h + k))
      | (AtTime t, Time k) \<Rightarrow> Ok (AtTime (t + k * 10 ^ 9))
      | (Never, _) \<Rightarrow> Ok Never
      | _ \<Rightarrow> Err (GenericErr ''Cannot add height and time''))"

definition sample_power :: "string \<Rightarrow> nat" where
  "sample_power a =
     (if a = ''ann'' then 60 else if a = ''bob'' then 30 else if a = ''cyd'' then 10 else 0)"

definition sample_querier :: dao_querier where
  "sample_querier =
     \<lparr>is_expired = sample_is_expired, duration_after = sample_after, expiration_add = sample_add,
      expiration_debug = (\<lambda>_. ''expiration''),
      addr_validate = (\<lambda>a. if a = [] then Err (GenericErr ''empty address'') else Ok a),
      query_voting_module = (\<lambda>_. Ok ''voting''),
      query_is_active = (\<lambda>_. Ok True),
      query_voting_power = (\<lambda>_ a _. Ok (sample_power a)),
      query_total_power = (\<lambda>_ _. Ok 100),
      query_delegations = (\<lambda>_ _ _. Ok []),
      query_udvp = (\<lambda>_ _ _ _ _. Ok udvp_default),
      query_udvp_reduction = (\<lambda>_ _ _ _ _ _. Ok 0)\<rparr>"

definition sample_block :: "u64 \<Rightarrow> block_info" where
  "sample_block h = \<lparr>height = h, time = h * 10 ^ 9\<rparr>"

definition sample_env :: "u64 \<Rightarrow> env" where
  "sample_env h = \<lparr>block = sample_block h, contract_address = ''module''\<rparr>"

definition sent_by :: "addr \<Rightarrow> message_info" where
  "sent_by a = \<lparr>sender = a, funds = []\<rparr>"

lemma sample_expiry_monotone: "expiry_monotone sample_querier"
  by (auto simp: expiry_monotone_def block_le_def sample_querier_def sample_is_expired_def
      split: expiration.splits)

lemmas sample_defs =
  sample_is_expired_def sample_after_def sample_add_def sample_power_def sample_querier_def
  sample_block_def sample_env_def sent_by_def

end
