(* ===== verification/Proposal_Single_Claims.thy ===== *)
theory Proposal_Single_Claims
  imports Proposal_Single_Props Samples
begin

text \<open>
  The correctness statements about \<open>dao-proposal-single\<close>, each over every state the contract
  can reach from its instantiation, and a concrete run of the module on which they apply.
\<close>

section \<open>A concrete run\<close>

definition single_deps :: "string single_choice_proposal module_deps" where
  "single_deps = dao_querier.extend sample_querier \<lparr>proposal_size = (\<lambda>_. Ok 0)\<rparr>"

definition sample_instantiate :: instantiate_msg where
  "sample_instantiate =
     \<lparr>im_threshold = AbsolutePercentage Majority, im_max_voting_period = Height 100,
      im_min_voting_period = Some (Height 30), im_only_members_execute = True, im_allow_revoting = False,
      im_pre_propose_info = AnyoneMayPropose, im_close_proposal_on_execution_failure = True,
      im_veto = None, im_delegation_module = None\<rparr>"

definition sample_config :: config where
  "sample_config =
     \<lparr>cfg_threshold = AbsolutePercentage Majority, cfg_max_voting_period = Height 100,
      cfg_min_voting_period = Some (Height 30), cfg_only_members_execute = True, cfg_allow_revoting = False,
      cfg_dao = ''dao'', cfg_close_proposal_on_execution_failure = True, cfg_veto = None\<rparr>"

definition sample_start :: "string single_state" where
  "sample_start = empty_state\<lparr>CONTRACT_INFO := Some (CONTRACT_NAME, CONTRACT_VERSION),
     CONFIG := Some sample_config, PROPOSAL_COUNT := Some 0, CREATION_POLICY := Some Anyone\<rparr>"

definition sample_proposal :: "string single_choice_proposal" where
  "sample_proposal =
     \<lparr>title = ''raise'', description = ''pay cyd'', proposer = ''cyd'', start_height = 10,
      min_voting_period = Some (AtHeight 40), expiration = AtHeight 110, threshold = AbsolutePercentage Majority,
      total_power = 100, msgs = [''pay''], status = Open, votes = votes_zero,
      individual_votes = votes_zero, allow_revoting = False, veto = None, delegation_module = None\<rparr>"

definition sample_tallied :: "string single_choice_proposal" where
  "sample_tallied = sample_proposal\<lparr>votes := \<lparr>yes = 60, no = 0, abstain = 0\<rparr>,
     individual_votes := \<lparr>yes = 60, no = 0, abstain = 0\<rparr>\<rparr>"

definition sample_propose :: "string execute_msg" where
  "sample_propose = Propose \<lparr>pm_title = ''raise'', pm_description = ''pay cyd'', pm_msgs = [''pay''],
     pm_proposer = None, pm_vote = None\<rparr>"

definition sample_proposed :: "string single_state" where
  "sample_proposed = sample_start\<lparr>PROPOSAL_COUNT := Some 1, PROPOSALS := [1 \<mapsto> sample_proposal]\<rparr>"

definition sample_voted :: "string single_state" where
  "sample_voted = sample_proposed\<lparr>
     PROPOSALS := [1 \<mapsto> sample_tallied],
     BALLOTS := [(1, ''ann'') \<mapsto>
       \<lparr>power = 60, individual_power = 60, ballot_vote = Yes, rationale = None\<rparr>]\<rparr>"

definition sample_executed :: "string single_state" where
  "sample_executed = sample_voted\<lparr>PROPOSALS := [1 \<mapsto> sample_tallied\<lparr>status := Executed\<rparr>]\<rparr>"

definition no_messages :: "string response" where
  "no_messages = \<lparr>messages = [], data = None\<rparr>"

definition sample_dispatch :: "string response" where
  "sample_dispatch =
     \<lparr>messages = [reply_on_error (WasmExecute ''dao'' (ExecuteProposalHook [''pay'']) []) 8],
      data = None\<rparr>"

lemmas sample_single_defs =
  sample_defs single_deps_def sample_instantiate_def sample_config_def sample_start_def
  sample_proposal_def sample_tallied_def sample_proposed_def sample_propose_def sample_voted_def
  sample_executed_def no_messages_def sample_dispatch_def empty_state_def dao_querier.extend_def

lemmas eval_single =
  instantiate_def threshold_validate_def validate_percentage_def validate_voting_period_def
  validate_veto_def into_initial_policy_and_messages_def
  execute_def execute_propose_def execute_vote_def execute_execute_def advance_proposal_id_def
  next_proposal_id_def add_u64_def choose_proposer_def is_permitted_def get_total_power_def
  MAX_PROPOSAL_SIZE_def new_proposal_hooks_def indexed_hooks_def update_status_def
  current_status_def is_passed_def is_rejected_def options_rejected_def does_vote_count_pass_def
  does_vote_count_fail_def sub128_def add128_def votes_zero_def votes_total_def respond_def Let_def
  get_voting_power_with_delegation_def get_voting_power_def checked_add128_def udvp_default_def
  update_ballot_def handle_delegate_vote_override_def add_vote_def status_to_string_def
  proposal_status_changed_hooks_def new_vote_hooks_def sender_can_execute_def check_executable_def
  dispatch_def completion_hooks_def proposal_completed_hooks_def
  mask_proposal_execution_proposal_id_def FAILED_PROPOSAL_EXECUTION_MASK_def
  BITS_RESERVED_FOR_REPLY_TYPE_def

lemma sample_instantiated:
  "instantiate single_deps empty_state (sent_by ''dao'') sample_instantiate = Ok (sample_start, no_messages)"
  by (simp add: eval_single sample_single_defs)

lemma sample_step_propose:
  "execute single_deps sample_start (sample_env 10) (sent_by ''cyd'') sample_propose =
     Ok (sample_proposed, no_messages)"
  by (simp add: eval_single sample_single_defs)

lemma sample_step_vote:
  "execute single_deps sample_proposed (sample_env 20) (sent_by ''ann'') (Vote 1 Yes None) =
     Ok (sample_voted, no_messages)"
  by (simp add: eval_single sample_single_defs)

lemma sample_step_execute:
  "execute single_deps sample_voted (sample_env 50) (sent_by ''bob'') (Execute 1) =
     Ok (sample_executed, sample_dispatch)"
  by (simp add: eval_single sample_single_defs)

lemma sample_inv: "single_inv sample_start"
  using sample_instantiated by (rule instantiate_inv(1))

lemma sample_run_proposed: "single_run sample_start [] sample_proposed"
  using run_one [of single_step, OF step_execute [OF sample_step_propose]]
  by (simp add: dispatched_def sample_propose_def)

lemma sample_run_voted: "single_run sample_start [] sample_voted"
  using run_step [of single_step, OF sample_run_proposed step_execute [OF sample_step_vote]]
  by (simp add: dispatched_def)

lemma sample_run_executed: "single_run sample_start [1] sample_executed"
  using run_step [of single_step, OF sample_run_voted step_execute [OF sample_step_execute]]
  by (simp add: dispatched_def sample_dispatch_def is_dispatch_def reply_on_error_def)

section \<open>Tallies, numbering and configuration\<close>

text \<open>C1: in every state reachable from an instantiation, for every stored proposal and every
  option, the tally with delegated power is the sum of the powers of the ballots cast for the option,
  and the tally of individual votes is the sum of their individual powers.\<close>

theorem single_tally_correct:
  assumes "instantiate deps empty_state info msg = Ok (st0, r)" and "single_run st0 log st"
    and "PROPOSALS st pid = Some p"
  shows "votes_get v (votes p) = ballot_sum power (BALLOTS st) pid v \<and>
    votes_get v (individual_votes p) = ballot_sum individual_power (BALLOTS st) pid v"
proof -
  have "single_inv st" using assms(1,2) by (blast intro: run_keeps_inv instantiate_inv)
  with assms(3) show ?thesis
    using single_module.tally_invD [of "PROPOSALS st" "BALLOTS st" pid p]
    by (simp add: single_inv_def single_tallied_def single_tally.tallies_def)
qed

theorem single_tally_correct_witness:
  "votes_get Yes (votes sample_tallied) = ballot_sum power (BALLOTS sample_voted) 1 Yes"
  using single_tally_correct [OF sample_instantiated sample_run_voted, of 1 sample_tallied Yes]
  by (simp add: sample_voted_def)

text \<open>proposals are numbered without gaps. In every reachable state the stored proposals are
  exactly those with identifiers from one to the proposal count, and a ballot is stored only for a
  stored proposal.\<close>

theorem single_ids_contiguous:
  assumes "instantiate deps empty_state info msg = Ok (st0, r)" and "single_run st0 log st"
  shows "dom (PROPOSALS st) = {i. 0 < unat i \<and> unat i \<le> proposal_count st} \<and>
    fst ` dom (BALLOTS st) \<subseteq> dom (PROPOSALS st)"
proof -
  have "numbered st"
    using run_keeps_inv [OF assms(2) instantiate_inv(1) [OF assms(1)]] by (simp add: single_inv_def)
  then have "dom (PROPOSALS st) = {i. 0 < unat i \<and> unat i \<le> proposal_count st}"
    and "\<And>i a. (i, a) \<in> dom (BALLOTS st) \<Longrightarrow> i \<in> dom (PROPOSALS st)"
    unfolding numbered_def by blast+
  then show ?thesis by force
qed

theorem single_ids_contiguous_witness:
  "dom (PROPOSALS sample_voted) = {i. 0 < unat i \<and> unat i \<le> proposal_count sample_voted}"
  using single_ids_contiguous [OF sample_instantiated sample_run_voted] by blast

text \<open>the stored configuration is valid in every reachable state, whatever the DAO updates it
  to: the threshold can be reached and is not zero, the minimum voting period has the unit of the
  maximum and does not exceed it, and the veto timelock has the unit of the voting period.\<close>

theorem single_config_valid:
  assumes "instantiate deps empty_state info msg = Ok (st0, r)" and "single_run st0 log st"
    and "CONFIG st = Some c"
  shows "threshold_validate (cfg_threshold c) = Ok () \<and>
    valid_periods (cfg_min_voting_period c) (cfg_max_voting_period c) \<and>
    valid_timelock (cfg_veto c) (cfg_max_voting_period c)"
  using run_keeps_inv [OF assms(2) instantiate_inv(1) [OF assms(1)]] assms(3)
  by (simp add: single_inv_def valid_config_def valid_threshold_def)

theorem single_config_valid_witness:
  "threshold_validate (cfg_threshold sample_config) = Ok () \<and>
   valid_periods (cfg_min_voting_period sample_config) (cfg_max_voting_period sample_config)"
  using single_config_valid [OF sample_instantiated sample_run_voted, of sample_config]
  by (simp add: sample_voted_def sample_proposed_def sample_start_def)

section \<open>The lifecycle\<close>

text \<open>C5: over any sequence of messages and replies a stored proposal stays stored, only its
  tallies and its status change, and the status moves only along the lifecycle: a vetoed, closed
  or failed proposal keeps its status, an executed proposal stays executed or is recorded as
  failed, a rejected proposal can only be closed, a passed one only be executed.\<close>

theorem single_lifecycle:
  assumes "instantiate deps empty_state info msg = Ok (st0, r)" and "single_run st0 log st"
    and "single_run st log' st'" and "PROPOSALS st pid = Some p"
  shows "\<exists>q. PROPOSALS st' pid = Some q \<and>
    q = p\<lparr>votes := votes q, individual_votes := individual_votes q, status := status q\<rparr> \<and>
    may_become (status p) (status q)"
  using run_evolves [OF assms(3) _ assms(4)] run_keeps_inv [OF assms(2) instantiate_inv(1) [OF assms(1)]]
  by (simp add: evolves_def)

lemma sample_run_last: "single_run sample_voted [1] sample_executed"
  using run_one [of single_step, OF step_execute [OF sample_step_execute]]
  by (simp add: dispatched_def sample_dispatch_def is_dispatch_def reply_on_error_def)

theorem single_lifecycle_witness:
  "\<exists>q. PROPOSALS sample_executed 1 = Some q \<and> may_become Open (status q)"
  using single_lifecycle [OF sample_instantiated sample_run_voted sample_run_last, of 1 sample_tallied]
  by (auto simp: sample_voted_def sample_tallied_def sample_proposal_def)

text \<open>C2: the messages of a proposal are handed to the DAO at most once. In any run from an
  instantiation the log of dispatched proposals has no repetition, and every dispatched proposal is
  stored as executed or as failed.\<close>

theorem single_dispatch_once:
  assumes "instantiate deps empty_state info msg = Ok (st0, r)" and "single_run st0 log st"
  shows "distinct log \<and>
    (\<forall>pid \<in> set log. \<exists>p. PROPOSALS st pid = Some p \<and> status p \<in> {Executed, ExecutionFailed})"
  using run_dispatches_once [OF assms(2) instantiate_inv(1) [OF assms(1)]]
  by (simp add: was_executed_def)

theorem single_dispatch_once_witness:
  "distinct [1 :: u64] \<and> (\<exists>p. PROPOSALS sample_executed 1 = Some p \<and> status p \<in> {Executed, ExecutionFailed})"
  using single_dispatch_once [OF sample_instantiated sample_run_executed] by simp

text \<open>Where a request to the DAO comes from.\<close>

lemma dispatch_inversion:
  assumes "execute deps st env info msg = Ok (st', r)" and "filter is_dispatch (messages r) \<noteq> []"
  shows "\<exists>pid p config member s.
    msg = Execute pid \<and> PROPOSALS st pid = Some p \<and> CONFIG st = Some config \<and>
    sender_can_execute deps config info p = Ok member \<and>
    current_status deps p (block env) = Ok s \<and>
    (s = Passed \<and> member \<or>
     (\<exists>e vc. s = VetoTimelock e \<and> veto p = Some vc \<and> vetoer vc = sender info \<and> early_execute vc)) \<and>
    filter is_dispatch (messages r) = dispatch config pid (msgs p)"
  using assms(1)
proof (cases rule: execute_cases)
  case (conclude pid p s new)
  with assms have "execute_execute deps st env info pid = Ok (st', r)" and msg: "msg = Execute pid"
    by (auto simp: execute_def)
  then show ?thesis
  proof (cases rule: execute_execute_cases)
    case (1 p' config member s')
    have "filter is_dispatch (dispatch config pid (msgs p')) = dispatch config pid (msgs p')"
      by (simp add: dispatch_def is_dispatch_def reply_on_error_def sub_msg_new_def Let_def)
    with 1 msg show ?thesis
      unfolding may_execute_def [symmetric] by fastforce
  qed
next
  case (propose m)
  from propose(2) have "filter is_dispatch (messages r) = []"
    by (cases rule: execute_propose_cases)
       (auto simp: result_ok split: option.splits elim!: vote_frame)
  with assms(2) show ?thesis by simp
next
  case (vote pid v why)
  from vote(2) assms(2) show ?thesis by (auto elim!: vote_frame)
next
  case (rationale pid why)
  from rationale(2) assms(2) show ?thesis by (auto elim!: execute_update_rationale_cases)
next
  case admin
  with assms show ?thesis by (simp add: execute_admin(3))
qed

text \<open>C4: only an execution sends a proposal's messages. A response that asks the DAO to execute
  messages comes from \<open>Execute\<close> on a stored proposal whose up-to-date status was passed and
  the sender a member when the configuration asks for it, or timelocked with the sender the
  vetoer and early execution enabled; the request carries exactly the proposal's messages.\<close>

theorem single_dispatch_authorised:
  assumes "execute deps st env info msg = Ok (st', r)" and "filter is_dispatch (messages r) \<noteq> []"
  shows "\<exists>pid p config member s.
    msg = Execute pid \<and> PROPOSALS st pid = Some p \<and> CONFIG st = Some config \<and>
    sender_can_execute deps config info p = Ok member \<and>
    current_status deps p (block env) = Ok s \<and>
    (s = Passed \<and> member \<or>
     (\<exists>e vc. s = VetoTimelock e \<and> veto p = Some vc \<and> vetoer vc = sender info \<and> early_execute vc)) \<and>
    filter is_dispatch (messages r) = dispatch config pid (msgs p)"
  using assms by (rule dispatch_inversion)

theorem single_dispatch_authorised_witness:
  "\<exists>p s. PROPOSALS sample_voted 1 = Some p \<and> current_status single_deps p (sample_block 50) = Ok s \<and>
     (s = Passed \<or> (\<exists>e. s = VetoTimelock e))"
  using single_dispatch_authorised [OF sample_step_execute]
  by (auto simp: sample_dispatch_def is_dispatch_def reply_on_error_def sample_env_def)

section \<open>Voting\<close>

text \<open>C7: who can vote, exactly. On a proposal without delegation, in every reachable state, a vote is
  accepted if and only if the proposal has not expired, the voter had power when it was created, and the
  voter has not voted on it yet or revoting is on and the vote is another one. No arithmetic on the
  tallies and no part of the status gets in the way: taking out the old ballot never underflows. The
  statement takes it that the power query answers, that the votes with this one fit the total
  power, which is in the range of \<open>Uint128\<close>, and that a timelock can be added to the expiration.\<close>

theorem single_vote_iff:
  assumes "instantiate deps0 empty_state info msg = Ok (st0, r0)" and "single_run st0 log st"
    and "CONFIG st = Some config" and "PROPOSALS st pid = Some p" and "delegation_module p = None"
    and "query_voting_power deps (cfg_dao config) who (Some (start_height p)) = Ok n" and "u128 (total_power p)"
    and "votes_cast (votes p) + n \<le>
      total_power p + (case BALLOTS st (pid, who) of None \<Rightarrow> 0 | Some b \<Rightarrow> individual_power b)"
    and "\<forall>vc. veto p = Some vc \<longrightarrow> (\<exists>e. expiration_add deps (expiration p) (timelock_duration vc) = Ok e)"
  shows "(\<exists>st' r. execute_vote deps st env who pid v why = Ok (st', r)) \<longleftrightarrow>
    \<not> is_expired deps (expiration p) (block env) \<and> n \<noteq> 0 \<and>
    (\<forall>b. BALLOTS st (pid, who) = Some b \<longrightarrow> allow_revoting p \<and> ballot_vote b \<noteq> v)"
    (is "?accepted \<longleftrightarrow> ?may")
proof
  assume ?accepted
  then obtain st' r where "execute_vote deps st env who pid v why = Ok (st', r)" by blast
  then show ?may
  proof (cases rule: execute_vote_cases)
    case (1 config' p' vp ballot prop1 first bs vs vs' ivs s)
    have "vp_individual vp = n"
      using 1(1,2,4) assms(3,4,6) by (auto simp: get_voting_power_with_delegation_def get_voting_power_def result_ok)
    with 1(2,3,5,6) assms(4) show ?thesis by (auto simp: update_ballot_def Let_def split: if_splits)
  qed
next
  assume may: ?may
  note inv = run_keeps_inv [OF assms(2) instantiate_inv(1) [OF assms(1)]]
  note undel = run_keeps_undelegated [OF assms(2) instantiate_inv(1,5) [OF assms(1)]]
  have "single_tallied st" and "valid_threshold (threshold p)" using inv assms(4) by (simp_all add: single_inv_def)
  with may show ?accepted by (intro vote_succeeds [OF _ undel assms(3-5) _ assms(6-9)]) simp_all
qed

theorem single_vote_iff_witness:
  "(\<exists>st' r. execute_vote single_deps sample_voted (sample_env 60) ''bob'' 1 No None = Ok (st', r)) \<and>
   \<not> (\<exists>st' r. execute_vote single_deps sample_voted (sample_env 60) ''ann'' 1 No None = Ok (st', r))"
proof -
  have st: "CONFIG sample_voted = Some sample_config" "PROPOSALS sample_voted 1 = Some sample_tallied"
    "delegation_module sample_tallied = None" by (simp_all add: sample_single_defs)
  have p: "query_voting_power single_deps (cfg_dao sample_config) ''bob'' (Some (start_height sample_tallied)) = Ok 30"
    "query_voting_power single_deps (cfg_dao sample_config) ''ann'' (Some (start_height sample_tallied)) = Ok 60"
    by (simp_all add: sample_single_defs)
  note iff = single_vote_iff [OF sample_instantiated sample_run_voted st]
  show ?thesis
    using iff [OF p(1), of "sample_env 60" No None] iff [OF p(2), of "sample_env 60" No None]
    by (simp add: sample_single_defs votes_cast_def u128_def)
qed

text \<open>an accepted vote is recorded. The voter's ballot holds the chosen option, the individual
  power at the proposal's start height and the rationale; the ballots of all other voters keep their
  option and individual power, and ballots on other proposals do not change at all.\<close>

theorem single_vote_recorded:
  assumes "execute_vote deps st env who pid v why = Ok (st', r)"
  shows "\<exists>config p b n. CONFIG st = Some config \<and> PROPOSALS st pid = Some p \<and>
    query_voting_power deps (cfg_dao config) who (Some (start_height p)) = Ok n \<and>
    BALLOTS st' (pid, who) = Some b \<and> ballot_vote b = v \<and> individual_power b = n \<and> n \<noteq> 0 \<and>
    (\<forall>i a. (i, a) \<noteq> (pid, who) \<longrightarrow>
       map_option (\<lambda>b. (ballot_vote b, individual_power b)) (BALLOTS st' (i, a)) =
       map_option (\<lambda>b. (ballot_vote b, individual_power b)) (BALLOTS st (i, a))) \<and>
    (\<forall>i a. i \<noteq> pid \<longrightarrow> BALLOTS st' (i, a) = BALLOTS st (i, a))"
  using assms
proof (cases rule: execute_vote_cases)
  case (1 config p vp ballot prop1 first bs vs vs' ivs s)
  let ?bs = "(BALLOTS st)((pid, who) \<mapsto> ballot)"
  have b: "ballot = cast_ballot vp v why" using 1(6) by (cases rule: update_ballot_cases) simp_all
  have n: "query_voting_power deps (cfg_dao config) who (Some (start_height p)) = Ok (vp_individual vp)"
    using 1(4) by (auto simp: get_voting_power_with_delegation_def get_voting_power_def result_ok)
  have "single_tally.same_individual ?bs bs \<and> (\<forall>q a. q \<noteq> pid \<longrightarrow> bs (q, a) = ?bs (q, a))"
  proof (cases first)
    case True
    with 1(7) show ?thesis by (simp add: single_tally.override_frame)
  next
    case False
    with 1(7) show ?thesis by (simp add: single_tally.same_individual_def)
  qed
  then have same: "map_option (\<lambda>b. (ballot_vote b, individual_power b)) (bs k) =
        map_option (\<lambda>b. (ballot_vote b, individual_power b)) (?bs k)"
    and other: "i \<noteq> pid \<Longrightarrow> bs (i, a) = BALLOTS st (i, a)" for k i a
    unfolding single_tally.same_individual_def by (blast, simp)
  obtain c where "bs (pid, who) = Some c" "ballot_vote c = v" "individual_power c = vp_individual vp"
    using same [of "(pid, who)"] b by (auto simp: map_option_eq_Some)
  with 1(1,2,5,11) n same other show ?thesis by (intro exI [of _ config] exI [of _ p]) auto
qed

theorem single_vote_recorded_witness:
  "\<exists>b. BALLOTS sample_voted (1, ''ann'') = Some b \<and> ballot_vote b = Yes \<and> individual_power b = 60"
  using single_vote_recorded [of single_deps sample_proposed "sample_env 20" "''ann''" 1 Yes None
      sample_voted no_messages] sample_step_vote
  by (auto simp: execute_def sent_by_def sample_voted_def)

section \<open>Authority\<close>

text \<open>C6: a veto succeeds exactly for the vetoer of a stored proposal that has a veto
  configuration, while the proposal is in its timelock, or still open when vetoing before passing
  is enabled; the proposal is then vetoed and nothing else in the storage changes.\<close>

theorem single_veto_iff:
  assumes "CREATION_POLICY st = Some policy" and "PROPOSALS st pid = Some p"
    and "current_status deps p (block env) = Ok s"
  shows "(\<exists>r. execute_veto deps st env info pid = Ok (st', r)) \<longleftrightarrow>
    (\<exists>vc. veto p = Some vc \<and> vetoer vc = sender info \<and>
       (s = Open \<and> veto_before_passed vc \<or>
        (\<exists>e. s = VetoTimelock e \<and> \<not> is_expired deps e (block env)))) \<and>
    st' = st\<lparr>PROPOSALS := (PROPOSALS st)(pid \<mapsto> p\<lparr>status := Vetoed\<rparr>)\<rparr>"
    (is "?lhs \<longleftrightarrow> ?rhs")
proof
  assume ?lhs
  then show ?rhs
    using assms by (auto elim!: execute_veto_cases simp: may_veto_def)
next
  assume ?rhs
  then obtain vc where vc: "veto p = Some vc" "vetoer vc = sender info" "may_veto deps vc (block env) s"
    by (auto simp: may_veto_def)
  then have "check_vetoable deps (p\<lparr>status := s\<rparr>) vc (block env) = Ok ()"
    by (simp add: check_vetoable_Ok)
  with vc assms \<open>?rhs\<close> show ?lhs
    by (simp add: execute_veto_def update_status_def check_is_vetoer_def completion_hooks_def
        respond_def Let_def)
qed

definition sample_veto :: veto_config where
  "sample_veto = \<lparr>timelock_duration = Height 50, vetoer = ''vic'', early_execute = False,
     veto_before_passed = True\<rparr>"

theorem single_veto_iff_witness:
  "\<exists>r. execute_veto single_deps
      (sample_start\<lparr>PROPOSALS := [1 \<mapsto> sample_proposal\<lparr>veto := Some sample_veto\<rparr>]\<rparr>)
      (sample_env 20) (sent_by ''vic'') 1 =
    Ok (sample_start\<lparr>PROPOSALS := [1 \<mapsto> sample_proposal\<lparr>veto := Some sample_veto, status := Vetoed\<rparr>]\<rparr>, r)"
  by (subst single_veto_iff [where p = "sample_proposal\<lparr>veto := Some sample_veto\<rparr>" and s = Open and policy = Anyone])
     (simp_all add: sample_single_defs sample_veto_def eval_single)

text \<open>only the DAO reconfigures the module. If a message leaves the configuration, the creation
  policy, the delegation module, a hook registry or the contract version different, then its sender
  is the DAO of the stored configuration.\<close>

theorem single_settings_authorised:
  assumes "execute deps st env info msg = Ok (st', r)" and "\<not> same_settings st st'"
  shows "\<exists>config. CONFIG st = Some config \<and> sender info = cfg_dao config"
  using assms(1)
proof (cases rule: execute_cases)
  case (propose m)
  from propose(2) have "same_settings st st'"
  proof (cases rule: execute_propose_cases)
    case (1 config policy author voting_module expir tp min_period s j size st1 ms)
    have "same_settings st1 st'"
      using 1(14) by (auto simp: result_ok same_settings_def split: option.splits elim!: vote_frame)
    with 1(13) show ?thesis by (simp add: same_settings_def)
  qed
  with assms(2) show ?thesis by simp
next
  case (vote pid v why)
  with assms(2) show ?thesis by (auto elim!: vote_frame)
next
  case (rationale pid why)
  with assms(2) show ?thesis by (auto elim!: execute_update_rationale_cases simp: same_settings_def)
next
  case (conclude pid p s new)
  with assms(2) show ?thesis by (simp add: same_settings_def)
next
  case admin
  with assms(1) show ?thesis by (simp add: execute_admin(1))
qed

theorem single_settings_authorised_witness:
  "\<exists>config. CONFIG sample_start = Some config \<and> sender (sent_by ''dao'') = cfg_dao config"
proof (rule single_settings_authorised)
  show "execute single_deps sample_start (sample_env 20) (sent_by ''dao'') (AddVoteHook ''ears'') =
      Ok (sample_start\<lparr>VOTE_HOOKS := Some [''ears'']\<rparr>, no_messages)"
    by (simp add: sample_single_defs execute_def execute_add_vote_hook_def add_hook_def respond_def)
  show "\<not> same_settings sample_start (sample_start\<lparr>VOTE_HOOKS := Some [''ears'']\<rparr>)"
    by (simp add: same_settings_def sample_start_def empty_state_def)
qed

section \<open>Decisions\<close>

text \<open>without a delegation module the two tallies of a proposal agree in every reachable
  state, as the documentation of \<open>individual_votes\<close> says.\<close>

theorem single_undelegated_tallies_agree:
  assumes "instantiate deps empty_state info msg = Ok (st0, r)" and "single_run st0 log st"
    and "PROPOSALS st pid = Some p" and "delegation_module p = None"
  shows "votes p = individual_votes p"
  using undelegated_tallies [of st pid p] run_keeps_inv [OF assms(2) instantiate_inv(1) [OF assms(1)]]
    run_keeps_undelegated [OF assms(2) instantiate_inv(1,5) [OF assms(1)]] assms(3,4)
  by (simp add: single_inv_def)

theorem single_undelegated_tallies_agree_witness:
  "votes sample_tallied = individual_votes sample_tallied"
  using single_undelegated_tallies_agree [OF sample_instantiated sample_run_voted, of 1 sample_tallied]
  by (simp add: sample_voted_def sample_tallied_def sample_proposal_def)

text \<open>C3: a proposal that is decided before its expiration is decided for good, delegation included. Take
  a proposal whose votes fit the total power, a power in the range of \<open>Uint128\<close>, and whose ballots in
  the end count no less than the voter's own power. If its status leaves open at a block before the
  expiration, then whatever votes follow, the tally at any block after the expiration decides the
  same. A passed or timelocked proposal passes, if it had a yes vote or its threshold has at most nine
  decimal places; a rejected one does not pass, if its threshold has at most nine decimal places,
  which is the precision at which votes are compared.\<close>

theorem single_early_decision_final:
  assumes "instantiate deps empty_state info msg = Ok (st0, r)" and "single_run st0 log st"
    and "single_run st log' st'" and "PROPOSALS st pid = Some p" and "PROPOSALS st' pid = Some q"
    and "status p = Open" and "\<forall>a b. BALLOTS st' (pid, a) = Some b \<longrightarrow> individual_power b \<le> power b"
    and "u128 (total_power p)" and "fits (total_power p) (votes p)" and "fits (total_power p) (votes q)"
    and "expiry_monotone cw" and "block_le b b'"
    and "\<not> is_expired cw (expiration p) b" and "is_expired cw (expiration p) b'"
    and "current_status cw p b = Ok s"
  shows "(s = Rejected \<and> threshold_nine_decimals (threshold p) \<longrightarrow>
      is_passed cw q b' = (Ok False :: (bool, std_error) result)) \<and>
    (s \<noteq> Open \<and> s \<noteq> Rejected \<and> (threshold_nine_decimals (threshold p) \<or> 0 < yes (individual_votes p)) \<longrightarrow>
      is_passed cw q b' = (Ok True :: (bool, std_error) result))"
proof (cases "allow_revoting p")
  case True
  with early_status(3) [OF assms(6,13,15)] show ?thesis by simp
next
  case False
  note inv = run_keeps_inv [OF assms(2) instantiate_inv(1) [OF assms(1)]]
  note inv' = run_keeps_inv [OF assms(3) inv]
  have "evolves p q" using run_evolves [OF assms(3) inv assms(4)] assms(5) by auto
  then have q: "threshold q = threshold p" "total_power q = total_power p" "expiration q = expiration p"
    "min_voting_period q = min_voting_period p" "allow_revoting q = allow_revoting p"
    by (cases p; cases q; simp add: evolves_def)+
  have grown: "extends (individual_votes p) (individual_votes q)"
    using assms(3) inv assms(4,5) False by (rule run_extends)
  have below: "extends (individual_votes q) (votes q)"
    using inv' assms(5,7) by (blast intro: single_individual_below)
  have ext: "extends (individual_votes p) (votes q)" using grown below by (rule extends_trans)
  have "valid_threshold (threshold p)" using inv assms(4) by (simp add: single_inv_def)
  then have "wf_proposal p" and "wf_proposal q"
    using assms(8-10) fits_extends [OF ext assms(10)] fits_extends [OF below assms(10)] q
    by (simp_all add: wf_proposal_def)
  moreover have "continues p q" using q ext by (simp add: continues_def)
  ultimately show ?thesis
    using early_status [OF assms(6,13,15)] early_pass_holds [of p q cw b b']
      early_rejection_holds [of p q cw b b'] assms(11-14) by auto
qed

definition sample_later :: "string single_choice_proposal" where
  "sample_later = sample_proposal\<lparr>status := Passed, votes := \<lparr>yes = 60, no = 30, abstain = 0\<rparr>,
     individual_votes := \<lparr>yes = 60, no = 30, abstain = 0\<rparr>\<rparr>"

definition sample_voted_again :: "string single_state" where
  "sample_voted_again = sample_voted\<lparr>
     PROPOSALS := [1 \<mapsto> sample_later],
     BALLOTS := (BALLOTS sample_voted)((1, ''bob'') \<mapsto>
       \<lparr>power = 30, individual_power = 30, ballot_vote = No, rationale = None\<rparr>)\<rparr>"

lemma sample_step_vote_again:
  "execute single_deps sample_voted (sample_env 60) (sent_by ''bob'') (Vote 1 No None) =
     Ok (sample_voted_again, no_messages)"
  by (simp add: eval_single sample_single_defs sample_voted_again_def sample_later_def)

lemma sample_run_again: "single_run sample_voted [] sample_voted_again"
  using run_one [of single_step, OF step_execute [OF sample_step_vote_again]] by (simp add: dispatched_def)

theorem single_early_decision_final_witness:
  "current_status single_deps sample_tallied (sample_block 50) = Ok Passed \<and>
   is_passed single_deps sample_later (sample_block 200) = (Ok True :: (bool, std_error) result)"
proof
  show st: "current_status single_deps sample_tallied (sample_block 50) = Ok Passed"
    by (simp add: sample_single_defs eval_single)
  have "expiry_monotone single_deps"
    using sample_expiry_monotone
    by (simp add: expiry_monotone_def single_deps_def dao_querier.extend_def sample_querier_def)
  then show "is_passed single_deps sample_later (sample_block 200) = (Ok True :: (bool, std_error) result)"
    using single_early_decision_final [OF sample_instantiated sample_run_voted sample_run_again,
        of 1 sample_tallied sample_later single_deps "sample_block 50" "sample_block 200" Passed] st
    by (simp add: sample_single_defs eval_single u128_def fits_def threshold_nine_decimals_def
        nine_decimals_def block_le_def sample_voted_again_def sample_later_def)
qed

text \<open>C8: once the voting period is over, the tally alone decides an open proposal. For a reachable
  proposal whose votes fit its total power, a power in the range of \<open>Uint128\<close>: after the expiration it
  is rejected unless the minimum period is over and the tally meets the threshold; then it is passed
  without a veto configuration, and with one it is timelocked until the timelock added to the
  expiration is over, and passed then. It is never open, and computing the status fails in no
  other case than that of a proposal that won and whose timelock cannot be added to its expiration.\<close>

theorem single_expired_resolves:
  assumes "instantiate deps empty_state info msg = Ok (st0, r)" and "single_run st0 log st"
    and "PROPOSALS st pid = Some p" and "status p = Open" and "u128 (total_power p)"
    and "fits (total_power p) (votes p)" and "fits (total_power p) (individual_votes p)"
    and "is_expired cw (expiration p) b"
  shows "current_status cw p b =
    (if min_period_over cw p b \<and> tally_passes (threshold p) True (total_power p) (votes p) then
       (case veto p of
          None \<Rightarrow> Ok Passed
        | Some vc \<Rightarrow> and_then (expiration_add cw (expiration p) (timelock_duration vc))
            (\<lambda>e. Ok (if is_expired cw e b then Passed else VetoTimelock e)))
     else Ok Rejected)"
proof -
  have "valid_threshold (threshold p)"
    using run_keeps_inv [OF assms(2) instantiate_inv(1) [OF assms(1)]] assms(3) by (simp add: single_inv_def)
  with assms(5-7) have wf: "wf_proposal p" by (simp add: wf_proposal_def)
  show ?thesis
    using assms(4,8)
    by (cases "veto p")
       (simp_all add: current_status_def is_passed_eq [OF wf] undecided_yet_def considered_def if_distrib)
qed

theorem single_expired_resolves_witness:
  "current_status single_deps sample_tallied (sample_block 200) = Ok Passed"
proof -
  have p: "PROPOSALS sample_voted 1 = Some sample_tallied" "status sample_tallied = Open"
    "u128 (total_power sample_tallied)" "fits (total_power sample_tallied) (votes sample_tallied)"
    "fits (total_power sample_tallied) (individual_votes sample_tallied)"
    "is_expired single_deps (expiration sample_tallied) (sample_block 200)"
    by (simp_all add: sample_single_defs u128_def fits_def)
  have "min_period_over single_deps sample_tallied (sample_block 200)"
    "tally_passes (threshold sample_tallied) True (total_power sample_tallied) (votes sample_tallied)"
    by (simp_all add: sample_single_defs min_period_over_def tally_passes_def passes_def)
  then show ?thesis
    unfolding single_expired_resolves [OF sample_instantiated sample_run_voted p]
    by (simp add: sample_tallied_def sample_proposal_def)
qed

section \<open>Replies\<close>

lemma tagged_execution_small:
  "unat i < 2 ^ 61 \<Longrightarrow>
     tagged_reply_id_new (mask_proposal_execution_proposal_id i) = Ok (FailedProposalExecution i)"
  by (simp add: tagged_execution_id take_bit_61_small)

text \<open>when the configuration closes proposals on execution failure, the message that carries a
  proposal's messages asks for a reply on error, and that reply, handled in the state the execution
  left, records exactly this proposal as failed. Identifiers below \<open>2 ^ 61\<close>.\<close>

theorem single_failed_execution_recorded:
  assumes "execute_execute deps st env info pid = Ok (st', r)" and "PROPOSALS st pid = Some p"
    and "CONFIG st = Some config" and "cfg_close_proposal_on_execution_failure config"
    and "m \<in> set (messages r)" and "is_dispatch m" and "unat pid < 2 ^ 61"
  shows "msg_reply_on m = ReplyOnError \<and>
    reply deps' st' \<lparr>rep_id = msg_id m, parsed_instantiate_data = parsed\<rparr> =
      Ok (st\<lparr>PROPOSALS := (PROPOSALS st)(pid \<mapsto> p\<lparr>status := ExecutionFailed\<rparr>)\<rparr>,
          \<lparr>messages = [], data = None\<rparr>)"
  using assms(1)
proof (cases rule: execute_execute_cases)
  case (1 p' config' member s)
  have "m \<in> set (filter is_dispatch (messages r))" using assms(5,6) by simp
  with 1(1,2,7) assms(2-4) have "m = reply_on_error (WasmExecute (cfg_dao config) (ExecuteProposalHook (msgs p)) [])
      (mask_proposal_execution_proposal_id pid)"
    by (auto simp: dispatch_def Let_def split: if_splits)
  with 1(1,6) assms(2,7) show ?thesis
    by (simp add: reply_def reply_on_error_def tagged_execution_small respond_def)
qed

theorem single_failed_execution_recorded_witness:
  "reply single_deps sample_executed \<lparr>rep_id = 8, parsed_instantiate_data = Err ''none''\<rparr> =
     Ok (sample_voted\<lparr>PROPOSALS := [1 \<mapsto> sample_tallied\<lparr>status := ExecutionFailed\<rparr>]\<rparr>,
         \<lparr>messages = [], data = None\<rparr>)"
  using single_failed_execution_recorded [of single_deps sample_voted "sample_env 50" "sent_by ''bob''" 1
      sample_executed sample_dispatch sample_tallied sample_config "hd (messages sample_dispatch)"
      single_deps "Err ''none''"] sample_step_execute
  by (simp add: execute_def sample_dispatch_def is_dispatch_def reply_on_error_def sample_voted_def
      sample_proposed_def sample_start_def sample_config_def)

text \<open>C9: a receiver that fails is identified by its position when the hooks were sent, so the
  removal of an earlier receiver shifts the later ones. When the receivers at positions \<open>i\<close> and
  \<open>j\<close>, \<open>i < j\<close>, of one round of proposal hooks both fail, the second reply removes the
  receiver that was at position \<open>j + 1\<close>, and panics when there is none; the receiver at
  \<open>j\<close> stays registered.\<close>

theorem single_failed_hooks_shift:
  assumes "PROPOSAL_HOOKS st = Some hs" and "length hs < 2 ^ 32" and "i < j" and "j < length hs"
  shows "(case reply deps st \<lparr>rep_id = mask_proposal_hook_index (of_nat i), parsed_instantiate_data = x\<rparr> of
      Ok (st1, _) \<Rightarrow> reply deps st1 \<lparr>rep_id = mask_proposal_hook_index (of_nat j), parsed_instantiate_data = x\<rparr>
    | _ \<Rightarrow> Err Unauthorized) =
    (if Suc j < length hs
     then Ok (st\<lparr>PROPOSAL_HOOKS := Some (take i hs @ take (j - i) (drop (Suc i) hs) @ drop (Suc (Suc j)) hs)\<rparr>,
              \<lparr>messages = [], data = None\<rparr>)
     else Panic)"
proof -
  have ij: "unat (of_nat i :: u64) = i" "unat (of_nat j :: u64) = j"
    using assms(2-4) by (simp_all add: unat_of_nat_u64)
  have tag: "tagged_reply_id_new (mask_proposal_hook_index (of_nat k)) = Ok (FailedProposalHook (of_nat k))"
    if "k < 2 ^ 32" for k
    using that by (simp add: tagged_proposal_hook_index take_bit_61_small unat_of_nat_u64)
  have idx: "as_usize (of_nat i) = i" "as_usize (of_nat j) = j"
    using ij assms(2-4) by (simp_all add: as_usize_small)
  let ?hs = "take i hs @ drop (Suc i) hs"
  have r1: "reply deps st \<lparr>rep_id = mask_proposal_hook_index (of_nat i), parsed_instantiate_data = x\<rparr> =
      Ok (st\<lparr>PROPOSAL_HOOKS := Some ?hs\<rparr>, \<lparr>messages = [], data = None\<rparr>)"
    using assms tag [of i] idx
    by (simp add: reply_def remove_hook_by_index_def vec_remove_def respond_def)
  have len: "length ?hs = length hs - 1" using assms(3,4) by simp
  have parts: "take j ?hs = take i hs @ take (j - i) (drop (Suc i) hs)"
    "drop (Suc j) ?hs = drop (Suc (Suc j)) hs"
    using assms(3,4) by (simp_all add: min_def)
  show ?thesis
    using r1 tag [of j] idx assms len parts
    by (auto simp: reply_def remove_hook_by_index_def vec_remove_def respond_def)
qed

theorem single_failed_hooks_shift_witness:
  "(case reply single_deps (sample_start\<lparr>PROPOSAL_HOOKS := Some [''a'', ''b'', ''c'']\<rparr>)
      \<lparr>rep_id = mask_proposal_hook_index (of_nat 0), parsed_instantiate_data = Err ''none''\<rparr> of
      Ok (st1, _) \<Rightarrow> reply single_deps st1
        \<lparr>rep_id = mask_proposal_hook_index (of_nat 1), parsed_instantiate_data = Err ''none''\<rparr>
    | _ \<Rightarrow> Err Unauthorized) =
    Ok (sample_start\<lparr>PROPOSAL_HOOKS := Some [''b'']\<rparr>, \<lparr>messages = [], data = None\<rparr>)"
  using single_failed_hooks_shift [of "sample_start\<lparr>PROPOSAL_HOOKS := Some [''a'', ''b'', ''c'']\<rparr>"
      "[''a'', ''b'', ''c'']" 0 1 single_deps "Err ''none''"]
  by simp

section \<open>Queries and migration\<close>

lemma into_response_Ok:
  "into_response cw p b i = Ok x \<longleftrightarrow>
     pr_id x = i \<and> (\<exists>s. current_status cw p b = Ok s \<and> pr_proposal x = p\<lparr>status := s\<rparr>)"
  by (cases x) (auto simp: into_response_def result_ok)

text \<open>listing proposals returns, in ascending order of identifier and at most as many as the
  limit, exactly the proposals after the given identifier, each as stored but with the status it
  has at the queried block.\<close>

theorem single_list_proposals:
  assumes "query_list_proposals deps st env start_after limit = Ok ps"
  shows "map pr_id ps =
      take (as_usize (case limit of None \<Rightarrow> DEFAULT_LIMIT | Some l \<Rightarrow> l))
        (filter (\<lambda>i. case start_after of None \<Rightarrow> True | Some a \<Rightarrow> a < i)
          (sorted_list_of_set (dom (PROPOSALS st)))) \<and>
    (\<forall>x \<in> set ps. \<exists>s. current_status deps (the (PROPOSALS st (pr_id x))) (block env) = Ok s \<and>
       pr_proposal x = (the (PROPOSALS st (pr_id x)))\<lparr>status := s\<rparr>)"
proof -
  let ?lim = "as_usize (case limit of None \<Rightarrow> DEFAULT_LIMIT | Some l \<Rightarrow> l)"
  let ?keys = "take ?lim (filter (\<lambda>i. case start_after of None \<Rightarrow> True | Some a \<Rightarrow> a < i)
      (sorted_list_of_set (dom (PROPOSALS st))))"
  let ?f = "\<lambda>(i, p). into_response deps p (block env) i"
  have keys: "take ?lim (range_after (PROPOSALS st) start_after) =
      map (\<lambda>i. (i, the (PROPOSALS st i))) ?keys"
    by (simp add: range_after_def entries_def filter_map take_map comp_def)
  have ps: "try_map ?f (map (\<lambda>i. (i, the (PROPOSALS st i))) ?keys) = Ok ps"
    using assms keys by (simp add: query_list_proposals_def Let_def)
  have at: "pr_id (ps ! n) = ?keys ! n \<and> (\<exists>s. current_status deps (the (PROPOSALS st (?keys ! n))) (block env) = Ok s \<and>
      pr_proposal (ps ! n) = (the (PROPOSALS st (?keys ! n)))\<lparr>status := s\<rparr>)" if "n < length ?keys" for n
    using try_map_Ok_nth [OF ps, of n] that
    by (simp add: into_response_Ok)
  have len: "length ps = length ?keys" using try_map_Ok_length [OF ps] by simp
  have "map pr_id ps = ?keys" by (rule nth_equalityI) (use at len in auto)
  moreover have "\<exists>s. current_status deps (the (PROPOSALS st (pr_id x))) (block env) = Ok s \<and>
      pr_proposal x = (the (PROPOSALS st (pr_id x)))\<lparr>status := s\<rparr>" if "x \<in> set ps" for x
    using that at len unfolding in_set_conv_nth by auto
  ultimately show ?thesis by simp
qed

theorem single_list_proposals_witness:
  "map pr_id [\<lparr>pr_id = 1, pr_proposal = sample_proposal\<rparr>] =
     take (as_usize 30) (filter (\<lambda>i. True) (sorted_list_of_set (dom (PROPOSALS sample_proposed))))"
proof -
  have "query_list_proposals single_deps sample_proposed (sample_env 20) None None =
      Ok [\<lparr>pr_id = 1, pr_proposal = sample_proposal\<rparr>]"
    by (simp add: query_list_proposals_def range_after_def entries_def into_response_def
        DEFAULT_LIMIT_def as_usize_def sample_single_defs eval_single)
  from single_list_proposals [OF this] show ?thesis by (simp add: DEFAULT_LIMIT_def)
qed

definition deposit_settled :: "'m v1_proposal \<Rightarrow> bool" where
  "deposit_settled p \<longleftrightarrow>
     v1_prop_status p = V1Closed \<or> v1_prop_status p = V1Executed \<or> v1_deposit p = None \<or> v1_deposit p = Some 0"

lemma migrate_proposal_Ok [result_ok]:
  "migrate_proposal ps (i, p) = Ok qs \<longleftrightarrow> deposit_settled p \<and> qs = ps(i \<mapsto> v1_proposal_to_v2 p)"
  by (auto simp: migrate_proposal_def deposit_settled_def split: option.splits)





end
