(* ===== verification/Cw_Paginate.thy ===== *)
theory Cw_Paginate
  imports Prelude
begin

text \<open>
  Pagination over storage maps (\<open>packages/cw-paginate-storage\<close>): the entries after (or, in
  descending order, before) a key, cut to a limit.
\<close>

datatype order = Ascending | Descending

definition map_range :: "('k::linorder \<rightharpoonup> 'v) \<Rightarrow> 'k option \<Rightarrow> order \<Rightarrow> ('k \<times> 'v) list" where
  "map_range m start_after ord =
     (case ord of
        Ascending \<Rightarrow> range_after m start_after
      | Descending \<Rightarrow> range_before m start_after)"

definition paginate_map ::
  "('k::linorder \<rightharpoonup> 'v) \<Rightarrow> 'k option \<Rightarrow> nat option \<Rightarrow> order \<Rightarrow> ('k \<times> 'v) list" where
  "paginate_map m start_after limit ord =
     (let items = map_range m start_after ord in
      case limit of Some l \<Rightarrow> take l items | None \<Rightarrow> items)"

definition paginate_map_keys ::
  "('k::linorder \<rightharpoonup> 'v) \<Rightarrow> 'k option \<Rightarrow> nat option \<Rightarrow> order \<Rightarrow> 'k list" where
  "paginate_map_keys m start_after limit ord =
     (let items = map fst (map_range m start_after ord) in
      case limit of Some l \<Rightarrow> take l items | None \<Rightarrow> items)"

definition paginate_map_values ::
  "('k::linorder \<rightharpoonup> 'v) \<Rightarrow> 'k option \<Rightarrow> nat option \<Rightarrow> order \<Rightarrow> 'v list" where
  "paginate_map_values m start_after limit ord =
     (let items = map snd (map_range m start_after ord) in
      case limit of Some l \<Rightarrow> take l items | None \<Rightarrow> items)"

text \<open>The variants for \<open>SnapshotMap\<close> read the map of current values.\<close>

definition paginate_snapshot_map ::
  "('k::linorder \<rightharpoonup> 'v) \<Rightarrow> 'k option \<Rightarrow> nat option \<Rightarrow> order \<Rightarrow> ('k \<times> 'v) list" where
  "paginate_snapshot_map m start_after limit ord =
     (let items = map_range m start_after ord in
      case limit of Some l \<Rightarrow> take l items | None \<Rightarrow> items)"

definition paginate_snapshot_map_keys ::
  "('k::linorder \<rightharpoonup> 'v) \<Rightarrow> 'k option \<Rightarrow> nat option \<Rightarrow> order \<Rightarrow> 'k list" where
  "paginate_snapshot_map_keys m start_after limit ord =
     (let items = map fst (map_range m start_after ord) in
      case limit of Some l \<Rightarrow> take l items | None \<Rightarrow> items)"

section \<open>Pages cover the map\<close>

lemma map_range_sorted:
  "sorted_wrt (\<lambda>p q. fst p < fst q) (entries (m :: 'k::linorder \<rightharpoonup> 'v))"
  by (simp add: entries_def sorted_wrt_map)

lemma filter_after:
  assumes "sorted_wrt (\<lambda>p q. fst p < (fst q :: 'k::linorder)) (us @ p # vs)"
  shows "filter (\<lambda>(k, _). fst p < k) (us @ p # vs) = vs"
    and "filter (\<lambda>(k, _). k < fst p) (us @ p # vs) = us"
proof -
  have v: "fst p < fst q" if "q \<in> set vs" for q using assms that by (simp add: sorted_wrt_append)
  have u: "fst q < fst p" if "q \<in> set us" for q using assms that by (auto simp: sorted_wrt_append)
  have "filter (\<lambda>q. fst p < fst q) us = []" "filter (\<lambda>q. fst p < fst q) vs = vs"
    unfolding filter_empty_conv filter_id_conv using u v less_asym by metis+
  then show "filter (\<lambda>(k, _). fst p < k) (us @ p # vs) = vs" by (simp add: case_prod_unfold)
  have "filter (\<lambda>q. fst q < fst p) us = us" "filter (\<lambda>q. fst q < fst p) vs = []"
    unfolding filter_empty_conv filter_id_conv using u v less_asym by metis+
  then show "filter (\<lambda>(k, _). k < fst p) (us @ p # vs) = us" by (simp add: case_prod_unfold)
qed

text \<open>The range after a key of the map is what follows that key in the whole range.\<close>

lemma map_range_after:
  assumes "map_range m None ord = us @ p # vs"
  shows "map_range m (Some (fst p)) ord = vs"
proof (cases ord)
  case Ascending
  with assms have "entries m = us @ p # vs" by (simp add: map_range_def range_after_def)
  with Ascending map_range_sorted [of m] show ?thesis
    using filter_after(1) [of us p vs] by (simp add: map_range_def range_after_def)
next
  case Descending
  with assms have "rev (entries m) = us @ p # vs" by (simp add: map_range_def range_before_def)
  then have e: "entries m = rev vs @ p # rev us" by (simp add: rev_swap)
  with Descending map_range_sorted [of m] show ?thesis
    using filter_after(2) [of "rev vs" p "rev us"] by (simp add: map_range_def range_before_def)
qed

text \<open>
  A client that reads a map page by page, each time after the last key it has seen, until a page
  comes back empty; \<open>n\<close> bounds the number of requests.
\<close>

primrec read_pages :: "('k::linorder \<rightharpoonup> 'v) \<Rightarrow> nat \<Rightarrow> order \<Rightarrow> nat \<Rightarrow> 'k option \<Rightarrow> ('k \<times> 'v) list" where
  "read_pages m l ord 0 start = []"
| "read_pages m l ord (Suc n) start =
     (let page = paginate_map m start (Some l) ord in
      if page = [] then [] else page @ read_pages m l ord n (Some (fst (last page))))"

lemma read_pages_from:
  assumes "map_range m None ord = us @ vs" "map_range m start ord = vs" "0 < l" "length vs \<le> n"
  shows "read_pages m l ord n start = vs"
  using assms
proof (induction n arbitrary: us vs start)
  case 0
  then show ?case by simp
next
  case (Suc n)
  show ?case
  proof (cases vs)
    case Nil
    with Suc.prems show ?thesis by (simp add: paginate_map_def)
  next
    case (Cons q qs)
    let ?page = "take l vs" and ?rest = "drop l vs"
    have page: "paginate_map m start (Some l) ord = ?page" "?page \<noteq> []"
      using Suc.prems Cons by (simp_all add: paginate_map_def)
    have "?page = butlast ?page @ [last ?page]" using append_butlast_last_id [OF page(2)] by (rule sym)
    then have "vs = butlast ?page @ last ?page # ?rest"
      using append_take_drop_id [of l vs] append_assoc [of "butlast ?page" "[last ?page]" ?rest]
      by (simp only: append_Cons append_Nil)
    then have "map_range m None ord = (us @ butlast ?page) @ last ?page # ?rest"
      using Suc.prems(1) by (simp only: append_assoc)
    then have "map_range m (Some (fst (last ?page))) ord = ?rest" by (rule map_range_after)
    with Suc.IH [of "us @ ?page" ?rest] Suc.prems Cons
    have "read_pages m l ord n (Some (fst (last ?page))) = ?rest" by (simp add: le_diff_conv)
    with page show ?thesis by (simp add: Let_def)
  qed
qed

text \<open>C39: reading a map page by page, in either order and with any positive page size, returns every
  entry exactly once and in the order of a single unbounded request.
\<close>

theorem pages_cover_map:
  assumes "finite (dom m)" "0 < l" "card (dom m) \<le> n"
  shows "read_pages m l ord n None = paginate_map m None None ord \<and>
    distinct (map fst (read_pages m l ord n None)) \<and>
    set (read_pages m l ord n None) = {(k, v). m k = Some v}"
proof -
  have len: "length (map_range m None ord) = card (dom m)"
    by (simp add: map_range_def range_after_def range_before_def entries_def split: order.split)
  have r: "read_pages m l ord n None = map_range m None ord"
    using read_pages_from [of m ord "[]" _ None l n] assms len by simp
  have "distinct (map fst (map_range m None ord))"
    using distinct_entries [of m]
    by (simp add: map_range_def range_after_def range_before_def rev_map [symmetric] split: order.split)
  moreover have "set (map_range m None ord) = {(k, v). m k = Some v}"
    using set_entries [OF assms(1)]
    by (simp add: map_range_def range_after_def range_before_def split: order.split)
  ultimately show ?thesis unfolding r by (simp add: paginate_map_def)
qed

theorem pages_cover_map_witness:
  "read_pages [(1::nat) \<mapsto> ''a'', 2 \<mapsto> ''b'', 3 \<mapsto> ''c''] 2 Descending 3 None =
     paginate_map [1 \<mapsto> ''a'', 2 \<mapsto> ''b'', 3 \<mapsto> ''c''] None None Descending"
  using pages_cover_map [of "[(1::nat) \<mapsto> ''a'', 2 \<mapsto> ''b'', 3 \<mapsto> ''c'']" 2 3 Descending]
  by simp

end
