(* ===== verification/Dao_Core.thy ===== *)
theory Dao_Core
  imports Dao_Interface Cw_Paginate
begin

text \<open>
  The DAO's core contract \<open>dao-dao-core\<close>: its storage, every message handler, replies,
  queries and migrations (\<open>contract.rs\<close>, \<open>state.rs\<close>, \<open>error.rs\<close>). Event attributes
  are left out of responses.
\<close>

section \<open>State, messages and errors\<close>

record 'm core_state =
  CONTRACT_INFO :: "(string \<times> string) option"
  ADMIN :: "addr option"
  NOMINATED_ADMIN :: "addr option"
  CONFIG :: "core_config option"
  PAUSED :: "expiration option"
  VOTING_MODULE :: "addr option"
  PROPOSAL_MODULES :: "addr \<rightharpoonup> proposal_module"
  ACTIVE_PROPOSAL_MODULE_COUNT :: "nat option"
  TOTAL_PROPOSAL_MODULE_COUNT :: "nat option"
  ITEMS :: "string \<rightharpoonup> string"
  CW20_LIST :: "addr \<rightharpoonup> unit"
  CW721_LIST :: "addr \<rightharpoonup> unit"
  SUBDAO_LIST :: "addr \<rightharpoonup> string option"
  INITIAL_ACTIONS :: "'m list option"

datatype core_error =
    Std std_error
  | ParseReplyError string
  | Unauthorized
  | IsPaused
  | NoActiveProposalModules
  | UnknownReplyID
  | MultipleVotingModules
  | KeyMissing
  | NoAdminNomination
  | PendingNomination
  | ProposalModuleDoesNotExist addr
  | ModuleAlreadyDisabled addr
  | ModuleDisabledCannotExecute addr
  | DuplicateInitialItem string
  | AlreadyMigrated
  | InitialActionsError string

datatype 'm execute_msg =
    ExecuteAdminMsgs "'m list"
  | ExecuteProposalHook "'m list"
  | Pause duration
  | Unpause
  | Receive
  | ReceiveNft
  | RemoveItem string
  | SetItem string string
  | NominateAdmin "string option"
  | AcceptAdminNomination
  | WithdrawAdminNomination
  | UpdateConfig core_config
  | UpdateCw20List "string list" "string list"
  | UpdateCw721List "string list" "string list"
  | UpdateProposalModules "module_instantiate_info list" "string list"
  | UpdateVotingModule module_instantiate_info
  | UpdateSubDaos "sub_dao list" "string list"

type_synonym 'm core_msg = "('m execute_msg, 'm) cosmos_msg"

text \<open>
  What the core asks of other contracts and of the JSON decoder: balances and contract
  information of tokens, voting power from the voting module, and the callback messages in the
  data of an instantiated module.
\<close>

record 'm core_deps = cw_env +
  cw20_balance :: "addr \<Rightarrow> addr \<Rightarrow> (nat, std_error) result"
  cw721_contract_info :: "addr \<Rightarrow> (unit, std_error) result"
  module_voting_power :: "addr \<Rightarrow> string \<Rightarrow> u64 option \<Rightarrow> (nat, std_error) result"
  module_total_power :: "addr \<Rightarrow> u64 option \<Rightarrow> (nat, std_error) result"
  decode_callback :: "binary \<Rightarrow> ('m list, std_error) result"

type_synonym 'm core_outcome = "('m core_state \<times> 'm core_msg sub_msg list, core_error) result"

definition CONTRACT_NAME :: string where
  "CONTRACT_NAME = ''crates.io:dao-dao-core''"

definition CONTRACT_VERSION :: string where
  "CONTRACT_VERSION = ''2.8.0-alpha.2''"

definition PROPOSAL_MODULE_REPLY_ID :: u64 where
  "PROPOSAL_MODULE_REPLY_ID = 0"

definition VOTE_MODULE_INSTANTIATE_REPLY_ID :: u64 where
  "VOTE_MODULE_INSTANTIATE_REPLY_ID = 1"

definition VOTE_MODULE_UPDATE_REPLY_ID :: u64 where
  "VOTE_MODULE_UPDATE_REPLY_ID = 2"

definition INITIAL_ACTIONS_REPLY_ID :: u64 where
  "INITIAL_ACTIONS_REPLY_ID = 3"

definition forward :: "'m list \<Rightarrow> 'm core_msg sub_msg list" where
  "forward ms = map (\<lambda>m. sub_msg_new (Forwarded m)) ms"

section \<open>Instantiation\<close>

record initial_item =
  item_key :: string
  item_value :: string

record 'm instantiate_msg =
  im_admin :: "string option"
  im_name :: string
  im_description :: string
  im_image_url :: "string option"
  im_automatically_add_cw20s :: bool
  im_automatically_add_cw721s :: bool
  im_voting_module :: module_instantiate_info
  im_proposal_modules :: "module_instantiate_info list"
  im_initial_items :: "initial_item list option"
  im_initial_actions :: "'m list option"
  im_dao_uri :: "string option"

definition save_initial_item ::
  "string list \<times> (string \<rightharpoonup> string) \<Rightarrow> initial_item
     \<Rightarrow> (string list \<times> (string \<rightharpoonup> string), core_error) result" where
  "save_initial_item acc it =
     (case acc of (seen, items) \<Rightarrow>
        if item_key it \<in> set seen then Err (DuplicateInitialItem (item_key it))
        else Ok (seen @ [item_key it], items(item_key it \<mapsto> item_value it)))"

definition instantiate ::
  "'m core_deps \<Rightarrow> 'm core_state \<Rightarrow> env \<Rightarrow> message_info \<Rightarrow> 'm instantiate_msg \<Rightarrow> 'm core_outcome" where
  "instantiate deps st env info msg =
     and_then (map_err Std (transpose_opt (addr_validate deps) (im_admin msg))) (\<lambda>admin_opt.
     let admin = (case admin_opt of None \<Rightarrow> contract_address env | Some a \<Rightarrow> a);
         vote_module_msg = reply_on_success (Wasm (into_wasm_msg (im_voting_module msg) (contract_address env)))
           VOTE_MODULE_INSTANTIATE_REPLY_ID;
         proposal_module_msgs = map (\<lambda>info. reply_on_success
           (Wasm (into_wasm_msg info (contract_address env))) PROPOSAL_MODULE_REPLY_ID)
           (im_proposal_modules msg) in
     if proposal_module_msgs = [] then Err NoActiveProposalModules
     else
     and_then
       (case im_initial_items msg of
          Some initial_items \<Rightarrow> and_then (try_fold save_initial_item ([], ITEMS st) initial_items)
            (\<lambda>(_, items). Ok items)
        | None \<Rightarrow> Ok (ITEMS st)) (\<lambda>items.
     let st = st\<lparr>CONTRACT_INFO := Some (CONTRACT_NAME, CONTRACT_VERSION),
           CONFIG := Some
             \<lparr>name = im_name msg, description = im_description msg, image_url = im_image_url msg,
              automatically_add_cw20s = im_automatically_add_cw20s msg,
              automatically_add_cw721s = im_automatically_add_cw721s msg, dao_uri = im_dao_uri msg\<rparr>,
           ADMIN := Some admin, ITEMS := items,
           TOTAL_PROPOSAL_MODULE_COUNT := Some 0, ACTIVE_PROPOSAL_MODULE_COUNT := Some 0\<rparr>;
         res = vote_module_msg # proposal_module_msgs in
     case im_initial_actions msg of
       Some initial_actions \<Rightarrow>
         Ok (st\<lparr>INITIAL_ACTIONS := Some initial_actions\<rparr>,
             res @ map (\<lambda>m. reply_on_error (Forwarded m) INITIAL_ACTIONS_REPLY_ID) initial_actions)
     | None \<Rightarrow> Ok (st, res)))"

section \<open>Pausing and executing messages\<close>

definition execute_pause ::
  "'m core_deps \<Rightarrow> 'm core_state \<Rightarrow> env \<Rightarrow> addr \<Rightarrow> duration \<Rightarrow> 'm core_outcome" where
  "execute_pause deps st env who pause_duration =
     (if who \<noteq> contract_address env then Err Unauthorized
      else and_then (ok_or_panic (duration_after deps pause_duration (block env))) (\<lambda>until.
        Ok (st\<lparr>PAUSED := Some until\<rparr>, [])))"

definition execute_unpause :: "'m core_state \<Rightarrow> addr \<Rightarrow> 'm core_outcome" where
  "execute_unpause st who =
     and_then (map_err Std (load (ADMIN st))) (\<lambda>admin.
     if who \<noteq> admin then Err Unauthorized else Ok (st\<lparr>PAUSED := None\<rparr>, []))"

definition execute_admin_msgs :: "'m core_state \<Rightarrow> addr \<Rightarrow> 'm list \<Rightarrow> 'm core_outcome" where
  "execute_admin_msgs st who ms =
     and_then (map_err Std (load (ADMIN st))) (\<lambda>admin.
     if who \<noteq> admin then Err Unauthorized else Ok (st, forward ms))"

definition execute_proposal_hook :: "'m core_state \<Rightarrow> addr \<Rightarrow> 'm list \<Rightarrow> 'm core_outcome" where
  "execute_proposal_hook st who ms =
     and_then (ok_or (PROPOSAL_MODULES st who) Unauthorized) (\<lambda>module.
     if module_status module \<noteq> Enabled then Err (ModuleDisabledCannotExecute who)
     else Ok (st, forward ms))"

section \<open>The admin\<close>

definition execute_nominate_admin ::
  "'m core_deps \<Rightarrow> 'm core_state \<Rightarrow> env \<Rightarrow> addr \<Rightarrow> string option \<Rightarrow> 'm core_outcome" where
  "execute_nominate_admin deps st env who nomination =
     and_then (map_err Std (transpose_opt (addr_validate deps) nomination)) (\<lambda>nomination.
     and_then (map_err Std (load (ADMIN st))) (\<lambda>current_admin.
     if current_admin \<noteq> who then Err Unauthorized
     else if NOMINATED_ADMIN st \<noteq> None then Err PendingNomination
     else case nomination of
       Some nominee \<Rightarrow> Ok (st\<lparr>NOMINATED_ADMIN := Some nominee\<rparr>, [])
     | None \<Rightarrow> Ok (st\<lparr>ADMIN := Some (contract_address env)\<rparr>, [])))"

definition execute_accept_admin_nomination :: "'m core_state \<Rightarrow> addr \<Rightarrow> 'm core_outcome" where
  "execute_accept_admin_nomination st who =
     and_then (ok_or (NOMINATED_ADMIN st) NoAdminNomination) (\<lambda>nomination.
     if who \<noteq> nomination then Err Unauthorized
     else Ok (st\<lparr>NOMINATED_ADMIN := None, ADMIN := Some nomination\<rparr>, []))"

definition execute_withdraw_admin_nomination :: "'m core_state \<Rightarrow> addr \<Rightarrow> 'm core_outcome" where
  "execute_withdraw_admin_nomination st who =
     and_then (map_err Std (load (ADMIN st))) (\<lambda>admin.
     if admin \<noteq> who then Err Unauthorized
     else if NOMINATED_ADMIN st = None then Err NoAdminNomination
     else Ok (st\<lparr>NOMINATED_ADMIN := None\<rparr>, []))"

section \<open>Configuration and modules\<close>

definition execute_update_config ::
  "'m core_state \<Rightarrow> env \<Rightarrow> addr \<Rightarrow> core_config \<Rightarrow> 'm core_outcome" where
  "execute_update_config st env who config =
     (if who \<noteq> contract_address env then Err Unauthorized
      else Ok (st\<lparr>CONFIG := Some config\<rparr>, []))"

definition execute_update_voting_module ::
  "'m core_state \<Rightarrow> env \<Rightarrow> addr \<Rightarrow> module_instantiate_info \<Rightarrow> 'm core_outcome" where
  "execute_update_voting_module st env who module =
     (if contract_address env \<noteq> who then Err Unauthorized
      else Ok (st, [reply_on_success (Wasm (into_wasm_msg module (contract_address env)))
                      VOTE_MODULE_UPDATE_REPLY_ID]))"

definition disable_module ::
  "'m core_deps \<Rightarrow> (addr \<rightharpoonup> proposal_module) \<Rightarrow> string
     \<Rightarrow> (addr \<rightharpoonup> proposal_module, core_error) result" where
  "disable_module deps modules a =
     and_then (map_err Std (addr_validate deps a)) (\<lambda>a.
     and_then (ok_or (modules a) (ProposalModuleDoesNotExist a)) (\<lambda>module.
     if module_status module = Disabled then Err (ModuleAlreadyDisabled (address module))
     else Ok (modules(a \<mapsto> module\<lparr>module_status := Disabled\<rparr>))))"

definition execute_update_proposal_modules ::
  "'m core_deps \<Rightarrow> 'm core_state \<Rightarrow> env \<Rightarrow> addr \<Rightarrow> module_instantiate_info list \<Rightarrow> string list
     \<Rightarrow> 'm core_outcome" where
  "execute_update_proposal_modules deps st env who to_add to_disable =
     (if contract_address env \<noteq> who then Err Unauthorized
      else
      let disable_count = length to_disable mod 2 ^ 32 in
      and_then (try_fold (disable_module deps) (PROPOSAL_MODULES st) to_disable) (\<lambda>modules.
      and_then (map_err Std (load (ACTIVE_PROPOSAL_MODULE_COUNT st))) (\<lambda>count.
      if count \<le> disable_count \<and> to_add = [] then Err NoActiveProposalModules
      else
      and_then (sub_u32 count disable_count) (\<lambda>active.
      Ok (st\<lparr>PROPOSAL_MODULES := modules, ACTIVE_PROPOSAL_MODULE_COUNT := Some active\<rparr>,
          map (\<lambda>info. reply_on_success (Wasm (into_wasm_msg info (contract_address env)))
            PROPOSAL_MODULE_REPLY_ID) to_add)))))"

section \<open>Token lists, items and SubDAOs\<close>

definition do_update_addr_list ::
  "'m core_deps \<Rightarrow> (addr \<rightharpoonup> unit) \<Rightarrow> string list \<Rightarrow> string list
     \<Rightarrow> (addr \<Rightarrow> (unit, std_error) result) \<Rightarrow> (addr \<rightharpoonup> unit, core_error) result" where
  "do_update_addr_list deps m to_add to_remove verify =
     and_then (map_err Std (try_map (addr_validate deps) to_add)) (\<lambda>to_add.
     and_then (map_err Std (try_map (addr_validate deps) to_remove)) (\<lambda>to_remove.
     and_then
       (try_fold (\<lambda>m a. and_then (map_err Std (verify a)) (\<lambda>_. Ok (m(a \<mapsto> ())))) m to_add) (\<lambda>m.
     Ok (fold (\<lambda>a m. m(a := None)) to_remove m))))"

definition execute_update_cw20_list ::
  "'m core_deps \<Rightarrow> 'm core_state \<Rightarrow> env \<Rightarrow> addr \<Rightarrow> string list \<Rightarrow> string list \<Rightarrow> 'm core_outcome" where
  "execute_update_cw20_list deps st env who to_add to_remove =
     (if contract_address env \<noteq> who then Err Unauthorized
      else and_then (do_update_addr_list deps (CW20_LIST st) to_add to_remove
        (\<lambda>a. and_then (cw20_balance deps a (contract_address env)) (\<lambda>_. Ok ()))) (\<lambda>m.
      Ok (st\<lparr>CW20_LIST := m\<rparr>, [])))"

definition execute_update_cw721_list ::
  "'m core_deps \<Rightarrow> 'm core_state \<Rightarrow> env \<Rightarrow> addr \<Rightarrow> string list \<Rightarrow> string list \<Rightarrow> 'm core_outcome" where
  "execute_update_cw721_list deps st env who to_add to_remove =
     (if contract_address env \<noteq> who then Err Unauthorized
      else and_then (do_update_addr_list deps (CW721_LIST st) to_add to_remove
        (cw721_contract_info deps)) (\<lambda>m.
      Ok (st\<lparr>CW721_LIST := m\<rparr>, [])))"

definition execute_set_item ::
  "'m core_state \<Rightarrow> env \<Rightarrow> addr \<Rightarrow> string \<Rightarrow> string \<Rightarrow> 'm core_outcome" where
  "execute_set_item st env who key val =
     (if contract_address env \<noteq> who then Err Unauthorized
      else Ok (st\<lparr>ITEMS := (ITEMS st)(key \<mapsto> val)\<rparr>, []))"

definition execute_remove_item ::
  "'m core_state \<Rightarrow> env \<Rightarrow> addr \<Rightarrow> string \<Rightarrow> 'm core_outcome" where
  "execute_remove_item st env who key =
     (if contract_address env \<noteq> who then Err Unauthorized
      else if ITEMS st key \<noteq> None then Ok (st\<lparr>ITEMS := (ITEMS st)(key := None)\<rparr>, [])
      else Err KeyMissing)"

definition execute_update_sub_daos_list ::
  "'m core_deps \<Rightarrow> 'm core_state \<Rightarrow> env \<Rightarrow> addr \<Rightarrow> sub_dao list \<Rightarrow> string list \<Rightarrow> 'm core_outcome" where
  "execute_update_sub_daos_list deps st env who to_add to_remove =
     (if contract_address env \<noteq> who then Err Unauthorized
      else
      and_then (try_fold (\<lambda>m a. and_then (map_err Std (addr_validate deps a)) (\<lambda>a. Ok (m(a := None))))
        (SUBDAO_LIST st) to_remove) (\<lambda>m.
      and_then (try_fold (\<lambda>m s. and_then (map_err Std (addr_validate deps (sub_addr s))) (\<lambda>a.
        Ok (m(a \<mapsto> charter s)))) m to_add) (\<lambda>m.
      Ok (st\<lparr>SUBDAO_LIST := m\<rparr>, []))))"

definition execute_receive_cw20 :: "'m core_state \<Rightarrow> addr \<Rightarrow> 'm core_outcome" where
  "execute_receive_cw20 st who =
     and_then (map_err Std (load (CONFIG st))) (\<lambda>config.
     if \<not> automatically_add_cw20s config then Ok (st, [])
     else Ok (st\<lparr>CW20_LIST := (CW20_LIST st)(who \<mapsto> ())\<rparr>, []))"

definition execute_receive_cw721 :: "'m core_state \<Rightarrow> addr \<Rightarrow> 'm core_outcome" where
  "execute_receive_cw721 st who =
     and_then (map_err Std (load (CONFIG st))) (\<lambda>config.
     if \<not> automatically_add_cw721s config then Ok (st, [])
     else Ok (st\<lparr>CW721_LIST := (CW721_LIST st)(who \<mapsto> ())\<rparr>, []))"

section \<open>The entry point\<close>

text \<open>The check that opens \<open>execute\<close>: a paused DAO listens to its admin and to itself.\<close>

definition check_paused ::
  "'m core_deps \<Rightarrow> 'm core_state \<Rightarrow> env \<Rightarrow> message_info \<Rightarrow> (unit, core_error) result" where
  "check_paused deps st env info =
     (case PAUSED st of
        Some e \<Rightarrow>
          if \<not> is_expired deps e (block env) \<and> sender info \<noteq> contract_address env then
            and_then (map_err Std (load (ADMIN st))) (\<lambda>admin.
              if sender info \<noteq> admin then Err IsPaused else Ok ())
          else Ok ()
      | None \<Rightarrow> Ok ())"

definition execute ::
  "'m core_deps \<Rightarrow> 'm core_state \<Rightarrow> env \<Rightarrow> message_info \<Rightarrow> 'm execute_msg \<Rightarrow> 'm core_outcome" where
  "execute deps st env info msg =
     and_then (check_paused deps st env info) (\<lambda>_.
     case msg of
       ExecuteAdminMsgs ms \<Rightarrow> execute_admin_msgs st (sender info) ms
     | ExecuteProposalHook ms \<Rightarrow> execute_proposal_hook st (sender info) ms
     | Pause d \<Rightarrow> execute_pause deps st env (sender info) d
     | Unpause \<Rightarrow> execute_unpause st (sender info)
     | Receive \<Rightarrow> execute_receive_cw20 st (sender info)
     | ReceiveNft \<Rightarrow> execute_receive_cw721 st (sender info)
     | RemoveItem key \<Rightarrow> execute_remove_item st env (sender info) key
     | SetItem key val \<Rightarrow> execute_set_item st env (sender info) key val
     | UpdateConfig config \<Rightarrow> execute_update_config st env (sender info) config
     | UpdateCw20List to_add to_remove \<Rightarrow>
         execute_update_cw20_list deps st env (sender info) to_add to_remove
     | UpdateCw721List to_add to_remove \<Rightarrow>
         execute_update_cw721_list deps st env (sender info) to_add to_remove
     | UpdateVotingModule module \<Rightarrow> execute_update_voting_module st env (sender info) module
     | UpdateProposalModules to_add to_disable \<Rightarrow>
         execute_update_proposal_modules deps st env (sender info) to_add to_disable
     | NominateAdmin a \<Rightarrow> execute_nominate_admin deps st env (sender info) a
     | AcceptAdminNomination \<Rightarrow> execute_accept_admin_nomination st (sender info)
     | WithdrawAdminNomination \<Rightarrow> execute_withdraw_admin_nomination st (sender info)
     | UpdateSubDaos to_add to_remove \<Rightarrow>
         execute_update_sub_daos_list deps st env (sender info) to_add to_remove)"

section \<open>Prefixes of proposal modules\<close>

text \<open>
  The loop of \<open>derive_proposal_module_prefix\<close> pushes the letters of a number in bijective base
  26, least significant first. It is entered with a positive dividend.
\<close>

function prefix_loop :: "nat \<Rightarrow> string \<Rightarrow> string" where
  "prefix_loop dividend pre =
     (let remainder = (dividend - 1) mod 26;
          dividend = (dividend - remainder) div 26;
          pre = pre @ [char_of (remainder + 65)]
      in if dividend = 0 then pre else prefix_loop dividend pre)"
  by auto

termination
proof (relation "measure fst")
  fix dividend :: nat and pre rem d p
  assume d: "rem = (dividend - 1) mod 26" "d = (dividend - rem) div 26" "d \<noteq> 0"
  then have "d \<le> dividend div 26" by (simp add: div_le_mono)
  moreover have "dividend \<noteq> 0" using d by (cases dividend) auto
  ultimately have "d < dividend" by (simp add: order_le_less_trans)
  then show "((d, p), dividend, pre) \<in> measure fst" by simp
qed simp

definition derive_proposal_module_prefix :: "nat \<Rightarrow> (string, std_error) result" where
  "derive_proposal_module_prefix dividend =
     and_then (add_u32 dividend 1) (\<lambda>dividend. Ok (rev (prefix_loop dividend [])))"

section \<open>Replies\<close>

text \<open>The reply with the error text of a failed sub-message.\<close>

record core_reply = reply +
  rep_error :: "string option"

definition callback_msgs :: "'m core_deps \<Rightarrow> instantiate_data \<Rightarrow> 'm list" where
  "callback_msgs deps res =
     (case res_data res of
        Some d \<Rightarrow> (case decode_callback deps d of Ok ms \<Rightarrow> ms | _ \<Rightarrow> [])
      | None \<Rightarrow> [])"

definition reply :: "'m core_deps \<Rightarrow> 'm core_state \<Rightarrow> core_reply \<Rightarrow> 'm core_outcome" where
  "reply deps st msg =
     (if rep_id msg = PROPOSAL_MODULE_REPLY_ID then
        and_then (map_err ParseReplyError (parsed_instantiate_data msg)) (\<lambda>res.
        and_then (map_err Std (addr_validate deps (res_contract_address res))) (\<lambda>a.
        and_then (map_err Std (load (TOTAL_PROPOSAL_MODULE_COUNT st))) (\<lambda>total_module_count.
        and_then (map_err Std (derive_proposal_module_prefix total_module_count)) (\<lambda>pre.
        and_then (map_err Std (load (ACTIVE_PROPOSAL_MODULE_COUNT st))) (\<lambda>count.
        and_then (add_u32 count 1) (\<lambda>active.
        and_then (add_u32 total_module_count 1) (\<lambda>tot.
        Ok (st\<lparr>PROPOSAL_MODULES := (PROPOSAL_MODULES st)(a \<mapsto>
              \<lparr>address = a, prefix = pre, module_status = Enabled\<rparr>),
              ACTIVE_PROPOSAL_MODULE_COUNT := Some active,
              TOTAL_PROPOSAL_MODULE_COUNT := Some tot\<rparr>,
            forward (callback_msgs deps res)))))))))
      else if rep_id msg = VOTE_MODULE_INSTANTIATE_REPLY_ID then
        and_then (map_err ParseReplyError (parsed_instantiate_data msg)) (\<lambda>res.
        and_then (map_err Std (addr_validate deps (res_contract_address res))) (\<lambda>a.
        if VOTING_MODULE st \<noteq> None then Err MultipleVotingModules
        else Ok (st\<lparr>VOTING_MODULE := Some a\<rparr>, forward (callback_msgs deps res))))
      else if rep_id msg = VOTE_MODULE_UPDATE_REPLY_ID then
        and_then (map_err ParseReplyError (parsed_instantiate_data msg)) (\<lambda>res.
        and_then (map_err Std (addr_validate deps (res_contract_address res))) (\<lambda>a.
        Ok (st\<lparr>VOTING_MODULE := Some a\<rparr>, [])))
      else if rep_id msg = INITIAL_ACTIONS_REPLY_ID then
        and_then (ok_or_panic (rep_error msg)) (\<lambda>e. Err (InitialActionsError e))
      else Err UnknownReplyID)"

section \<open>Queries\<close>

definition query_admin :: "'m core_state \<Rightarrow> (addr, std_error) result" where
  "query_admin st = load (ADMIN st)"

definition query_admin_nomination :: "'m core_state \<Rightarrow> (addr option, std_error) result" where
  "query_admin_nomination st = Ok (NOMINATED_ADMIN st)"

definition query_config :: "'m core_state \<Rightarrow> (core_config, std_error) result" where
  "query_config st = load (CONFIG st)"

definition query_voting_module :: "'m core_state \<Rightarrow> (addr, std_error) result" where
  "query_voting_module st = load (VOTING_MODULE st)"

definition query_proposal_modules ::
  "'m core_deps \<Rightarrow> 'm core_state \<Rightarrow> string option \<Rightarrow> nat option \<Rightarrow> (proposal_module list, std_error) result" where
  "query_proposal_modules deps st start_after limit =
     and_then (transpose_opt (addr_validate deps) start_after) (\<lambda>start_after.
     Ok (paginate_map_values (PROPOSAL_MODULES st) start_after limit Ascending))"

definition query_active_proposal_modules ::
  "'m core_deps \<Rightarrow> 'm core_state \<Rightarrow> string option \<Rightarrow> nat option \<Rightarrow> (proposal_module list, std_error) result" where
  "query_active_proposal_modules deps st start_after limit =
     and_then (transpose_opt (addr_validate deps) start_after) (\<lambda>start_after.
     let vals = paginate_map_values (PROPOSAL_MODULES st) start_after None Ascending;
         limit = (case limit of None \<Rightarrow> length vals mod 2 ^ 32 | Some l \<Rightarrow> l) in
     Ok (take limit (filter (\<lambda>m. module_status m = Enabled) vals)))"

definition get_pause_info :: "'m core_deps \<Rightarrow> 'm core_state \<Rightarrow> env \<Rightarrow> pause_info_response" where
  "get_pause_info deps st env =
     (case PAUSED st of
        Some e \<Rightarrow> if is_expired deps e (block env) then Unpaused else Paused e
      | None \<Rightarrow> Unpaused)"

record 'm dump_state_response =
  dump_admin :: addr
  dump_config :: core_config
  dump_version :: "string \<times> string"
  dump_pause_info :: pause_info_response
  dump_proposal_modules :: "proposal_module list"
  dump_voting_module :: addr
  dump_active_proposal_module_count :: nat
  dump_total_proposal_module_count :: nat
  dump_initial_actions :: "'m list"

definition query_dump_state ::
  "'m core_deps \<Rightarrow> 'm core_state \<Rightarrow> env \<Rightarrow> ('m dump_state_response, std_error) result" where
  "query_dump_state deps st env =
     and_then (load (ADMIN st)) (\<lambda>admin.
     and_then (load (CONFIG st)) (\<lambda>config.
     and_then (load (VOTING_MODULE st)) (\<lambda>voting_module.
     and_then (load (CONTRACT_INFO st)) (\<lambda>version.
     and_then (load (ACTIVE_PROPOSAL_MODULE_COUNT st)) (\<lambda>active_count.
     and_then (load (TOTAL_PROPOSAL_MODULE_COUNT st)) (\<lambda>total_count.
     Ok \<lparr>dump_admin = admin, dump_config = config, dump_version = version,
         dump_pause_info = get_pause_info deps st env,
         dump_proposal_modules = map snd (entries (PROPOSAL_MODULES st)),
         dump_voting_module = voting_module, dump_active_proposal_module_count = active_count,
         dump_total_proposal_module_count = total_count,
         dump_initial_actions = (case INITIAL_ACTIONS st of None \<Rightarrow> [] | Some ms \<Rightarrow> ms)\<rparr>))))))"

definition query_voting_power_at_height ::
  "'m core_deps \<Rightarrow> 'm core_state \<Rightarrow> string \<Rightarrow> u64 option \<Rightarrow> (nat, std_error) result" where
  "query_voting_power_at_height deps st a h =
     and_then (load (VOTING_MODULE st)) (\<lambda>vm. module_voting_power deps vm a h)"

definition query_total_power_at_height ::
  "'m core_deps \<Rightarrow> 'm core_state \<Rightarrow> u64 option \<Rightarrow> (nat, std_error) result" where
  "query_total_power_at_height deps st h =
     and_then (load (VOTING_MODULE st)) (\<lambda>vm. module_total_power deps vm h)"

definition query_get_item :: "'m core_state \<Rightarrow> string \<Rightarrow> (string option, std_error) result" where
  "query_get_item st item = Ok (ITEMS st item)"

definition query_info :: "'m core_state \<Rightarrow> (string \<times> string, std_error) result" where
  "query_info st = load (CONTRACT_INFO st)"

definition query_list_items ::
  "'m core_state \<Rightarrow> string option \<Rightarrow> nat option \<Rightarrow> ((string \<times> string) list, std_error) result" where
  "query_list_items st start_after limit = Ok (paginate_map (ITEMS st) start_after limit Descending)"

definition query_cw20_list ::
  "'m core_deps \<Rightarrow> 'm core_state \<Rightarrow> string option \<Rightarrow> nat option \<Rightarrow> (addr list, std_error) result" where
  "query_cw20_list deps st start_after limit =
     and_then (transpose_opt (addr_validate deps) start_after) (\<lambda>start_after.
     Ok (paginate_map_keys (CW20_LIST st) start_after limit Descending))"

definition query_cw721_list ::
  "'m core_deps \<Rightarrow> 'm core_state \<Rightarrow> string option \<Rightarrow> nat option \<Rightarrow> (addr list, std_error) result" where
  "query_cw721_list deps st start_after limit =
     and_then (transpose_opt (addr_validate deps) start_after) (\<lambda>start_after.
     Ok (paginate_map_keys (CW721_LIST st) start_after limit Descending))"

definition query_cw20_balances ::
  "'m core_deps \<Rightarrow> 'm core_state \<Rightarrow> env \<Rightarrow> string option \<Rightarrow> nat option
     \<Rightarrow> ((addr \<times> nat) list, std_error) result" where
  "query_cw20_balances deps st env start_after limit =
     and_then (transpose_opt (addr_validate deps) start_after) (\<lambda>start_after.
     try_map (\<lambda>a. and_then (cw20_balance deps a (contract_address env)) (\<lambda>b. Ok (a, b)))
       (paginate_map_keys (CW20_LIST st) start_after limit Descending))"

definition query_list_sub_daos ::
  "'m core_deps \<Rightarrow> 'm core_state \<Rightarrow> string option \<Rightarrow> nat option \<Rightarrow> (sub_dao list, std_error) result" where
  "query_list_sub_daos deps st start_after limit =
     and_then (transpose_opt (addr_validate deps) start_after) (\<lambda>start_at.
     Ok (map (\<lambda>(a, c). \<lparr>sub_addr = a, charter = c\<rparr>)
       (paginate_map (SUBDAO_LIST st) start_at limit Ascending)))"

definition query_dao_uri :: "'m core_state \<Rightarrow> (string option, std_error) result" where
  "query_dao_uri st = and_then (load (CONFIG st)) (\<lambda>config. Ok (dao_uri config))"

definition query_proposal_module_count :: "'m core_state \<Rightarrow> (nat \<times> nat, std_error) result" where
  "query_proposal_module_count st =
     and_then (load (ACTIVE_PROPOSAL_MODULE_COUNT st)) (\<lambda>active_count.
     and_then (load (TOTAL_PROPOSAL_MODULE_COUNT st)) (\<lambda>total_count.
     Ok (active_count, total_count)))"

definition query_initial_actions :: "'m core_state \<Rightarrow> ('m list, std_error) result" where
  "query_initial_actions st = Ok (case INITIAL_ACTIONS st of None \<Rightarrow> [] | Some ms \<Rightarrow> ms)"

section \<open>Migration\<close>

text \<open>The version 1 data that \<open>migrate\<close> reads: the set of proposal modules and the configuration.\<close>

record v1_core_config =
  v1_name :: string
  v1_description :: string
  v1_image_url :: "string option"
  v1_automatically_add_cw20s :: bool
  v1_automatically_add_cw721s :: bool

record v1_core_state =
  V1_PROPOSAL_MODULES :: "addr \<rightharpoonup> unit"
  V1_CONFIG :: "v1_core_config option"

text \<open>\<open>MigrateParams\<close>, with the migrator's parameters encoded as JSON.\<close>

record migrate_params =
  migrator_code_id :: u64
  migrator_msg :: binary

datatype migrate_msg = FromV1 "string option" "migrate_params option" | FromCompatible

definition migrate_module ::
  "(addr \<rightharpoonup> proposal_module) \<Rightarrow> nat \<times> addr \<Rightarrow> (addr \<rightharpoonup> proposal_module, core_error) result" where
  "migrate_module modules ia =
     (case ia of (idx, a) \<Rightarrow>
        and_then (map_err Std (derive_proposal_module_prefix idx)) (\<lambda>pre.
        Ok (modules(a \<mapsto> \<lparr>address = a, prefix = pre, module_status = Enabled\<rparr>))))"

definition migrate ::
  "v1_core_state \<Rightarrow> 'm core_state \<Rightarrow> env \<Rightarrow> migrate_msg \<Rightarrow> 'm core_outcome" where
  "migrate v1 st env msg =
     and_then (map_err Std (load (CONTRACT_INFO st))) (\<lambda>(_, version).
     let st = st\<lparr>CONTRACT_INFO := Some (CONTRACT_NAME, CONTRACT_VERSION)\<rparr> in
     case msg of
       FromV1 uri params \<Rightarrow>
         if version = CONTRACT_VERSION then Err AlreadyMigrated
         else
         let current_keys = map fst (entries (V1_PROPOSAL_MODULES v1));
             module_count = length current_keys mod 2 ^ 32 in
         and_then (try_fold migrate_module (PROPOSAL_MODULES st) (enumerate 0 current_keys)) (\<lambda>modules.
         and_then (map_err Std (load (V1_CONFIG v1))) (\<lambda>v1_config.
         Ok (st\<lparr>TOTAL_PROPOSAL_MODULE_COUNT := Some module_count,
              ACTIVE_PROPOSAL_MODULE_COUNT := Some module_count,
              PROPOSAL_MODULES := modules,
              CONFIG := Some
                \<lparr>name = v1_name v1_config, description = v1_description v1_config,
                 image_url = v1_image_url v1_config,
                 automatically_add_cw20s = v1_automatically_add_cw20s v1_config,
                 automatically_add_cw721s = v1_automatically_add_cw721s v1_config,
                 dao_uri = uri\<rparr>\<rparr>,
            (case params of
               Some migrate_params \<Rightarrow>
                 [sub_msg_new (Wasm (WasmExecute (contract_address env)
                    (UpdateProposalModules
                       [\<lparr>code_id = migrator_code_id migrate_params,
                         info_msg = migrator_msg migrate_params, info_admin = Some CoreModule,
                         info_funds = None, info_label = ''migrator'', info_salt = None\<rparr>] []) []))]
             | None \<Rightarrow> []))))
     | FromCompatible \<Rightarrow> Ok (st, []))"

end
