(* ===== verification/Dao_Core_Props.thy ===== *)
theory Dao_Core_Props
  imports Dao_Core
begin

text \<open>
  Properties of the core contract: prefixes of proposal modules, the module registry and its
  counters, who may change what, and which messages leave the contract.
\<close>

section \<open>Prefixes\<close>

text \<open>The number that a sequence of letters, least significant first, stands for.\<close>

primrec letters_value :: "string \<Rightarrow> nat" where
  "letters_value [] = 0"
| "letters_value (c # cs) = (of_char c - 64) + 26 * letters_value cs"

lemma letters_value_append:
  "letters_value (cs @ [c]) = letters_value cs + 26 ^ length cs * (of_char c - 64)"
  by (induction cs) (simp_all add: algebra_simps)

lemma dividend_step:
  assumes "0 < (n :: nat)"
  shows "(n - (n - 1) mod 26) div 26 = (n - 1) div 26" and "n = 26 * ((n - 1) div 26) + ((n - 1) mod 26 + 1)"
proof -
  show n: "n = 26 * ((n - 1) div 26) + ((n - 1) mod 26 + 1)" using assms by simp
  have "n - (n - 1) mod 26 = 26 * ((n - 1) div 26) + 1" using n by linarith
  also have "\<dots> div 26 = (n - 1) div 26" by linarith
  finally show "(n - (n - 1) mod 26) div 26 = (n - 1) div 26" .
qed

declare prefix_loop.simps [simp del]

lemma prefix_loop_step:
  assumes "0 < n"
  shows "prefix_loop n pre =
    (if (n - 1) div 26 = 0 then pre @ [char_of ((n - 1) mod 26 + 65)]
     else prefix_loop ((n - 1) div 26) (pre @ [char_of ((n - 1) mod 26 + 65)]))"
  using prefix_loop.simps [of n pre] dividend_step(1) [OF assms] by (simp add: Let_def)

lemma of_char_letter: "of_char (char_of (n mod 26 + 65) :: char) = n mod 26 + (65 :: nat)"
  by (simp add: mod_less_divisor less_trans)

lemma prefix_loop_value:
  "0 < n \<Longrightarrow> letters_value (prefix_loop n pre) = letters_value pre + 26 ^ length pre * n"
proof (induction n arbitrary: pre rule: less_induct)
  case (less n)
  let ?d = "(n - 1) div 26" and ?c = "char_of ((n - 1) mod 26 + 65) :: char"
  have c: "of_char ?c - 64 = (n - 1) mod 26 + 1" by (simp only: of_char_letter)
  have n: "n = 26 * ?d + ((n - 1) mod 26 + 1)" using dividend_step(2) less.prems by blast
  show ?case
  proof (cases "?d = 0")
    case True
    with n c less.prems show ?thesis by (simp add: prefix_loop_step letters_value_append)
  next
    case False
    have "?d < n" using n by linarith
    then have "letters_value (prefix_loop n pre) =
        letters_value pre + 26 ^ length pre * ((n - 1) mod 26 + 1) + 26 ^ length (pre @ [?c]) * ?d"
      using False less c by (simp add: prefix_loop_step letters_value_append)
    also have "\<dots> = letters_value pre + 26 ^ length pre * (26 * ?d + ((n - 1) mod 26 + 1))"
    proof -
      have "k + q * r + q * 26 * d = k + q * (26 * d + r)" for k q r d :: nat
        by (simp add: algebra_simps)
      moreover have "(26 :: nat) ^ length (pre @ [?c]) = 26 ^ length pre * 26" by simp
      ultimately show ?thesis by metis
    qed
    finally show ?thesis using n by simp
  qed
qed

lemma derive_prefix_value:
  "derive_proposal_module_prefix n = Ok s \<Longrightarrow> letters_value (rev s) = n + 1"
  using prefix_loop_value [of "n + 1" "[]"] by (auto simp: derive_proposal_module_prefix_def result_ok)

lemma derive_prefix_inj:
  "derive_proposal_module_prefix m = Ok s \<Longrightarrow> derive_proposal_module_prefix n = Ok s \<Longrightarrow> m = n"
  using derive_prefix_value [of m s] derive_prefix_value [of n s] by simp

definition capital :: "char \<Rightarrow> bool" where
  "capital c \<longleftrightarrow> of_char c \<in> {65..90 :: nat}"

lemma capital_letter: "capital (char_of (n mod 26 + 65 :: nat))"
proof -
  have "n mod 26 < 26" by simp
  then show ?thesis unfolding capital_def of_char_letter by auto
qed

lemma prefix_loop_letters:
  "0 < n \<Longrightarrow> list_all capital pre \<Longrightarrow> prefix_loop n pre \<noteq> [] \<and> list_all capital (prefix_loop n pre)"
proof (induction n arbitrary: pre rule: less_induct)
  case (less n)
  let ?pre = "pre @ [char_of ((n - 1) mod 26 + 65)]"
  have c: "list_all capital ?pre" using less.prems(2) capital_letter by simp
  note step = prefix_loop_step [OF less.prems(1), of pre]
  show ?case
  proof (cases "(n - 1) div 26 = 0")
    case True
    with step c show ?thesis by simp
  next
    case False
    have "(n - 1) div 26 < n" using less.prems by linarith
    from less.IH [OF this _ c] False have
      "prefix_loop ((n - 1) div 26) ?pre \<noteq> [] \<and> list_all capital (prefix_loop ((n - 1) div 26) ?pre)"
      by simp
    with step False show ?thesis by (simp only: if_False) simp
  qed
qed

lemma derive_prefix_letters:
  "derive_proposal_module_prefix n = Ok s \<Longrightarrow> s \<noteq> [] \<and> list_all capital s"
  using prefix_loop_letters [of "n + 1" "[]"]
  by (auto simp: derive_proposal_module_prefix_def result_ok list_all_iff)

section \<open>The registry of proposal modules\<close>

definition enabled_modules :: "(addr \<rightharpoonup> proposal_module) \<Rightarrow> addr set" where
  "enabled_modules pm = {a. \<exists>m. pm a = Some m \<and> module_status m = Enabled}"

text \<open>The position at which a module was added, read back from its prefix.\<close>

definition module_index :: "proposal_module \<Rightarrow> nat" where
  "module_index m = letters_value (rev (prefix m)) - 1"

text \<open>
  The registry agrees with its counters: each entry is stored under its own address with the
  prefix of its position, no two entries share a prefix, and the counters are the number of
  entries and of enabled entries.
\<close>

definition registry_ok :: "(addr \<rightharpoonup> proposal_module) \<Rightarrow> nat \<Rightarrow> nat \<Rightarrow> bool" where
  "registry_ok pm act tot \<longleftrightarrow>
     finite (dom pm) \<and> card (dom pm) = tot \<and> tot < 2 ^ 32 \<and> act = card (enabled_modules pm) \<and>
     (\<forall>a m. pm a = Some m \<longrightarrow> address m = a \<and> module_index m < tot \<and>
        derive_proposal_module_prefix (module_index m) = Ok (prefix m)) \<and>
     inj_on (\<lambda>a. prefix (the (pm a))) (dom pm)"

definition core_inv :: "'m core_state \<Rightarrow> bool" where
  "core_inv st \<longleftrightarrow>
     (\<exists>act tot. ACTIVE_PROPOSAL_MODULE_COUNT st = Some act \<and>
        TOTAL_PROPOSAL_MODULE_COUNT st = Some tot \<and> registry_ok (PROPOSAL_MODULES st) act tot)"

lemma enabled_subset: "enabled_modules pm \<subseteq> dom pm"
  by (auto simp: enabled_modules_def)

lemma finite_enabled: "finite (dom pm) \<Longrightarrow> finite (enabled_modules pm)"
  using enabled_subset finite_subset by blast

lemma enabled_insert:
  "module_status m = Enabled \<Longrightarrow> enabled_modules (pm(a \<mapsto> m)) = insert a (enabled_modules pm)"
  by (auto simp: enabled_modules_def)

lemma enabled_disable:
  "module_status m \<noteq> Enabled \<Longrightarrow> enabled_modules (pm(a \<mapsto> m)) = enabled_modules pm - {a}"
  by (auto simp: enabled_modules_def)

lemma registry_empty: "registry_ok Map.empty 0 0"
  by (simp add: registry_ok_def enabled_modules_def)

lemma registry_add:
  assumes ok: "registry_ok pm act tot" and fresh: "pm a = None"
    and pre: "derive_proposal_module_prefix tot = Ok pre" and room: "tot + 1 < 2 ^ 32"
  shows "registry_ok (pm(a \<mapsto> \<lparr>address = a, prefix = pre, module_status = Enabled\<rparr>)) (act + 1) (tot + 1)"
proof -
  let ?m = "\<lparr>address = a, prefix = pre, module_status = Enabled\<rparr>"
  have idx: "module_index ?m = tot"
    using derive_prefix_value [OF pre] by (simp add: module_index_def)
  have new: "prefix m \<noteq> pre" if "pm b = Some m" for b m
    using that ok derive_prefix_inj [OF _ pre] by (fastforce simp: registry_ok_def)
  have "a \<notin> dom pm" "a \<notin> enabled_modules pm"
    using fresh enabled_subset by (auto simp: enabled_modules_def)
  moreover have "inj_on (\<lambda>b. prefix (the ((pm(a \<mapsto> ?m)) b))) (insert a (dom pm))"
    using ok new by (auto simp: registry_ok_def inj_on_def split: if_splits) (use new in blast)+
  ultimately show ?thesis
    using ok idx pre room finite_enabled [of pm]
    by (auto simp: registry_ok_def enabled_insert less_Suc_eq)
qed

lemma disable_module_cases:
  assumes "disable_module deps pm s = Ok pm'"
  obtains a m where "addr_validate deps s = Ok a" "pm a = Some m" "module_status m = Enabled"
    "pm' = pm(a \<mapsto> m\<lparr>module_status := Disabled\<rparr>)"
  using assms
  by (auto simp: disable_module_def result_ok split: if_splits)
     (metis proposal_module_status.exhaust)

lemma registry_disable:
  assumes "registry_ok pm act tot" "disable_module deps pm s = Ok pm'"
  shows "registry_ok pm' (act - 1) tot" "0 < act"
proof -
  from assms(2) obtain a m where a: "pm a = Some m" "module_status m = Enabled"
    "pm' = pm(a \<mapsto> m\<lparr>module_status := Disabled\<rparr>)"
    by (rule disable_module_cases)
  have en: "a \<in> enabled_modules pm" using a by (auto simp: enabled_modules_def)
  moreover have fin: "finite (enabled_modules pm)"
    using assms(1) finite_enabled by (auto simp: registry_ok_def)
  ultimately show "0 < act" using assms(1) by (auto simp: registry_ok_def card_gt_0_iff)
  have d: "dom pm' = dom pm" using a by auto
  have i: "module_index (m\<lparr>module_status := Disabled\<rparr>) = module_index m"
    by (simp add: module_index_def)
  have p: "prefix (the (pm' b)) = prefix (the (pm b))" for b using a by simp
  have "card (enabled_modules pm') = act - 1"
    using en fin assms(1) a by (simp add: enabled_disable registry_ok_def)
  then show "registry_ok pm' (act - 1) tot"
    unfolding registry_ok_def d p using assms(1) a i by (auto simp: registry_ok_def)
qed

lemma registry_disable_all:
  assumes "registry_ok pm act tot" "try_fold (disable_module deps) pm xs = Ok pm'"
  shows "registry_ok pm' (act - length xs) tot \<and> length xs \<le> act"
  using assms
proof (induction xs arbitrary: pm act)
  case Nil
  then show ?case by simp
next
  case (Cons x xs)
  from Cons.prems(2) obtain q where q: "disable_module deps pm x = Ok q"
    "try_fold (disable_module deps) q xs = Ok pm'" by (auto simp: result_ok)
  note step = registry_disable [OF Cons.prems(1) q(1)]
  from Cons.IH [OF step(1) q(2)] step(2) show ?case by (simp; linarith)
qed

lemma registry_counts: "registry_ok pm act tot \<Longrightarrow> act \<le> tot" "registry_ok pm act tot \<Longrightarrow> tot < 2 ^ 32"
  using card_mono [OF _ enabled_subset [of pm]] by (auto simp: registry_ok_def)

section \<open>Steps and runs of the contract\<close>

lemmas core_handler_defs =
  execute_admin_msgs_def execute_proposal_hook_def execute_pause_def execute_unpause_def
  execute_receive_cw20_def execute_receive_cw721_def execute_remove_item_def execute_set_item_def
  execute_update_config_def execute_update_cw20_list_def execute_update_cw721_list_def
  execute_update_voting_module_def execute_nominate_admin_def execute_accept_admin_nomination_def
  execute_withdraw_admin_nomination_def execute_update_sub_daos_list_def

lemmas core_reply_ids =
  PROPOSAL_MODULE_REPLY_ID_def VOTE_MODULE_INSTANTIATE_REPLY_ID_def VOTE_MODULE_UPDATE_REPLY_ID_def
  INITIAL_ACTIONS_REPLY_ID_def

text \<open>
  The chain gives every contract a new address, so the address in the reply of an instantiated
  proposal module is not yet in the registry.
\<close>

definition new_address :: "'m core_deps \<Rightarrow> 'm core_state \<Rightarrow> core_reply \<Rightarrow> bool" where
  "new_address deps st r \<longleftrightarrow>
     (case parsed_instantiate_data r of
        Ok res \<Rightarrow> (case addr_validate deps (res_contract_address res) of
                     Ok a \<Rightarrow> PROPOSAL_MODULES st a = None
                   | _ \<Rightarrow> True)
      | _ \<Rightarrow> True)"

datatype 'm core_call = CallExecute message_info "'m execute_msg" | CallReply core_reply | CallMigrate

inductive core_step ::
  "'m core_deps \<Rightarrow> addr \<Rightarrow> 'm core_state \<Rightarrow> 'm core_call \<Rightarrow> 'm core_msg sub_msg list \<Rightarrow> 'm core_state \<Rightarrow> bool"
  for deps self where
  execute: "execute deps st env info msg = Ok (st', ms) \<Longrightarrow> contract_address env = self
     \<Longrightarrow> core_step deps self st (CallExecute info msg) ms st'"
| reply: "reply deps st r = Ok (st', ms) \<Longrightarrow> new_address deps st r
     \<Longrightarrow> core_step deps self st (CallReply r) ms st'"
| migrate: "migrate v1 st env FromCompatible = Ok (st', ms)
     \<Longrightarrow> core_step deps self st CallMigrate ms st'"

inductive core_run ::
  "'m core_deps \<Rightarrow> addr \<Rightarrow> 'm core_state \<Rightarrow> 'm core_call list \<Rightarrow> 'm core_state \<Rightarrow> bool"
  for deps self where
  start: "core_run deps self st [] st"
| step: "core_run deps self st cs st' \<Longrightarrow> core_step deps self st' c ms st''
     \<Longrightarrow> core_run deps self st (cs @ [c]) st''"

section \<open>What a call changes\<close>

lemma execute_registry:
  assumes "execute deps st env info msg = Ok (st', ms)"
  shows "TOTAL_PROPOSAL_MODULE_COUNT st' = TOTAL_PROPOSAL_MODULE_COUNT st"
    and "(\<forall>to_add to_disable. msg \<noteq> UpdateProposalModules to_add to_disable) \<Longrightarrow>
      PROPOSAL_MODULES st' = PROPOSAL_MODULES st \<and>
      ACTIVE_PROPOSAL_MODULE_COUNT st' = ACTIVE_PROPOSAL_MODULE_COUNT st"
  using assms
  by (cases msg; auto simp: execute_def core_handler_defs execute_update_proposal_modules_def Let_def
        result_ok split: if_splits option.splits)+

lemma update_modules_cases:
  assumes "execute_update_proposal_modules deps st env who to_add to_disable = Ok (st', ms)"
  obtains pm act where "who = contract_address env"
    "try_fold (disable_module deps) (PROPOSAL_MODULES st) to_disable = Ok pm"
    "ACTIVE_PROPOSAL_MODULE_COUNT st = Some act"
    "length to_disable mod 2 ^ 32 \<le> act"
    "to_add = [] \<Longrightarrow> length to_disable mod 2 ^ 32 < act"
    "st' = st\<lparr>PROPOSAL_MODULES := pm,
              ACTIVE_PROPOSAL_MODULE_COUNT := Some (act - length to_disable mod 2 ^ 32)\<rparr>"
  using assms
  by (auto simp: execute_update_proposal_modules_def Let_def result_ok not_le split: if_splits)

lemma update_modules_inv:
  assumes "execute_update_proposal_modules deps st env who to_add to_disable = Ok (st', ms)"
    "core_inv st"
  shows "core_inv st'"
proof -
  from assms(1) obtain pm act where c: "try_fold (disable_module deps) (PROPOSAL_MODULES st) to_disable = Ok pm"
    "ACTIVE_PROPOSAL_MODULE_COUNT st = Some act"
    "st' = st\<lparr>PROPOSAL_MODULES := pm,
              ACTIVE_PROPOSAL_MODULE_COUNT := Some (act - length to_disable mod 2 ^ 32)\<rparr>"
    by (rule update_modules_cases)
  from assms(2) c(2) obtain tot where t: "TOTAL_PROPOSAL_MODULE_COUNT st = Some tot"
    "registry_ok (PROPOSAL_MODULES st) act tot" by (auto simp: core_inv_def)
  note d = registry_disable_all [OF t(2) c(1)]
  have "length to_disable < 2 ^ 32" using d registry_counts [OF t(2)] by linarith
  then show ?thesis using d t c by (auto simp: core_inv_def)
qed

lemma execute_inv:
  assumes "execute deps st env info msg = Ok (st', ms)" "core_inv st"
  shows "core_inv st'"
proof (cases "\<exists>to_add to_disable. msg = UpdateProposalModules to_add to_disable")
  case True
  with assms show ?thesis by (auto simp: execute_def result_ok intro: update_modules_inv)
next
  case False
  with assms execute_registry [OF assms(1)] show ?thesis by (auto simp: core_inv_def)
qed

lemma core_reply_cases:
  assumes "reply deps st r = Ok (st', ms)"
  obtains (proposal) res a pre act tot where "rep_id r = PROPOSAL_MODULE_REPLY_ID"
    "parsed_instantiate_data r = Ok res" "addr_validate deps (res_contract_address res) = Ok a"
    "ACTIVE_PROPOSAL_MODULE_COUNT st = Some act" "TOTAL_PROPOSAL_MODULE_COUNT st = Some tot"
    "derive_proposal_module_prefix tot = Ok pre" "act + 1 < 2 ^ 32" "tot + 1 < 2 ^ 32"
    "st' = st\<lparr>PROPOSAL_MODULES := (PROPOSAL_MODULES st)(a \<mapsto>
              \<lparr>address = a, prefix = pre, module_status = Enabled\<rparr>),
              ACTIVE_PROPOSAL_MODULE_COUNT := Some (act + 1),
              TOTAL_PROPOSAL_MODULE_COUNT := Some (tot + 1)\<rparr>"
    "ms = forward (callback_msgs deps res)"
  | (voting) res a where "rep_id r = VOTE_MODULE_INSTANTIATE_REPLY_ID \<and> VOTING_MODULE st = None
      \<and> ms = forward (callback_msgs deps res) \<or> rep_id r = VOTE_MODULE_UPDATE_REPLY_ID \<and> ms = []"
    "parsed_instantiate_data r = Ok res" "addr_validate deps (res_contract_address res) = Ok a"
    "st' = st\<lparr>VOTING_MODULE := Some a\<rparr>"
proof (cases "rep_id r = PROPOSAL_MODULE_REPLY_ID")
  case True
  with assms show ?thesis
    by (clarsimp simp: reply_def result_ok) (rule proposal; simp)
next
  case False
  with assms show ?thesis
    by (auto simp: reply_def result_ok split: if_splits intro: voting)
qed

lemma reply_inv:
  assumes "reply deps st r = Ok (st', ms)" "new_address deps st r" "core_inv st"
  shows "core_inv st'"
  using assms(1)
proof (cases rule: core_reply_cases)
  case (proposal res a pre act tot)
  with assms(2,3) show ?thesis
    using registry_add [of "PROPOSAL_MODULES st" act tot a pre]
    by (auto simp: core_inv_def new_address_def)
next
  case voting
  with assms(3) show ?thesis by (auto simp: core_inv_def)
qed

lemma migrate_compatible:
  "migrate v1 st env FromCompatible = Ok (st', ms) \<Longrightarrow>
     st' = st\<lparr>CONTRACT_INFO := Some (CONTRACT_NAME, CONTRACT_VERSION)\<rparr> \<and> ms = []"
  by (auto simp: migrate_def result_ok)

lemma core_step_inv: "core_step deps self st c ms st' \<Longrightarrow> core_inv st \<Longrightarrow> core_inv st'"
proof (induction rule: core_step.induct)
  case migrate
  then show ?case by (auto simp: core_inv_def dest: migrate_compatible)
qed (auto intro: execute_inv reply_inv)

lemma core_run_inv: "core_run deps self st cs st' \<Longrightarrow> core_inv st \<Longrightarrow> core_inv st'"
  by (induction rule: core_run.induct) (auto intro: core_step_inv)

section \<open>Who may change what\<close>

text \<open>
  What a successful message changes, by its sender: the DAO itself changes its configuration,
  modules, items and SubDAOs and pauses; only the admin unpauses.
\<close>

lemma execute_self_only:
  assumes "execute deps st env info msg = Ok (st', ms)" "sender info \<noteq> contract_address env"
  shows "CONFIG st' = CONFIG st" "VOTING_MODULE st' = VOTING_MODULE st"
    "PROPOSAL_MODULES st' = PROPOSAL_MODULES st"
    "ACTIVE_PROPOSAL_MODULE_COUNT st' = ACTIVE_PROPOSAL_MODULE_COUNT st"
    "ITEMS st' = ITEMS st" "SUBDAO_LIST st' = SUBDAO_LIST st"
  using assms
  by (cases msg; auto simp: execute_def core_handler_defs execute_update_proposal_modules_def Let_def
        result_ok split: if_splits option.splits)+

lemma execute_pause_authority:
  assumes "execute deps st env info msg = Ok (st', ms)" "PAUSED st' \<noteq> PAUSED st"
  shows "PAUSED st' \<noteq> None \<and> sender info = contract_address env
    \<or> PAUSED st' = None \<and> ADMIN st = Some (sender info)"
  using assms
  by (cases msg; auto simp: execute_def core_handler_defs execute_update_proposal_modules_def Let_def
        result_ok split: if_splits option.splits)

lemma execute_token_lists:
  assumes "execute deps st env info msg = Ok (st', ms)" "sender info \<noteq> contract_address env"
  shows "CW20_LIST st' = CW20_LIST st \<or>
      CW20_LIST st' = (CW20_LIST st)(sender info \<mapsto> ()) \<and>
      (\<exists>c. CONFIG st = Some c \<and> automatically_add_cw20s c)"
    and "CW721_LIST st' = CW721_LIST st \<or>
      CW721_LIST st' = (CW721_LIST st)(sender info \<mapsto> ()) \<and>
      (\<exists>c. CONFIG st = Some c \<and> automatically_add_cw721s c)"
  using assms
  by (cases msg; auto simp: execute_def core_handler_defs execute_update_proposal_modules_def Let_def
        result_ok split: if_splits option.splits)+

text \<open>The admin changes only by its own resignation to the DAO or by an accepted nomination.\<close>

lemma execute_admin_change:
  assumes "execute deps st env info msg = Ok (st', ms)" "ADMIN st' \<noteq> ADMIN st"
  shows "msg = NominateAdmin None \<and> ADMIN st = Some (sender info) \<and> ADMIN st' = Some (contract_address env)
    \<or> msg = AcceptAdminNomination \<and> NOMINATED_ADMIN st = Some (sender info) \<and>
      ADMIN st' = Some (sender info) \<and> NOMINATED_ADMIN st' = None"
  using assms
  by (cases msg; auto simp: execute_def core_handler_defs execute_update_proposal_modules_def Let_def
        result_ok split: if_splits option.splits)

lemma execute_nomination_change:
  assumes "execute deps st env info msg = Ok (st', ms)" "NOMINATED_ADMIN st' = Some x"
    "NOMINATED_ADMIN st \<noteq> Some x"
  shows "\<exists>s. msg = NominateAdmin (Some s) \<and> addr_validate deps s = Ok x \<and>
    ADMIN st = Some (sender info) \<and> NOMINATED_ADMIN st = None"
  using assms
  by (cases msg; auto simp: execute_def core_handler_defs execute_update_proposal_modules_def Let_def
        result_ok split: if_splits option.splits)

lemma reply_frame:
  "reply deps st r = Ok (st', ms) \<Longrightarrow>
     ADMIN st' = ADMIN st \<and> NOMINATED_ADMIN st' = NOMINATED_ADMIN st \<and> PAUSED st' = PAUSED st \<and>
     CONFIG st' = CONFIG st \<and> ITEMS st' = ITEMS st"
  by (erule core_reply_cases) simp_all

text \<open>
  An account that is neither the DAO nor its current admin becomes the admin only by accepting a
  nomination that the admin of that time made in the same run.
\<close>

lemma core_step_admin:
  assumes "core_step deps self st c ms st'"
  shows "ADMIN st' = ADMIN st \<or> ADMIN st' = Some self \<or>
      (\<exists>info. c = CallExecute info AcceptAdminNomination \<and> NOMINATED_ADMIN st = Some (sender info) \<and>
        ADMIN st' = Some (sender info))"
    and "NOMINATED_ADMIN st' = NOMINATED_ADMIN st \<or> NOMINATED_ADMIN st' = None \<or>
      (\<exists>info s x. c = CallExecute info (NominateAdmin (Some s)) \<and> addr_validate deps s = Ok x \<and>
        ADMIN st = Some (sender info) \<and> NOMINATED_ADMIN st = None \<and> NOMINATED_ADMIN st' = Some x)"
  using assms
proof (induction rule: core_step.induct)
  case (execute st env info msg st' ms)
  { case 1 from execute show ?case using execute_admin_change by blast }
  { case 2 show ?case
    proof (cases "NOMINATED_ADMIN st'")
      case (Some x)
      with execute_nomination_change [OF execute(1) Some] show ?thesis by metis
    qed simp }
next
  case reply
  { case 1 from reply_frame [OF reply(1)] show ?case by simp }
  { case 2 from reply_frame [OF reply(1)] show ?case by simp }
next
  case migrate
  { case 1 from migrate_compatible [OF migrate] show ?case by simp }
  { case 2 from migrate_compatible [OF migrate] show ?case by simp }
qed

text \<open>
  In a sequence of calls, a call in which the admin of that moment nominates an account, and a call
  in which an account accepts a nomination that was pending from the start or so made before.
\<close>

definition nominated_by_admin :: "'m core_deps \<Rightarrow> addr \<Rightarrow> 'm core_state \<Rightarrow> 'm core_call list \<Rightarrow> addr \<Rightarrow> bool" where
  "nominated_by_admin deps self st cs x \<longleftrightarrow>
     (\<exists>cs1 info s cs2 st1. cs = cs1 @ CallExecute info (NominateAdmin (Some s)) # cs2 \<and>
        core_run deps self st cs1 st1 \<and> ADMIN st1 = Some (sender info) \<and> NOMINATED_ADMIN st1 = None \<and>
        addr_validate deps s = Ok x)"

definition handed_over :: "'m core_deps \<Rightarrow> addr \<Rightarrow> 'm core_state \<Rightarrow> 'm core_call list \<Rightarrow> addr \<Rightarrow> bool" where
  "handed_over deps self st cs x \<longleftrightarrow>
     (\<exists>cs1 info cs2. cs = cs1 @ CallExecute info AcceptAdminNomination # cs2 \<and> sender info = x \<and>
        (NOMINATED_ADMIN st = Some x \<or> nominated_by_admin deps self st cs1 x))"

lemma nominated_later: "nominated_by_admin deps self st cs x \<Longrightarrow> nominated_by_admin deps self st (cs @ ds) x"
  unfolding nominated_by_admin_def by (metis append.assoc append_Cons)

lemma handed_over_later: "handed_over deps self st cs x \<Longrightarrow> handed_over deps self st (cs @ ds) x"
  unfolding handed_over_def by (metis append.assoc append_Cons)

lemma core_run_nomination:
  assumes "core_run deps self st cs st'" "NOMINATED_ADMIN st' = Some x"
  shows "NOMINATED_ADMIN st = Some x \<or> nominated_by_admin deps self st cs x"
  using assms
proof (induction rule: core_run.induct)
  case (step st cs st' c ms st'')
  show ?case
  proof (cases "NOMINATED_ADMIN st' = Some x")
    case True
    with step.IH show ?thesis by (blast intro: nominated_later)
  next
    case False
    with core_step_admin(2) [OF step(2)] step.prems obtain info s where
      "c = CallExecute info (NominateAdmin (Some s))" "addr_validate deps s = Ok x" "ADMIN st' = Some (sender info)"
      "NOMINATED_ADMIN st' = None"
      by auto
    with step(1) show ?thesis by (auto simp: nominated_by_admin_def)
  qed
qed simp

lemma core_run_admin:
  assumes "core_run deps self st cs st'" "ADMIN st' = Some x" "ADMIN st \<noteq> Some x" "x \<noteq> self"
  shows "handed_over deps self st cs x"
  using assms
proof (induction rule: core_run.induct)
  case (step st cs st' c ms st'')
  show ?case
  proof (cases "ADMIN st' = Some x")
    case True
    with step show ?thesis by (blast intro: handed_over_later)
  next
    case False
    with core_step_admin(1) [OF step(2)] step.prems obtain info where
      "c = CallExecute info AcceptAdminNomination" "NOMINATED_ADMIN st' = Some x" "sender info = x"
      by auto
    with core_run_nomination [OF step(1) this(2)] show ?thesis
      unfolding handed_over_def by blast
  qed
qed simp

section \<open>Messages that leave the contract\<close>

definition carries :: "'m core_msg sub_msg list \<Rightarrow> 'm list" where
  "carries ms = concat (map (\<lambda>m. case msg_body m of Forwarded x \<Rightarrow> [x] | Wasm _ \<Rightarrow> []) ms)"

lemma carries_forward [simp]: "carries (forward xs) = xs"
  by (induction xs) (simp_all add: carries_def forward_def sub_msg_new_def)

lemma forward_Nil [simp]: "forward [] = []"
  by (simp add: forward_def)

lemma carries_empty [simp]: "carries [] = []"
  by (simp add: carries_def)

lemma carries_instantiations [simp]:
  "carries (map (\<lambda>i. reply_on_success (Wasm (f i)) n) xs) = []"
  by (induction xs) (simp_all add: carries_def reply_on_success_def)

lemma carries_instantiation [simp]: "carries [reply_on_success (Wasm w) n] = []"
  by (simp add: carries_def reply_on_success_def)

lemma execute_carries:
  assumes "execute deps st env info msg = Ok (st', ms)" "carries ms \<noteq> []"
  shows "st' = st \<and> ms = forward (carries ms) \<and>
    (msg = ExecuteAdminMsgs (carries ms) \<and> ADMIN st = Some (sender info)
     \<or> msg = ExecuteProposalHook (carries ms) \<and> sender info \<in> enabled_modules (PROPOSAL_MODULES st))"
  using assms
  by (cases msg; auto simp: execute_def core_handler_defs execute_update_proposal_modules_def Let_def
        result_ok enabled_modules_def split: if_splits option.splits)

text \<open>What the other entry points send: the callbacks of a module that is being registered, the
  initial actions, and nothing of the kind in a migration.\<close>

lemma reply_carries:
  assumes "reply deps st r = Ok (st', ms)"
  shows "carries ms = [] \<and> ms = [] \<or>
    (\<exists>res a. parsed_instantiate_data r = Ok res \<and> addr_validate deps (res_contract_address res) = Ok a \<and>
       ms = forward (callback_msgs deps res) \<and>
       (rep_id r = PROPOSAL_MODULE_REPLY_ID \<and> a \<in> enabled_modules (PROPOSAL_MODULES st') \<or>
        rep_id r = VOTE_MODULE_INSTANTIATE_REPLY_ID \<and> VOTING_MODULE st = None \<and> VOTING_MODULE st' = Some a))"
  using assms by (auto simp: reply_def result_ok enabled_modules_def split: if_splits)

lemma reply_sends: "reply deps st r = Ok (st', ms) \<Longrightarrow> carries ms = [] \<Longrightarrow> ms = []"
  by (drule reply_carries) auto

lemma carries_append [simp]: "carries (xs @ ys) = carries xs @ carries ys"
  by (simp add: carries_def)

lemma carries_Cons_wasm [simp]: "carries (reply_on_success (Wasm w) n # ms) = carries ms"
  by (simp add: carries_def reply_on_success_def)

lemma carries_actions [simp]: "carries (map (\<lambda>m. reply_on_error (Forwarded m) n) xs) = xs"
  by (induction xs) (simp_all add: carries_def reply_on_error_def)

lemma instantiate_carries:
  "instantiate deps st env info im = Ok (st', ms) \<Longrightarrow>
     carries ms = (case im_initial_actions im of None \<Rightarrow> [] | Some acts \<Rightarrow> acts)"
  by (auto simp: instantiate_def result_ok Let_def split: if_splits option.splits)

lemma migrate_carries:
  assumes "migrate v1 st env m = Ok (st', ms)"
  shows "carries ms = []"
proof (cases m)
  case (FromV1 uri params)
  with assms have "ms = (case params of None \<Rightarrow> [] | Some p \<Rightarrow>
      [sub_msg_new (Wasm (WasmExecute (contract_address env) (UpdateProposalModules
         [\<lparr>code_id = migrator_code_id p, info_msg = migrator_msg p, info_admin = Some CoreModule,
           info_funds = None, info_label = ''migrator'', info_salt = None\<rparr>] []) []))])"
    by (cases params) (auto simp: migrate_def result_ok Let_def split: if_splits)
  then show ?thesis by (cases params) (simp_all add: carries_def sub_msg_new_def)
next
  case FromCompatible
  with assms show ?thesis by (auto dest: migrate_compatible)
qed

text \<open>Whatever else a message makes the core send are instantiations that the DAO asked of itself.\<close>

lemma execute_sends:
  assumes "execute deps st env info msg = Ok (st', ms)" "carries ms = []" "ms \<noteq> []"
  shows "sender info = contract_address env"
  using assms
  by (cases msg; auto simp: execute_def core_handler_defs execute_update_proposal_modules_def Let_def
        result_ok split: if_splits option.splits)

section \<open>Pausing\<close>

definition paused_for :: "'m core_deps \<Rightarrow> 'm core_state \<Rightarrow> env \<Rightarrow> message_info \<Rightarrow> bool" where
  "paused_for deps st env info \<longleftrightarrow>
     (\<exists>e. PAUSED st = Some e \<and> \<not> is_expired deps e (block env)) \<and>
     sender info \<noteq> contract_address env \<and> ADMIN st \<noteq> Some (sender info)"

lemma map_err_Err [result_ok]: "map_err f m = Err e \<longleftrightarrow> (\<exists>d. m = Err d \<and> f d = e)"
  by (cases m) auto

lemma ok_or_Err: "ok_or x e = Err f \<longleftrightarrow> x = None \<and> f = e"
  by (cases x) auto

lemma try_fold_Err: "try_fold f s xs = Err e \<Longrightarrow> \<exists>s x. f s x = Err e"
  by (induction xs arbitrary: s) (auto simp: result_ok)

lemma handlers_not_paused:
  "try_fold (disable_module deps) pm xs \<noteq> Err IsPaused"
  "do_update_addr_list deps l to_add to_remove verify \<noteq> Err IsPaused"
  "execute_update_sub_daos_list deps st env who subs rems \<noteq> Err IsPaused"
  by (auto simp: disable_module_def do_update_addr_list_def execute_update_sub_daos_list_def
      result_ok ok_or_Err dest!: try_fold_Err split: if_splits)

lemma no_panic_handlers:
  "add_u32 a b \<noteq> Err e" "sub_u32 a b \<noteq> Err e" "ok_or_panic x \<noteq> Err e"
  by (simp_all add: add_u32_def sub_u32_def ok_or_panic_def split: option.splits)

lemma check_paused_eq:
  "ADMIN st = Some adm \<Longrightarrow>
     check_paused deps st env info = (if paused_for deps st env info then Err IsPaused else Ok ())"
  by (auto simp: check_paused_def paused_for_def split: option.splits)

lemma execute_paused_iff:
  assumes "ADMIN st = Some adm"
  shows "execute deps st env info msg = Err IsPaused \<longleftrightarrow> paused_for deps st env info"
proof -
  have "execute deps st env info msg \<noteq> Err IsPaused" if "\<not> paused_for deps st env info"
    using that assms
    by (cases msg; auto simp: execute_def check_paused_eq core_handler_defs(1-15)
          execute_update_proposal_modules_def Let_def result_ok ok_or_Err no_panic_handlers
          handlers_not_paused split: if_splits option.splits)
  with assms show ?thesis by (auto simp: execute_def check_paused_eq)
qed

section \<open>Updating the proposal modules\<close>

lemma try_fold_no_panic:
  "(\<And>s x. x \<in> set xs \<Longrightarrow> f s x \<noteq> Panic) \<Longrightarrow> try_fold f s xs \<noteq> Panic"
  by (induction xs arbitrary: s) (auto simp: result_ok)

lemma load_no_panic: "load x \<noteq> Panic" "ok_or x e \<noteq> Panic"
  by (cases x; simp)+

lemma disable_no_panic:
  "addr_validate deps x \<noteq> Panic \<Longrightarrow> disable_module deps pm x \<noteq> Panic"
  by (auto simp: disable_module_def result_ok load_no_panic)

lemma update_modules_total:
  assumes "core_inv st" "\<And>s. addr_validate deps s \<noteq> Panic"
  shows "execute_update_proposal_modules deps st env who to_add to_disable \<noteq> Panic"
proof
  assume p: "execute_update_proposal_modules deps st env who to_add to_disable = Panic"
  have no: "try_fold (disable_module deps) (PROPOSAL_MODULES st) to_disable \<noteq> Panic"
    by (rule try_fold_no_panic) (simp add: disable_no_panic assms(2))
  from assms(1) obtain act tot where c: "ACTIVE_PROPOSAL_MODULE_COUNT st = Some act"
    "registry_ok (PROPOSAL_MODULES st) act tot" by (auto simp: core_inv_def)
  from p no c(1) obtain pm where pm: "try_fold (disable_module deps) (PROPOSAL_MODULES st) to_disable = Ok pm"
    and under: "\<not> length to_disable mod 2 ^ 32 \<le> act"
    by (auto simp: execute_update_proposal_modules_def Let_def result_ok sub_u32_def split: if_splits)
  from registry_disable_all [OF c(2) pm] have "length to_disable \<le> act" by simp
  with under show False using mod_less_eq_dividend order_trans by blast
qed

lemma update_modules_active:
  assumes "execute_update_proposal_modules deps st env who [] to_disable = Ok (st', ms)" "core_inv st"
  shows "enabled_modules (PROPOSAL_MODULES st') \<noteq> {}"
proof -
  from assms(1) obtain pm act where c: "try_fold (disable_module deps) (PROPOSAL_MODULES st) to_disable = Ok pm"
    "ACTIVE_PROPOSAL_MODULE_COUNT st = Some act" "length to_disable mod 2 ^ 32 < act"
    "st' = st\<lparr>PROPOSAL_MODULES := pm,
              ACTIVE_PROPOSAL_MODULE_COUNT := Some (act - length to_disable mod 2 ^ 32)\<rparr>"
    by (rule update_modules_cases) simp
  from update_modules_inv [OF assms] c(3,4) show ?thesis by (auto simp: core_inv_def registry_ok_def)
qed

section \<open>Instantiation and its replies\<close>

lemma instantiate_cases:
  assumes "instantiate deps st env info msg = Ok (st', ms)"
  obtains "im_proposal_modules msg \<noteq> []" "PROPOSAL_MODULES st' = PROPOSAL_MODULES st"
    "VOTING_MODULE st' = VOTING_MODULE st"
    "ACTIVE_PROPOSAL_MODULE_COUNT st' = Some 0" "TOTAL_PROPOSAL_MODULE_COUNT st' = Some 0"
    "ADMIN st' \<noteq> None"
  using assms
  by (auto simp: instantiate_def Let_def result_ok split: if_splits option.splits)

lemma core_instantiate_inv:
  "instantiate deps st env info msg = Ok (st', ms) \<Longrightarrow> PROPOSAL_MODULES st = Map.empty \<Longrightarrow> core_inv st'"
  by (erule instantiate_cases) (simp add: core_inv_def registry_empty)

text \<open>The reply of one instantiated proposal module, with the address of the new contract.\<close>

definition module_reply :: "addr \<Rightarrow> core_reply" where
  "module_reply a =
     \<lparr>rep_id = PROPOSAL_MODULE_REPLY_ID,
      parsed_instantiate_data = Ok \<lparr>res_contract_address = a, res_data = None\<rparr>, rep_error = None\<rparr>"

definition reply_module :: "'m core_deps \<Rightarrow> 'm core_state \<Rightarrow> addr \<Rightarrow> ('m core_state, core_error) result" where
  "reply_module deps st a = and_then (reply deps st (module_reply a)) (\<lambda>(st', _). Ok st')"

lemma derive_prefix_total: "n + 1 < 2 ^ 32 \<Longrightarrow> \<exists>s. derive_proposal_module_prefix n = Ok s"
  by (simp add: derive_proposal_module_prefix_def add_u32_def)

lemma reply_module_ok:
  assumes "TOTAL_PROPOSAL_MODULE_COUNT st = Some t" "ACTIVE_PROPOSAL_MODULE_COUNT st = Some c"
    "t + 1 < 2 ^ 32" "c \<le> t" "addr_validate deps a = Ok a"
  obtains pre where "derive_proposal_module_prefix t = Ok pre"
    "reply_module deps st a = Ok (st\<lparr>PROPOSAL_MODULES := (PROPOSAL_MODULES st)(a \<mapsto>
        \<lparr>address = a, prefix = pre, module_status = Enabled\<rparr>),
      ACTIVE_PROPOSAL_MODULE_COUNT := Some (c + 1), TOTAL_PROPOSAL_MODULE_COUNT := Some (t + 1)\<rparr>)"
proof -
  from derive_prefix_total [OF assms(3)] obtain pre where "derive_proposal_module_prefix t = Ok pre" ..
  moreover from this assms have "reply_module deps st a = Ok (st\<lparr>PROPOSAL_MODULES := (PROPOSAL_MODULES st)(a \<mapsto>
        \<lparr>address = a, prefix = pre, module_status = Enabled\<rparr>),
      ACTIVE_PROPOSAL_MODULE_COUNT := Some (c + 1), TOTAL_PROPOSAL_MODULE_COUNT := Some (t + 1)\<rparr>)"
    by (simp add: reply_module_def reply_def module_reply_def add_u32_def)
  ultimately show thesis by (rule that)
qed

text \<open>
  The replies of new modules at new addresses all succeed and register each of them, enabled,
  under the prefix of its position.
\<close>

lemma reply_modules:
  assumes "core_inv st" "TOTAL_PROPOSAL_MODULE_COUNT st = Some t" "ACTIVE_PROPOSAL_MODULE_COUNT st = Some c"
    "t + length as < 2 ^ 32" "distinct as" "\<forall>a\<in>set as. addr_validate deps a = Ok a"
    "set as \<inter> dom (PROPOSAL_MODULES st) = {}"
  shows "\<exists>st'. try_fold (reply_module deps) st as = Ok st' \<and> core_inv st' \<and>
    TOTAL_PROPOSAL_MODULE_COUNT st' = Some (t + length as) \<and>
    ACTIVE_PROPOSAL_MODULE_COUNT st' = Some (c + length as) \<and>
    (\<forall>i < length as. \<exists>m. PROPOSAL_MODULES st' (as ! i) = Some m \<and> module_status m = Enabled \<and>
       derive_proposal_module_prefix (t + i) = Ok (prefix m)) \<and>
    (\<forall>b. b \<notin> set as \<longrightarrow> PROPOSAL_MODULES st' b = PROPOSAL_MODULES st b)"
  using assms
proof (induction as arbitrary: st t c)
  case Nil
  then show ?case by simp
next
  case (Cons a as)
  have reg: "registry_ok (PROPOSAL_MODULES st) c t" using Cons.prems by (auto simp: core_inv_def)
  have "c \<le> t" "t + 1 < 2 ^ 32" using registry_counts [OF reg] Cons.prems by auto
  then obtain pre where pre: "derive_proposal_module_prefix t = Ok pre"
    and step: "reply_module deps st a = Ok (st\<lparr>PROPOSAL_MODULES := (PROPOSAL_MODULES st)(a \<mapsto>
        \<lparr>address = a, prefix = pre, module_status = Enabled\<rparr>),
      ACTIVE_PROPOSAL_MODULE_COUNT := Some (c + 1), TOTAL_PROPOSAL_MODULE_COUNT := Some (t + 1)\<rparr>)"
      (is "_ = Ok ?s")
    using reply_module_ok [of st t c deps a] Cons.prems by auto
  have "PROPOSAL_MODULES st a = None" using Cons.prems by auto
  then have inv: "core_inv ?s"
    using registry_add [OF reg _ pre \<open>t + 1 < 2 ^ 32\<close>] by (simp add: core_inv_def)
  have "set as \<inter> dom (PROPOSAL_MODULES ?s) = {}" using Cons.prems by auto
  from Cons.IH [OF inv _ _ _ _ _ this, of "t + 1" "c + 1"] Cons.prems obtain st' where
    st': "try_fold (reply_module deps) ?s as = Ok st'" "core_inv st'"
    "TOTAL_PROPOSAL_MODULE_COUNT st' = Some (t + 1 + length as)"
    "ACTIVE_PROPOSAL_MODULE_COUNT st' = Some (c + 1 + length as)"
    "\<forall>i < length as. \<exists>m. PROPOSAL_MODULES st' (as ! i) = Some m \<and> module_status m = Enabled \<and>
       derive_proposal_module_prefix (t + 1 + i) = Ok (prefix m)"
    "\<forall>b. b \<notin> set as \<longrightarrow> PROPOSAL_MODULES st' b = PROPOSAL_MODULES ?s b"
    by auto
  have "\<exists>m. PROPOSAL_MODULES st' ((a # as) ! i) = Some m \<and> module_status m = Enabled \<and>
       derive_proposal_module_prefix (t + i) = Ok (prefix m)" if "i < length (a # as)" for i
    using that st'(5) st'(6) [rule_format, of a] Cons.prems(5) pre by (cases i) auto
  with st' step show ?case by auto
qed

section \<open>Migration\<close>

lemma migrate_modules:
  assumes "registry_ok pm n n" "distinct ks" "set ks \<inter> dom pm = {}" "n + length ks < 2 ^ 32"
  shows "\<exists>pm'. try_fold migrate_module pm (enumerate n ks) = Ok pm' \<and>
    registry_ok pm' (n + length ks) (n + length ks) \<and> dom pm' = dom pm \<union> set ks"
  using assms
proof (induction ks arbitrary: pm n)
  case Nil
  then show ?case by simp
next
  case (Cons k ks)
  from Cons.prems(4) have room: "n + 1 < 2 ^ 32" by simp
  from derive_prefix_total [OF this] obtain pre where pre: "derive_proposal_module_prefix n = Ok pre" ..
  let ?pm = "pm(k \<mapsto> \<lparr>address = k, prefix = pre, module_status = Enabled\<rparr>)"
  have reg: "registry_ok ?pm (Suc n) (Suc n)"
    using registry_add [of pm n n k pre] Cons.prems pre room by auto
  have "set ks \<inter> dom ?pm = {}" "distinct ks" "Suc n + length ks < 2 ^ 32"
    using Cons.prems by auto
  from Cons.IH [OF reg this(2,1,3)] obtain pm' where
    "try_fold migrate_module ?pm (enumerate (Suc n) ks) = Ok pm'"
    "registry_ok pm' (Suc n + length ks) (Suc n + length ks)" "dom pm' = dom ?pm \<union> set ks"
    by blast
  moreover from pre have "migrate_module pm (n, k) = Ok ?pm" by (simp add: migrate_module_def)
  ultimately show ?case by auto
qed

lemma migrate_from_v1:
  assumes "CONTRACT_INFO st = Some (nm, v)" "v \<noteq> CONTRACT_VERSION" "PROPOSAL_MODULES st = Map.empty"
    "finite (dom (V1_PROPOSAL_MODULES v1))" "card (dom (V1_PROPOSAL_MODULES v1)) < 2 ^ 32"
    "V1_CONFIG v1 = Some cfg"
  shows "\<exists>st' ms. migrate v1 st env (FromV1 uri params) = Ok (st', ms) \<and> core_inv st' \<and>
    dom (PROPOSAL_MODULES st') = dom (V1_PROPOSAL_MODULES v1) \<and>
    enabled_modules (PROPOSAL_MODULES st') = dom (V1_PROPOSAL_MODULES v1)"
proof -
  let ?ks = "map fst (entries (V1_PROPOSAL_MODULES v1))"
  have ks: "?ks = sorted_list_of_set (dom (V1_PROPOSAL_MODULES v1))"
    using sorted_entries [OF assms(4)] .
  have len: "length ?ks < 2 ^ 32" "set ?ks = dom (V1_PROPOSAL_MODULES v1)"
    unfolding ks using assms(4,5) by simp_all
  from migrate_modules [OF registry_empty distinct_entries, of "V1_PROPOSAL_MODULES v1"] len
  obtain pm where pm: "try_fold migrate_module Map.empty (enumerate 0 ?ks) = Ok pm"
    "registry_ok pm (length ?ks) (length ?ks)" "dom pm = set ?ks"
    by auto
  have "enabled_modules pm = dom pm"
    using pm(2) enabled_subset by (intro card_subset_eq) (auto simp: registry_ok_def)
  with pm len assms show ?thesis
    by (simp add: migrate_def core_inv_def Let_def)
qed

lemma migrate_modules_again:
  assumes "n + length ks < 2 ^ 32"
  shows "\<exists>pm'. try_fold migrate_module pm (enumerate n ks) = Ok pm' \<and>
    enabled_modules pm \<union> set ks \<subseteq> enabled_modules pm'"
  using assms
proof (induction ks arbitrary: pm n)
  case Nil
  then show ?case by simp
next
  case (Cons k ks)
  from Cons.prems obtain pre where pre: "derive_proposal_module_prefix n = Ok pre"
    using derive_prefix_total [of n] by auto
  let ?pm = "pm(k \<mapsto> \<lparr>address = k, prefix = pre, module_status = Enabled\<rparr>)"
  from Cons.prems have "Suc n + length ks < 2 ^ 32" by simp
  from Cons.IH [OF this, of ?pm] obtain pm' where
    "try_fold migrate_module ?pm (enumerate (Suc n) ks) = Ok pm'"
    "enabled_modules ?pm \<union> set ks \<subseteq> enabled_modules pm'" by blast
  moreover from pre have "migrate_module pm (n, k) = Ok ?pm" by (simp add: migrate_module_def)
  ultimately show ?case by (auto simp: enabled_insert)
qed

lemma migrate_again:
  assumes "CONTRACT_INFO st = Some (nm, v)" "v \<noteq> CONTRACT_VERSION"
    "finite (dom (V1_PROPOSAL_MODULES v1))" "card (dom (V1_PROPOSAL_MODULES v1)) < 2 ^ 32"
    "V1_CONFIG v1 = Some cfg"
  shows "\<exists>st' ms. migrate v1 st env (FromV1 uri params) = Ok (st', ms) \<and>
    dom (V1_PROPOSAL_MODULES v1) \<subseteq> enabled_modules (PROPOSAL_MODULES st')"
proof -
  let ?ks = "map fst (entries (V1_PROPOSAL_MODULES v1))"
  have ks: "?ks = sorted_list_of_set (dom (V1_PROPOSAL_MODULES v1))"
    using sorted_entries [OF assms(3)] .
  have len: "length ?ks < 2 ^ 32" "set ?ks = dom (V1_PROPOSAL_MODULES v1)"
    unfolding ks using assms(3,4) by simp_all
  from migrate_modules_again [of 0 ?ks "PROPOSAL_MODULES st"] len obtain pm where
    "try_fold migrate_module (PROPOSAL_MODULES st) (enumerate 0 ?ks) = Ok pm"
    "set ?ks \<subseteq> enabled_modules pm" by auto
  with len assms show ?thesis by (simp add: migrate_def Let_def)
qed

end
