(* ===== verification/Dao_Core_Claims.thy ===== *)
theory Dao_Core_Claims
  imports Samples Dao_Core_Props
begin

text \<open>
  The properties of the core contract, each with an instance on a small DAO: two proposal modules,
  of which the DAO later disables the first, and a guardian as admin.
\<close>

section \<open>A sample DAO\<close>

definition sample_core :: "string core_deps" where
  "sample_core =
     \<lparr>is_expired = sample_is_expired, duration_after = sample_after, expiration_add = sample_add,
      expiration_debug = (\<lambda>_. ''expiration''),
      addr_validate = (\<lambda>a. if a = [] then Err (GenericErr ''empty address'') else Ok a),
      cw20_balance = (\<lambda>_ _. Ok 5), cw721_contract_info = (\<lambda>_. Ok ()),
      module_voting_power = (\<lambda>_ a _. Ok (sample_power a)), module_total_power = (\<lambda>_ _. Ok 100),
      decode_callback = (\<lambda>_. Ok [])\<rparr>"

definition core_env :: "u64 \<Rightarrow> env" where
  "core_env h = \<lparr>block = sample_block h, contract_address = ''dao''\<rparr>"

definition sample_module_info :: module_instantiate_info where
  "sample_module_info =
     \<lparr>code_id = 7, info_msg = ''{}'', info_admin = Some CoreModule, info_funds = None,
      info_label = ''module'', info_salt = None\<rparr>"

definition sample_core_config :: core_config where
  "sample_core_config =
     \<lparr>name = ''dao'', description = [], image_url = None, automatically_add_cw20s = True,
      automatically_add_cw721s = False, dao_uri = None\<rparr>"

definition core_blank :: "string core_state" where
  "core_blank =
     \<lparr>CONTRACT_INFO = None, ADMIN = None, NOMINATED_ADMIN = None, CONFIG = None, PAUSED = None,
      VOTING_MODULE = None, PROPOSAL_MODULES = Map.empty, ACTIVE_PROPOSAL_MODULE_COUNT = None,
      TOTAL_PROPOSAL_MODULE_COUNT = None, ITEMS = Map.empty, CW20_LIST = Map.empty,
      CW721_LIST = Map.empty, SUBDAO_LIST = Map.empty, INITIAL_ACTIONS = None\<rparr>"

definition sample_instantiate :: "string instantiate_msg" where
  "sample_instantiate =
     \<lparr>im_admin = Some ''guardian'', im_name = ''dao'', im_description = [], im_image_url = None,
      im_automatically_add_cw20s = True, im_automatically_add_cw721s = False,
      im_voting_module = sample_module_info,
      im_proposal_modules = [sample_module_info, sample_module_info], im_initial_items = None,
      im_initial_actions = None, im_dao_uri = None\<rparr>"

definition core_started :: "string core_state" where
  "core_started = core_blank
     \<lparr>CONTRACT_INFO := Some (CONTRACT_NAME, CONTRACT_VERSION), CONFIG := Some sample_core_config,
      ADMIN := Some ''guardian'', TOTAL_PROPOSAL_MODULE_COUNT := Some 0,
      ACTIVE_PROPOSAL_MODULE_COUNT := Some 0\<rparr>"

definition core_one :: "string core_state" where
  "core_one = core_started
     \<lparr>PROPOSAL_MODULES := [''prop1'' \<mapsto> \<lparr>address = ''prop1'', prefix = ''A'', module_status = Enabled\<rparr>],
      TOTAL_PROPOSAL_MODULE_COUNT := Some 1, ACTIVE_PROPOSAL_MODULE_COUNT := Some 1\<rparr>"

definition core_two :: "string core_state" where
  "core_two = core_one
     \<lparr>PROPOSAL_MODULES := [''prop1'' \<mapsto> \<lparr>address = ''prop1'', prefix = ''A'', module_status = Enabled\<rparr>,
         ''prop2'' \<mapsto> \<lparr>address = ''prop2'', prefix = ''B'', module_status = Enabled\<rparr>],
      TOTAL_PROPOSAL_MODULE_COUNT := Some 2, ACTIVE_PROPOSAL_MODULE_COUNT := Some 2\<rparr>"

definition core_disabled :: "string core_state" where
  "core_disabled = core_two
     \<lparr>PROPOSAL_MODULES := [''prop1'' \<mapsto> \<lparr>address = ''prop1'', prefix = ''A'', module_status = Disabled\<rparr>,
         ''prop2'' \<mapsto> \<lparr>address = ''prop2'', prefix = ''B'', module_status = Enabled\<rparr>],
      ACTIVE_PROPOSAL_MODULE_COUNT := Some 1\<rparr>"

lemmas core_sample_defs =
  sample_core_def core_env_def sample_module_info_def sample_core_config_def core_blank_def
  sample_instantiate_def core_started_def core_one_def core_two_def core_disabled_def sent_by_def

lemma letters: "char_of (65 :: nat) = CHR ''A''" "char_of (66 :: nat) = CHR ''B''"
  by (simp_all add: char_of_eq_iff)

lemma sample_prefixes:
  "derive_proposal_module_prefix 0 = Ok ''A''" "derive_proposal_module_prefix 1 = Ok ''B''"
  by (simp_all add: derive_proposal_module_prefix_def add_u32_def prefix_loop_step letters)

lemma sample_core_started:
  "\<exists>ms. instantiate sample_core core_blank (core_env 1) (sent_by ''ann'') sample_instantiate =
     Ok (core_started, ms)"
  by (simp add: instantiate_def Let_def core_sample_defs)

lemma sample_reply_one: "reply sample_core core_started (module_reply ''prop1'') = Ok (core_one, [])"
  using sample_prefixes(1)
  by (simp add: reply_def module_reply_def core_sample_defs add_u32_def callback_msgs_def forward_def)

lemma sample_reply_two: "reply sample_core core_one (module_reply ''prop2'') = Ok (core_two, [])"
  using sample_prefixes(2)
  by (simp add: reply_def module_reply_def core_sample_defs add_u32_def callback_msgs_def forward_def)

lemma sample_disable:
  "execute sample_core core_two (core_env 5) (sent_by ''dao'') (UpdateProposalModules [] [''prop1'']) =
     Ok (core_disabled, [])"
  by (simp add: execute_def check_paused_def execute_update_proposal_modules_def disable_module_def
      core_sample_defs sub_u32_def fun_upd_twist)

definition sample_calls :: "string core_call list" where
  "sample_calls =
     [CallReply (module_reply ''prop1''), CallReply (module_reply ''prop2''),
      CallExecute (sent_by ''dao'') (UpdateProposalModules [] [''prop1''])]"

lemma sample_core_run: "core_run sample_core ''dao'' core_started sample_calls core_disabled"
proof -
  have "core_run sample_core ''dao'' core_started ([] @ [CallReply (module_reply ''prop1'')]) core_one"
    by (rule core_run.step [OF core_run.start core_step.reply [OF sample_reply_one]])
       (simp add: new_address_def module_reply_def core_sample_defs)
  then have "core_run sample_core ''dao'' core_started
      (([] @ [CallReply (module_reply ''prop1'')]) @ [CallReply (module_reply ''prop2'')]) core_two"
    by (rule core_run.step [OF _ core_step.reply [OF sample_reply_two]])
       (simp add: new_address_def module_reply_def core_sample_defs)
  then have "core_run sample_core ''dao'' core_started
      ((([] @ [CallReply (module_reply ''prop1'')]) @ [CallReply (module_reply ''prop2'')])
        @ [CallExecute (sent_by ''dao'') (UpdateProposalModules [] [''prop1''])]) core_disabled"
    by (rule core_run.step [OF _ core_step.execute [OF sample_disable]]) (simp add: core_env_def)
  then show ?thesis by (simp add: sample_calls_def)
qed

section \<open>The registry of proposal modules\<close>

text \<open>C13: from its instantiation on, through any sequence of messages, replies of newly instantiated
  modules and compatible migrations, the core's registry agrees with its counters: the counters
  that \<open>ProposalModuleCount\<close> reports are the number of enabled and of all modules, each
  module is stored under its own address, and no two modules share a prefix.
\<close>

theorem core_registry_counts:
  assumes "instantiate deps st0 env info msg = Ok (st, ms)" "PROPOSAL_MODULES st0 = Map.empty"
    "core_run deps self st cs st'"
  shows "query_proposal_module_count st' =
      Ok (card (enabled_modules (PROPOSAL_MODULES st')), card (dom (PROPOSAL_MODULES st'))) \<and>
    (\<forall>a m. PROPOSAL_MODULES st' a = Some m \<longrightarrow> address m = a) \<and>
    (\<forall>a m b n. PROPOSAL_MODULES st' a = Some m \<longrightarrow> PROPOSAL_MODULES st' b = Some n \<longrightarrow>
       prefix m = prefix n \<longrightarrow> a = b)"
proof -
  from core_run_inv [OF assms(3) core_instantiate_inv [OF assms(1,2)]] obtain act tot where
    "ACTIVE_PROPOSAL_MODULE_COUNT st' = Some act" "TOTAL_PROPOSAL_MODULE_COUNT st' = Some tot"
    "registry_ok (PROPOSAL_MODULES st') act tot"
    by (auto simp: core_inv_def)
  then show ?thesis
    by (auto simp: query_proposal_module_count_def registry_ok_def inj_on_def) (metis domI option.sel)
qed

theorem core_registry_counts_witness:
  "query_proposal_module_count core_disabled =
     Ok (card (enabled_modules (PROPOSAL_MODULES core_disabled)), card (dom (PROPOSAL_MODULES core_disabled)))"
proof -
  from sample_core_started obtain ms where
    "instantiate sample_core core_blank (core_env 1) (sent_by ''ann'') sample_instantiate = Ok (core_started, ms)" ..
  from core_registry_counts [OF this _ sample_core_run] show ?thesis by (simp add: core_blank_def)
qed

text \<open>the replies of newly instantiated proposal modules never fail: each of them registers its
  module as enabled, under the prefix of its position, raises both counters by one, and leaves
  the other modules alone.
\<close>

theorem core_new_modules_registered:
  assumes "core_inv st" "TOTAL_PROPOSAL_MODULE_COUNT st = Some t" "ACTIVE_PROPOSAL_MODULE_COUNT st = Some c"
    "t + length as < 2 ^ 32" "distinct as" "\<forall>a\<in>set as. addr_validate deps a = Ok a"
    "set as \<inter> dom (PROPOSAL_MODULES st) = {}"
  shows "\<exists>st'. try_fold (reply_module deps) st as = Ok st' \<and>
    query_proposal_module_count st' = Ok (c + length as, t + length as) \<and>
    (\<forall>i < length as. \<exists>m. PROPOSAL_MODULES st' (as ! i) = Some m \<and> module_status m = Enabled \<and>
       derive_proposal_module_prefix (t + i) = Ok (prefix m)) \<and>
    (\<forall>b. b \<notin> set as \<longrightarrow> PROPOSAL_MODULES st' b = PROPOSAL_MODULES st b)"
  using reply_modules [OF assms] by (auto simp: query_proposal_module_count_def)

theorem core_new_modules_registered_witness:
  "\<exists>st'. try_fold (reply_module sample_core) core_started [''x'', ''y'', ''z''] = Ok st' \<and>
     query_proposal_module_count st' = Ok (3, 3)"
proof -
  have "core_inv core_started"
    using sample_core_started by (auto intro: core_instantiate_inv simp: core_blank_def)
  from core_new_modules_registered [OF this, of 0 0 "[''x'', ''y'', ''z'']" sample_core]
  show ?thesis by (auto simp: core_sample_defs)
qed

text \<open>C17: the prefix of a proposal module names its position: every position below \<open>2^32 - 1\<close> has a
  prefix, it is made of capital letters, and its letters read in bijective base 26 give the
  position back, so that two positions never get the same prefix.
\<close>

theorem core_prefix_bijective:
  assumes "n + 1 < 2 ^ 32"
  shows "\<exists>s. derive_proposal_module_prefix n = Ok s \<and> letters_value (rev s) = n + 1 \<and>
    s \<noteq> [] \<and> list_all capital s \<and>
    (\<forall>m. derive_proposal_module_prefix m = Ok s \<longrightarrow> m = n)"
proof -
  from derive_prefix_total [OF assms] obtain s where s: "derive_proposal_module_prefix n = Ok s" ..
  with derive_prefix_letters [OF s] derive_prefix_value [OF s] derive_prefix_inj [OF _ s] show ?thesis
    by blast
qed

theorem core_prefix_bijective_witness:
  "\<exists>s. derive_proposal_module_prefix 701 = Ok s \<and> letters_value (rev s) = 702"
  using core_prefix_bijective [of 701] by auto

text \<open>disabling proposal modules is safe: on a registry that agrees with its counters the handler
  never panics on the subtraction of its counters, whatever addresses it is given, and when it adds
  no module it succeeds only if an enabled module is left.
\<close>

theorem core_update_modules_safe:
  assumes "core_inv st" "\<And>s. addr_validate deps s \<noteq> Panic"
  shows "execute_update_proposal_modules deps st env who to_add to_disable \<noteq> Panic \<and>
    (\<forall>st' ms. execute_update_proposal_modules deps st env who [] to_disable = Ok (st', ms) \<longrightarrow>
       enabled_modules (PROPOSAL_MODULES st') \<noteq> {})"
  using update_modules_total [OF assms] update_modules_active assms(1) by blast

theorem core_update_modules_safe_witness:
  "execute_update_proposal_modules sample_core core_disabled (core_env 6) ''dao'' [] [''prop2'', ''prop2'']
     \<noteq> Panic"
proof -
  have "core_inv core_started"
    using sample_core_started by (auto intro: core_instantiate_inv simp: core_blank_def)
  from core_run_inv [OF sample_core_run this]
  have "core_inv core_disabled" .
  moreover have "addr_validate sample_core s \<noteq> Panic" for s by (simp add: sample_core_def)
  ultimately show ?thesis using core_update_modules_safe by blast
qed

section \<open>Authority\<close>

text \<open>C14: what leaves the core, at every entry point. Messages are forwarded on somebody's behalf only
  when the admin sends them with \<open>ExecuteAdminMsgs\<close> or an enabled proposal module with
  \<open>ExecuteProposalHook\<close>, unchanged, in order and with the core's own state as it was; when a module
  that is being registered in the reply to its instantiation returns them as its callback; or, at the
  instantiation of the core, as the initial actions of its instantiator. Whatever else leaves the core
  in response to a message is asked for by the DAO itself, and migrations forward nothing.
\<close>

theorem core_messages_authorised:
  assumes "core_step deps self st c ms st'"
  shows "(carries ms \<noteq> [] \<longrightarrow> ms = forward (carries ms) \<and>
      ((\<exists>info. c = CallExecute info (ExecuteAdminMsgs (carries ms)) \<and> ADMIN st = Some (sender info) \<and> st' = st) \<or>
       (\<exists>info. c = CallExecute info (ExecuteProposalHook (carries ms)) \<and>
          sender info \<in> enabled_modules (PROPOSAL_MODULES st) \<and> st' = st) \<or>
       (\<exists>r res a. c = CallReply r \<and> parsed_instantiate_data r = Ok res \<and>
          addr_validate deps (res_contract_address res) = Ok a \<and> carries ms = callback_msgs deps res \<and>
          (rep_id r = PROPOSAL_MODULE_REPLY_ID \<and> a \<in> enabled_modules (PROPOSAL_MODULES st') \<or>
           rep_id r = VOTE_MODULE_INSTANTIATE_REPLY_ID \<and> VOTING_MODULE st = None \<and> VOTING_MODULE st' = Some a)))) \<and>
    (carries ms = [] \<and> ms \<noteq> [] \<longrightarrow> (\<exists>info msg. c = CallExecute info msg \<and> sender info = self)) \<and>
    (\<forall>st0 env info im st1 ms1. instantiate deps st0 env info im = Ok (st1, ms1) \<longrightarrow>
       carries ms1 = (case im_initial_actions im of None \<Rightarrow> [] | Some acts \<Rightarrow> acts)) \<and>
    (\<forall>v1 st0 env m st1 ms1. migrate v1 (st0 :: 'm core_state) env m = Ok (st1, ms1) \<longrightarrow> carries ms1 = [])"
proof (intro conjI allI impI)
  assume "carries ms \<noteq> []"
  with assms show "ms = forward (carries ms)" and "(\<exists>info. c = CallExecute info (ExecuteAdminMsgs (carries ms)) \<and> ADMIN st = Some (sender info) \<and> st' = st) \<or>
       (\<exists>info. c = CallExecute info (ExecuteProposalHook (carries ms)) \<and>
          sender info \<in> enabled_modules (PROPOSAL_MODULES st) \<and> st' = st) \<or>
       (\<exists>r res a. c = CallReply r \<and> parsed_instantiate_data r = Ok res \<and>
          addr_validate deps (res_contract_address res) = Ok a \<and> carries ms = callback_msgs deps res \<and>
          (rep_id r = PROPOSAL_MODULE_REPLY_ID \<and> a \<in> enabled_modules (PROPOSAL_MODULES st') \<or>
           rep_id r = VOTE_MODULE_INSTANTIATE_REPLY_ID \<and> VOTING_MODULE st = None \<and> VOTING_MODULE st' = Some a))"
    by (auto elim!: core_step.cases dest: execute_carries reply_carries migrate_compatible)
next
  assume "carries ms = [] \<and> ms \<noteq> []"
  with assms show "\<exists>info msg. c = CallExecute info msg \<and> sender info = self"
    by (auto elim!: core_step.cases dest: execute_sends reply_sends migrate_compatible)
qed (auto dest: instantiate_carries migrate_carries)

theorem core_messages_authorised_witness:
  "''prop2'' \<in> enabled_modules (PROPOSAL_MODULES core_disabled)"
proof -
  have "execute sample_core core_disabled (core_env 6) (sent_by ''prop2'') (ExecuteProposalHook [''pay'']) =
      Ok (core_disabled, forward [''pay''])"
    by (simp add: execute_def check_paused_def execute_proposal_hook_def core_sample_defs)
  then have "core_step sample_core ''dao'' core_disabled (CallExecute (sent_by ''prop2'') (ExecuteProposalHook [''pay'']))
      (forward [''pay'']) core_disabled"
    by (rule core_step.execute) (simp add: core_env_def)
  from core_messages_authorised [OF this] show ?thesis by (auto simp: sent_by_def)
qed

text \<open>while the DAO is paused, every message of every account is refused with \<open>IsPaused\<close>,
  except those of its admin and of the DAO itself; nobody meets that error at another time.
\<close>

theorem core_pause_gate:
  assumes "ADMIN st = Some adm"
  shows "execute deps st env info msg = Err IsPaused \<longleftrightarrow>
    (\<exists>e. PAUSED st = Some e \<and> \<not> is_expired deps e (block env)) \<and>
    sender info \<noteq> contract_address env \<and> sender info \<noteq> adm"
  using execute_paused_iff [OF assms] assms by (auto simp: paused_for_def)

theorem core_pause_gate_witness:
  "execute sample_core (core_two\<lparr>PAUSED := Some (AtHeight 20)\<rparr>) (core_env 10) (sent_by ''prop1'')
     (ExecuteProposalHook [''pay'']) = Err IsPaused"
  using core_pause_gate [of "core_two\<lparr>PAUSED := Some (AtHeight 20)\<rparr>" "''guardian''" sample_core "core_env 10"
      "sent_by ''prop1''" "ExecuteProposalHook [''pay'']"]
  by (simp add: core_sample_defs sample_is_expired_def sample_block_def)

text \<open>C15: what a message of another account can change: the configuration, the modules and their
  count, the items and the SubDAOs change only in messages that the DAO sends to itself, the
  pause starts only at the DAO's and ends early only at the admin's request, and a token list
  grows at most by the sending token contract, where the configuration asks for it.
\<close>

theorem core_authority:
  assumes "execute deps st env info msg = Ok (st', ms)" "sender info \<noteq> contract_address env"
  shows "CONFIG st' = CONFIG st \<and> VOTING_MODULE st' = VOTING_MODULE st \<and>
    PROPOSAL_MODULES st' = PROPOSAL_MODULES st \<and>
    ACTIVE_PROPOSAL_MODULE_COUNT st' = ACTIVE_PROPOSAL_MODULE_COUNT st \<and>
    TOTAL_PROPOSAL_MODULE_COUNT st' = TOTAL_PROPOSAL_MODULE_COUNT st \<and>
    ITEMS st' = ITEMS st \<and> SUBDAO_LIST st' = SUBDAO_LIST st \<and>
    (PAUSED st' \<noteq> PAUSED st \<longrightarrow> PAUSED st' = None \<and> ADMIN st = Some (sender info)) \<and>
    (CW20_LIST st' \<noteq> CW20_LIST st \<longrightarrow> CW20_LIST st' = (CW20_LIST st)(sender info \<mapsto> ()) \<and>
      (\<exists>c. CONFIG st = Some c \<and> automatically_add_cw20s c)) \<and>
    (CW721_LIST st' \<noteq> CW721_LIST st \<longrightarrow> CW721_LIST st' = (CW721_LIST st)(sender info \<mapsto> ()) \<and>
      (\<exists>c. CONFIG st = Some c \<and> automatically_add_cw721s c))"
  using execute_self_only [OF assms] execute_registry(1) [OF assms(1)]
    execute_pause_authority [OF assms(1)] execute_token_lists [OF assms] assms(2)
  by blast

theorem core_authority_witness:
  "\<exists>st'. execute sample_core core_two (core_env 6) (sent_by ''token'') Receive = Ok (st', []) \<and>
     CW721_LIST st' = CW721_LIST core_two \<and> ITEMS st' = ITEMS core_two"
proof -
  let ?st = "core_two\<lparr>CW20_LIST := [''token'' \<mapsto> ()]\<rparr>"
  have "execute sample_core core_two (core_env 6) (sent_by ''token'') Receive = Ok (?st, [])"
    by (simp add: execute_def check_paused_def execute_receive_cw20_def core_sample_defs)
  moreover from core_authority [OF this] have "ITEMS ?st = ITEMS core_two"
    by (simp add: core_sample_defs)
  ultimately show ?thesis by (intro exI [of _ ?st]) simp
qed

text \<open>C16: the admin hands over in two steps. An account other than the DAO itself that becomes the admin
  in the course of a run has accepted a nomination in that run; the nomination was pending when
  the run started, or it was made earlier in the run by the account that was the admin at that
  moment, with no other nomination pending.
\<close>

theorem core_admin_handover:
  assumes "core_run deps self st cs st'" "ADMIN st' = Some x" "ADMIN st \<noteq> Some x" "x \<noteq> self"
  shows "\<exists>cs1 info cs2. cs = cs1 @ CallExecute info AcceptAdminNomination # cs2 \<and> sender info = x \<and>
    (NOMINATED_ADMIN st = Some x \<or>
     (\<exists>ds1 by s ds2 st1. cs1 = ds1 @ CallExecute by (NominateAdmin (Some s)) # ds2 \<and>
        core_run deps self st ds1 st1 \<and> ADMIN st1 = Some (sender by) \<and> NOMINATED_ADMIN st1 = None \<and>
        addr_validate deps s = Ok x))"
  using core_run_admin [OF assms] unfolding handed_over_def nominated_by_admin_def .

theorem core_admin_handover_witness:
  "\<exists>cs1 info cs2. [CallExecute (sent_by ''guardian'') (NominateAdmin (Some ''eve'')),
      CallExecute (sent_by ''eve'') AcceptAdminNomination] = cs1 @ CallExecute info AcceptAdminNomination # cs2 \<and>
    sender info = ''eve'' \<and>
    (\<exists>ds1 by s ds2 st1. cs1 = ds1 @ CallExecute by (NominateAdmin (Some s)) # ds2 \<and>
       core_run sample_core ''dao'' core_two ds1 st1 \<and> ADMIN st1 = Some (sender by))"
proof -
  let ?nominated = "core_two\<lparr>NOMINATED_ADMIN := Some ''eve''\<rparr>"
  let ?accepted = "core_two\<lparr>ADMIN := Some ''eve''\<rparr>"
  have one: "execute sample_core core_two (core_env 7) (sent_by ''guardian'') (NominateAdmin (Some ''eve'')) =
      Ok (?nominated, [])"
    by (simp add: execute_def check_paused_def execute_nominate_admin_def core_sample_defs)
  have two: "execute sample_core ?nominated (core_env 8) (sent_by ''eve'') AcceptAdminNomination =
      Ok (?accepted, [])"
    by (simp add: execute_def check_paused_def execute_accept_admin_nomination_def core_sample_defs)
  have "core_run sample_core ''dao'' core_two
      (([] @ [CallExecute (sent_by ''guardian'') (NominateAdmin (Some ''eve''))])
        @ [CallExecute (sent_by ''eve'') AcceptAdminNomination]) ?accepted"
    by (rule core_run.step [OF core_run.step [OF core_run.start core_step.execute [OF one]]
          core_step.execute [OF two]]) (simp_all add: core_env_def)
  then have run: "core_run sample_core ''dao'' core_two [CallExecute (sent_by ''guardian'') (NominateAdmin (Some ''eve'')),
      CallExecute (sent_by ''eve'') AcceptAdminNomination] ?accepted" by simp
  have adm: "ADMIN ?accepted = Some ''eve''" "ADMIN core_two \<noteq> Some ''eve''" "''eve'' \<noteq> ''dao''"
    and none: "NOMINATED_ADMIN core_two = None" by (simp_all add: core_sample_defs)
  from core_admin_handover [OF run adm] show ?thesis
    unfolding none by (elim exE conjE disjE) (simp, intro exI conjI)
qed

section \<open>Migration\<close>

text \<open>migrating from version 1 succeeds and registers exactly the proposal modules of version 1,
  all enabled, with distinct prefixes and counters that agree.
\<close>

theorem core_migration_registers:
  assumes "CONTRACT_INFO st = Some (nm, v)" "v \<noteq> CONTRACT_VERSION" "PROPOSAL_MODULES st = Map.empty"
    "finite (dom (V1_PROPOSAL_MODULES v1))" "card (dom (V1_PROPOSAL_MODULES v1)) < 2 ^ 32"
    "V1_CONFIG v1 = Some cfg"
  shows "\<exists>st' ms. migrate v1 st env (FromV1 uri params) = Ok (st', ms) \<and> core_inv st' \<and>
    dom (PROPOSAL_MODULES st') = dom (V1_PROPOSAL_MODULES v1) \<and>
    enabled_modules (PROPOSAL_MODULES st') = dom (V1_PROPOSAL_MODULES v1)"
  using migrate_from_v1 [OF assms] .

definition sample_v1 :: v1_core_state where
  "sample_v1 =
     \<lparr>V1_PROPOSAL_MODULES = [''prop1'' \<mapsto> (), ''prop2'' \<mapsto> ()],
      V1_CONFIG = Some \<lparr>v1_name = ''dao'', v1_description = [], v1_image_url = None,
        v1_automatically_add_cw20s = True, v1_automatically_add_cw721s = True\<rparr>\<rparr>"

theorem core_migration_registers_witness:
  "\<exists>st' ms. migrate sample_v1 (core_blank\<lparr>CONTRACT_INFO := Some (CONTRACT_NAME, ''0.1.0'')\<rparr>) (core_env 9)
     (FromV1 None None) = Ok (st', ms) \<and> enabled_modules (PROPOSAL_MODULES st') = {''prop1'', ''prop2''}"
  using core_migration_registers [of "core_blank\<lparr>CONTRACT_INFO := Some (CONTRACT_NAME, ''0.1.0'')\<rparr>"
      CONTRACT_NAME "''0.1.0''" sample_v1 _ "core_env 9" None None]
  by (auto simp: sample_v1_def core_sample_defs CONTRACT_VERSION_def)

text \<open>the guard against repeated migration compares versions only: a DAO that runs an earlier
  release of version 2, and whose version 1 data is still stored, accepts \<open>FromV1\<close> again, which
  enables the modules it had disabled.
\<close>

theorem core_repeated_migration_enables:
  assumes "CONTRACT_INFO st = Some (nm, v)" "v \<noteq> CONTRACT_VERSION"
    "finite (dom (V1_PROPOSAL_MODULES v1))" "card (dom (V1_PROPOSAL_MODULES v1)) < 2 ^ 32"
    "V1_CONFIG v1 = Some cfg"
  shows "\<exists>st' ms. migrate v1 st env (FromV1 uri params) = Ok (st', ms) \<and>
    dom (V1_PROPOSAL_MODULES v1) \<subseteq> enabled_modules (PROPOSAL_MODULES st')"
  using migrate_again [OF assms] .

theorem core_repeated_migration_enables_witness:
  "''prop1'' \<notin> enabled_modules (PROPOSAL_MODULES core_disabled) \<and>
   (\<exists>st' ms. migrate sample_v1 (core_disabled\<lparr>CONTRACT_INFO := Some (CONTRACT_NAME, ''2.7.0'')\<rparr>) (core_env 9)
     (FromV1 None None) = Ok (st', ms) \<and> ''prop1'' \<in> enabled_modules (PROPOSAL_MODULES st'))"
proof
  show "''prop1'' \<notin> enabled_modules (PROPOSAL_MODULES core_disabled)"
    by (simp add: enabled_modules_def core_sample_defs)
  show "\<exists>st' ms. migrate sample_v1 (core_disabled\<lparr>CONTRACT_INFO := Some (CONTRACT_NAME, ''2.7.0'')\<rparr>) (core_env 9)
     (FromV1 None None) = Ok (st', ms) \<and> ''prop1'' \<in> enabled_modules (PROPOSAL_MODULES st')"
    using core_repeated_migration_enables [of "core_disabled\<lparr>CONTRACT_INFO := Some (CONTRACT_NAME, ''2.7.0'')\<rparr>"
        CONTRACT_NAME "''2.7.0''" sample_v1 _ "core_env 9" None None]
    by (auto simp: sample_v1_def CONTRACT_VERSION_def)
qed

section \<open>Listing items\<close>

text \<open>listing the items of a DAO returns every stored pair exactly once, in strictly descending
  order of keys; with a start key, it returns the pairs with smaller keys.
\<close>

theorem core_items_descending:
  assumes "finite (dom (ITEMS st))"
  shows "\<exists>xs. query_list_items st start_after None = Ok xs \<and>
    set xs = {(k, v). ITEMS st k = Some v \<and> (\<forall>s. start_after = Some s \<longrightarrow> k < s)} \<and>
    sorted_wrt (\<lambda>p q. fst q < fst p) xs"
proof -
  have "sorted_wrt (\<lambda>p q. fst q < fst p) (range_before (ITEMS st) start_after)"
    using map_range_sorted [of "ITEMS st"]
    by (simp add: range_before_def sorted_wrt_rev sorted_wrt_filter)
  moreover have "set (range_before (ITEMS st) start_after) =
      {(k, v). ITEMS st k = Some v \<and> (\<forall>s. start_after = Some s \<longrightarrow> k < s)}"
    using set_entries [OF assms] by (auto simp: range_before_def split: option.splits)
  ultimately show ?thesis
    by (simp add: query_list_items_def paginate_map_def map_range_def)
qed

theorem core_items_descending_witness:
  "\<exists>xs. query_list_items (core_two\<lparr>ITEMS := [''a'' \<mapsto> ''1'', ''b'' \<mapsto> ''2'']\<rparr>) None None = Ok xs \<and>
     set xs = {(''a'', ''1''), (''b'', ''2'')} \<and> sorted_wrt (\<lambda>p q. fst q < fst p) xs"
proof -
  have e: "{(k, v). [''a'' \<mapsto> ''1'', ''b'' \<mapsto> ''2''] k = Some v} = {(''a'', ''1''), (''b'', ''2'')}"
    by (auto split: if_splits)
  from core_items_descending [of "core_two\<lparr>ITEMS := [''a'' \<mapsto> ''1'', ''b'' \<mapsto> ''2'']\<rparr>" None]
  show ?thesis by (simp add: e del: fun_upd_apply)
qed

end
