(* ===== verification/Dao_System.thy ===== *)
theory Dao_System
  imports Proposal_Single_Claims Dao_Core_Claims
begin

text \<open>
  How a proposal module and the core work together: the request that executing a proposal sends
  to the DAO arrives at the core as an \<open>ExecuteProposalHook\<close> of the module.
\<close>

section \<open>Delivering a module's request\<close>

text \<open>
  The chain delivers a message to the contract it is addressed to, with the sending contract as
  its sender.
\<close>

definition deliver ::
  "'m core_deps \<Rightarrow> 'm core_state \<Rightarrow> env \<Rightarrow> addr \<Rightarrow> 'm module_sub_msg \<Rightarrow> 'm core_outcome option" where
  "deliver deps core env from m =
     (case msg_body m of
        WasmExecute to (Dao_Hooks.ExecuteProposalHook ms) fs \<Rightarrow>
          if to = contract_address env
          then Some (Dao_Core.execute deps core env \<lparr>sender = from, funds = fs\<rparr>
                 (Dao_Core.ExecuteProposalHook ms))
          else None
      | _ \<Rightarrow> None)"

lemma hook_accepted:
  assumes "ADMIN core = Some adm"
  shows "Dao_Core.execute deps core env \<lparr>sender = from, funds = fs\<rparr> (Dao_Core.ExecuteProposalHook ms) =
    (if paused_for deps core env \<lparr>sender = from, funds = fs\<rparr> then Err IsPaused
     else if from \<in> enabled_modules (PROPOSAL_MODULES core) then Ok (core, forward ms)
     else if from \<in> dom (PROPOSAL_MODULES core) then Err (ModuleDisabledCannotExecute from)
     else Err Dao_Core.Unauthorized)"
  using assms
  by (auto simp: Dao_Core.execute_def check_paused_eq execute_proposal_hook_def enabled_modules_def
      split: option.splits)

text \<open>C11: end to end, the DAO executes what its voters passed. Whenever a proposal module sends the core
  a request, the request comes from \<open>Execute\<close> on a stored proposal: either its status is passed and
  the sender may execute, being a member where the configuration asks for it, or it is timelocked,
  its veto configuration enables early execution and the sender is the vetoer. The core accepts the
  request exactly when the module is enabled and the DAO is not paused for it; it then forwards
  exactly the messages of that proposal, in order.\<close>

theorem dao_executes_passed_proposals:
  assumes "Proposal_Single.execute deps st env info msg = Ok (st', r)" and "m \<in> set (messages r)"
    and "deliver cdeps core cenv (contract_address env) m = Some out" and "ADMIN core = Some adm"
  shows "\<exists>pid p config s. msg = Execute pid \<and> PROPOSALS st pid = Some p \<and> module_state.CONFIG st = Some config \<and>
    current_status deps p (block env) = Ok s \<and>
    (s = Passed \<and> sender_can_execute deps config info p = Ok True \<or>
     (\<exists>e vc. s = VetoTimelock e \<and> veto p = Some vc \<and> vetoer vc = sender info \<and> early_execute vc)) \<and>
    (\<forall>core' ms. out = Ok (core', ms) \<longleftrightarrow>
       contract_address env \<in> enabled_modules (PROPOSAL_MODULES core) \<and>
       \<not> paused_for cdeps core cenv \<lparr>sender = contract_address env, funds = []\<rparr> \<and>
       core' = core \<and> ms = forward (msgs p))"
proof -
  have disp: "is_dispatch m"
    using assms(3) by (auto simp: deliver_def is_dispatch_def split: wasm_msg.splits module_payload.splits)
  with assms(2) have "filter is_dispatch (messages r) \<noteq> []" by (auto simp: filter_empty_conv)
  from dispatch_inversion [OF assms(1) this] obtain pid p config member s where
    p: "msg = Execute pid" "PROPOSALS st pid = Some p" "module_state.CONFIG st = Some config"
    "current_status deps p (block env) = Ok s" "sender_can_execute deps config info p = Ok member"
    "s = Passed \<and> member \<or>
     (\<exists>e vc. s = VetoTimelock e \<and> veto p = Some vc \<and> vetoer vc = sender info \<and> early_execute vc)"
    "filter is_dispatch (messages r) = dispatch config pid (msgs p)"
    by blast
  have may: "s = Passed \<and> sender_can_execute deps config info p = Ok True \<or>
     (\<exists>e vc. s = VetoTimelock e \<and> veto p = Some vc \<and> vetoer vc = sender info \<and> early_execute vc)"
    using p(5,6) by (cases member) simp_all
  have "m \<in> set (dispatch config pid (msgs p))"
    unfolding p(7) [symmetric] using assms(2) disp by simp
  then have "msg_body m = WasmExecute (cfg_dao config) (Dao_Hooks.ExecuteProposalHook (msgs p)) []"
    by (auto simp: dispatch_def Let_def reply_on_error_def sub_msg_new_def split: if_splits)
  with assms(3) have "out = Dao_Core.execute cdeps core cenv
      \<lparr>sender = contract_address env, funds = []\<rparr> (Dao_Core.ExecuteProposalHook (msgs p))"
    by (auto simp: deliver_def split: if_splits)
  with p(1-4) may show ?thesis unfolding hook_accepted [OF assms(4)] by auto
qed

theorem dao_executes_passed_proposals_witness:
  "deliver sample_core (core_two\<lparr>PROPOSAL_MODULES := (PROPOSAL_MODULES core_two)(''module'' \<mapsto>
       \<lparr>address = ''module'', prefix = ''C'', module_status = Enabled\<rparr>)\<rparr>) (core_env 50)
     ''module'' (hd (messages sample_dispatch)) =
   Some (Ok (core_two\<lparr>PROPOSAL_MODULES := (PROPOSAL_MODULES core_two)(''module'' \<mapsto>
       \<lparr>address = ''module'', prefix = ''C'', module_status = Enabled\<rparr>)\<rparr>, forward [''pay'']))"
proof -
  let ?core = "core_two\<lparr>PROPOSAL_MODULES := (PROPOSAL_MODULES core_two)(''module'' \<mapsto>
       \<lparr>address = ''module'', prefix = ''C'', module_status = Enabled\<rparr>)\<rparr>"
  let ?m = "hd (messages sample_dispatch)"
  have core: "ADMIN ?core = Some ''guardian''" "PAUSED ?core = None" by (simp_all add: core_sample_defs)
  obtain out where out: "deliver sample_core ?core (core_env 50) (contract_address (sample_env 50)) ?m = Some out"
    by (simp add: deliver_def sample_dispatch_def reply_on_error_def core_env_def)
  have "?m \<in> set (messages sample_dispatch)" by (simp add: sample_dispatch_def)
  from dao_executes_passed_proposals [OF sample_step_execute this out core(1)]
  have "out = Ok (?core, forward [''pay''])"
    by (auto simp: enabled_modules_def paused_for_def core(2) sample_env_def sample_voted_def
        sample_tallied_def sample_proposal_def)
  with out show ?thesis by (simp add: sample_env_def)
qed

end
