(* ===== verification/Multiple_Choice.thy ===== *)
theory Multiple_Choice
  imports Dao_Delegation
begin

text \<open>
  Votes with many options (\<open>packages/dao-voting/src/multiple_choice.rs\<close> and the message that
  creates such a proposal in \<open>proposal.rs\<close>): the tally as a vector of weights, and the check of
  the options, which adds "None of the above" as the last one.
\<close>

section \<open>Strategy and votes\<close>

definition MAX_NUM_CHOICES :: nat where
  "MAX_NUM_CHOICES = 20"

definition NONE_OPTION_DESCRIPTION :: string where
  "NONE_OPTION_DESCRIPTION = ''None of the above''"

datatype voting_strategy = SingleChoice (strategy_quorum: percentage_threshold)

definition strategy_validate :: "voting_strategy \<Rightarrow> (unit, threshold_error) result" where
  "strategy_validate self = (case self of SingleChoice quorum \<Rightarrow> validate_quorum quorum)"

definition get_quorum :: "voting_strategy \<Rightarrow> percentage_threshold" where
  "get_quorum self = (case self of SingleChoice quorum \<Rightarrow> quorum)"

datatype multiple_choice_vote = MultipleChoiceVote (option_id: nat)

text \<open>The decimal digits of an option, as \<open>Display\<close> writes them.\<close>

fun digits :: "nat \<Rightarrow> string" where
  "digits n = (if n < 10 then [char_of (n + 48)] else digits (n div 10) @ [char_of (n mod 10 + 48)])"

declare digits.simps [simp del]

definition mc_vote_to_string :: "multiple_choice_vote \<Rightarrow> string" where
  "mc_vote_to_string self = digits (option_id self)"

section \<open>The tally\<close>

text \<open>Indexing a vector outside its length panics; so does a sum beyond \<open>Uint128\<close>.\<close>

datatype multiple_choice_votes = MultipleChoiceVotes (vote_weights: "nat list")

definition mc_total :: "multiple_choice_votes \<Rightarrow> (nat, 'e) result" where
  "mc_total self = try_fold add128 0 (vote_weights self)"

definition get_id :: "nat \<Rightarrow> multiple_choice_votes \<Rightarrow> (nat, 'e) result" where
  "get_id i self = (if i < length (vote_weights self) then Ok (vote_weights self ! i) else Panic)"

definition mc_get :: "multiple_choice_vote \<Rightarrow> multiple_choice_votes \<Rightarrow> (nat, 'e) result" where
  "mc_get v self = get_id (option_id v) self"

definition mc_add_vote ::
  "multiple_choice_vote \<Rightarrow> nat \<Rightarrow> multiple_choice_votes \<Rightarrow> (multiple_choice_votes, std_error) result" where
  "mc_add_vote v weight self =
     and_then (mc_get v self) (\<lambda>old.
     and_then (checked_add128 old weight) (\<lambda>new.
     Ok (MultipleChoiceVotes ((vote_weights self)[option_id v := new]))))"

definition mc_remove_vote ::
  "multiple_choice_vote \<Rightarrow> nat \<Rightarrow> multiple_choice_votes \<Rightarrow> (multiple_choice_votes, std_error) result" where
  "mc_remove_vote v weight self =
     and_then (mc_get v self) (\<lambda>old.
     and_then (checked_sub128 old weight) (\<lambda>new.
     Ok (MultipleChoiceVotes ((vote_weights self)[option_id v := new]))))"

definition mc_zero :: "nat \<Rightarrow> multiple_choice_votes" where
  "mc_zero num_choices = MultipleChoiceVotes (replicate num_choices 0)"

section \<open>Options\<close>

datatype multiple_choice_option_type = NoneOption | Standard

record 'm multiple_choice_option =
  opt_title :: string
  opt_description :: string
  opt_msgs :: "'m list"

record 'm checked_multiple_choice_option =
  index :: nat
  option_type :: multiple_choice_option_type
  choice_title :: string
  choice_description :: string
  choice_msgs :: "'m list"
  vote_count :: nat

definition checked_option :: "nat \<times> 'm multiple_choice_option \<Rightarrow> 'm checked_multiple_choice_option" where
  "checked_option ic =
     (case ic of (idx, choice) \<Rightarrow>
        \<lparr>index = idx, option_type = Standard, choice_title = opt_title choice,
         choice_description = opt_description choice, choice_msgs = opt_msgs choice, vote_count = 0\<rparr>)"

text \<open>
  The vector of checked options is allocated with room for one more element, which is its
  capacity: "None of the above" gets the index after the last option.
\<close>

definition into_checked ::
  "'m multiple_choice_option list \<Rightarrow> ('m checked_multiple_choice_option list, std_error) result" where
  "into_checked options =
     (if length options < 2 \<or> length options > MAX_NUM_CHOICES
      then Err (GenericErr ''Wrong number of choices'')
      else
        let capacity = length options + 1;
            checked_options = map checked_option (enumerate 0 options);
            none_option =
              \<lparr>index = capacity - 1, option_type = NoneOption, choice_title = NONE_OPTION_DESCRIPTION,
               choice_description = NONE_OPTION_DESCRIPTION, choice_msgs = [], vote_count = 0\<rparr>
        in Ok (checked_options @ [none_option]))"

record multiple_choice_auto_vote =
  mc_auto_vote :: multiple_choice_vote
  mc_auto_rationale :: "string option"

record 'm multiple_choice_propose_msg =
  mpm_title :: string
  mpm_description :: string
  mpm_choices :: "'m multiple_choice_option list"
  mpm_proposer :: "string option"
  mpm_vote :: "multiple_choice_auto_vote option"

section \<open>The tally keeps the contract\<close>

text \<open>The weight of an option, zero where the vector has none.\<close>

definition mc_weight :: "multiple_choice_vote \<Rightarrow> multiple_choice_votes \<Rightarrow> nat" where
  "mc_weight v t = (if option_id v < length (vote_weights t) then vote_weights t ! option_id v else 0)"

lemma mc_get_Ok:
  "mc_get v t = Ok n \<longleftrightarrow> option_id v < length (vote_weights t) \<and> n = vote_weights t ! option_id v"
  by (auto simp: mc_get_def get_id_def)

lemma option_id_eq_iff: "option_id v = option_id w \<longleftrightarrow> v = w"
  by (cases v; cases w) simp

interpretation multiple_tally: vote_tally mc_add_vote mc_remove_vote mc_weight
  by unfold_locales
    (auto simp: mc_add_vote_def mc_remove_vote_def mc_weight_def mc_get_Ok result_ok nth_list_update
      option_id_eq_iff)

lemma mc_zero_weight [simp]: "mc_weight v (mc_zero n) = 0"
  by (simp add: mc_weight_def mc_zero_def)

lemma mc_vote_length:
  "mc_add_vote v n t = Ok t' \<Longrightarrow> length (vote_weights t') = length (vote_weights t)"
  "mc_remove_vote v n t = Ok t' \<Longrightarrow> length (vote_weights t') = length (vote_weights t)"
  by (auto simp: mc_add_vote_def mc_remove_vote_def result_ok)

lemma sum_list_fold_add128:
  "a + sum_list ws < 2 ^ 128 \<Longrightarrow> try_fold add128 a ws = Ok (a + sum_list ws)"
proof (induction ws arbitrary: a)
  case Nil
  then show ?case by simp
next
  case (Cons w ws)
  then have "a + w < 2 ^ 128" "(a + w) + sum_list ws < 2 ^ 128" by simp_all
  then show ?case using Cons.IH [of "a + w"] by (simp add: add128_def add.assoc)
qed

lemma mc_total_eq: "sum_list (vote_weights t) < 2 ^ 128 \<Longrightarrow> mc_total t = Ok (sum_list (vote_weights t))"
  using sum_list_fold_add128 [of 0] by (simp add: mc_total_def)

section \<open>Checked options\<close>

text \<open>
  Checked options number their entries, and exactly the last one, which carries no messages,
  is "None of the above".
\<close>

definition choices_ok :: "'m checked_multiple_choice_option list \<Rightarrow> bool" where
  "choices_ok cs \<longleftrightarrow> 3 \<le> length cs \<and>
     (\<forall>i < length cs. index (cs ! i) = i \<and> (option_type (cs ! i) = NoneOption \<longleftrightarrow> i = length cs - 1)) \<and>
     choice_msgs (last cs) = []"

lemma into_checked_ok:
  assumes "into_checked os = Ok cs"
  shows "choices_ok cs" "length cs = length os + 1" "length cs \<le> MAX_NUM_CHOICES + 1"
    "\<forall>i < length os. choice_msgs (cs ! i) = opt_msgs (os ! i)"
  using assms
  by (auto simp: into_checked_def Let_def choices_ok_def nth_append nth_enumerate_eq checked_option_def
      less_Suc_eq split: if_splits)

end
