(* ===== verification/Multiple_Proposal.thy ===== *)
theory Multiple_Proposal
  imports Multiple_Choice
begin

text \<open>
  A multiple-choice proposal and its status (\<open>dao-proposal-multiple/src/proposal.rs\<close>): the
  option that leads, whether the remaining votes can overtake it, and the status that follows.
\<close>

section \<open>The proposal\<close>

record 'm multiple_choice_proposal =
  title :: string
  description :: string
  proposer :: addr
  start_height :: u64
  min_voting_period :: "expiration option"
  expiration :: expiration
  choices :: "'m checked_multiple_choice_option list"
  status :: status
  voting_strategy :: voting_strategy
  total_power :: nat
  votes :: multiple_choice_votes
  individual_votes :: multiple_choice_votes
  allow_revoting :: bool
  veto :: "veto_config option"
  delegation_module :: "addr option"

datatype 'm vote_result = SingleWinner "'m checked_multiple_choice_option" | Tie

definition max_weight :: "nat list \<Rightarrow> nat option" where
  "max_weight ws = (case ws of [] \<Rightarrow> None | w # us \<Rightarrow> Some (fold max us w))"

definition calculate_vote_result ::
  "'x cw_env_scheme \<Rightarrow> 'm multiple_choice_proposal \<Rightarrow> block_info \<Rightarrow> ('m vote_result, std_error) result" where
  "calculate_vote_result cw self blk =
     (let vs = (if is_expired cw (expiration self) blk then votes self else individual_votes self) in
      case max_weight (vote_weights vs) of
        Some mx \<Rightarrow>
          (let top_choices = filter (\<lambda>x. snd x = mx) (enumerate 0 (vote_weights vs)) in
           if length top_choices > 1 then Ok Tie
           else case top_choices of
             winning_choice # _ \<Rightarrow>
               if fst winning_choice < length (choices self)
               then Ok (SingleWinner (choices self ! fst winning_choice)) else Panic
           | [] \<Rightarrow> Err (GenericErr ''no votes found''))
      | None \<Rightarrow> Err NotFound)"

definition is_choice_unbeatable ::
  "'m multiple_choice_proposal \<Rightarrow> multiple_choice_votes \<Rightarrow> 'm checked_multiple_choice_option
     \<Rightarrow> (bool, std_error) result" where
  "is_choice_unbeatable self vs winning_choice =
     and_then (get_id (index winning_choice) vs) (\<lambda>winning_choice_power.
     case max_weight (filter (\<lambda>x. x < winning_choice_power) (vote_weights vs)) of
       Some second_choice_power \<Rightarrow>
         and_then (mc_total vs) (\<lambda>tot.
         and_then (sub128 (total_power self) tot) (\<lambda>remaining_vote_power.
         and_then (add128 second_choice_power remaining_vote_power) (\<lambda>reachable.
         case option_type winning_choice of
           Standard \<Rightarrow> Ok (winning_choice_power > reachable)
         | NoneOption \<Rightarrow> Ok (winning_choice_power \<ge> reachable))))
     | None \<Rightarrow> Err NotFound)"

definition is_passed ::
  "'x cw_env_scheme \<Rightarrow> 'm multiple_choice_proposal \<Rightarrow> block_info \<Rightarrow> (bool, std_error) result" where
  "is_passed cw self blk =
     (let expired = is_expired cw (expiration self) blk in
      if allow_revoting self \<and> \<not> expired then Ok False
      else if (case min_voting_period self of Some mn \<Rightarrow> \<not> is_expired cw mn blk | None \<Rightarrow> False)
      then Ok False
      else let vs = (if expired then votes self else individual_votes self) in
        and_then (mc_total vs) (\<lambda>tot.
        and_then (does_vote_count_pass tot (total_power self) (get_quorum (voting_strategy self))) (\<lambda>met.
        if met then
          and_then (calculate_vote_result cw self blk) (\<lambda>vote_result.
          case vote_result of
            Tie \<Rightarrow> Ok False
          | SingleWinner winning_choice \<Rightarrow>
              if option_type winning_choice \<noteq> NoneOption then
                (if expired then Ok True else is_choice_unbeatable self vs winning_choice)
              else Ok False)
        else Ok False)))"

definition is_rejected ::
  "'x cw_env_scheme \<Rightarrow> 'm multiple_choice_proposal \<Rightarrow> block_info \<Rightarrow> (bool, std_error) result" where
  "is_rejected cw self blk =
     (let expired = is_expired cw (expiration self) blk in
      if allow_revoting self \<and> \<not> expired then Ok False
      else let vs = (if expired then votes self else individual_votes self) in
        and_then (calculate_vote_result cw self blk) (\<lambda>vote_result.
        case vote_result of
          Tie \<Rightarrow>
            if expired then Ok True
            else and_then (mc_total vs) (\<lambda>tot. Ok (total_power self = tot))
        | SingleWinner winning_choice \<Rightarrow>
            and_then (mc_total vs) (\<lambda>tot.
            and_then (does_vote_count_pass tot (total_power self) (get_quorum (voting_strategy self))) (\<lambda>met.
            case (met, expired) of
              (True, True) \<Rightarrow> Ok (option_type winning_choice = NoneOption)
            | (_, False) \<Rightarrow>
                if option_type winning_choice = NoneOption
                then is_choice_unbeatable self vs winning_choice else Ok False
            | (False, True) \<Rightarrow> Ok True))))"

definition current_status ::
  "'x cw_env_scheme \<Rightarrow> 'm multiple_choice_proposal \<Rightarrow> block_info \<Rightarrow> (status, std_error) result" where
  "current_status cw self blk =
     (case status self of
        Open \<Rightarrow>
          and_then (is_passed cw self blk) (\<lambda>passed.
            if passed then
              (case veto self of
                 Some veto_config \<Rightarrow>
                   and_then (expiration_add cw (expiration self) (timelock_duration veto_config)) (\<lambda>e.
                     if is_expired cw e blk then Ok Passed else Ok (VetoTimelock e))
               | None \<Rightarrow> Ok Passed)
            else if is_expired cw (expiration self) blk then Ok Rejected
            else
              and_then (is_rejected cw self blk) (\<lambda>rejected.
                if rejected then Ok Rejected else Ok (status self)))
      | VetoTimelock e \<Rightarrow> if is_expired cw e blk then Ok Passed else Ok (status self)
      | _ \<Rightarrow> Ok (status self))"

definition update_status ::
  "'x cw_env_scheme \<Rightarrow> 'm multiple_choice_proposal \<Rightarrow> block_info
     \<Rightarrow> ('m multiple_choice_proposal, std_error) result" where
  "update_status cw self blk =
     and_then (current_status cw self blk) (\<lambda>new_status. Ok (self\<lparr>status := new_status\<rparr>))"

record 'm proposal_response =
  pr_id :: u64
  pr_proposal :: "'m multiple_choice_proposal"

definition into_response ::
  "'x cw_env_scheme \<Rightarrow> 'm multiple_choice_proposal \<Rightarrow> block_info \<Rightarrow> u64
     \<Rightarrow> ('m proposal_response, std_error) result" where
  "into_response cw self blk i =
     and_then (update_status cw self blk) (\<lambda>p. Ok \<lparr>pr_id = i, pr_proposal = p\<rparr>)"

section \<open>Leading and winning\<close>

text \<open>
  \<open>leads ws w\<close>: option \<open>w\<close> has strictly more votes than every other. \<open>holds\<close>: even if
  all of the power \<open>r\<close> still to vote went to one other option, that option would stay behind
  \<open>w\<close>, or at most tie where \<open>tie\<close> says that a tie is enough.
\<close>

definition leads :: "nat list \<Rightarrow> nat \<Rightarrow> bool" where
  "leads ws w \<longleftrightarrow> w < length ws \<and> (\<forall>j < length ws. j \<noteq> w \<longrightarrow> ws ! j < ws ! w)"

definition holds :: "bool \<Rightarrow> nat list \<Rightarrow> nat \<Rightarrow> nat \<Rightarrow> bool" where
  "holds tie ws r w \<longleftrightarrow>
     (\<forall>j < length ws. j \<noteq> w \<longrightarrow> (if tie then ws ! j + r \<le> ws ! w else ws ! j + r < ws ! w))"

lemma leads_unique: "leads ws w \<Longrightarrow> leads ws v \<Longrightarrow> w = v"
  unfolding leads_def by (metis less_asym)

lemma max_weight_Max: "ws \<noteq> [] \<Longrightarrow> max_weight ws = Some (Max (set ws))"
  by (cases ws) (simp_all add: max_weight_def Max.set_eq_fold del: list.set)

lemma max_weight_Nil [simp]: "max_weight [] = None"
  by (simp add: max_weight_def)

lemma filter_upt_eq: "w < n \<Longrightarrow> filter (\<lambda>i. i = w) [0..<n] = [w]"
  by (induction n) (auto simp: less_Suc_eq filter_empty_conv)

lemma filter_enumerate_singleton:
  assumes "w < length ws" "\<And>j. j < length ws \<Longrightarrow> P (ws ! j) \<longleftrightarrow> j = w"
  shows "filter (\<lambda>x. P (snd x)) (enumerate 0 ws) = [(w, ws ! w)]"
proof -
  have e: "enumerate 0 ws = map (\<lambda>i. (i, ws ! i)) [0..<length ws]"
    by (rule nth_equalityI) (simp_all add: nth_enumerate_eq)
  have "filter (\<lambda>i. P (ws ! i)) [0..<length ws] = filter (\<lambda>i. i = w) [0..<length ws]"
    using assms(2) by (intro filter_cong) auto
  also have "\<dots> = [w]" using assms(1) by (rule filter_upt_eq)
  finally show ?thesis by (simp add: e filter_map comp_def)
qed

lemma max_weight_leads:
  assumes "leads ws w"
  shows "max_weight ws = Some (ws ! w)"
proof -
  have "ws \<noteq> []" using assms by (auto simp: leads_def)
  moreover have "ws ! j \<le> ws ! w" if "j < length ws" for j
    using assms that by (cases "j = w") (auto simp: leads_def less_imp_le)
  then have "Max (set ws) = ws ! w"
    using assms by (intro Max_eqI) (auto simp: leads_def in_set_conv_nth)
  ultimately show ?thesis by (simp add: max_weight_Max)
qed

definition considered :: "'x cw_env_scheme \<Rightarrow> 'm multiple_choice_proposal \<Rightarrow> block_info \<Rightarrow> nat list" where
  "considered cw p blk =
     vote_weights (if is_expired cw (expiration p) blk then votes p else individual_votes p)"

lemma calculate_winner:
  assumes "leads (considered cw p blk) w" "length (considered cw p blk) = length (choices p)"
  shows "calculate_vote_result cw p blk = Ok (SingleWinner (choices p ! w))"
proof -
  let ?ws = "considered cw p blk"
  have w: "w < length ?ws" using assms(1) by (simp add: leads_def)
  have "?ws ! j = ?ws ! w \<longleftrightarrow> j = w" if "j < length ?ws" for j
    using that assms(1) by (auto simp: leads_def)
  with w have "filter (\<lambda>x. snd x = ?ws ! w) (enumerate 0 ?ws) = [(w, ?ws ! w)]"
    by (rule filter_enumerate_singleton)
  with max_weight_leads [OF assms(1)] w assms(2) show ?thesis
    by (simp add: calculate_vote_result_def Let_def considered_def)
qed

lemma calculate_tie:
  assumes "\<nexists>w. leads (considered cw p blk) w" "considered cw p blk \<noteq> []"
  shows "calculate_vote_result cw p blk = Ok Tie"
proof -
  let ?ws = "considered cw p blk" and ?mx = "Max (set (considered cw p blk))"
  have "?mx \<in> set ?ws" using assms(2) by simp
  then obtain i where i: "i < length ?ws" "?ws ! i = ?mx" by (auto simp: in_set_conv_nth)
  with assms(1) obtain j where j: "j < length ?ws" "j \<noteq> i" "\<not> ?ws ! j < ?mx"
    unfolding leads_def by metis
  moreover have "?ws ! j \<le> ?mx" using j(1) by simp
  ultimately have "?ws ! j = ?mx" by simp
  let ?top = "filter (\<lambda>x. snd x = ?mx) (enumerate 0 ?ws)"
  have "{(i, ?mx), (j, ?mx)} \<subseteq> set ?top"
    using i j \<open>?ws ! j = ?mx\<close> by (auto simp: in_set_enumerate_eq)
  then have "card {(i, ?mx), (j, ?mx)} \<le> card (set ?top)" by (intro card_mono) auto
  then have "1 < length ?top" using j(2) card_length [of ?top] by simp
  with assms(2) show ?thesis
    by (simp add: calculate_vote_result_def Let_def considered_def max_weight_Max)
qed

lemma calculate_result_cases:
  assumes "length (considered cw p blk) = length (choices p)" "choices p \<noteq> []"
  obtains (winner) w where "leads (considered cw p blk) w"
    "calculate_vote_result cw p blk = Ok (SingleWinner (choices p ! w))"
  | (tie) "\<nexists>w. leads (considered cw p blk) w" "calculate_vote_result cw p blk = Ok Tie"
proof (cases "\<exists>w. leads (considered cw p blk) w")
  case True
  then obtain w where w: "leads (considered cw p blk) w" ..
  from w calculate_winner [OF w assms(1)] show thesis by (rule winner)
next
  case False
  from assms have "considered cw p blk \<noteq> []" by auto
  with False calculate_tie show thesis by (intro tie) auto
qed

lemma Max_add_bounds:
  fixes S :: "nat set"
  assumes "finite S" "S \<noteq> {}"
  shows "Max S + r < n \<longleftrightarrow> (\<forall>x\<in>S. x + r < n)" "Max S + r \<le> n \<longleftrightarrow> (\<forall>x\<in>S. x + r \<le> n)"
proof -
  have "x \<le> Max S" if "x \<in> S" for x using assms(1) that by simp
  moreover have "Max S \<in> S" using assms by simp
  ultimately show "Max S + r < n \<longleftrightarrow> (\<forall>x\<in>S. x + r < n)" "Max S + r \<le> n \<longleftrightarrow> (\<forall>x\<in>S. x + r \<le> n)"
    by (meson add_le_mono1 le_less_trans order_trans)+
qed

text \<open>The check against the second highest weight decides whether the leader holds.\<close>

lemma unbeatable_eq:
  assumes "leads ws w" "vs = MultipleChoiceVotes ws" "2 \<le> length ws" "index c = w"
    "sum_list ws \<le> total_power p" "u128 (total_power p)"
  shows "is_choice_unbeatable p vs c =
    Ok (holds (option_type c = NoneOption) ws (total_power p - sum_list ws) w)"
proof -
  let ?S = "filter (\<lambda>x. x < ws ! w) ws" and ?r = "total_power p - sum_list ws"
  have S: "set ?S = {ws ! j |j. j < length ws \<and> j \<noteq> w}"
    using assms(1) by (auto simp: leads_def in_set_conv_nth)
  obtain j where "j < length ws" "j \<noteq> w"
    using assms(1,3) by (metis One_nat_def Suc_1 Suc_le_eq leads_def less_Suc0 less_trans_Suc not_less_eq zero_less_Suc)
  then have ne: "?S \<noteq> []" using S by (metis (mono_tags, lifting) empty_iff empty_set mem_Collect_eq)
  have "set ?S \<noteq> {}" using ne by (simp only: set_empty) simp
  then have "Max (set ?S) \<in> set ?S" by (intro Max_in finite_set)
  then have "Max (set ?S) \<le> sum_list ws" using member_le_sum_list [of "Max (set ?S)" ws] by simp
  then have fits: "Max (set ?S) + ?r < 2 ^ 128" using assms(5,6) by (simp add: u128_def)
  note bounds = Max_add_bounds [OF finite_set \<open>set ?S \<noteq> {}\<close>, of ?r]
  have h: "(\<forall>x\<in>set ?S. Q x) \<longleftrightarrow> (\<forall>j < length ws. j \<noteq> w \<longrightarrow> Q (ws ! j))" for Q
    unfolding S by blast
  have t: "mc_total vs = (Ok (sum_list ws) :: (nat, std_error) result)"
    using assms(2,5,6) mc_total_eq [of vs] by (simp add: u128_def)
  have g: "get_id (index c) vs = (Ok (ws ! w) :: (nat, std_error) result)"
    using assms(1,2,4) by (simp add: get_id_def leads_def)
  have "is_choice_unbeatable p vs c =
      (case option_type c of Standard \<Rightarrow> Ok (Max (set ?S) + ?r < ws ! w)
       | NoneOption \<Rightarrow> Ok (Max (set ?S) + ?r \<le> ws ! w))"
    using max_weight_Max [OF ne] assms(2,5) fits
    unfolding is_choice_unbeatable_def g t
    by (cases "option_type c") (simp_all add: sub128_def add128_def del: set_filter)
  then show ?thesis
    unfolding bounds h by (cases "option_type c") (simp_all add: holds_def)
qed

section \<open>What the checks compute\<close>

text \<open>
  A well-formed proposal: valid options and quorum, one weight per option, and no more votes
  than the total power, which fits \<open>Uint128\<close>.
\<close>

definition wf_proposal :: "'m multiple_choice_proposal \<Rightarrow> bool" where
  "wf_proposal p \<longleftrightarrow> u128 (total_power p) \<and> strategy_validate (voting_strategy p) = Ok () \<and>
     choices_ok (choices p) \<and>
     length (vote_weights (votes p)) = length (choices p) \<and>
     length (vote_weights (individual_votes p)) = length (choices p) \<and>
     sum_list (vote_weights (votes p)) \<le> total_power p \<and>
     sum_list (vote_weights (individual_votes p)) \<le> total_power p"

definition quorum_met :: "'m multiple_choice_proposal \<Rightarrow> nat list \<Rightarrow> bool" where
  "quorum_met p ws \<longleftrightarrow> passes (sum_list ws) (total_power p) (get_quorum (voting_strategy p))"

definition none_index :: "'m multiple_choice_proposal \<Rightarrow> nat" where
  "none_index p = length (choices p) - 1"

definition undecided_yet :: "'x cw_env_scheme \<Rightarrow> 'm multiple_choice_proposal \<Rightarrow> block_info \<Rightarrow> bool" where
  "undecided_yet cw p blk \<longleftrightarrow> allow_revoting p \<and> \<not> is_expired cw (expiration p) blk"

definition min_period_over :: "'x cw_env_scheme \<Rightarrow> 'm multiple_choice_proposal \<Rightarrow> block_info \<Rightarrow> bool" where
  "min_period_over cw p blk \<longleftrightarrow>
     (case min_voting_period p of None \<Rightarrow> True | Some mn \<Rightarrow> is_expired cw mn blk)"

definition remaining :: "'m multiple_choice_proposal \<Rightarrow> nat list \<Rightarrow> nat" where
  "remaining p ws = total_power p - sum_list ws"

lemma wf_considered:
  assumes "wf_proposal p"
  shows "length (considered cw p blk) = length (choices p) \<and>
    sum_list (considered cw p blk) \<le> total_power p \<and> u128 (total_power p) \<and> 3 \<le> length (choices p)"
  using assms by (auto simp: wf_proposal_def considered_def choices_ok_def)

lemma wf_choice:
  assumes "wf_proposal p" "w < length (choices p)"
  shows "index (choices p ! w) = w" "option_type (choices p ! w) = NoneOption \<longleftrightarrow> w = none_index p"
  using assms by (auto simp: wf_proposal_def choices_ok_def none_index_def)

lemma wf_quorum:
  assumes "wf_proposal p"
  shows "does_vote_count_pass n (total_power p) (get_quorum (voting_strategy p)) =
    Ok (passes n (total_power p) (get_quorum (voting_strategy p)))"
proof -
  have "valid_percentage (get_quorum (voting_strategy p))"
    using assms by (auto simp: wf_proposal_def strategy_validate_def get_quorum_def validate_quorum_def
        valid_percentage_def decimal_less_def decimal_one_def decimal_places_def
        split: voting_strategy.splits percentage_threshold.splits if_splits)
  then show ?thesis using assms by (intro does_vote_count_pass_eq) (auto simp: wf_proposal_def)
qed

lemma wf_total:
  assumes "wf_proposal p"
  shows "mc_total (if is_expired cw (expiration p) blk then votes p else individual_votes p) =
    (Ok (sum_list (considered cw p blk)) :: (nat, std_error) result)"
  using assms wf_considered [OF assms, of cw blk]
  by (simp add: considered_def u128_def mc_total_eq)

lemma wf_unbeatable:
  assumes "wf_proposal p" "leads (considered cw p blk) w"
  shows "is_choice_unbeatable p (if is_expired cw (expiration p) blk then votes p else individual_votes p)
      (choices p ! w) =
    Ok (holds (w = none_index p) (considered cw p blk) (remaining p (considered cw p blk)) w)"
proof -
  have c: "length (considered cw p blk) = length (choices p)" "sum_list (considered cw p blk) \<le> total_power p"
    "u128 (total_power p)" "3 \<le> length (choices p)"
    using wf_considered [OF assms(1)] by auto
  have w: "w < length (choices p)" using assms(2) c(1) by (simp add: leads_def)
  have "(if is_expired cw (expiration p) blk then votes p else individual_votes p) =
      MultipleChoiceVotes (considered cw p blk)" by (simp add: considered_def)
  from unbeatable_eq [OF assms(2) this _ wf_choice(1) [OF assms(1) w] c(2,3)] c(1,4)
  show ?thesis by (simp add: wf_choice(2) [OF assms(1) w] remaining_def)
qed

text \<open>
  The proposal is passed when the quorum is met and an option other than "None of the above"
  leads, after the expiration or beyond the reach of the power that has not voted.
\<close>

definition winner :: "'x cw_env_scheme \<Rightarrow> 'm multiple_choice_proposal \<Rightarrow> block_info \<Rightarrow> nat \<Rightarrow> bool" where
  "winner cw p blk w \<longleftrightarrow>
     leads (considered cw p blk) w \<and> w \<noteq> none_index p \<and> quorum_met p (considered cw p blk) \<and>
     (is_expired cw (expiration p) blk \<or>
      holds False (considered cw p blk) (remaining p (considered cw p blk)) w)"

lemma multi_is_passed_eq:
  assumes "wf_proposal p"
  shows "is_passed cw p blk =
    Ok (\<not> undecided_yet cw p blk \<and> min_period_over cw p blk \<and> (\<exists>w. winner cw p blk w))"
proof (cases "undecided_yet cw p blk \<or> \<not> min_period_over cw p blk")
  case True
  then show ?thesis
    by (auto simp: is_passed_def undecided_yet_def min_period_over_def Let_def split: option.splits)
next
  case False
  have c: "length (considered cw p blk) = length (choices p)" "sum_list (considered cw p blk) \<le> total_power p"
    "u128 (total_power p)" "3 \<le> length (choices p)"
    using wf_considered [OF assms] by auto
  have start: "is_passed cw p blk =
      (if quorum_met p (considered cw p blk) then
         and_then (calculate_vote_result cw p blk) (\<lambda>r. case r of Tie \<Rightarrow> Ok False
         | SingleWinner wc \<Rightarrow> if option_type wc \<noteq> NoneOption then
             (if is_expired cw (expiration p) blk then Ok True
              else is_choice_unbeatable p (if is_expired cw (expiration p) blk then votes p else individual_votes p) wc)
             else Ok False)
       else Ok False)"
    using False wf_total [OF assms, of cw blk]
    by (auto simp: is_passed_def undecided_yet_def min_period_over_def Let_def quorum_met_def
        wf_quorum [OF assms] split: option.splits)
  have "choices p \<noteq> []" using c(4) by auto
  with c(1) show ?thesis
  proof (cases rule: calculate_result_cases)
    case (winner w)
    then have w: "w < length (choices p)" using c(1) by (simp add: leads_def)
    have ex: "(\<exists>v. winner cw p blk v) \<longleftrightarrow> winner cw p blk w"
      using winner(1) leads_unique by (auto simp: winner_def)
    show ?thesis
      using False winner w wf_unbeatable [OF assms winner(1)]
      unfolding start ex by (auto simp: winner_def wf_choice(2) [OF assms w])
  next
    case tie
    then show ?thesis unfolding start by (auto simp: winner_def)
  qed
qed

text \<open>
  Before the expiration it is rejected when "None of the above" cannot be overtaken, or when all
  power has voted and the vote is tied.
\<close>

definition lost :: "'x cw_env_scheme \<Rightarrow> 'm multiple_choice_proposal \<Rightarrow> block_info \<Rightarrow> bool" where
  "lost cw p blk \<longleftrightarrow>
     leads (considered cw p blk) (none_index p) \<and>
       holds True (considered cw p blk) (remaining p (considered cw p blk)) (none_index p)
     \<or> (\<nexists>w. leads (considered cw p blk) w) \<and> total_power p = sum_list (considered cw p blk)"

lemma multi_is_rejected_eq:
  assumes "wf_proposal p" "\<not> is_expired cw (expiration p) blk"
  shows "is_rejected cw p blk = Ok (\<not> undecided_yet cw p blk \<and> lost cw p blk)"
proof (cases "undecided_yet cw p blk")
  case True
  then show ?thesis by (simp add: is_rejected_def undecided_yet_def Let_def)
next
  case False
  have c: "length (considered cw p blk) = length (choices p)" "sum_list (considered cw p blk) \<le> total_power p"
    "u128 (total_power p)" "3 \<le> length (choices p)"
    using wf_considered [OF assms(1)] by auto
  note t = wf_total [OF assms(1), of cw blk] and u = wf_unbeatable [OF assms(1), of cw blk]
  have "choices p \<noteq> []" using c(4) by auto
  with c(1) show ?thesis
  proof (cases rule: calculate_result_cases)
    case (winner w)
    then have w: "w < length (choices p)" using c(1) by (simp add: leads_def)
    have "lost cw p blk \<longleftrightarrow> w = none_index p \<and>
        holds True (considered cw p blk) (remaining p (considered cw p blk)) w"
      using winner(1) leads_unique by (auto simp: lost_def)
    with False assms(2) winner w t u [OF winner(1)] show ?thesis
      by (auto simp: is_rejected_def undecided_yet_def Let_def wf_choice(2) [OF assms(1) w]
          wf_quorum [OF assms(1)] split: bool.splits)
  next
    case tie
    with False assms(2) t show ?thesis
      by (auto simp: is_rejected_def undecided_yet_def Let_def lost_def)
  qed
qed

section \<open>Decisions are final\<close>

text \<open>Votes that are only added to: every weight grows, within the total power.\<close>

definition extends :: "nat list \<Rightarrow> nat list \<Rightarrow> bool" where
  "extends ws us \<longleftrightarrow> length us = length ws \<and> (\<forall>j < length ws. ws ! j \<le> us ! j)"

lemma extends_sum:
  assumes "extends ws us" "j < length ws"
  shows "us ! j + sum_list ws \<le> ws ! j + sum_list us"
proof -
  have len: "length us = length ws" using assms(1) by (simp add: extends_def)
  let ?J = "{0..<length ws} - {j}"
  have "sum_list ws = ws ! j + (\<Sum>i\<in>?J. ws ! i)" "sum_list us = us ! j + (\<Sum>i\<in>?J. us ! i)"
    using assms(2) len by (simp_all add: sum_list_sum_nth sum.remove)
  moreover have "(\<Sum>i\<in>?J. ws ! i) \<le> (\<Sum>i\<in>?J. us ! i)"
    using assms(1) by (intro sum_mono) (auto simp: extends_def)
  ultimately show ?thesis by simp
qed

lemma extends_remaining:
  assumes "extends ws us" "sum_list us \<le> total_power p" "j < length ws"
  shows "us ! j \<le> ws ! j + remaining p ws"
proof -
  have "us ! j + sum_list ws \<le> ws ! j + total_power p"
    using extends_sum [OF assms(1,3)] assms(2) by linarith
  then show ?thesis by (simp add: remaining_def)
qed

lemma extends_sum_le: "extends ws us \<Longrightarrow> sum_list ws \<le> sum_list us"
  by (auto simp: extends_def sum_list_sum_nth intro!: sum_mono)

lemma holds_extends:
  assumes "extends ws us" "sum_list us \<le> total_power p" "w < length ws" "holds tie ws (remaining p ws) w"
  shows "\<forall>j < length us. j \<noteq> w \<longrightarrow> (if tie then us ! j \<le> us ! w else us ! j < us ! w)"
proof (intro allI impI)
  fix j
  assume j: "j < length us" "j \<noteq> w"
  then have "j < length ws" using assms(1) by (simp add: extends_def)
  from extends_remaining [OF assms(1,2) this]
  have "us ! j \<le> ws ! j + remaining p ws" .
  moreover have "ws ! w \<le> us ! w" using assms(1,3) by (simp add: extends_def)
  moreover have "if tie then ws ! j + remaining p ws \<le> ws ! w else ws ! j + remaining p ws < ws ! w"
    using assms(4) \<open>j < length ws\<close> j(2) by (simp add: holds_def)
  ultimately show "if tie then us ! j \<le> us ! w else us ! j < us ! w" by (auto split: if_splits)
qed

lemma extends_same:
  assumes "extends ws us" "sum_list us \<le> sum_list ws"
  shows "us = ws"
proof (rule nth_equalityI)
  show len: "length us = length ws" using assms(1) by (simp add: extends_def)
  fix j assume "j < length us"
  with extends_sum [OF assms(1), of j] assms len show "us ! j = ws ! j"
    by (auto simp: extends_def intro: order_antisym)
qed

text \<open>
  A proposal \<open>q\<close> that continues \<open>p\<close>: the same terms, and votes that only grew from the
  individual votes of \<open>p\<close>.
\<close>

definition continues :: "'m multiple_choice_proposal \<Rightarrow> 'm multiple_choice_proposal \<Rightarrow> bool" where
  "continues p q \<longleftrightarrow> expiration q = expiration p \<and> min_voting_period q = min_voting_period p \<and>
     choices q = choices p \<and> voting_strategy q = voting_strategy p \<and> total_power q = total_power p \<and>
     extends (vote_weights (individual_votes p)) (vote_weights (votes q))"

lemma multi_early_pass_holds:
  assumes "wf_proposal p" "wf_proposal q" "continues p q" "expiry_monotone cw" "block_le b b'"
    "\<not> is_expired cw (expiration p) b" "is_expired cw (expiration p) b'" "is_passed cw p b = Ok True"
  shows "is_passed cw q b' = Ok True"
    and "winner cw p b w \<Longrightarrow> winner cw q b' w"
proof -
  let ?ws = "considered cw p b" and ?us = "considered cw q b'"
  have ext: "extends ?ws ?us" using assms(3,6,7) by (simp add: considered_def continues_def)
  have sum: "sum_list ?us \<le> total_power p"
    using wf_considered [OF assms(2), of cw b'] assms(3) by (simp add: continues_def)
  have won: "winner cw q b' v" if "winner cw p b v" for v
  proof -
    from that assms(6) have v: "leads ?ws v" "v \<noteq> none_index p" "quorum_met p ?ws"
      "holds False ?ws (remaining p ?ws) v" by (auto simp: winner_def)
    have vl: "v < length ?ws" using v(1) by (simp add: leads_def)
    then have "v < length ?us" using ext by (simp add: extends_def)
    moreover from holds_extends [OF ext sum vl v(4)]
    have "\<forall>j < length ?us. j \<noteq> v \<longrightarrow> ?us ! j < ?us ! v" by simp
    ultimately have "leads ?us v" by (simp add: leads_def)
    moreover have "quorum_met q ?us"
      using v(3) assms(3) extends_sum_le [OF ext] passes_mono [OF _ _ order_refl]
      by (auto simp: quorum_met_def continues_def passes_def)
    ultimately show ?thesis
      using v(2) assms(3,7) by (simp add: winner_def none_index_def continues_def)
  qed
  from assms(8) have "min_period_over cw p b" "\<exists>v. winner cw p b v"
    unfolding multi_is_passed_eq [OF assms(1)] by auto
  moreover have "min_period_over cw q b'" if "min_period_over cw p b"
    using that assms(3) expiry_monotoneD [OF assms(4,5)]
    by (auto simp: min_period_over_def continues_def split: option.splits)
  ultimately show "is_passed cw q b' = Ok True"
    using won assms(3,7) unfolding multi_is_passed_eq [OF assms(2)]
    by (auto simp: undecided_yet_def continues_def)
  show "winner cw p b w \<Longrightarrow> winner cw q b' w" by (rule won)
qed

lemma multi_early_rejection_holds:
  assumes "wf_proposal p" "wf_proposal q" "continues p q"
    "\<not> is_expired cw (expiration p) b" "is_expired cw (expiration p) b'" "is_rejected cw p b = Ok True"
  shows "is_passed cw q b' = Ok False"
proof -
  let ?ws = "considered cw p b" and ?us = "considered cw q b'"
  have ext: "extends ?ws ?us" using assms(3-5) by (simp add: considered_def continues_def)
  have sum: "sum_list ?us \<le> total_power p"
    using wf_considered [OF assms(2), of cw b'] assms(3) by (simp add: continues_def)
  have none: "none_index q = none_index p" using assms(3) by (simp add: none_index_def continues_def)
  from assms(6) have "lost cw p b" unfolding multi_is_rejected_eq [OF assms(1,4)] by simp
  then have "\<not> winner cw q b' v" for v
  proof (unfold lost_def, elim disjE conjE)
    assume l: "leads ?ws (none_index p)" "holds True ?ws (remaining p ?ws) (none_index p)"
    then have n: "none_index p < length ?ws" by (simp add: leads_def)
    from holds_extends [OF ext sum n l(2)]
    have "?us ! j \<le> ?us ! none_index p" if "j < length ?us" for j
      using that by (cases "j = none_index p") auto
    moreover have "none_index p < length ?us" using n ext by (simp add: extends_def)
    ultimately show ?thesis unfolding winner_def leads_def none by (metis not_less)
  next
    assume t: "\<nexists>w. leads ?ws w" "total_power p = sum_list ?ws"
    with sum extends_same [OF ext] show ?thesis by (auto simp: winner_def)
  qed
  then show ?thesis unfolding multi_is_passed_eq [OF assms(2)] by simp
qed

lemma multi_never_passed_and_rejected:
  assumes "wf_proposal p" "\<not> is_expired cw (expiration p) b"
  shows "\<not> (is_passed cw p b = Ok True \<and> is_rejected cw p b = Ok True)"
  unfolding multi_is_passed_eq [OF assms(1)] multi_is_rejected_eq [OF assms]
  using leads_unique by (auto simp: winner_def lost_def)

end
