(* ===== verification/Proposal_Multiple_Props.thy ===== *)
theory Proposal_Multiple_Props
  imports Proposal_Multiple_Effects
begin

text \<open>
  Invariants of \<open>dao-proposal-multiple\<close> and the lifecycle of its proposals, with the contracts
  of the shared theories interpreted on this module.
\<close>

interpretation multi_module:
  module_tally mc_add_vote mc_remove_vote mc_weight votes individual_votes
  by unfold_locales

section \<open>The invariant\<close>

definition valid_config :: "config \<Rightarrow> bool" where
  "valid_config c \<longleftrightarrow>
     strategy_validate (cfg_voting_strategy c) = Ok () \<and>
     valid_periods (cfg_min_voting_period c) (cfg_max_voting_period c) \<and>
     valid_timelock (cfg_veto c) (cfg_max_voting_period c)"

definition well_shaped :: "'m multiple_choice_proposal \<Rightarrow> bool" where
  "well_shaped p \<longleftrightarrow>
     strategy_validate (voting_strategy p) = Ok () \<and> choices_ok (choices p) \<and>
     length (vote_weights (votes p)) = length (choices p) \<and>
     length (vote_weights (individual_votes p)) = length (choices p)"

definition multi_tallied :: "'m multiple_state \<Rightarrow> bool" where
  "multi_tallied st \<longleftrightarrow>
     multi_module.tally_inv (PROPOSALS st) (BALLOTS st)"

definition multi_inv :: "'m multiple_state \<Rightarrow> bool" where
  "multi_inv st \<longleftrightarrow>
     numbered st \<and> multi_tallied st \<and>
     hooks_distinct (PROPOSAL_HOOKS st) \<and> hooks_distinct (VOTE_HOOKS st) \<and>
     (\<forall>c. CONFIG st = Some c \<longrightarrow> valid_config c) \<and>
     (\<forall>pid p. PROPOSALS st pid = Some p \<longrightarrow> well_shaped p)"

lemma multi_validate_veto_Ok: "validate_veto cw v mx = Ok u \<Longrightarrow> valid_timelock v mx"
  by (auto simp: validate_veto_def veto_validate_def valid_timelock_def result_ok
      split: option.splits duration.splits)

section \<open>Votes keep the tallies\<close>

lemma multi_vote_keeps_tallies:
  assumes "execute_vote deps st env who pid v why = Ok (st', r)" and "multi_tallied st"
  shows "multi_tallied st'"
  using assms(1)
proof (cases rule: multi_execute_vote_cases)
  case (1 config p vp ballot prop1 first bs vs vs' ivs s)
  let ?q = "prop1\<lparr>votes := vs', individual_votes := ivs, status := s\<rparr>"
  have inv: "multi_module.tally_inv (PROPOSALS st) (BALLOTS st)"
    using assms(2) by (simp add: multi_tallied_def)
  from 1(7) have "multi_module.tally_inv ((PROPOSALS st)(pid \<mapsto> ?q)) bs"
  proof (cases rule: multi_update_ballot_cases)
    case fresh
    with 1 show ?thesis
      by (intro multi_module.tally_inv_first_vote [OF inv 1(2) fresh(1), where b = ballot]) auto
  next
    case (changed old us ius)
    with 1 have "bs = (BALLOTS st)((pid, who) \<mapsto> ballot)" "vs = us" by auto
    with 1 changed multi_module.tally_inv_revote [OF inv 1(2) changed(1,5,6), of ballot ?q]
    show ?thesis by simp
  qed
  with 1(12) show ?thesis by (simp add: multi_tallied_def)
qed

lemma multi_vote_frame:
  assumes "execute_vote deps st env who pid v why = Ok (st', r)"
  obtains p q where "PROPOSALS st pid = Some p" and "PROPOSALS st' = (PROPOSALS st)(pid \<mapsto> q)"
    and "q = p\<lparr>votes := votes q, individual_votes := individual_votes q, status := status q\<rparr>"
    and "\<exists>us ius. current_status deps (p\<lparr>votes := us, individual_votes := ius\<rparr>) (block env) = Ok (status q)"
    and "same_settings st st'" and "PROPOSAL_COUNT st' = PROPOSAL_COUNT st"
    and "\<And>i a. (i, a) \<in> dom (BALLOTS st') \<Longrightarrow> i = pid \<or> (i, a) \<in> dom (BALLOTS st)"
    and "filter is_dispatch (messages r) = []"
proof -
  from assms show ?thesis
  proof (cases rule: multi_execute_vote_cases)
    case (1 config p vp ballot prop1 first bs vs vs' ivs s)
    obtain us ius where prop1: "prop1 = p\<lparr>votes := us, individual_votes := ius\<rparr>"
    proof -
      from 1(7) have "prop1 = p\<lparr>votes := votes prop1, individual_votes := individual_votes prop1\<rparr>"
        by (cases rule: multi_update_ballot_cases) simp_all
      then show ?thesis by (rule that)
    qed
    have new: "i = pid \<or> (i, a) \<in> dom (BALLOTS st)" if "(i, a) \<in> dom bs" for i a
    proof (cases first)
      case True
      with 1(8) that show ?thesis by (auto dest!: multiple_tally.override_frame)
    next
      case False
      with 1(8) that show ?thesis by auto
    qed
    show ?thesis
      by (rule that [of p "p\<lparr>votes := vs', individual_votes := ivs, status := s\<rparr>"])
         (use 1(2,11-13) prop1 new in \<open>auto simp: same_settings_def\<close>)
  qed
qed

text \<open>A vote changes weights in place.\<close>

lemma multi_override_length:
  assumes "handle_delegate_vote_override deps who dmo pm pid h ind mc_remove_vote bs t = Ok (bs', t')"
  shows "length (vote_weights t') = length (vote_weights t)"
proof (rule multiple_tally.override_invariant [OF assms, where P = "\<lambda>_ u. length (vote_weights u) = length (vote_weights t)"])
  fix dm c u d c' u'
  assume "length (vote_weights u) = length (vote_weights t)"
    and "override_delegate deps dm pm pid h ind mc_remove_vote (c, u) d = Ok (c', u')"
  then show "length (vote_weights u') = length (vote_weights t)"
    by (auto elim!: multiple_tally.override_delegate_cases dest: mc_vote_length)
qed simp

lemma multi_vote_shape:
  assumes "execute_vote deps st env who pid v why = Ok (st', r)"
    and "\<forall>i p. PROPOSALS st i = Some p \<longrightarrow> well_shaped p" and "PROPOSALS st' i = Some q"
  shows "well_shaped q"
  using assms(1)
proof (cases rule: multi_execute_vote_cases)
  case (1 config p vp ballot prop1 first bs vs vs' ivs s)
  from 1(7) assms(2) 1(2) have p1: "well_shaped prop1"
    by (cases rule: multi_update_ballot_cases) (auto simp: well_shaped_def dest: mc_vote_length)
  have "length (vote_weights vs) = length (vote_weights (votes prop1))"
    using 1(8) by (cases first) (auto dest: multi_override_length)
  with p1 1(9,10) have "well_shaped (prop1\<lparr>votes := vs', individual_votes := ivs, status := s\<rparr>)"
    by (auto simp: well_shaped_def dest: mc_vote_length)
  with 1(12) assms(2,3) show ?thesis by (auto split: if_splits)
qed

section \<open>Every message keeps the invariant\<close>

lemma multi_vote_keeps_inv:
  assumes "execute_vote deps st env who pid v why = Ok (st', r)" and "multi_inv st"
  shows "multi_inv st'"
  using assms(1)
proof (cases rule: multi_vote_frame)
  case (1 p q)
  have "numbered st'"
    by (rule numbered_update [of st pid]) (use assms(2) 1 in \<open>auto simp: multi_inv_def\<close>)
  moreover have "multi_tallied st'"
    using assms by (auto simp: multi_inv_def intro: multi_vote_keeps_tallies)
  moreover have "well_shaped p" if "PROPOSALS st' i = Some p" for i p
    using assms(2) that by (intro multi_vote_shape [OF assms(1)]) (auto simp: multi_inv_def)
  ultimately show ?thesis
    using assms(2) 1(5) by (auto simp: multi_inv_def same_settings_def)
qed

lemma multi_fresh_proposal_simps [simp]:
  "voting_strategy (fresh_proposal c m cs who dm env e mn tp s) = cfg_voting_strategy c"
  "choices (fresh_proposal c m cs who dm env e mn tp s) = cs"
  "votes (fresh_proposal c m cs who dm env e mn tp s) = mc_zero (length cs)"
  "individual_votes (fresh_proposal c m cs who dm env e mn tp s) = mc_zero (length cs)"
  "status (fresh_proposal c m cs who dm env e mn tp s) = s"
  "allow_revoting (fresh_proposal c m cs who dm env e mn tp s) = cfg_allow_revoting c"
  "delegation_module (fresh_proposal c m cs who dm env e mn tp s) = dm"
  "expiration (fresh_proposal c m cs who dm env e mn tp s) = e"
  "veto (fresh_proposal c m cs who dm env e mn tp s) = cfg_veto c"
  by (simp_all add: fresh_proposal_def)

lemma multi_new_proposal_keeps_inv:
  assumes "multi_inv st" and "advance_proposal_id st = Ok (i, st0)" and "CONFIG st = Some c"
    and "choices_ok cs"
  shows "multi_inv (st\<lparr>PROPOSAL_COUNT := Some i, PROPOSALS := (PROPOSALS st)(i \<mapsto>
      fresh_proposal c m cs who dm env e mn tp s)\<rparr>)"
proof -
  have i: "unat i = proposal_count st + 1" using assms(2) by (rule advance_proposal_id_Ok)
  have n: "numbered st" using assms(1) by (simp add: multi_inv_def)
  have "multi_module.tally_inv ((PROPOSALS st)(i \<mapsto> fresh_proposal c m cs who dm env e mn tp s)) (BALLOTS st)"
    using assms(1) numbered_next_free(2) [OF n i]
    by (intro multi_module.tally_inv_new) (auto simp: multi_inv_def multi_tallied_def)
  with numbered_add [OF n i] assms(1,3,4) show ?thesis
    by (auto simp: multi_inv_def multi_tallied_def valid_config_def well_shaped_def mc_zero_def)
qed

lemma multi_propose_keeps_inv:
  assumes "execute_propose deps st env who m = Ok (st', r)" and "multi_inv st"
  shows "multi_inv st'"
  using assms(1)
proof (cases rule: multi_execute_propose_cases)
  case (1 config policy author voting_module cs expir tp min_period s i size st1 ms)
  have st1: "multi_inv st1"
    unfolding 1(14) using assms(2) 1(11) 1(1) into_checked_ok(1) [OF 1(7)]
    by (rule multi_new_proposal_keeps_inv)
  show ?thesis
  proof (cases "mpm_vote m")
    case None
    with 1(15) st1 show ?thesis by simp
  next
    case (Some v)
    with 1(15) obtain r' where
      "execute_vote deps st1 env author i (mc_auto_vote v) (mc_auto_rationale v) = Ok (st', r')"
      by (auto simp: result_ok)
    then show ?thesis using st1 by (rule multi_vote_keeps_inv)
  qed
qed

lemma multi_rationale_keeps_inv:
  assumes "execute_update_rationale st info pid why = Ok (st', r)" and "multi_inv st"
  shows "multi_inv st'"
  using assms(1)
proof (cases rule: multi_execute_update_rationale_cases)
  case (1 b)
  have "multi_tallied st'"
    using assms(2) 1(1,2)
    by (auto simp: multi_inv_def multi_tallied_def intro!: multi_module.tally_inv_same_ballot)
  moreover have "numbered st'"
  proof (rule numbered_update [of st pid])
    show "pid \<in> dom (PROPOSALS st)"
      using assms(2) 1(1) unfolding multi_inv_def numbered_def by blast
  qed (use assms(2) 1(2) in \<open>auto simp: multi_inv_def\<close>)
  ultimately show ?thesis using assms(2) 1(2) by (auto simp: multi_inv_def)
qed

lemma well_shaped_status [simp]: "well_shaped (p\<lparr>status := s\<rparr>) \<longleftrightarrow> well_shaped p"
  by (simp add: well_shaped_def)

lemma multi_status_keeps_inv:
  assumes "multi_inv st" and "PROPOSALS st pid = Some p"
  shows "multi_inv (st\<lparr>PROPOSALS := (PROPOSALS st)(pid \<mapsto> p\<lparr>status := s\<rparr>)\<rparr>)"
proof -
  have "numbered (st\<lparr>PROPOSALS := (PROPOSALS st)(pid \<mapsto> p\<lparr>status := s\<rparr>)\<rparr>)"
    by (rule numbered_update [of st pid]) (use assms in \<open>auto simp: multi_inv_def\<close>)
  with assms show ?thesis
    by (auto simp: multi_inv_def multi_tallied_def intro!: multi_module.tally_inv_same)
qed

lemma multi_admin_config_valid:
  assumes "execute deps st env info msg = Ok (st', r)" and "is_admin_msg msg"
    and "\<forall>c. CONFIG st = Some c \<longrightarrow> valid_config c" and "CONFIG st' = Some c"
  shows "valid_config c"
proof (cases msg)
  case (UpdateConfig thr mx mn mem rv dao cl vt)
  with assms(1,4) show ?thesis
    by (auto simp: execute_def execute_update_config_def result_ok valid_config_def
        validate_voting_period_Ok split: if_splits dest!: multi_validate_veto_Ok)
qed (use assms in \<open>auto simp: execute_def is_admin_msg_def multi_admin_handler_defs result_ok
      split: if_splits prod.splits\<close>)

lemma multi_admin_hooks_distinct:
  assumes "execute deps st env info msg = Ok (st', r)" and "is_admin_msg msg"
    and "hooks_distinct (PROPOSAL_HOOKS st)" and "hooks_distinct (VOTE_HOOKS st)"
  shows "hooks_distinct (PROPOSAL_HOOKS st') \<and> hooks_distinct (VOTE_HOOKS st')"
  using assms
  by (cases msg) (auto simp: execute_def is_admin_msg_def multi_admin_handler_defs result_ok
      intro: add_hook_distinct remove_hook_distinct split: if_splits prod.splits)

lemma multi_same_records_keeps_inv:
  assumes "multi_inv st" and "same_records st st'"
    and "hooks_distinct (PROPOSAL_HOOKS st')" and "hooks_distinct (VOTE_HOOKS st')"
    and "\<And>c. CONFIG st' = Some c \<Longrightarrow> valid_config c"
  shows "multi_inv st'"
proof -
  have "numbered st' \<longleftrightarrow> numbered st" using assms(2) by (rule same_records_numbered)
  with assms show ?thesis by (simp add: multi_inv_def multi_tallied_def same_records_def)
qed

lemma multi_execute_keeps_inv:
  assumes "execute deps st env info msg = Ok (st', r)" and "multi_inv st"
  shows "multi_inv st'"
  using assms(1)
proof (cases rule: multi_execute_cases)
  case (propose m)
  with assms(2) show ?thesis by (blast intro: multi_propose_keeps_inv)
next
  case (vote pid v why)
  with assms(2) show ?thesis by (blast intro: multi_vote_keeps_inv)
next
  case (rationale pid why)
  with assms(2) show ?thesis by (blast intro: multi_rationale_keeps_inv)
next
  case (conclude pid p s new)
  with assms(2) show ?thesis by (simp add: multi_status_keeps_inv)
next
  case admin
  with assms(2) multi_admin_hooks_distinct [OF assms(1) admin]
  show ?thesis
    by (intro multi_same_records_keeps_inv [OF assms(2) multi_execute_admin(2) [OF assms(1)]])
       (auto simp: multi_inv_def intro: multi_admin_config_valid [OF assms(1)])
qed

lemma multi_reply_keeps_inv:
  assumes "reply deps st msg = Ok (st', r)" and "multi_inv st"
  shows "multi_inv st'"
proof -
  have inv: "hooks_distinct (PROPOSAL_HOOKS st)" "hooks_distinct (VOTE_HOOKS st)"
    "\<And>c. CONFIG st = Some c \<Longrightarrow> valid_config c"
    using assms(2) by (auto simp: multi_inv_def)
  from assms(1) show ?thesis
  proof (cases rule: multi_reply_cases)
    case (failed pid p)
    with assms(2) show ?thesis by (simp add: multi_status_keeps_inv)
  qed (rule multi_same_records_keeps_inv [OF assms(2)],
      use inv in \<open>auto simp: same_records_def dest: remove_hook_by_index_distinct\<close>)+
qed

section \<open>The lifecycle of a proposal\<close>

definition evolves :: "'m multiple_choice_proposal \<Rightarrow> 'm multiple_choice_proposal \<Rightarrow> bool" where
  "evolves p q \<longleftrightarrow>
     q = p\<lparr>votes := votes q, individual_votes := individual_votes q, status := status q\<rparr> \<and>
     may_become (status p) (status q)"

lemma multi_evolves_refl [simp]: "evolves p p"
  by (simp add: evolves_def)

lemma multi_evolves_trans:
  assumes "evolves p q" and "evolves q r"
  shows "evolves p r"
proof -
  have "r = p\<lparr>votes := votes r, individual_votes := individual_votes r, status := status r\<rparr>"
    using assms by (cases p; cases q; cases r) (simp add: evolves_def)
  with assms show ?thesis by (auto simp: evolves_def intro: may_become_trans)
qed

lemma multi_current_status_becomes: "current_status cw p b = Ok s \<Longrightarrow> may_become (status p) s"
  by (auto simp: current_status_def may_become_def result_ok split: status.splits if_splits)

lemma multi_vote_evolves:
  assumes "execute_vote deps st env who pid v why = Ok (st', r)" and "PROPOSALS st i = Some p"
  shows "\<exists>q. PROPOSALS st' i = Some q \<and> evolves p q"
  using assms(1)
proof (cases rule: multi_vote_frame)
  case (1 p' q)
  from 1(4) have "may_become (status p') (status q)"
    by (auto dest: multi_current_status_becomes)
  with 1(1-3) assms(2) show ?thesis by (auto simp: evolves_def)
qed

lemma multi_propose_evolves:
  assumes "execute_propose deps st env who m = Ok (st', r)" and "numbered st" and "PROPOSALS st i = Some p"
  shows "\<exists>q. PROPOSALS st' i = Some q \<and> evolves p q"
  using assms(1)
proof (cases rule: multi_execute_propose_cases)
  case (1 config policy author voting_module cs expir tp min_period s j size st1 ms)
  have "PROPOSALS st j = None"
    using assms(2) advance_proposal_id_Ok(1) [OF 1(11)] by (rule numbered_next_free)
  with 1(14) assms(3) have p: "PROPOSALS st1 i = Some p" by auto
  show ?thesis
  proof (cases "mpm_vote m")
    case None
    with 1(15) p show ?thesis by auto
  next
    case (Some v)
    with 1(15) p show ?thesis by (auto simp: result_ok dest: multi_vote_evolves)
  qed
qed

lemma multi_status_evolves:
  "PROPOSALS st pid = Some p' \<Longrightarrow> may_become (status p') s \<Longrightarrow> PROPOSALS st i = Some p \<Longrightarrow>
     \<exists>q. ((PROPOSALS st)(pid \<mapsto> p'\<lparr>status := s\<rparr>)) i = Some q \<and> evolves p q"
  by (auto simp: evolves_def)

lemma multi_execute_evolves:
  assumes "execute deps st env info msg = Ok (st', r)" and "numbered st" and "PROPOSALS st i = Some p"
  shows "\<exists>q. PROPOSALS st' i = Some q \<and> evolves p q"
  using assms(1)
proof (cases rule: multi_execute_cases)
  case (propose m)
  with assms show ?thesis by (blast intro: multi_propose_evolves)
next
  case (vote pid v why)
  with assms show ?thesis by (blast intro: multi_vote_evolves)
next
  case (rationale pid why)
  from rationale(2) show ?thesis
    by (cases rule: multi_execute_update_rationale_cases) (use assms(3) in auto)
next
  case (conclude pid p' s new)
  then have "may_become (status p') new"
    by (auto dest!: multi_current_status_becomes concludes_becomes intro: may_become_trans)
  with conclude(1,4) assms(3) show ?thesis using multi_status_evolves [of st pid p' new i p] by simp
next
  case admin
  from multi_execute_admin(2) [OF assms(1) admin] assms(3) show ?thesis
    by (auto simp: same_records_def)
qed

section \<open>Runs of the module\<close>

text \<open>
  A step is a message or a reply. A reply that an execution failed arrives right after the
  execution, since the chain reverts what the failed message did: the proposal is then executed.
  \<open>dispatched\<close> is the proposal whose messages the step handed to the DAO.
\<close>

definition dispatched :: "'m execute_msg \<Rightarrow> 'm response \<Rightarrow> u64 list" where
  "dispatched msg r =
     (case msg of Execute pid \<Rightarrow> if filter is_dispatch (messages r) = [] then [] else [pid] | _ \<Rightarrow> [])"

definition reply_expected :: "'m multiple_state \<Rightarrow> reply \<Rightarrow> bool" where
  "reply_expected st msg \<longleftrightarrow>
     (case tagged_reply_id_new (rep_id msg) of
        Ok (FailedProposalExecution pid) \<Rightarrow> (\<exists>p. PROPOSALS st pid = Some p \<and> status p = Executed)
      | _ \<Rightarrow> True)"

inductive multi_step :: "'m multiple_state \<Rightarrow> u64 list \<Rightarrow> 'm multiple_state \<Rightarrow> bool" where
  step_execute: "execute deps st env info msg = Ok (st', r) \<Longrightarrow> multi_step st (dispatched msg r) st'"
| step_reply: "reply (deps :: 'm multiple_choice_proposal module_deps) st msg = Ok (st', r) \<Longrightarrow>
      reply_expected st msg \<Longrightarrow> multi_step st [] st'"

abbreviation multi_run :: "'m multiple_state \<Rightarrow> u64 list \<Rightarrow> 'm multiple_state \<Rightarrow> bool" where
  "multi_run \<equiv> module_run multi_step"

inductive_cases multi_stepE: "multi_step st l st'"

lemma multi_step_keeps_inv: "multi_step st l st' \<Longrightarrow> multi_inv st \<Longrightarrow> multi_inv st'"
  by (auto elim!: multi_stepE intro: multi_execute_keeps_inv multi_reply_keeps_inv)

lemma multi_reply_evolves:
  assumes "reply deps st msg = Ok (st', r)" and "reply_expected st msg" and "PROPOSALS st i = Some p"
  shows "\<exists>q. PROPOSALS st' i = Some q \<and> evolves p q"
  using assms(1)
proof (cases rule: multi_reply_cases)
  case (failed pid p')
  with assms(2) have "may_become (status p') ExecutionFailed"
    by (auto simp: reply_expected_def may_become_def)
  with failed assms(3) show ?thesis using multi_status_evolves [of st pid p' ExecutionFailed i p] by simp
qed (use assms(3) in auto)

lemma multi_step_evolves:
  "multi_step st l st' \<Longrightarrow> multi_inv st \<Longrightarrow> PROPOSALS st i = Some p \<Longrightarrow>
     \<exists>q. PROPOSALS st' i = Some q \<and> evolves p q"
  by (auto elim!: multi_stepE intro: multi_execute_evolves multi_reply_evolves simp: multi_inv_def)

section \<open>Dispatching\<close>

lemma multi_current_status_final:
  "status p \<in> {Executed, ExecutionFailed} \<Longrightarrow> current_status cw p b = Ok (status p)"
  by (auto simp: current_status_def)

lemma multi_step_dispatches:
  assumes "multi_step st l st'"
  shows "l = [] \<or> (\<exists>pid. l = [pid] \<and> \<not> was_executed status st pid \<and> was_executed status st' pid)"
  using assms
proof (cases rule: multi_step.cases)
  case (step_execute deps env info msg r)
  show ?thesis
  proof (cases "\<exists>pid. msg = Execute pid \<and> filter is_dispatch (messages r) \<noteq> []")
    case True
    then obtain pid where pid: "msg = Execute pid" "l = [pid]"
      using step_execute(1) by (auto simp: dispatched_def)
    with step_execute(2) have "execute_execute deps st env info pid = Ok (st', r)"
      by (simp add: execute_def)
    then show ?thesis
    proof (cases rule: multi_execute_execute_cases)
      case (1 p config member s choice)
      then have "s = Passed \<or> (\<exists>e. s = VetoTimelock e)" by (auto simp: may_execute_def)
      with 1(4) have "status p \<notin> {Executed, ExecutionFailed}"
        using multi_current_status_final [of p deps "block env"] by auto
      with 1(1,7) pid show ?thesis by (auto simp: was_executed_def)
    qed
  next
    case False
    then have "l = []" using step_execute(1) by (auto simp: dispatched_def split: execute_msg.splits)
    then show ?thesis by simp
  qed
qed auto

section \<open>Votes without revoting only grow\<close>

lemma multi_extends_refl [simp]: "extends ws ws"
  by (simp add: extends_def)

lemma multi_extends_trans: "extends a b \<Longrightarrow> extends b c \<Longrightarrow> extends a c"
  by (fastforce simp: extends_def)

lemma mc_add_vote_extends: "mc_add_vote v n t = Ok t' \<Longrightarrow> extends (vote_weights t) (vote_weights t')"
  by (auto simp: mc_add_vote_def extends_def mc_get_Ok nth_list_update result_ok)

lemma multi_vote_extends:
  assumes "execute_vote deps st env who pid v why = Ok (st', r)"
    and "PROPOSALS st i = Some p" and "PROPOSALS st' i = Some q" and "\<not> allow_revoting p"
  shows "extends (vote_weights (individual_votes p)) (vote_weights (individual_votes q))"
  using assms(1)
proof (cases rule: multi_execute_vote_cases)
  case (1 config p' vp ballot prop1 first bs vs vs' ivs s)
  show ?thesis
  proof (cases "i = pid")
    case True
    then have "p' = p" using 1(2) assms(2) by simp
    from 1(7) have "individual_votes prop1 = individual_votes p'"
      by (cases rule: multi_update_ballot_cases) (use assms(4) \<open>p' = p\<close> in auto)
    with 1(10,12) assms(3) True \<open>p' = p\<close> show ?thesis by (auto dest: mc_add_vote_extends)
  next
    case False
    with 1(12) assms(2,3) show ?thesis by simp
  qed
qed

text \<open>Steps that are not votes leave the tallies of stored proposals alone.\<close>

lemma multi_step_extends:
  assumes "multi_step st l st'" and "multi_inv st"
    and "PROPOSALS st i = Some p" and "PROPOSALS st' i = Some q" and "\<not> allow_revoting p"
  shows "extends (vote_weights (individual_votes p)) (vote_weights (individual_votes q))"
  using assms(1)
proof (cases rule: multi_step.cases)
  case (step_reply deps msg r)
  from step_reply(2) show ?thesis
    by (cases rule: multi_reply_cases) (use assms(3,4) in \<open>auto split: if_splits\<close>)
next
  case (step_execute deps env info msg r)
  from step_execute(2) show ?thesis
  proof (cases rule: multi_execute_cases)
    case (propose m)
    from propose(2) show ?thesis
    proof (cases rule: multi_execute_propose_cases)
      case (1 config policy author voting_module cs expir tp min_period s j size st1 ms)
      have "numbered st" using assms(2) by (simp add: multi_inv_def)
      then have "PROPOSALS st j = None"
        using advance_proposal_id_Ok(1) [OF 1(11)] by (rule numbered_next_free)
      with 1(14) assms(3) have p: "PROPOSALS st1 i = Some p" by auto
      with 1(15) assms(4,5) show ?thesis
        by (auto simp: result_ok split: option.splits dest: multi_vote_extends)
    qed
  next
    case (vote pid v why)
    with assms(3-5) show ?thesis by (auto intro: multi_vote_extends)
  next
    case (rationale pid why)
    from rationale(2) show ?thesis
      by (cases rule: multi_execute_update_rationale_cases) (use assms(3,4) in auto)
  next
    case (conclude pid p' s new)
    with assms(3,4) show ?thesis by (auto split: if_splits)
  next
    case admin
    from multi_execute_admin(2) [OF step_execute(2) admin] assms(3,4) show ?thesis
      by (simp add: same_records_def)
  qed
qed

section \<open>Runs keep the contract\<close>

interpretation multi_proposals: counted_lifecycle multi_step multi_inv status evolves
  allow_revoting "\<lambda>p q. extends (vote_weights (individual_votes p)) (vote_weights (individual_votes q))"
proof unfold_locales
  fix p q :: "'a multiple_choice_proposal"
  assume "evolves p q"
  then show "may_become (status p) (status q)" and "allow_revoting q = allow_revoting p"
    by (cases p; cases q; simp add: evolves_def)+
qed (auto intro: multi_step_keeps_inv multi_evolves_trans multi_step_evolves multi_extends_trans multi_step_extends dest: multi_step_dispatches)

lemmas multi_run_keeps_inv = multi_proposals.run_inv
lemmas multi_run_evolves = multi_proposals.run_evolves
lemmas multi_run_dispatches_once = multi_proposals.run_dispatches_once
lemmas multi_run_extends = multi_proposals.run_grows

section \<open>Instantiation\<close>

lemma multi_instantiate_inv:
  assumes "instantiate deps empty_state info msg = Ok (st, r)"
  shows "multi_inv st" and "CONFIG st \<noteq> None" and "CREATION_POLICY st \<noteq> None"
    and "filter is_dispatch (messages r) = []"
proof -
  from assms obtain mn mx dm policy ms where
    v: "strategy_validate (im_voting_strategy msg) = Ok ()" "valid_periods mn mx"
    "valid_timelock (im_veto msg) mx"
    "into_initial_policy_and_messages (im_pre_propose_info msg) (sender info) = (policy, ms)"
    and st: "st = empty_state\<lparr>CONTRACT_INFO := Some (CONTRACT_NAME, CONTRACT_VERSION),
          PROPOSAL_COUNT := Some 0,
          CONFIG := Some
            \<lparr>cfg_voting_strategy = im_voting_strategy msg, cfg_max_voting_period = mx, cfg_min_voting_period = mn,
             cfg_only_members_execute = im_only_members_execute msg,
             cfg_allow_revoting = im_allow_revoting msg, cfg_dao = sender info,
             cfg_close_proposal_on_execution_failure = im_close_proposal_on_execution_failure msg,
             cfg_veto = im_veto msg\<rparr>,
          CREATION_POLICY := Some policy, DELEGATION_MODULE := dm\<rparr>" and r: "messages r = ms"
    by (auto simp: instantiate_def result_ok validate_voting_period_Ok split: prod.splits
        dest!: multi_validate_veto_Ok)
  have "multi_tallied st"
    by (simp add: st empty_state_def multi_tallied_def multi_module.tally_inv_def)
  moreover have "numbered st"
    by (auto simp: st empty_state_def numbered_def proposal_count_def)
  ultimately show "multi_inv st"
    using v st by (auto simp: multi_inv_def empty_state_def hooks_distinct_def valid_config_def)
  show "CONFIG st \<noteq> None" and "CREATION_POLICY st \<noteq> None" by (simp_all add: st)
  show "filter is_dispatch (messages r) = []" using v(4) r by (simp add: initial_policy_no_dispatch)
qed

end
