(* ===== verification/Proposal_Multiple_Claims.thy ===== *)
theory Proposal_Multiple_Claims
  imports Proposal_Multiple_Props Samples
begin

text \<open>
  The correctness statements about \<open>dao-proposal-multiple\<close>, over every state the contract can
  reach from its instantiation, and a concrete run of the module on which they apply.
\<close>

section \<open>A concrete run\<close>

definition multi_deps :: "string multiple_choice_proposal module_deps" where
  "multi_deps = dao_querier.extend sample_querier \<lparr>proposal_size = (\<lambda>_. Ok 0)\<rparr>"

definition multi_instantiate :: instantiate_msg where
  "multi_instantiate =
     \<lparr>im_voting_strategy = SingleChoice Majority, im_max_voting_period = Height 100,
      im_min_voting_period = Some (Height 30), im_only_members_execute = True, im_allow_revoting = False,
      im_pre_propose_info = AnyoneMayPropose, im_close_proposal_on_execution_failure = True,
      im_veto = None, im_delegation_module = None\<rparr>"

definition multi_config :: config where
  "multi_config =
     \<lparr>cfg_voting_strategy = SingleChoice Majority, cfg_max_voting_period = Height 100,
      cfg_min_voting_period = Some (Height 30), cfg_only_members_execute = True, cfg_allow_revoting = False,
      cfg_dao = ''dao'', cfg_close_proposal_on_execution_failure = True, cfg_veto = None\<rparr>"

definition multi_start :: "string multiple_state" where
  "multi_start = empty_state\<lparr>CONTRACT_INFO := Some (CONTRACT_NAME, CONTRACT_VERSION),
     CONFIG := Some multi_config, PROPOSAL_COUNT := Some 0, CREATION_POLICY := Some Anyone\<rparr>"

definition multi_option :: "string \<Rightarrow> string multiple_choice_option" where
  "multi_option t = \<lparr>opt_title = t, opt_description = [], opt_msgs = [t]\<rparr>"

definition multi_choice :: "nat \<Rightarrow> string \<Rightarrow> string checked_multiple_choice_option" where
  "multi_choice i t =
     \<lparr>index = i, option_type = Standard, choice_title = t, choice_description = [],
      choice_msgs = [t], vote_count = 0\<rparr>"

definition multi_none :: "string checked_multiple_choice_option" where
  "multi_none =
     \<lparr>index = Suc (Suc 0), option_type = NoneOption, choice_title = NONE_OPTION_DESCRIPTION,
      choice_description = NONE_OPTION_DESCRIPTION, choice_msgs = [], vote_count = 0\<rparr>"

definition multi_proposal :: "string multiple_choice_proposal" where
  "multi_proposal =
     \<lparr>title = ''lunch'', description = [], proposer = ''cyd'', start_height = 10,
      min_voting_period = Some (AtHeight 40), expiration = AtHeight 110,
      choices = [multi_choice 0 ''soup'', multi_choice 1 ''rice'', multi_none], status = Open,
      voting_strategy = SingleChoice Majority, total_power = 100, votes = MultipleChoiceVotes [0, 0, 0],
      individual_votes = MultipleChoiceVotes [0, 0, 0], allow_revoting = False, veto = None,
      delegation_module = None\<rparr>"

definition multi_tallied_proposal :: "string multiple_choice_proposal" where
  "multi_tallied_proposal = multi_proposal\<lparr>votes := MultipleChoiceVotes [0, 60, 0],
     individual_votes := MultipleChoiceVotes [0, 60, 0]\<rparr>"

definition multi_propose :: "string execute_msg" where
  "multi_propose = Propose \<lparr>mpm_title = ''lunch'', mpm_description = [],
     mpm_choices = [multi_option ''soup'', multi_option ''rice''], mpm_proposer = None, mpm_vote = None\<rparr>"

definition multi_proposed :: "string multiple_state" where
  "multi_proposed = multi_start\<lparr>PROPOSAL_COUNT := Some 1, PROPOSALS := [1 \<mapsto> multi_proposal]\<rparr>"

definition multi_voted :: "string multiple_state" where
  "multi_voted = multi_proposed\<lparr>PROPOSALS := [1 \<mapsto> multi_tallied_proposal],
     BALLOTS := [(1, ''ann'') \<mapsto>
       \<lparr>power = 60, individual_power = 60, ballot_vote = MultipleChoiceVote 1, rationale = None\<rparr>]\<rparr>"

definition multi_executed :: "string multiple_state" where
  "multi_executed = multi_voted\<lparr>PROPOSALS := [1 \<mapsto> multi_tallied_proposal\<lparr>status := Executed\<rparr>]\<rparr>"

definition multi_silent :: "string response" where
  "multi_silent = \<lparr>messages = [], data = None\<rparr>"

definition multi_dispatch :: "string response" where
  "multi_dispatch =
     \<lparr>messages = [reply_on_error (WasmExecute ''dao'' (ExecuteProposalHook [''rice'']) []) 8],
      data = None\<rparr>"

lemmas multi_sample_defs =
  sample_defs multi_deps_def multi_instantiate_def multi_config_def multi_start_def multi_option_def
  multi_choice_def multi_none_def multi_proposal_def multi_tallied_proposal_def multi_proposed_def
  multi_propose_def multi_voted_def multi_executed_def multi_silent_def multi_dispatch_def
  empty_state_def dao_querier.extend_def

lemmas eval_multi =
  instantiate_def strategy_validate_def validate_quorum_def validate_voting_period_def
  validate_veto_def into_initial_policy_and_messages_def into_checked_def MAX_NUM_CHOICES_def
  checked_option_def
  execute_def execute_propose_def execute_vote_def execute_execute_def advance_proposal_id_def
  next_proposal_id_def add_u64_def choose_proposer_def is_permitted_def get_total_power_def
  MAX_PROPOSAL_SIZE_def new_proposal_hooks_def indexed_hooks_def update_status_def
  current_status_def is_passed_def is_rejected_def calculate_vote_result_def max_weight_def
  is_choice_unbeatable_def get_quorum_def does_vote_count_pass_def
  sub128_def add128_def mc_zero_def mc_total_def mc_get_def get_id_def respond_def Let_def
  get_voting_power_with_delegation_def get_voting_power_def checked_add128_def udvp_default_def
  update_ballot_def handle_delegate_vote_override_def mc_add_vote_def status_to_string_def
  proposal_status_changed_hooks_def new_vote_hooks_def sender_can_execute_def check_executable_def
  dispatch_def completion_hooks_def proposal_completed_hooks_def
  mask_proposal_execution_proposal_id_def FAILED_PROPOSAL_EXECUTION_MASK_def
  BITS_RESERVED_FOR_REPLY_TYPE_def

lemma multi_instantiated:
  "instantiate multi_deps empty_state (sent_by ''dao'') multi_instantiate = Ok (multi_start, multi_silent)"
  by (simp add: eval_multi multi_sample_defs)

lemma multi_step_propose:
  "execute multi_deps multi_start (sample_env 10) (sent_by ''cyd'') multi_propose =
     Ok (multi_proposed, multi_silent)"
  by (simp add: eval_multi multi_sample_defs)

lemma multi_step_vote:
  "execute multi_deps multi_proposed (sample_env 20) (sent_by ''ann'')
     (Vote 1 (MultipleChoiceVote 1) None) = Ok (multi_voted, multi_silent)"
  by (simp add: eval_multi multi_sample_defs)

lemma multi_step_execute:
  "execute multi_deps multi_voted (sample_env 50) (sent_by ''bob'') (Execute 1) =
     Ok (multi_executed, multi_dispatch)"
  by (simp add: eval_multi multi_sample_defs)

lemma multi_run_proposed: "multi_run multi_start [] multi_proposed"
  using run_one [of multi_step, OF step_execute [OF multi_step_propose]]
  by (simp add: dispatched_def multi_propose_def)

lemma multi_run_voted: "multi_run multi_start [] multi_voted"
  using run_step [of multi_step, OF multi_run_proposed step_execute [OF multi_step_vote]]
  by (simp add: dispatched_def)

lemma multi_run_executed: "multi_run multi_start [1] multi_executed"
  using run_step [of multi_step, OF multi_run_voted step_execute [OF multi_step_execute]]
  by (simp add: dispatched_def multi_dispatch_def is_dispatch_def reply_on_error_def)

section \<open>Tallies and dispatch\<close>

text \<open>C18: in every reachable state, for every stored proposal and every vote, both tallies are the
  sums of the powers and of the individual powers of the ballots cast for it; there is one weight
  per option, the options are numbered in order, and exactly the last one is "None of the above",
  without messages.\<close>

theorem multiple_tally_correct:
  assumes "instantiate deps empty_state info msg = Ok (st0, r)" and "multi_run st0 log st"
    and "PROPOSALS st pid = Some p"
  shows "mc_weight v (votes p) = ballot_sum power (BALLOTS st) pid v \<and>
    mc_weight v (individual_votes p) = ballot_sum individual_power (BALLOTS st) pid v \<and>
    length (vote_weights (votes p)) = length (choices p) \<and>
    length (vote_weights (individual_votes p)) = length (choices p) \<and> choices_ok (choices p)"
proof -
  have "multi_inv st" using assms(1,2) by (blast intro: multi_run_keeps_inv multi_instantiate_inv)
  with assms(3) show ?thesis
    using multi_module.tally_invD [of "PROPOSALS st" "BALLOTS st" pid p]
    by (simp add: multi_inv_def multi_tallied_def multiple_tally.tallies_def well_shaped_def)
qed

theorem multiple_tally_correct_witness:
  "mc_weight (MultipleChoiceVote 1) (votes multi_tallied_proposal) =
     ballot_sum power (BALLOTS multi_voted) 1 (MultipleChoiceVote 1) \<and>
   choices_ok (choices multi_tallied_proposal)"
  using multiple_tally_correct [OF multi_instantiated multi_run_voted, of 1 multi_tallied_proposal
      "MultipleChoiceVote 1"]
  by (simp add: multi_voted_def)

text \<open>over any sequence of messages and replies no proposal has its messages handed to the DAO
  twice and every dispatched proposal is stored as executed or failed; and a stored proposal stays
  stored, keeps its terms, and moves only along the lifecycle.\<close>

theorem multiple_dispatch_once:
  assumes "instantiate deps empty_state info msg = Ok (st0, r)" and "multi_run st0 log st"
    and "multi_run st log' st'"
  shows "distinct log \<and>
    (\<forall>pid \<in> set log. \<exists>p. PROPOSALS st pid = Some p \<and> status p \<in> {Executed, ExecutionFailed}) \<and>
    (\<forall>pid p. PROPOSALS st pid = Some p \<longrightarrow> (\<exists>q. PROPOSALS st' pid = Some q \<and>
       q = p\<lparr>votes := votes q, individual_votes := individual_votes q, status := status q\<rparr> \<and>
       may_become (status p) (status q)))"
proof -
  have inv: "multi_inv st" using assms(1,2) by (blast intro: multi_run_keeps_inv multi_instantiate_inv)
  show ?thesis
    using multi_run_dispatches_once [OF assms(2) multi_instantiate_inv(1) [OF assms(1)]]
      multi_run_evolves [OF assms(3) inv]
    by (simp add: was_executed_def evolves_def)
qed

theorem multiple_dispatch_once_witness:
  "distinct [1 :: u64] \<and>
   (\<exists>p. PROPOSALS multi_executed 1 = Some p \<and> status p \<in> {Executed, ExecutionFailed})"
  using multiple_dispatch_once [OF multi_instantiated multi_run_executed run_start] by simp

text \<open>Where a request to the DAO comes from.\<close>

lemma multi_dispatch_inversion:
  assumes "execute deps st env info msg = Ok (st', r)" and "filter is_dispatch (messages r) \<noteq> []"
  obtains pid where "msg = Execute pid" and "execute_execute deps st env info pid = Ok (st', r)"
  using assms(1)
proof (cases rule: multi_execute_cases)
  case (conclude pid p s new)
  with assms have "execute_execute deps st env info pid = Ok (st', r)" and "msg = Execute pid"
    by (auto simp: execute_def)
  then show ?thesis by (intro that)
next
  case (propose m)
  from propose(2) have "filter is_dispatch (messages r) = []"
    by (cases rule: multi_execute_propose_cases)
       (auto simp: result_ok split: option.splits elim!: multi_vote_frame)
  with assms(2) show ?thesis by simp
next
  case (vote pid v why)
  from vote(2) assms(2) show ?thesis by (auto elim!: multi_vote_frame)
next
  case (rationale pid why)
  from rationale(2) assms(2) show ?thesis by (auto elim!: multi_execute_update_rationale_cases)
next
  case admin
  with assms show ?thesis by (simp add: multi_execute_admin(3))
qed

text \<open>C19: the DAO is asked to execute only the winning option. In a reachable state, a response that
  carries messages for the DAO comes from \<open>Execute\<close> on a stored proposal whose up-to-date status
  was passed with an allowed sender, or timelocked with its vetoer allowed to execute early; the
  messages are exactly those of the option that has strictly more votes than every other, and
  this option is not "None of the above".\<close>

theorem multiple_executes_winner:
  assumes "instantiate deps0 empty_state info0 msg0 = Ok (st0, r0)" and "multi_run st0 log st"
    and "execute deps st env info msg = Ok (st', r)" and "filter is_dispatch (messages r) \<noteq> []"
  shows "\<exists>pid p config member s w.
    msg = Execute pid \<and> PROPOSALS st pid = Some p \<and> CONFIG st = Some config \<and>
    sender_can_execute deps config info p = Ok member \<and>
    current_status deps p (block env) = Ok s \<and>
    (s = Passed \<and> member \<or>
     (\<exists>e vc. s = VetoTimelock e \<and> veto p = Some vc \<and> vetoer vc = sender info \<and> early_execute vc)) \<and>
    leads (considered deps p (block env)) w \<and> option_type (choices p ! w) = Standard \<and>
    filter is_dispatch (messages r) = dispatch config pid (choice_msgs (choices p ! w))"
proof -
  from assms(3,4) obtain pid where msg: "msg = Execute pid"
    and ex: "execute_execute deps st env info pid = Ok (st', r)"
    by (rule multi_dispatch_inversion)
  from ex show ?thesis
  proof (cases rule: multi_execute_execute_cases)
    case (1 p config member s choice)
    have "multi_inv st" using assms(1,2) by (blast intro: multi_run_keeps_inv multi_instantiate_inv)
    with 1(1) have shape: "well_shaped p" by (simp add: multi_inv_def)
    then have len: "length (considered deps p (block env)) = length (choices p)" and ne: "choices p \<noteq> []"
      by (auto simp: well_shaped_def considered_def choices_ok_def)
    then obtain w where w: "leads (considered deps p (block env)) w" "choice = choices p ! w"
      by (cases rule: calculate_result_cases) (use 1(6) in auto)
    with len have lt: "w < length (choices p)" by (simp add: leads_def)
    have disp: "filter is_dispatch (dispatch config pid ms) = dispatch config pid ms" for ms
      by (simp add: dispatch_def is_dispatch_def reply_on_error_def sub_msg_new_def Let_def)
    with 1(8) assms(4) have "choice_msgs choice \<noteq> []" by (auto simp: dispatch_def)
    with w(2) lt shape have "option_type (choices p ! w) = Standard"
      by (cases "w = length (choices p) - 1"; cases "option_type (choices p ! w)")
         (auto simp: well_shaped_def choices_ok_def last_conv_nth [OF ne])
    with 1 w msg disp show ?thesis unfolding may_execute_def [symmetric] by fastforce
  qed
qed

theorem multiple_executes_winner_witness:
  "\<exists>p w. PROPOSALS multi_voted 1 = Some p \<and>
     leads (considered multi_deps p (sample_block 50)) w \<and> option_type (choices p ! w) = Standard"
  using multiple_executes_winner [OF multi_instantiated multi_run_voted multi_step_execute]
  by (auto simp: multi_dispatch_def is_dispatch_def reply_on_error_def sample_env_def)

section \<open>Decisions\<close>

text \<open>C21: the status of an open proposal is the one the rule of the vote gives. For a reachable
  proposal whose votes fit its total power, a power in the range of \<open>Uint128\<close>: the vote is won when the
  quorum is met and an option other than "None of the above" strictly leads, after the expiration or
  out of reach of the power that has not voted, once the minimum period is over. A won proposal is
  passed without a veto configuration; with one it is timelocked until the timelock added to the
  expiration is over, and passed then. One that is not won is rejected after the expiration, or
  before it when "None of the above" cannot be overtaken or all power is cast in a tie; else it
  stays open. With revoting nothing is decided before the expiration. The computation fails in no
  other case than that of a won proposal whose timelock cannot be added to its expiration.\<close>

theorem multiple_status_rule:
  assumes "instantiate deps empty_state info msg = Ok (st0, r)" and "multi_run st0 log st"
    and "PROPOSALS st pid = Some p" and "status p = Open"
    and "u128 (total_power p)" and "sum_list (vote_weights (votes p)) \<le> total_power p"
    and "sum_list (vote_weights (individual_votes p)) \<le> total_power p"
  shows "current_status cw p b =
    (if undecided_yet cw p b then Ok Open
     else if min_period_over cw p b \<and> (\<exists>w. winner cw p b w) then
       (case veto p of
          None \<Rightarrow> Ok Passed
        | Some vc \<Rightarrow> and_then (expiration_add cw (expiration p) (timelock_duration vc))
            (\<lambda>e. Ok (if is_expired cw e b then Passed else VetoTimelock e)))
     else if is_expired cw (expiration p) b \<or> lost cw p b then Ok Rejected
     else Ok Open)"
proof -
  have "multi_inv st" using assms(1,2) by (blast intro: multi_run_keeps_inv multi_instantiate_inv)
  with assms have wf: "wf_proposal p" by (simp add: multi_inv_def well_shaped_def wf_proposal_def)
  show ?thesis
    using assms(4) multi_is_rejected_eq [OF wf, of cw b]
    by (cases "veto p") (auto simp: current_status_def multi_is_passed_eq [OF wf] undecided_yet_def if_distrib)
qed

theorem multiple_status_rule_witness:
  "current_status multi_deps multi_tallied_proposal (sample_block 50) = Ok Passed \<and>
   (\<exists>w. winner multi_deps multi_tallied_proposal (sample_block 50) w)"
proof -
  have st: "current_status multi_deps multi_tallied_proposal (sample_block 50) = Ok Passed"
    by (simp add: multi_sample_defs eval_multi)
  have p: "PROPOSALS multi_voted 1 = Some multi_tallied_proposal" "status multi_tallied_proposal = Open"
    "u128 (total_power multi_tallied_proposal)"
    "sum_list (vote_weights (votes multi_tallied_proposal)) \<le> total_power multi_tallied_proposal"
    "sum_list (vote_weights (individual_votes multi_tallied_proposal)) \<le> total_power multi_tallied_proposal"
    by (simp_all add: multi_voted_def multi_tallied_proposal_def multi_proposal_def u128_def)
  from st multiple_status_rule [OF multi_instantiated multi_run_voted p, of multi_deps "sample_block 50"]
  show ?thesis by (auto split: if_splits)
qed

lemma multi_early_status:
  assumes "status p = Open" and "\<not> is_expired cw (expiration p) b" and "current_status cw p b = Ok s"
  shows "s = Rejected \<Longrightarrow> is_rejected cw p b = Ok True"
    and "s \<noteq> Open \<Longrightarrow> s \<noteq> Rejected \<Longrightarrow> is_passed cw p b = Ok True"
    and "allow_revoting p \<Longrightarrow> s = Open"
  using assms
  by (auto simp: current_status_def result_ok split: if_splits option.splits)
    (auto simp: is_passed_def is_rejected_def)

lemma multi_individual_below:
  assumes "multi_inv st" and "PROPOSALS st pid = Some p"
    and "\<And>a b. BALLOTS st (pid, a) = Some b \<Longrightarrow> individual_power b \<le> power b"
  shows "extends (vote_weights (individual_votes p)) (vote_weights (votes p))"
proof -
  have "mc_weight v (individual_votes p) \<le> mc_weight v (votes p)" for v
    using assms multi_module.tally_invD [of "PROPOSALS st" "BALLOTS st" pid p]
      ballot_sum_mono [of "BALLOTS st" pid individual_power power v]
    by (simp add: multi_inv_def multi_tallied_def multiple_tally.tallies_def)
  moreover have "length (vote_weights (votes p)) = length (vote_weights (individual_votes p))"
    using assms(1,2) by (simp add: multi_inv_def well_shaped_def)
  ultimately show ?thesis
    unfolding extends_def mc_weight_def by (metis multiple_choice_vote.sel)
qed

text \<open>C20: a decision reached before the expiration is final. Take a proposal without revoting whose
  votes fit the total power and whose ballots count no less than the voter's own power. If its
  status leaves open before the expiration, then after whatever further votes the tally at any
  block after the expiration decides the same: a rejected proposal does not pass, a passed or
  timelocked one passes, with the same winning option.\<close>

theorem multiple_early_decision_final:
  assumes "instantiate deps empty_state info msg = Ok (st0, r)" and "multi_run st0 log st"
    and "multi_run st log' st'" and "PROPOSALS st pid = Some p" and "PROPOSALS st' pid = Some q"
    and "status p = Open" and "\<forall>a b. BALLOTS st' (pid, a) = Some b \<longrightarrow> individual_power b \<le> power b"
    and "u128 (total_power p)" and "sum_list (vote_weights (votes p)) \<le> total_power p"
    and "sum_list (vote_weights (votes q)) \<le> total_power p"
    and "expiry_monotone cw" and "block_le b b'"
    and "\<not> is_expired cw (expiration p) b" and "is_expired cw (expiration p) b'"
    and "current_status cw p b = Ok s"
  shows "(s = Rejected \<longrightarrow> is_passed cw q b' = Ok False) \<and>
    (s \<noteq> Open \<and> s \<noteq> Rejected \<longrightarrow> is_passed cw q b' = Ok True \<and>
       (\<forall>w. winner cw p b w \<longrightarrow> winner cw q b' w))"
proof (cases "allow_revoting p")
  case True
  with multi_early_status(3) [OF assms(6,13,15)] show ?thesis by simp
next
  case False
  note inv = multi_run_keeps_inv [OF assms(2) multi_instantiate_inv(1) [OF assms(1)]]
  note inv' = multi_run_keeps_inv [OF assms(3) inv]
  have "evolves p q" using multi_run_evolves [OF assms(3) inv assms(4)] assms(5) by auto
  then have q: "voting_strategy q = voting_strategy p" "total_power q = total_power p"
    "expiration q = expiration p" "min_voting_period q = min_voting_period p" "choices q = choices p"
    by (cases p; cases q; simp add: evolves_def)+
  have grown: "extends (vote_weights (individual_votes p)) (vote_weights (individual_votes q))"
    using assms(3) inv assms(4,5) False by (rule multi_run_extends)
  have below: "extends (vote_weights (individual_votes q)) (vote_weights (votes q))"
    using inv' assms(5,7) by (blast intro: multi_individual_below)
  have ext: "extends (vote_weights (individual_votes p)) (vote_weights (votes q))"
    using grown below by (rule multi_extends_trans)
  have "well_shaped p" and "well_shaped q" using inv inv' assms(4,5) by (simp_all add: multi_inv_def)
  then have "wf_proposal p" and "wf_proposal q"
    using assms(8-10) extends_sum_le [OF ext] extends_sum_le [OF below] q
    by (simp_all add: wf_proposal_def well_shaped_def)
  moreover have "continues p q" using q ext by (simp add: continues_def)
  ultimately show ?thesis
    using multi_early_status(1,2) [OF assms(6,13,15)] assms(11-14)
    by (blast intro: multi_early_pass_holds [of p q] multi_early_rejection_holds [of p q])
qed

definition multi_later :: "string multiple_choice_proposal" where
  "multi_later = multi_proposal\<lparr>status := Passed, votes := MultipleChoiceVotes [30, 60, 0],
     individual_votes := MultipleChoiceVotes [30, 60, 0]\<rparr>"

definition multi_voted_again :: "string multiple_state" where
  "multi_voted_again = multi_voted\<lparr>PROPOSALS := [1 \<mapsto> multi_later],
     BALLOTS := (BALLOTS multi_voted)((1, ''bob'') \<mapsto>
       \<lparr>power = 30, individual_power = 30, ballot_vote = MultipleChoiceVote 0, rationale = None\<rparr>)\<rparr>"

lemma multi_step_vote_again:
  "execute multi_deps multi_voted (sample_env 60) (sent_by ''bob'') (Vote 1 (MultipleChoiceVote 0) None) =
     Ok (multi_voted_again, multi_silent)"
  by (simp add: eval_multi multi_sample_defs multi_voted_again_def multi_later_def)

lemma multi_run_again: "multi_run multi_voted [] multi_voted_again"
  using run_one [of multi_step, OF step_execute [OF multi_step_vote_again]] by (simp add: dispatched_def)

theorem multiple_early_decision_final_witness:
  "current_status multi_deps multi_tallied_proposal (sample_block 50) = Ok Passed \<and>
   is_passed multi_deps multi_later (sample_block 200) = Ok True"
proof
  show st: "current_status multi_deps multi_tallied_proposal (sample_block 50) = Ok Passed"
    by (simp add: multi_sample_defs eval_multi)
  have "expiry_monotone multi_deps"
    using sample_expiry_monotone
    by (simp add: expiry_monotone_def multi_deps_def dao_querier.extend_def sample_querier_def)
  then show "is_passed multi_deps multi_later (sample_block 200) = Ok True"
    using multiple_early_decision_final [OF multi_instantiated multi_run_voted multi_run_again,
        of 1 multi_tallied_proposal multi_later multi_deps "sample_block 50" "sample_block 200" Passed] st
    by (simp add: multi_sample_defs u128_def block_le_def multi_voted_again_def multi_later_def)
qed

end
