(* ===== verification/Cw_Denom.thy ===== *)
theory Cw_Denom
  imports Dao_Voting
begin

text \<open>
  Token denominations (\<open>packages/cw-denom\<close>): native denominations are checked against the
  rule of the Cosmos SDK, cw20 tokens by asking the contract for its token info.
\<close>

section \<open>Queries to tokens\<close>

text \<open>
  What the bank module and cw20 contracts answer, and two functions of third-party crates:
  \<open>must_pay\<close> of \<open>cw_utils\<close> and the test of a version against a requirement by \<open>semver\<close>
  (\<open>None\<close> where the version does not parse).
\<close>

datatype payment_error = NoFunds | MissingDenom string | MultipleDenoms

record token_querier = dao_querier +
  query_token_info :: "addr \<Rightarrow> (unit, std_error) result"
  query_bank_balance :: "addr \<Rightarrow> string \<Rightarrow> (nat, std_error) result"
  query_cw20_balance :: "addr \<Rightarrow> string \<Rightarrow> (nat, std_error) result"
  query_denom :: "addr \<Rightarrow> (string, std_error) result"
  query_token_contract :: "addr \<Rightarrow> (addr, std_error) result"
  ask_next_proposal_id :: "addr \<Rightarrow> (u64, std_error) result"
  query_module_dao :: "addr \<Rightarrow> (addr, std_error) result"
  must_pay :: "message_info \<Rightarrow> string \<Rightarrow> (nat, payment_error) result"
  version_matches :: "string \<Rightarrow> string \<Rightarrow> bool option"

section \<open>Denominations\<close>

datatype denom_error =
    DenomStd std_error
  | InvalidCw20 std_error
  | NativeDenomLength nat
  | NonAlphabeticAscii
  | InvalidCharacter char

datatype checked_denom = Native string | Cw20 addr

datatype unchecked_denom = UncheckedNative string | UncheckedCw20 string

definition is_ascii_alphabetic :: "char \<Rightarrow> bool" where
  "is_ascii_alphabetic c \<longleftrightarrow> CHR ''A'' \<le> c \<and> c \<le> CHR ''Z'' \<or> CHR ''a'' \<le> c \<and> c \<le> CHR ''z''"

definition is_ascii_alphanumeric :: "char \<Rightarrow> bool" where
  "is_ascii_alphanumeric c \<longleftrightarrow> is_ascii_alphabetic c \<or> CHR ''0'' \<le> c \<and> c \<le> CHR ''9''"

definition denom_char :: "char \<Rightarrow> bool" where
  "denom_char c \<longleftrightarrow> is_ascii_alphanumeric c \<or> c = CHR ''/'' \<or> c = CHR '':'' \<or> c = CHR ''.'' \<or>
     c = CHR ''_'' \<or> c = CHR ''-''"

text \<open>
  Strings are sequences of bytes, so a character outside ASCII is reported by its first byte.
\<close>

definition validate_native_denom :: "string \<Rightarrow> (checked_denom, denom_error) result" where
  "validate_native_denom denom =
     (if length denom < 3 \<or> length denom > 128 then Err (NativeDenomLength (length denom))
      else case denom of
        [] \<Rightarrow> Err NonAlphabeticAscii
      | first # chars \<Rightarrow>
          if \<not> is_ascii_alphabetic first then Err NonAlphabeticAscii
          else
            and_then (try_map (\<lambda>c. if \<not> denom_char c then Err (InvalidCharacter c) else Ok ()) chars)
              (\<lambda>_. Ok (Native denom)))"

definition denom_into_checked ::
  "'x token_querier_scheme \<Rightarrow> unchecked_denom \<Rightarrow> (checked_denom, denom_error) result" where
  "denom_into_checked deps self =
     (case self of
        UncheckedNative denom \<Rightarrow> validate_native_denom denom
      | UncheckedCw20 a \<Rightarrow>
          and_then (map_err DenomStd (addr_validate deps a)) (\<lambda>a.
          and_then (map_err InvalidCw20 (query_token_info deps a)) (\<lambda>_.
          Ok (Cw20 a))))"

definition is_cw20 :: "checked_denom \<Rightarrow> addr \<Rightarrow> bool" where
  "is_cw20 self cw20 = (case self of Native _ \<Rightarrow> False | Cw20 a \<Rightarrow> a = cw20)"

definition is_native :: "checked_denom \<Rightarrow> string \<Rightarrow> bool" where
  "is_native self denom = (case self of Native n \<Rightarrow> n = denom | Cw20 _ \<Rightarrow> False)"

definition query_balance ::
  "'x token_querier_scheme \<Rightarrow> checked_denom \<Rightarrow> addr \<Rightarrow> (nat, std_error) result" where
  "query_balance deps self who =
     (case self of
        Native denom \<Rightarrow> query_bank_balance deps who denom
      | Cw20 a \<Rightarrow> query_cw20_balance deps a who)"

section \<open>Transfers\<close>

datatype transfer_msg =
    BankSend (send_to: addr) (send_amount: "coin list")
  | Cw20Transfer (cw20_token: addr) (cw20_recipient: addr) (cw20_amount: nat)
  | Cw20TransferFrom (cw20_token: addr) (cw20_owner: addr) (cw20_recipient: addr) (cw20_amount: nat)

definition get_transfer_to_message :: "checked_denom \<Rightarrow> addr \<Rightarrow> nat \<Rightarrow> transfer_msg" where
  "get_transfer_to_message self who amount =
     (case self of
        Native denom \<Rightarrow> BankSend who [\<lparr>coin_denom = denom, coin_amount = amount\<rparr>]
      | Cw20 a \<Rightarrow> Cw20Transfer a who amount)"

section \<open>Properties\<close>

text \<open>The check accepts exactly the denominations of the rule, and leaves them as they are.\<close>

definition sdk_denom :: "string \<Rightarrow> bool" where
  "sdk_denom d \<longleftrightarrow>
     3 \<le> length d \<and> length d \<le> 128 \<and> is_ascii_alphabetic (hd d) \<and> (\<forall>c \<in> set (tl d). denom_char c)"

lemma try_map_check_Ok:
  "(\<exists>us. try_map (\<lambda>c. if \<not> P c then Err (f c) else Ok ()) cs = Ok us) \<longleftrightarrow> (\<forall>c \<in> set cs. P c)"
  by (induction cs) (auto simp: result_ok)

lemma validate_native_denom_Ok:
  "validate_native_denom d = Ok c \<longleftrightarrow> sdk_denom d \<and> c = Native d"
  using try_map_check_Ok [of denom_char InvalidCharacter "tl d"]
  by (cases d) (auto simp: validate_native_denom_def sdk_denom_def result_ok)

lemma denom_into_checked_cases:
  assumes "denom_into_checked deps u = Ok c"
  obtains (native) d where "u = UncheckedNative d" "c = Native d" "sdk_denom d"
  | (cw20) a b where "u = UncheckedCw20 a" "c = Cw20 b" "addr_validate deps a = Ok b"
      "query_token_info deps b = Ok ()"
  using assms
  by (auto simp: denom_into_checked_def validate_native_denom_Ok result_ok split: unchecked_denom.splits)

end
