(* ===== verification/Dao_Deposit.thy ===== *)
theory Dao_Deposit
  imports Cw_Denom
begin

text \<open>
  Proposal deposits (\<open>packages/dao-voting/src/deposit.rs\<close>): checking the configured deposit,
  taking it with a proposal and returning it.
\<close>

datatype deposit_error =
    DepositStd std_error
  | Payment payment_error
  | DepositDenom denom_error
  | ZeroDeposit
  | InvalidDeposit nat nat

datatype voting_module_token_type = NativeType | Cw20Type

datatype deposit_token = Token unchecked_denom | VotingModuleToken voting_module_token_type

datatype deposit_refund_policy = Always | OnlyPassed | NeverRefund

record unchecked_deposit_info =
  udi_denom :: deposit_token
  udi_amount :: nat
  udi_refund_policy :: deposit_refund_policy

record checked_deposit_info =
  denom :: checked_denom
  amount :: nat
  refund_policy :: deposit_refund_policy

definition deposit_into_checked ::
  "'x token_querier_scheme \<Rightarrow> unchecked_deposit_info \<Rightarrow> addr
     \<Rightarrow> (checked_deposit_info, deposit_error) result" where
  "deposit_into_checked deps self dao =
     (if udi_amount self = 0 then Err ZeroDeposit
      else
        and_then
          (case udi_denom self of
             Token d \<Rightarrow> map_err DepositDenom (denom_into_checked deps d)
           | VotingModuleToken token_type \<Rightarrow>
               and_then (map_err DepositStd (query_voting_module deps dao)) (\<lambda>voting_module.
               case token_type of
                 NativeType \<Rightarrow>
                   and_then (map_err DepositStd (query_denom deps voting_module)) (\<lambda>d.
                     map_err DepositDenom (denom_into_checked deps (UncheckedNative d)))
               | Cw20Type \<Rightarrow>
                   and_then (map_err DepositStd (query_token_contract deps voting_module)) (\<lambda>a.
                     map_err DepositDenom (denom_into_checked deps (UncheckedCw20 a)))))
          (\<lambda>d. Ok \<lparr>denom = d, amount = udi_amount self, refund_policy = udi_refund_policy self\<rparr>))"

definition check_native_deposit_paid ::
  "'x token_querier_scheme \<Rightarrow> checked_deposit_info \<Rightarrow> message_info \<Rightarrow> (unit, deposit_error) result" where
  "check_native_deposit_paid deps self info =
     (case denom self of
        Native d \<Rightarrow>
          and_then (map_err Payment (must_pay deps info d)) (\<lambda>paid.
            if paid \<noteq> amount self then Err (InvalidDeposit paid (amount self)) else Ok ())
      | Cw20 _ \<Rightarrow> Ok ())"

definition get_take_deposit_messages ::
  "checked_deposit_info \<Rightarrow> addr \<Rightarrow> addr \<Rightarrow> transfer_msg list" where
  "get_take_deposit_messages self depositor contract =
     (case denom self of
        Cw20 a \<Rightarrow> if amount self = 0 then [] else [Cw20TransferFrom a depositor contract (amount self)]
      | Native _ \<Rightarrow> [])"

definition get_return_deposit_message :: "checked_deposit_info \<Rightarrow> addr \<Rightarrow> transfer_msg list" where
  "get_return_deposit_message self depositor =
     (if amount self = 0 then [] else [get_transfer_to_message (denom self) depositor (amount self)])"

section \<open>Properties\<close>

text \<open>
  A checked deposit is not zero, and a native denomination in it obeys the rule of the SDK.
\<close>

definition deposit_ok :: "checked_deposit_info \<Rightarrow> bool" where
  "deposit_ok d \<longleftrightarrow> amount d \<noteq> 0 \<and> (\<forall>n. denom d = Native n \<longrightarrow> sdk_denom n)"

lemma denom_into_checked_native: "denom_into_checked deps u = Ok (Native n) \<Longrightarrow> sdk_denom n"
  by (erule denom_into_checked_cases) auto

lemma deposit_into_checked_ok:
  assumes "deposit_into_checked deps u dao = Ok d"
  shows "deposit_ok d" and "amount d = udi_amount u" and "refund_policy d = udi_refund_policy u"
proof -
  from assms have d: "udi_amount u \<noteq> 0" "amount d = udi_amount u" "refund_policy d = udi_refund_policy u"
    by (auto simp: deposit_into_checked_def result_ok split: if_splits)
  have "\<exists>v. denom_into_checked deps v = Ok (denom d)"
  proof (cases "udi_denom u")
    case (Token v)
    with assms show ?thesis by (auto simp: deposit_into_checked_def result_ok split: if_splits)
  next
    case (VotingModuleToken t)
    with assms show ?thesis
      by (cases t) (auto simp: deposit_into_checked_def result_ok split: if_splits)
  qed
  with d show "deposit_ok d" by (auto simp: deposit_ok_def dest: denom_into_checked_native)
  show "amount d = udi_amount u" and "refund_policy d = udi_refund_policy u" using d by simp_all
qed

lemma return_deposit_ok:
  "deposit_ok d \<Longrightarrow> get_return_deposit_message d who = [get_transfer_to_message (denom d) who (amount d)]"
  by (simp add: get_return_deposit_message_def deposit_ok_def)

text \<open>
  What \<open>must_pay\<close> documents: the message carries exactly one coin, of the denomination asked
  for and not zero, and its amount is returned.
\<close>

definition must_pay_exact :: "'x token_querier_scheme \<Rightarrow> bool" where
  "must_pay_exact deps \<longleftrightarrow>
     (\<forall>info d n. must_pay deps info d = Ok n \<longrightarrow>
        n \<noteq> 0 \<and> funds info = [\<lparr>coin_denom = d, coin_amount = n\<rparr>])"

text \<open>What a proposer hands over: the coins sent along, or the transfer that the module orders.\<close>

definition hands_over :: "checked_deposit_info \<Rightarrow> message_info \<Rightarrow> addr \<Rightarrow> transfer_msg list \<Rightarrow> bool" where
  "hands_over d info contract ts \<longleftrightarrow>
     (case denom d of
        Native n \<Rightarrow> funds info = [\<lparr>coin_denom = n, coin_amount = amount d\<rparr>] \<and> ts = []
      | Cw20 a \<Rightarrow> ts = [Cw20TransferFrom a (sender info) contract (amount d)])"

lemma deposit_handed_over:
  assumes "must_pay_exact deps" and "deposit_ok d" and "check_native_deposit_paid deps d info = Ok u"
  shows "hands_over d info contract (get_take_deposit_messages d (sender info) contract)"
  using assms
  by (cases "denom d")
     (auto simp: check_native_deposit_paid_def get_take_deposit_messages_def hands_over_def
      must_pay_exact_def deposit_ok_def result_ok split: if_splits)

end
