(* ===== verification/Pre_Propose_Base.thy ===== *)
theory Pre_Propose_Base
  imports Dao_Deposit Proposal_Module
begin

text \<open>
  The contract in front of a proposal module (\<open>packages/dao-pre-propose-base\<close>): it decides who
  may submit, takes a deposit with every proposal and returns it when the proposal is completed.
  The contract is generic in the message it forwards to the proposal module; extensions keep the
  default behaviour, which does nothing.
\<close>

section \<open>State\<close>

record pre_propose_config =
  deposit_info :: "checked_deposit_info option"
  submission_policy :: pre_propose_submission_policy

record pre_propose_state =
  pp_contract_info :: "(string \<times> string) option"
  pp_proposal_module :: "addr option"
  pp_dao :: "addr option"
  pp_config :: "pre_propose_config option"
  pp_deposits :: "u64 \<rightharpoonup> checked_deposit_info option \<times> addr"
  pp_proposal_submitted_hooks :: hooks

datatype pre_propose_error =
    PpStd std_error
  | PpDenom denom_error
  | PpDeposit deposit_error
  | PpHooks hook_error
  | PpSubmissionPolicy pre_propose_submission_policy_error
  | NotModule
  | NotDao
  | NoWithdrawalDenom
  | NothingToWithdraw
  | NotCompleted status
  | CannotMigrateVersion string string

text \<open>The messages of a response, in the order they are executed.\<close>

datatype 'p pre_propose_out = OutExecute "'p wasm_msg" | OutTransfer transfer_msg

type_synonym 'p pre_propose_outcome = "(pre_propose_state \<times> 'p pre_propose_out list, pre_propose_error) result"

definition PP_BASE_NAME :: string where
  "PP_BASE_NAME = ''crates.io::dao-pre-propose-base''"

record pre_propose_instantiate_msg =
  pim_deposit_info :: "unchecked_deposit_info option"
  pim_submission_policy :: pre_propose_submission_policy

datatype 'p pre_propose_execute_msg =
    PpPropose 'p
  | PpUpdateConfig "unchecked_deposit_info option" "pre_propose_submission_policy option"
  | PpUpdateSubmissionPolicy "string list option" "string list option" "bool option"
      "string list option" "string list option"
  | PpWithdraw "unchecked_denom option"
  | PpExtension
  | PpAddProposalSubmittedHook string
  | PpRemoveProposalSubmittedHook string
  | PpProposalCompletedHook u64 status

definition base_instantiate ::
  "'x token_querier_scheme \<Rightarrow> pre_propose_state \<Rightarrow> message_info \<Rightarrow> pre_propose_instantiate_msg
     \<Rightarrow> 'p pre_propose_outcome" where
  "base_instantiate deps st info msg =
     and_then (map_err PpStd (query_module_dao deps (sender info))) (\<lambda>dao.
     and_then (map_err PpDeposit
       (transpose_opt (\<lambda>d. deposit_into_checked deps d dao) (pim_deposit_info msg))) (\<lambda>di.
     and_then (map_err PpSubmissionPolicy (submission_policy_validate (pim_submission_policy msg))) (\<lambda>_.
     Ok (st\<lparr>pp_contract_info := Some (PP_BASE_NAME, CONTRACT_VERSION),
            pp_proposal_module := Some (sender info), pp_dao := Some dao,
            pp_config := Some
              \<lparr>deposit_info = di, submission_policy = pim_submission_policy msg\<rparr>\<rparr>, []))))"

section \<open>Submitting\<close>

definition check_can_submit ::
  "'x token_querier_scheme \<Rightarrow> pre_propose_state \<Rightarrow> addr \<Rightarrow> (unit, pre_propose_error) result" where
  "check_can_submit deps st who =
     and_then (map_err PpStd (load (pp_config st))) (\<lambda>config.
     case submission_policy config of
       SubmitAnyone denylist \<Rightarrow>
         if who \<notin> set denylist then Ok () else Err (PpSubmissionPolicy SubmissionUnauthorized)
     | SubmitSpecific dao_members allowlist denylist \<Rightarrow>
         if who \<notin> set denylist then
           (if who \<in> set allowlist then Ok ()
            else if dao_members then
              and_then (map_err PpStd (load (pp_dao st))) (\<lambda>dao.
              and_then (map_err PpStd (query_voting_power deps dao who None)) (\<lambda>pow.
                if pow \<noteq> 0 then Ok () else Err (PpSubmissionPolicy SubmissionUnauthorized)))
            else Err (PpSubmissionPolicy SubmissionUnauthorized))
         else Err (PpSubmissionPolicy SubmissionUnauthorized))"

definition submitted_hooks :: "hooks \<Rightarrow> 'p \<Rightarrow> 'p pre_propose_out list" where
  "submitted_hooks hs msg = map (\<lambda>a. OutExecute (WasmExecute a msg [])) (hooks_or_default hs)"

definition base_execute_propose ::
  "'x token_querier_scheme \<Rightarrow> pre_propose_state \<Rightarrow> env \<Rightarrow> message_info \<Rightarrow> 'p
     \<Rightarrow> 'p pre_propose_outcome" where
  "base_execute_propose deps st env info msg =
     and_then (check_can_submit deps st (sender info)) (\<lambda>_.
     and_then (map_err PpStd (load (pp_config st))) (\<lambda>config.
     and_then
       (case deposit_info config of
          Some di \<Rightarrow>
            and_then (map_err PpDeposit (check_native_deposit_paid deps di info)) (\<lambda>_.
              Ok (get_take_deposit_messages di (sender info) (contract_address env)))
        | None \<Rightarrow> Ok []) (\<lambda>deposit_messages.
     and_then (map_err PpStd (load (pp_proposal_module st))) (\<lambda>proposal_module.
     and_then (map_err PpStd (ask_next_proposal_id deps proposal_module)) (\<lambda>next_id.
     Ok (st\<lparr>pp_deposits := (pp_deposits st)(next_id \<mapsto> (deposit_info config, sender info))\<rparr>,
         OutExecute (WasmExecute proposal_module msg []) #
         submitted_hooks (pp_proposal_submitted_hooks st) msg @
         map OutTransfer deposit_messages))))))"

section \<open>Configuration by the DAO\<close>

definition only_dao :: "pre_propose_state \<Rightarrow> message_info \<Rightarrow> (addr, pre_propose_error) result" where
  "only_dao st info =
     and_then (map_err PpStd (load (pp_dao st))) (\<lambda>dao.
     if sender info \<noteq> dao then Err NotDao else Ok dao)"

definition base_execute_update_config ::
  "'x token_querier_scheme \<Rightarrow> pre_propose_state \<Rightarrow> message_info \<Rightarrow> unchecked_deposit_info option
     \<Rightarrow> pre_propose_submission_policy option \<Rightarrow> 'p pre_propose_outcome" where
  "base_execute_update_config deps st info di policy =
     and_then (only_dao st info) (\<lambda>dao.
     and_then (map_err PpDeposit (transpose_opt (\<lambda>d. deposit_into_checked deps d dao) di)) (\<lambda>di.
     and_then (map_err PpSubmissionPolicy
        (case policy of Some p \<Rightarrow> submission_policy_validate p | None \<Rightarrow> Ok ())) (\<lambda>_.
     and_then (map_err PpStd (load (pp_config st))) (\<lambda>prev.
     Ok (st\<lparr>pp_config := Some
          \<lparr>deposit_info = di,
           submission_policy = (case policy of Some p \<Rightarrow> p | None \<Rightarrow> submission_policy prev)\<rparr>\<rparr>, [])))))"

text \<open>\<open>sort\<close> and \<open>dedup\<close> of addresses, which are compared as byte strings.\<close>

definition add_and_remove_addresses ::
  "'x cw_env_scheme \<Rightarrow> addr list \<Rightarrow> string list option \<Rightarrow> string list option
     \<Rightarrow> (addr list, std_error) result" where
  "add_and_remove_addresses deps xs add remove =
     and_then
       (case add of
          Some as \<Rightarrow>
            and_then (try_map (addr_validate deps) as) (\<lambda>addrs. Ok (remdups_adj (sort (xs @ addrs))))
        | None \<Rightarrow> Ok xs) (\<lambda>xs.
     case remove of
       Some rs \<Rightarrow>
         and_then (try_map (addr_validate deps) rs) (\<lambda>addrs. Ok (filter (\<lambda>a. a \<notin> set addrs) xs))
     | None \<Rightarrow> Ok xs)"

definition base_execute_update_submission_policy ::
  "'x token_querier_scheme \<Rightarrow> pre_propose_state \<Rightarrow> message_info \<Rightarrow> string list option
     \<Rightarrow> string list option \<Rightarrow> bool option \<Rightarrow> string list option \<Rightarrow> string list option
     \<Rightarrow> 'p pre_propose_outcome" where
  "base_execute_update_submission_policy deps st info denylist_add denylist_remove set_dao_members
       allowlist_add allowlist_remove =
     and_then (only_dao st info) (\<lambda>_.
     and_then (map_err PpStd (load (pp_config st))) (\<lambda>config.
     and_then
       (case submission_policy config of
          SubmitAnyone denylist \<Rightarrow>
            if set_dao_members \<noteq> None \<or> allowlist_add \<noteq> None \<or> allowlist_remove \<noteq> None
            then Err (PpSubmissionPolicy AnyoneInvalidUpdateFields)
            else
              and_then (map_err PpStd
                 (add_and_remove_addresses deps denylist denylist_add denylist_remove)) (\<lambda>denylist.
              Ok (SubmitAnyone denylist))
        | SubmitSpecific dao_members allowlist denylist \<Rightarrow>
            and_then (map_err PpStd
               (add_and_remove_addresses deps allowlist allowlist_add allowlist_remove)) (\<lambda>allowlist.
            and_then (map_err PpStd
               (add_and_remove_addresses deps denylist denylist_add denylist_remove)) (\<lambda>denylist.
            Ok (SubmitSpecific (case set_dao_members of Some b \<Rightarrow> b | None \<Rightarrow> dao_members)
                 allowlist denylist)))) (\<lambda>policy.
     and_then (map_err PpSubmissionPolicy (submission_policy_validate policy)) (\<lambda>_.
     Ok (st\<lparr>pp_config := Some (config\<lparr>submission_policy := policy\<rparr>)\<rparr>, [])))))"

definition base_execute_withdraw ::
  "'x token_querier_scheme \<Rightarrow> pre_propose_state \<Rightarrow> env \<Rightarrow> message_info \<Rightarrow> unchecked_denom option
     \<Rightarrow> 'p pre_propose_outcome" where
  "base_execute_withdraw deps st env info d =
     and_then (only_dao st info) (\<lambda>dao.
     and_then
       (case d of
          Some u \<Rightarrow> and_then (map_err PpDenom (denom_into_checked deps u)) (\<lambda>c. Ok (Some c))
        | None \<Rightarrow>
            and_then (map_err PpStd (load (pp_config st))) (\<lambda>config.
              Ok (map_option denom (deposit_info config)))) (\<lambda>od.
     case od of
       None \<Rightarrow> Err NoWithdrawalDenom
     | Some c \<Rightarrow>
         and_then (map_err PpStd (query_balance deps c (contract_address env))) (\<lambda>balance.
         if balance = 0 then Err NothingToWithdraw
         else Ok (st, [OutTransfer (get_transfer_to_message c dao balance)]))))"

definition base_execute_add_proposal_submitted_hook ::
  "'x token_querier_scheme \<Rightarrow> pre_propose_state \<Rightarrow> message_info \<Rightarrow> string \<Rightarrow> 'p pre_propose_outcome" where
  "base_execute_add_proposal_submitted_hook deps st info a =
     and_then (only_dao st info) (\<lambda>_.
     and_then (map_err PpStd (addr_validate deps a)) (\<lambda>a.
     and_then (map_err PpHooks (add_hook (pp_proposal_submitted_hooks st) a)) (\<lambda>hs.
     Ok (st\<lparr>pp_proposal_submitted_hooks := hs\<rparr>, []))))"

definition base_execute_remove_proposal_submitted_hook ::
  "'x token_querier_scheme \<Rightarrow> pre_propose_state \<Rightarrow> message_info \<Rightarrow> string \<Rightarrow> 'p pre_propose_outcome" where
  "base_execute_remove_proposal_submitted_hook deps st info a =
     and_then (only_dao st info) (\<lambda>_.
     and_then (map_err PpStd (addr_validate deps a)) (\<lambda>a.
     and_then (map_err PpHooks (remove_hook (pp_proposal_submitted_hooks st) a)) (\<lambda>hs.
     Ok (st\<lparr>pp_proposal_submitted_hooks := hs\<rparr>, []))))"

section \<open>Completed proposals\<close>

definition should_refund_to_proposer :: "status \<Rightarrow> deposit_refund_policy \<Rightarrow> bool" where
  "should_refund_to_proposer new_status policy =
     (case policy of
        OnlyPassed \<Rightarrow> new_status = Executed
      | Always \<Rightarrow> True
      | NeverRefund \<Rightarrow> False)"

definition base_execute_proposal_completed_hook ::
  "pre_propose_state \<Rightarrow> message_info \<Rightarrow> u64 \<Rightarrow> status \<Rightarrow> 'p pre_propose_outcome" where
  "base_execute_proposal_completed_hook st info i new_status =
     and_then (map_err PpStd (load (pp_proposal_module st))) (\<lambda>proposal_module.
     if sender info \<noteq> proposal_module then Err NotModule
     else if new_status \<noteq> Closed \<and> new_status \<noteq> Executed \<and> new_status \<noteq> Vetoed
     then Err (NotCompleted new_status)
     else case pp_deposits st i of
       Some (di, proposer) \<Rightarrow>
         and_then
           (case di of
              Some d \<Rightarrow>
                if should_refund_to_proposer new_status (refund_policy d)
                then Ok (get_return_deposit_message d proposer)
                else
                  and_then (map_err PpStd (load (pp_dao st))) (\<lambda>dao.
                    Ok (get_return_deposit_message d dao))
            | None \<Rightarrow> Ok []) (\<lambda>ms.
         Ok (st, map OutTransfer ms))
     | None \<Rightarrow> Ok (st, []))"

section \<open>The entry points\<close>

definition base_execute ::
  "'x token_querier_scheme \<Rightarrow> pre_propose_state \<Rightarrow> env \<Rightarrow> message_info \<Rightarrow> 'p pre_propose_execute_msg
     \<Rightarrow> 'p pre_propose_outcome" where
  "base_execute deps st env info msg =
     (case msg of
        PpPropose m \<Rightarrow> base_execute_propose deps st env info m
      | PpUpdateConfig di policy \<Rightarrow> base_execute_update_config deps st info di policy
      | PpUpdateSubmissionPolicy da dr sm aa ar \<Rightarrow>
          base_execute_update_submission_policy deps st info da dr sm aa ar
      | PpWithdraw d \<Rightarrow> base_execute_withdraw deps st env info d
      | PpAddProposalSubmittedHook a \<Rightarrow> base_execute_add_proposal_submitted_hook deps st info a
      | PpRemoveProposalSubmittedHook a \<Rightarrow> base_execute_remove_proposal_submitted_hook deps st info a
      | PpProposalCompletedHook i s \<Rightarrow> base_execute_proposal_completed_hook st info i s
      | PpExtension \<Rightarrow> Ok (st, []))"

text \<open>
  Queries. The text of an unexpected error, which quotes the error, is left out.
\<close>

definition base_query_can_propose ::
  "'x token_querier_scheme \<Rightarrow> pre_propose_state \<Rightarrow> string \<Rightarrow> (bool, std_error) result" where
  "base_query_can_propose deps st a =
     and_then (addr_validate deps a) (\<lambda>who.
     case check_can_submit deps st who of
       Ok _ \<Rightarrow> Ok True
     | Err (PpSubmissionPolicy SubmissionUnauthorized) \<Rightarrow> Ok False
     | Err (PpStd e) \<Rightarrow> Err e
     | Err _ \<Rightarrow> Err (GenericErr ''unexpected error'')
     | Panic \<Rightarrow> Panic)"

datatype pre_propose_query_msg =
    QueryProposalModule | QueryDao | QueryInfo | QueryConfig | QueryDepositInfo u64
  | QueryCanPropose string | QueryProposalSubmittedHooks | QueryExtension

datatype pre_propose_answer =
    AnswerAddr addr
  | AnswerInfo "string \<times> string"
  | AnswerConfig pre_propose_config
  | AnswerDeposit "checked_deposit_info option" addr
  | AnswerBool bool
  | AnswerHooks "addr list"
  | AnswerEmpty

definition base_query ::
  "'x token_querier_scheme \<Rightarrow> pre_propose_state \<Rightarrow> pre_propose_query_msg
     \<Rightarrow> (pre_propose_answer, std_error) result" where
  "base_query deps st msg =
     (case msg of
        QueryProposalModule \<Rightarrow> and_then (load (pp_proposal_module st)) (\<lambda>a. Ok (AnswerAddr a))
      | QueryDao \<Rightarrow> and_then (load (pp_dao st)) (\<lambda>a. Ok (AnswerAddr a))
      | QueryInfo \<Rightarrow> and_then (load (pp_contract_info st)) (\<lambda>v. Ok (AnswerInfo v))
      | QueryConfig \<Rightarrow> and_then (load (pp_config st)) (\<lambda>c. Ok (AnswerConfig c))
      | QueryDepositInfo i \<Rightarrow> and_then (load (pp_deposits st i)) (\<lambda>(d, a). Ok (AnswerDeposit d a))
      | QueryCanPropose a \<Rightarrow> and_then (base_query_can_propose deps st a) (\<lambda>b. Ok (AnswerBool b))
      | QueryProposalSubmittedHooks \<Rightarrow> Ok (AnswerHooks (query_hooks (pp_proposal_submitted_hooks st)))
      | QueryExtension \<Rightarrow> Ok AnswerEmpty)"

section \<open>Migration\<close>

text \<open>
  The configuration of versions from 2.4.1 up to 2.5.0, stored under the same key. Its deposit has
  the types of today under other names.
\<close>

record config_v241 =
  v241_deposit_info :: "checked_deposit_info option"
  v241_open_proposal_submission :: bool

datatype pre_propose_migrate_msg = FromUnderV250 "pre_propose_submission_policy option" | MigrateExtension

definition base_migrate ::
  "'x token_querier_scheme \<Rightarrow> config_v241 option \<Rightarrow> pre_propose_state \<Rightarrow> pre_propose_migrate_msg
     \<Rightarrow> 'p pre_propose_outcome" where
  "base_migrate deps old st msg =
     (case msg of
        FromUnderV250 policy \<Rightarrow>
          and_then (map_err PpStd (load (pp_contract_info st))) (\<lambda>(_, version).
          and_then (ok_or_panic (version_matches deps ''>=2.4.1, <2.5.0'' version)) (\<lambda>ok.
          if \<not> ok then Err (CannotMigrateVersion ''>=2.4.1, <2.5.0'' version)
          else
          and_then (map_err PpStd (load old)) (\<lambda>old_config.
          let policy =
            (case policy of
               Some p \<Rightarrow> p
             | None \<Rightarrow>
                 if v241_open_proposal_submission old_config then SubmitAnyone []
                 else SubmitSpecific True [] []) in
          and_then (map_err PpSubmissionPolicy (submission_policy_validate policy)) (\<lambda>_.
          Ok (st\<lparr>pp_config := Some
                 \<lparr>deposit_info = v241_deposit_info old_config, submission_policy = policy\<rparr>,
                pp_contract_info := Some (PP_BASE_NAME, CONTRACT_VERSION)\<rparr>, [])))))
      | MigrateExtension \<Rightarrow> Err (PpStd (GenericErr ''not implemented'')))"

end
