(* ===== verification/Pre_Propose_Modules.thy ===== *)
theory Pre_Propose_Modules
  imports Pre_Propose_Base Multiple_Choice
begin

text \<open>
  The two plain pre-propose contracts, \<open>contracts/pre-propose/dao-pre-propose-single\<close> and
  \<open>dao-pre-propose-multiple\<close>: they fill in the proposer of the forwarded message with the
  sender and leave the rest to the base contract. Then what the base contract guarantees.
\<close>

section \<open>Single choice\<close>

definition PRE_SINGLE_NAME :: string where
  "PRE_SINGLE_NAME = ''crates.io:dao-pre-propose-single''"

record 'm propose_message_single =
  ps_title :: string
  ps_description :: string
  ps_msgs :: "'m list"
  ps_vote :: "single_choice_auto_vote option"

text \<open>The messages other than \<open>Propose\<close> pass unchanged.\<close>

definition internalize ::
  "(message_info \<Rightarrow> 'e \<Rightarrow> 'p) \<Rightarrow> message_info \<Rightarrow> 'e pre_propose_execute_msg \<Rightarrow> 'p pre_propose_execute_msg" where
  "internalize fill info msg =
     (case msg of
        PpPropose m \<Rightarrow> PpPropose (fill info m)
      | PpExtension \<Rightarrow> PpExtension
      | PpWithdraw d \<Rightarrow> PpWithdraw d
      | PpUpdateConfig di policy \<Rightarrow> PpUpdateConfig di policy
      | PpUpdateSubmissionPolicy da dr sm aa ar \<Rightarrow> PpUpdateSubmissionPolicy da dr sm aa ar
      | PpAddProposalSubmittedHook a \<Rightarrow> PpAddProposalSubmittedHook a
      | PpRemoveProposalSubmittedHook a \<Rightarrow> PpRemoveProposalSubmittedHook a
      | PpProposalCompletedHook i s \<Rightarrow> PpProposalCompletedHook i s)"

definition fill_single :: "message_info \<Rightarrow> 'm propose_message_single \<Rightarrow> 'm single_choice_propose_msg" where
  "fill_single info m =
     \<lparr>pm_title = ps_title m, pm_description = ps_description m, pm_msgs = ps_msgs m,
      pm_proposer = Some (sender info), pm_vote = ps_vote m\<rparr>"

definition pre_single_instantiate ::
  "'x token_querier_scheme \<Rightarrow> pre_propose_state \<Rightarrow> message_info \<Rightarrow> pre_propose_instantiate_msg
     \<Rightarrow> 'm single_choice_propose_msg pre_propose_outcome" where
  "pre_single_instantiate deps st info msg =
     and_then (base_instantiate deps st info msg) (\<lambda>(st, out).
     Ok (st\<lparr>pp_contract_info := Some (PRE_SINGLE_NAME, CONTRACT_VERSION)\<rparr>, out))"

definition pre_single_execute ::
  "'x token_querier_scheme \<Rightarrow> pre_propose_state \<Rightarrow> env \<Rightarrow> message_info
     \<Rightarrow> 'm propose_message_single pre_propose_execute_msg
     \<Rightarrow> 'm single_choice_propose_msg pre_propose_outcome" where
  "pre_single_execute deps st env info msg =
     base_execute deps st env info (internalize fill_single info msg)"

definition pre_single_migrate ::
  "'x token_querier_scheme \<Rightarrow> config_v241 option \<Rightarrow> pre_propose_state \<Rightarrow> pre_propose_migrate_msg
     \<Rightarrow> 'm single_choice_propose_msg pre_propose_outcome" where
  "pre_single_migrate deps old st msg =
     and_then (base_migrate deps old st msg) (\<lambda>(st, out).
     Ok (st\<lparr>pp_contract_info := Some (PRE_SINGLE_NAME, CONTRACT_VERSION)\<rparr>, out))"

section \<open>Multiple choice\<close>

definition PRE_MULTIPLE_NAME :: string where
  "PRE_MULTIPLE_NAME = ''crates.io:dao-pre-propose-multiple''"

record 'm propose_message_multiple =
  pmu_title :: string
  pmu_description :: string
  pmu_choices :: "'m multiple_choice_option list"
  pmu_vote :: "multiple_choice_auto_vote option"

definition fill_multiple ::
  "message_info \<Rightarrow> 'm propose_message_multiple \<Rightarrow> 'm multiple_choice_propose_msg" where
  "fill_multiple info m =
     \<lparr>mpm_title = pmu_title m, mpm_description = pmu_description m, mpm_choices = pmu_choices m,
      mpm_proposer = Some (sender info), mpm_vote = pmu_vote m\<rparr>"

definition pre_multiple_instantiate ::
  "'x token_querier_scheme \<Rightarrow> pre_propose_state \<Rightarrow> message_info \<Rightarrow> pre_propose_instantiate_msg
     \<Rightarrow> 'm multiple_choice_propose_msg pre_propose_outcome" where
  "pre_multiple_instantiate deps st info msg =
     and_then (base_instantiate deps st info msg) (\<lambda>(st, out).
     Ok (st\<lparr>pp_contract_info := Some (PRE_MULTIPLE_NAME, CONTRACT_VERSION)\<rparr>, out))"

definition pre_multiple_execute ::
  "'x token_querier_scheme \<Rightarrow> pre_propose_state \<Rightarrow> env \<Rightarrow> message_info
     \<Rightarrow> 'm propose_message_multiple pre_propose_execute_msg
     \<Rightarrow> 'm multiple_choice_propose_msg pre_propose_outcome" where
  "pre_multiple_execute deps st env info msg =
     base_execute deps st env info (internalize fill_multiple info msg)"

definition pre_multiple_migrate ::
  "'x token_querier_scheme \<Rightarrow> config_v241 option \<Rightarrow> pre_propose_state \<Rightarrow> pre_propose_migrate_msg
     \<Rightarrow> 'm multiple_choice_propose_msg pre_propose_outcome" where
  "pre_multiple_migrate deps old st msg =
     and_then (base_migrate deps old st msg) (\<lambda>(st, out).
     Ok (st\<lparr>pp_contract_info := Some (PRE_MULTIPLE_NAME, CONTRACT_VERSION)\<rparr>, out))"

section \<open>Who may submit\<close>

definition may_submit :: "'x token_querier_scheme \<Rightarrow> pre_propose_state \<Rightarrow> addr \<Rightarrow> bool" where
  "may_submit deps st who \<longleftrightarrow>
     (\<exists>config. pp_config st = Some config \<and>
        (case submission_policy config of
           SubmitAnyone deny \<Rightarrow> who \<notin> set deny
         | SubmitSpecific members allow deny \<Rightarrow> who \<notin> set deny \<and>
             (who \<in> set allow \<or>
              members \<and> (\<exists>dao n. pp_dao st = Some dao \<and> query_voting_power deps dao who None = Ok n \<and> n \<noteq> 0))))"

lemma check_can_submit_Ok [result_ok]:
  "check_can_submit deps st who = Ok u \<longleftrightarrow> may_submit deps st who"
proof (cases "pp_config st")
  case None
  then show ?thesis by (simp add: check_can_submit_def may_submit_def)
next
  case (Some config)
  then show ?thesis
    by (cases "submission_policy config")
       (auto simp: check_can_submit_def may_submit_def result_ok split: if_splits)
qed

lemma only_dao_Ok [result_ok]:
  "only_dao st info = Ok dao \<longleftrightarrow> pp_dao st = Some dao \<and> sender info = dao"
  by (auto simp: only_dao_def result_ok split: if_splits)

section \<open>The invariant\<close>

text \<open>
  Configured and recorded deposits are not zero, the policy lets somebody submit and no address
  is on both of its lists.
\<close>

definition all_deposits_ok :: "(u64 \<rightharpoonup> checked_deposit_info option \<times> addr) \<Rightarrow> bool" where
  "all_deposits_ok ds \<longleftrightarrow> (\<forall>i d who. ds i = Some (Some d, who) \<longrightarrow> deposit_ok d)"

definition config_ok :: "pre_propose_config \<Rightarrow> bool" where
  "config_ok c \<longleftrightarrow>
     submission_policy_validate (submission_policy c) = Ok () \<and>
     (case deposit_info c of None \<Rightarrow> True | Some d \<Rightarrow> deposit_ok d)"

definition pre_propose_inv :: "pre_propose_state \<Rightarrow> bool" where
  "pre_propose_inv st \<longleftrightarrow>
     (case pp_config st of None \<Rightarrow> True | Some c \<Rightarrow> config_ok c) \<and>
     all_deposits_ok (pp_deposits st) \<and> hooks_distinct (pp_proposal_submitted_hooks st)"

lemma all_deposits_ok_upd:
  "all_deposits_ok ds \<Longrightarrow> (case x of None \<Rightarrow> True | Some d \<Rightarrow> deposit_ok d) \<Longrightarrow> all_deposits_ok (ds(i \<mapsto> (x, who)))"
  by (auto simp: all_deposits_ok_def)

lemma transposed_deposit_ok:
  "transpose_opt (\<lambda>d. deposit_into_checked deps d dao) di = Ok di' \<Longrightarrow>
     (case di' of None \<Rightarrow> True | Some d \<Rightarrow> deposit_ok d)"
  by (cases di) (auto simp: result_ok dest: deposit_into_checked_ok(1))

lemma base_instantiate_inv:
  assumes "base_instantiate deps st info msg = Ok (st', out)" and "pre_propose_inv st"
  shows "pre_propose_inv st'"
proof -
  from assms(1) obtain dao di where
    "transpose_opt (\<lambda>d. deposit_into_checked deps d dao) (pim_deposit_info msg) = Ok di"
    "submission_policy_validate (pim_submission_policy msg) = Ok ()"
    "pp_config st' = Some \<lparr>deposit_info = di, submission_policy = pim_submission_policy msg\<rparr>"
    "pp_deposits st' = pp_deposits st" "pp_proposal_submitted_hooks st' = pp_proposal_submitted_hooks st"
    by (auto simp: base_instantiate_def and_then_Ok map_err_Ok)
  with assms(2) show ?thesis by (simp add: pre_propose_inv_def config_ok_def transposed_deposit_ok)
qed

lemma update_config_inv:
  assumes "base_execute_update_config deps st info di policy = Ok (st', out)" and "pre_propose_inv st"
  shows "pre_propose_inv st'"
proof -
  from assms(1) obtain dao di' prev where
    "transpose_opt (\<lambda>d. deposit_into_checked deps d dao) di = Ok di'" "pp_config st = Some prev"
    "case policy of None \<Rightarrow> True | Some p \<Rightarrow> submission_policy_validate p = Ok ()"
    "pp_config st' = Some \<lparr>deposit_info = di',
       submission_policy = (case policy of Some p \<Rightarrow> p | None \<Rightarrow> submission_policy prev)\<rparr>"
    "pp_deposits st' = pp_deposits st" "pp_proposal_submitted_hooks st' = pp_proposal_submitted_hooks st"
    by (auto simp: base_execute_update_config_def and_then_Ok map_err_Ok load_Ok split: option.splits)
  with assms(2) show ?thesis
    by (cases policy) (simp_all add: pre_propose_inv_def config_ok_def transposed_deposit_ok)
qed

lemma base_execute_propose_Ok:
  assumes "base_execute_propose deps st env info m = Ok (st', out)"
  obtains config a i ts where "may_submit deps st (sender info)" "pp_config st = Some config"
    "pp_proposal_module st = Some a" "ask_next_proposal_id deps a = Ok i"
    "case deposit_info config of
       None \<Rightarrow> ts = []
     | Some d \<Rightarrow> check_native_deposit_paid deps d info = Ok () \<and>
         ts = get_take_deposit_messages d (sender info) (contract_address env)"
    "st' = st\<lparr>pp_deposits := (pp_deposits st)(i \<mapsto> (deposit_info config, sender info))\<rparr>"
    "out = OutExecute (WasmExecute a m []) # submitted_hooks (pp_proposal_submitted_hooks st) m @
       map OutTransfer ts"
proof -
  from assms obtain config where config: "pp_config st = Some config"
    by (auto simp: base_execute_propose_def result_ok)
  show ?thesis
  proof (cases "deposit_info config")
    case None
    with config assms that [of config _ _ "[]"] show ?thesis
      by (auto simp: base_execute_propose_def result_ok)
  next
    case (Some d)
    with config assms
      that [of config _ _ "get_take_deposit_messages d (sender info) (contract_address env)"] show ?thesis
      by (auto simp: base_execute_propose_def result_ok)
  qed
qed

lemma base_completed_Ok:
  assumes "base_execute_proposal_completed_hook st info i s = Ok (st', out)"
  shows "st' = st" and "pp_proposal_module st = Some (sender info)" and "s \<in> {Closed, Executed, Vetoed}"
    and "pp_deposits st i = Some (Some d, who) \<Longrightarrow>
      \<exists>receiver. (if should_refund_to_proposer s (refund_policy d) then receiver = who
                  else pp_dao st = Some receiver) \<and>
        out = map OutTransfer (get_return_deposit_message d receiver)"
    and "\<nexists>d who. pp_deposits st i = Some (Some d, who) \<Longrightarrow> out = []"
  using assms
  by (auto simp: base_execute_proposal_completed_hook_def result_ok split: if_splits option.splits)

lemma base_execute_inv:
  assumes "base_execute deps st env info msg = Ok (st', out)" and "pre_propose_inv st"
  shows "pre_propose_inv st'"
proof (cases msg)
  case (PpPropose m)
  with assms(1) have "base_execute_propose deps st env info m = Ok (st', out)" by (simp add: base_execute_def)
  then show ?thesis
    by (rule base_execute_propose_Ok)
       (use assms(2) in \<open>simp add: pre_propose_inv_def config_ok_def all_deposits_ok_upd\<close>)
next
  case (PpUpdateConfig di policy)
  with assms show ?thesis by (auto simp: base_execute_def intro: update_config_inv)
next
  case (PpUpdateSubmissionPolicy da dr sm aa ar)
  with assms show ?thesis
    by (auto simp: base_execute_def base_execute_update_submission_policy_def pre_propose_inv_def
        config_ok_def result_ok)
next
  case (PpProposalCompletedHook i s)
  with assms show ?thesis by (auto simp: base_execute_def dest: base_completed_Ok(1))
next
  case (PpWithdraw d)
  with assms show ?thesis
    by (auto simp: base_execute_def base_execute_withdraw_def result_ok split: option.splits if_splits)
qed (use assms in \<open>auto simp: base_execute_def base_execute_add_proposal_submitted_hook_def
      base_execute_remove_proposal_submitted_hook_def pre_propose_inv_def result_ok
      intro: add_hook_distinct remove_hook_distinct\<close>)

text \<open>Only a submission records a deposit; the DAO, the module and the deposits never change otherwise.\<close>

lemma base_execute_frame:
  assumes "base_execute deps st env info msg = Ok (st', out)"
  shows "pp_dao st' = pp_dao st" and "pp_proposal_module st' = pp_proposal_module st"
    and "(\<nexists>m. msg = PpPropose m) \<Longrightarrow> pp_deposits st' = pp_deposits st"
  using assms
  by (cases msg; auto simp: base_execute_def base_execute_propose_def base_execute_update_config_def
      base_execute_update_submission_policy_def base_execute_withdraw_def
      base_execute_proposal_completed_hook_def base_execute_add_proposal_submitted_hook_def
      base_execute_remove_proposal_submitted_hook_def result_ok split: option.splits if_splits)+

end
