(* ===== verification/Pre_Propose_System.thy ===== *)
theory Pre_Propose_System
  imports Pre_Propose_Modules Proposal_Lifecycle
begin

text \<open>
  A proposal module together with its pre-propose contract. The pre-propose contract asks the module
  for the next proposal number, records the deposit under it and has the module create the
  proposal in the same transaction; the module tells the pre-propose contract when a proposal is
  completed, and the deposit is paid out then. The locale \<open>completing_module\<close> states what this
  relies on, and shows that every deposit is paid out at most once, as it was recorded; both
  proposal modules are instances.
\<close>

section \<open>The joint steps\<close>

text \<open>The completions that a response reports to the pre-propose contract at address \<open>a\<close>.\<close>

definition completion :: "addr \<Rightarrow> 'm module_sub_msg \<Rightarrow> (u64 \<times> status) list" where
  "completion a m =
     (case msg_body m of
        WasmExecute b (ProposalCompletedHook i s) _ \<Rightarrow> if b = a then [(i, s)] else []
      | _ \<Rightarrow> [])"

definition completions :: "addr \<Rightarrow> 'm module_sub_msg list \<Rightarrow> (u64 \<times> status) list" where
  "completions a ms = concat (map (completion a) ms)"

text \<open>
  \<open>mstep s cs s'\<close>: the module handles a message or a reply and reports the completions
  \<open>cs\<close>. \<open>creates s m i s'\<close>: it handles the forwarded message \<open>m\<close>, whose proposal gets the number \<open>i\<close>.
  A payout is logged with the proposal, the reported status and the transfers.
\<close>

type_synonym payout = "u64 \<times> status \<times> transfer_msg list"

definition transfers :: "'p pre_propose_out list \<Rightarrow> transfer_msg list" where
  "transfers out = concat (map (\<lambda>x. case x of OutTransfer t \<Rightarrow> [t] | OutExecute _ \<Rightarrow> []) out)"

inductive joint_step ::
  "addr \<Rightarrow> ('s \<Rightarrow> (u64 \<times> status) list \<Rightarrow> 's \<Rightarrow> bool) \<Rightarrow> ('s \<Rightarrow> 'p \<Rightarrow> u64 \<Rightarrow> 's \<Rightarrow> bool)
     \<Rightarrow> 's \<times> pre_propose_state \<Rightarrow> payout list \<Rightarrow> 's \<times> pre_propose_state \<Rightarrow> bool"
  for module mstep creates where
  joint_submit: "base_execute (deps :: token_querier) pp env info (PpPropose m) = Ok (pp', out) \<Longrightarrow>
      ask_next_proposal_id deps module = Ok i \<Longrightarrow> creates s m i s' \<Longrightarrow>
      joint_step module mstep creates (s, pp) [] (s', pp')"
| joint_module: "mstep s [] s' \<Longrightarrow> joint_step module mstep creates (s, pp) [] (s', pp)"
| joint_complete: "mstep s [(i, t)] s' \<Longrightarrow>
      base_execute (deps :: token_querier) pp env \<lparr>sender = module, funds = []\<rparr> (PpProposalCompletedHook i t) =
        Ok (pp', out :: 'p pre_propose_out list) \<Longrightarrow>
      joint_step module mstep creates (s, pp) [(i, t, transfers out)] (s', pp')"
| joint_other: "base_execute (deps :: token_querier) pp env info (msg :: 'p pre_propose_execute_msg) = Ok (pp', out) \<Longrightarrow>
       sender info \<noteq> module \<Longrightarrow>
      (\<nexists>m. msg = PpPropose m) \<Longrightarrow> joint_step module mstep creates (s, pp) [] (s, pp')"

inductive_cases joint_stepE: "joint_step module mstep creates x l y"

section \<open>Paying out\<close>

text \<open>
  What is owed when a proposal is reported with status \<open>t\<close>: the recorded deposit, to the proposer
  or to the DAO as the refund policy says, and nothing without a recorded deposit.
\<close>

definition owed :: "pre_propose_state \<Rightarrow> u64 \<Rightarrow> status \<Rightarrow> transfer_msg list \<Rightarrow> bool" where
  "owed pp i t ts \<longleftrightarrow>
     (case pp_deposits pp i of
        Some (Some d, who) \<Rightarrow>
          \<exists>receiver. (if refund_policy d = Always \<or> refund_policy d = OnlyPassed \<and> t = Executed
                      then receiver = who else pp_dao pp = Some receiver) \<and>
            ts = [get_transfer_to_message (denom d) receiver (amount d)]
      | _ \<Rightarrow> ts = [])"

lemma transfers_map [simp]: "transfers (map OutTransfer ts) = ts"
  by (induction ts) (simp_all add: transfers_def)

lemma transfers_simps [simp]:
  "transfers [] = []" "transfers (OutTransfer t # out) = t # transfers out"
  by (simp_all add: transfers_def)

lemma should_refund_iff:
  "should_refund_to_proposer t policy \<longleftrightarrow> policy = Always \<or> policy = OnlyPassed \<and> t = Executed"
  by (cases policy) (simp_all add: should_refund_to_proposer_def)

lemma completed_pays:
  assumes "base_execute_proposal_completed_hook pp info i t = Ok (pp', out)" and "pre_propose_inv pp"
  shows "owed pp i t (transfers out)"
proof (cases "\<exists>d who. pp_deposits pp i = Some (Some d, who)")
  case True
  then obtain d who where d: "pp_deposits pp i = Some (Some d, who)" by blast
  with assms(2) have "deposit_ok d" by (auto simp: pre_propose_inv_def all_deposits_ok_def)
  with base_completed_Ok(4) [OF assms(1) d] d show ?thesis
    by (auto simp: owed_def return_deposit_ok should_refund_iff split: if_splits)
next
  case False
  with base_completed_Ok(5) [OF assms(1)] show ?thesis
    by (auto simp: owed_def split: option.splits)
qed

text \<open>The report of the module is never refused, so the module is not cut off.\<close>

lemma completed_accepted:
  assumes "pp_proposal_module pp = Some (sender info)" and "pp_dao pp \<noteq> None"
    and "t \<in> {Closed, Executed, Vetoed}"
  shows "\<exists>out. base_execute_proposal_completed_hook pp info i t = Ok (pp, out)"
  using assms by (auto simp: base_execute_proposal_completed_hook_def split: option.split)

section \<open>The contract of the module\<close>

locale completing_module =
  fixes mstep :: "'s \<Rightarrow> (u64 \<times> status) list \<Rightarrow> 's \<Rightarrow> bool"
    and creates :: "'s \<Rightarrow> 'p \<Rightarrow> u64 \<Rightarrow> 's \<Rightarrow> bool"
    and inv :: "'s \<Rightarrow> bool"
    and known :: "'s \<Rightarrow> u64 set"
    and settled :: "'s \<Rightarrow> u64 \<Rightarrow> status \<Rightarrow> bool"
  assumes mstep_inv: "mstep s cs s' \<Longrightarrow> inv s \<Longrightarrow> inv s'"
    and creates_inv: "creates s m i s' \<Longrightarrow> inv s \<Longrightarrow> inv s'"
    and mstep_known: "mstep s cs s' \<Longrightarrow> inv s \<Longrightarrow> known s \<subseteq> known s'"
    and creates_known: "creates s m i s' \<Longrightarrow> inv s \<Longrightarrow> i \<notin> known s \<and> insert i (known s) \<subseteq> known s'"
    and mstep_settled: "mstep s cs s' \<Longrightarrow> inv s \<Longrightarrow> settled s i t \<Longrightarrow> settled s' i t"
    and creates_settled: "creates s m j s' \<Longrightarrow> inv s \<Longrightarrow> settled s i t \<Longrightarrow> settled s' i t"
    and settled_known: "settled s i t \<Longrightarrow> i \<in> known s"
    and mstep_completes: "mstep s [(i, t)] s' \<Longrightarrow> inv s \<Longrightarrow> (\<nexists>u. settled s i u) \<and> settled s' i t"
begin

text \<open>The contract of the pair: deposits belong to known proposals.\<close>

definition joint_inv :: "addr \<Rightarrow> 's \<times> pre_propose_state \<Rightarrow> bool" where
  "joint_inv module x \<longleftrightarrow>
     (case x of (s, pp) \<Rightarrow> inv s \<and> pre_propose_inv pp \<and> dom (pp_deposits pp) \<subseteq> known s \<and>
        pp_proposal_module pp = Some module)"

lemma submit_records:
  assumes "base_execute deps pp env info (PpPropose m) = Ok (pp', out)"
    and "pp_proposal_module pp = Some module" and "ask_next_proposal_id deps module = Ok i"
  shows "\<exists>config. pp_config pp = Some config \<and> may_submit deps pp (sender info) \<and>
    pp' = pp\<lparr>pp_deposits := (pp_deposits pp)(i \<mapsto> (deposit_info config, sender info))\<rparr>"
proof -
  from assms(1) have "base_execute_propose deps pp env info m = Ok (pp', out)" by (simp add: base_execute_def)
  then show ?thesis by (rule base_execute_propose_Ok) (use assms(2,3) in auto)
qed

lemma joint_step_keeps:
  assumes "joint_step module mstep creates (s, pp) l (s', pp')" and "joint_inv module (s, pp)"
  shows "joint_inv module (s', pp')" and "known s \<subseteq> known s'" and "pp_dao pp' = pp_dao pp"
    and "i \<in> known s \<Longrightarrow> pp_deposits pp' i = pp_deposits pp i"
    and "settled s i t \<Longrightarrow> settled s' i t"
proof -
  have j: "inv s" "pre_propose_inv pp" "dom (pp_deposits pp) \<subseteq> known s" "pp_proposal_module pp = Some module"
    using assms(2) by (simp_all add: joint_inv_def)
  have "joint_inv module (s', pp') \<and> known s \<subseteq> known s' \<and> pp_dao pp' = pp_dao pp \<and>
      (i \<in> known s \<longrightarrow> pp_deposits pp' i = pp_deposits pp i) \<and> (settled s i t \<longrightarrow> settled s' i t)"
    using assms(1)
  proof (cases rule: joint_step.cases)
    case (joint_submit deps env info m out k)
    obtain config :: pre_propose_config where
      "pp' = pp\<lparr>pp_deposits := (pp_deposits pp)(k \<mapsto> (deposit_info config, sender info))\<rparr>"
      using submit_records [OF joint_submit(2) j(4) joint_submit(3)] by blast
    with joint_submit creates_inv [OF joint_submit(4) j(1)] creates_known [OF joint_submit(4) j(1)]
      creates_settled [OF joint_submit(4) j(1)] base_execute_inv [OF joint_submit(2) j(2)] j(3,4)
    show ?thesis by (auto simp: joint_inv_def)
  next
    case joint_module
    with mstep_inv mstep_known mstep_settled j show ?thesis by (fastforce simp: joint_inv_def)
  next
    case (joint_complete k u deps env out)
    have "pp' = pp" using joint_complete(3) by (auto simp: base_execute_def dest: base_completed_Ok(1))
    with joint_complete mstep_inv mstep_known mstep_settled j show ?thesis
      by (fastforce simp: joint_inv_def)
  next
    case (joint_other deps env info msg out)
    with base_execute_frame [OF joint_other(3)] base_execute_inv [OF joint_other(3) j(2)] j
    show ?thesis by (auto simp: joint_inv_def)
  qed
  then show "joint_inv module (s', pp')" and "known s \<subseteq> known s'" and "pp_dao pp' = pp_dao pp"
    and "i \<in> known s \<Longrightarrow> pp_deposits pp' i = pp_deposits pp i"
    and "settled s i t \<Longrightarrow> settled s' i t" by blast+
qed

lemma joint_step_pays:
  assumes "joint_step module mstep creates (s, pp) l (s', pp')" and "joint_inv module (s, pp)"
  shows "l = [] \<or> (\<exists>i t ts. l = [(i, t, ts)] \<and> (\<nexists>u. settled s i u) \<and> settled s' i t \<and> owed pp' i t ts)"
  using assms(1)
proof (cases rule: joint_step.cases)
  case (joint_complete i t deps env out)
  have hook: "base_execute_proposal_completed_hook pp \<lparr>sender = module, funds = []\<rparr> i t = Ok (pp', out)"
    using joint_complete(3) by (simp add: base_execute_def)
  have "pre_propose_inv pp" "inv s" using assms(2) by (simp_all add: joint_inv_def)
  with joint_complete(1,2) completed_pays [OF hook] base_completed_Ok(1) [OF hook] mstep_completes show ?thesis
    by simp
qed simp_all

definition paid_as_owed :: "payout list \<Rightarrow> 's \<times> pre_propose_state \<Rightarrow> bool" where
  "paid_as_owed log x \<longleftrightarrow>
     (case x of (s, pp) \<Rightarrow> distinct (map fst log) \<and>
        (\<forall>(i, t, ts) \<in> set log. settled s i t \<and> owed pp i t ts))"

lemma owed_frame: "pp_deposits pp' i = pp_deposits pp i \<Longrightarrow> pp_dao pp' = pp_dao pp \<Longrightarrow>
    owed pp' i t ts = owed pp i t ts"
  by (auto simp: owed_def split: option.splits prod.splits)

lemma paid_as_owed_step:
  assumes "paid_as_owed log (s, pp)" and "joint_step module mstep creates (s, pp) l (s', pp')"
    and "joint_inv module (s, pp)"
  shows "paid_as_owed (log @ l) (s', pp')"
proof -
  note keeps = joint_step_keeps [OF assms(2,3)]
  have old: "settled s' i t \<and> owed pp' i t ts" if "(i, t, ts) \<in> set log" for i t ts
  proof -
    from assms(1) that have "settled s i t" "owed pp i t ts" by (auto simp: paid_as_owed_def)
    with keeps(3-5) settled_known show ?thesis using owed_frame by blast
  qed
  from joint_step_pays [OF assms(2,3)] show ?thesis
  proof (elim disjE exE conjE)
    assume "l = []"
    with old assms(1) show ?thesis by (auto simp: paid_as_owed_def)
  next
    fix i t ts
    assume l: "l = [(i, t, ts)]" "\<nexists>u. settled s i u" "settled s' i t" "owed pp' i t ts"
    with assms(1) have "i \<notin> fst ` set log" by (force simp: paid_as_owed_def)
    with l old assms(1) show ?thesis by (auto simp: paid_as_owed_def)
  qed
qed

lemma joint_run_pays:
  assumes "module_run (joint_step module mstep creates) x log y" and "joint_inv module x"
  shows "joint_inv module y \<and> paid_as_owed log y \<and>
    (\<forall>i \<in> known (fst x). pp_deposits (snd y) i = pp_deposits (snd x) i) \<and>
    known (fst x) \<subseteq> known (fst y) \<and> pp_dao (snd y) = pp_dao (snd x)"
  using assms
proof (induction rule: module_run.induct)
  case (run_start x)
  then show ?case by (cases x) (simp add: paid_as_owed_def)
next
  case (run_step x log y l z)
  obtain s pp s' pp' where yz: "y = (s, pp)" "z = (s', pp')" by (cases y; cases z)
  have IH: "joint_inv module y" "paid_as_owed log y" "known (fst x) \<subseteq> known s" "pp_dao pp = pp_dao (snd x)"
    "\<forall>i \<in> known (fst x). pp_deposits pp i = pp_deposits (snd x) i"
    using run_step.IH [OF run_step.prems] yz by simp_all
  note keeps = joint_step_keeps [OF run_step.hyps(2) [unfolded yz] IH(1) [unfolded yz]]
  show ?case
    using keeps IH(3-5) paid_as_owed_step [OF IH(2) [unfolded yz] run_step.hyps(2) [unfolded yz] IH(1) [unfolded yz]]
    by (auto simp: yz)
qed

end

section \<open>What responses report\<close>

lemma completions_simps [simp]:
  "completions a [] = []" "completions a (ms @ ns) = completions a ms @ completions a ns"
  by (simp_all add: completions_def)

lemma completions_hooks [simp]:
  "completions a (new_proposal_hooks hs i p) = []"
  "completions a (proposal_status_changed_hooks hs i old new) = []"
  "completions a (new_vote_hooks hs i who v pow ind h f) = []"
  by (auto simp: completions_def completion_def new_proposal_hooks_def proposal_status_changed_hooks_def
      new_vote_hooks_def indexed_hooks_def reply_on_error_def)

lemma completions_completed [simp]:
  "completions a (proposal_completed_hooks policy i s) = (if policy = Module a then [(i, s)] else [])"
  by (cases policy)
     (simp_all add: completions_def completion_def proposal_completed_hooks_def reply_on_error_def)

lemma completions_initial_policy:
  "into_initial_policy_and_messages info dao = (policy, ms) \<Longrightarrow> completions a ms = []"
  by (auto simp: into_initial_policy_and_messages_def completions_def completion_def reply_on_success_def
      into_wasm_msg_def Let_def split: pre_propose_info.splits option.splits)

text \<open>A status that a completed proposal can have.\<close>

definition settled_as :: "status \<Rightarrow> status \<Rightarrow> bool" where
  "settled_as s t \<longleftrightarrow> t \<in> {Closed, Executed, Vetoed} \<and> (s = t \<or> t = Executed \<and> s = ExecutionFailed)"

lemma settled_as_becomes: "settled_as s t \<Longrightarrow> may_become s s' \<Longrightarrow> settled_as s' t"
  by (auto simp: settled_as_def may_become_def)

lemma concludes_settled: "concludes s t \<Longrightarrow> settled_as t t" "concludes s t \<Longrightarrow> \<not> settled_as s u"
  by (auto simp: concludes_def settled_as_def)

end
