(* ===== verification/Pre_Propose_With_Single.thy ===== *)
theory Pre_Propose_With_Single
  imports Pre_Propose_System Proposal_Single_Claims
begin

text \<open>
  \<open>dao-proposal-single\<close> with \<open>dao-pre-propose-single\<close> in front of it: the contract
  \<open>completing_module\<close> holds of the proposal module, and the statements about deposits.
\<close>

section \<open>The module keeps the contract\<close>

definition single_creates ::
  "addr \<Rightarrow> 'm single_state \<Rightarrow> 'm single_choice_propose_msg \<Rightarrow> u64 \<Rightarrow> 'm single_state \<Rightarrow> bool" where
  "single_creates a st m i st' \<longleftrightarrow>
     (\<exists>deps env info r. sender info = a \<and> next_proposal_id st = Ok i \<and>
        execute deps st env info (Propose m) = Ok (st', r))"

definition single_reports ::
  "addr \<Rightarrow> 'm single_state \<Rightarrow> (u64 \<times> status) list \<Rightarrow> 'm single_state \<Rightarrow> bool" where
  "single_reports a st cs st' \<longleftrightarrow>
     (\<exists>deps env info msg r. execute deps st env info msg = Ok (st', r) \<and> cs = completions a (messages r)) \<or>
     (\<exists>(deps :: 'm single_choice_proposal module_deps) msg r.
        reply deps st msg = Ok (st', r) \<and> reply_expected st msg \<and> cs = [])"

definition single_settled :: "'m single_state \<Rightarrow> u64 \<Rightarrow> status \<Rightarrow> bool" where
  "single_settled st i t \<longleftrightarrow> (\<exists>p. PROPOSALS st i = Some p \<and> settled_as (status p) t)"

lemma single_reports_step: "single_reports a st cs st' \<Longrightarrow> \<exists>l. single_step st l st'"
  by (auto simp: single_reports_def intro: step_execute step_reply)

lemma single_creates_step: "single_creates a st m i st' \<Longrightarrow> \<exists>l. single_step st l st'"
  by (auto simp: single_creates_def intro: step_execute)

lemma single_vote_reports:
  "execute_vote deps st env who pid v why = Ok (st', r) \<Longrightarrow> completions a (messages r) = []"
  by (erule execute_vote_cases) simp

lemma completions_dispatch [simp]: "completions a (dispatch config pid ms) = []"
  by (auto simp: dispatch_def completions_def completion_def reply_on_error_def sub_msg_new_def Let_def)

lemma single_execute_reports:
  assumes "execute deps st env info msg = Ok (st', r)" and "(i, t) \<in> set (completions a (messages r))"
  shows "\<exists>p s. PROPOSALS st i = Some p \<and> current_status deps p (block env) = Ok s \<and> concludes s t \<and>
    PROPOSALS st' = (PROPOSALS st)(i \<mapsto> p\<lparr>status := t\<rparr>)"
proof (cases msg)
  case (Propose m)
  with assms(1) have "execute_propose deps st env (sender info) m = Ok (st', r)" by (simp add: execute_def)
  then have "completions a (messages r) = []"
    by (rule execute_propose_cases)
       (auto simp: result_ok single_vote_reports split: option.splits)
  with assms(2) show ?thesis by simp
next
  case (Vote pid v why)
  with assms show ?thesis by (auto simp: execute_def single_vote_reports)
next
  case (Execute pid)
  with assms show ?thesis
    by (auto simp: execute_def execute_execute_def result_ok Let_def concludes_def may_execute_def
        split: if_splits)
next
  case (Veto pid)
  with assms show ?thesis
    by (auto simp: execute_def execute_veto_def result_ok Let_def concludes_def may_veto_def
        split: if_splits)
next
  case (Close pid)
  with assms show ?thesis
    by (auto simp: execute_def execute_close_def result_ok Let_def concludes_def split: if_splits)
qed (use assms in \<open>auto simp: execute_def admin_handler_defs execute_update_rationale_def result_ok
    completions_initial_policy split: if_splits prod.splits option.splits\<close>)

lemma current_status_settled: "settled_as (status p) t \<Longrightarrow> current_status cw p b = Ok (status p)"
  by (auto simp: current_status_def settled_as_def)

lemma single_reports_completes:
  assumes "single_reports a st [(i, t)] st'"
  shows "(\<nexists>u. single_settled st i u) \<and> single_settled st' i t"
proof -
  from assms obtain deps env info msg r where
    ex: "execute deps st env info msg = Ok (st', r)" and "[(i, t)] = completions a (messages r)"
    by (auto simp: single_reports_def)
  then have "(i, t) \<in> set (completions a (messages r))" by (metis list.set_intros(1))
  with ex obtain p s where p: "PROPOSALS st i = Some p" "current_status deps p (block env) = Ok s" "concludes s t"
    "PROPOSALS st' = (PROPOSALS st)(i \<mapsto> p\<lparr>status := t\<rparr>)"
    by (blast dest: single_execute_reports)
  have "\<not> settled_as (status p) u" for u
    using p(2) concludes_settled(2) [OF p(3), of u] current_status_settled [of p u deps "block env"] by auto
  with p concludes_settled(1) [OF p(3)] show ?thesis by (auto simp: single_settled_def)
qed

lemma single_step_settled:
  assumes "single_step st l st'" and "single_inv st" and "single_settled st i t"
  shows "single_settled st' i t"
proof -
  from assms(3) obtain p where p: "PROPOSALS st i = Some p" "settled_as (status p) t"
    by (auto simp: single_settled_def)
  from step_evolves [OF assms(1,2) p(1)] obtain q where "PROPOSALS st' i = Some q" "evolves p q" by blast
  with p(2) show ?thesis
    by (auto simp: single_settled_def evolves_def intro: settled_as_becomes)
qed

lemma single_step_known: "single_step st l st' \<Longrightarrow> single_inv st \<Longrightarrow> dom (PROPOSALS st) \<subseteq> dom (PROPOSALS st')"
  using step_evolves by fast

lemma single_creates_known:
  assumes "single_creates a st m i st'" and "single_inv st"
  shows "i \<notin> dom (PROPOSALS st)" and "i \<in> dom (PROPOSALS st')"
proof -
  from assms(1) obtain deps env r and info :: message_info where i: "next_proposal_id st = Ok i"
    and "execute_propose deps st env (sender info) m = Ok (st', r)"
    by (auto simp: single_creates_def execute_def)
  then have adv: "advance_proposal_id st = Ok (i, st\<lparr>PROPOSAL_COUNT := Some i\<rparr>)"
    by (simp add: advance_proposal_id_def)
  have "numbered st" using assms(2) by (simp add: single_inv_def)
  from numbered_next_free(1) [OF this advance_proposal_id_Ok(1) [OF adv]]
  show "i \<notin> dom (PROPOSALS st)" by auto
  from \<open>execute_propose deps st env (sender info) m = Ok (st', r)\<close> show "i \<in> dom (PROPOSALS st')"
  proof (cases rule: execute_propose_cases)
    case (1 config policy author voting_module expir tp min_period s j size st1 ms)
    have st1: "i \<in> dom (PROPOSALS st1)" using 1(10,13) adv by simp
    with 1(14) show ?thesis
      by (auto simp: result_ok split: option.splits dest!: vote_evolves)
  qed
qed

interpretation single_deposits:
  completing_module "single_reports a" "single_creates a" single_inv "\<lambda>st. dom (PROPOSALS st)" single_settled
proof
  fix st st' :: "'a single_state" and m i t and cs :: "(u64 \<times> status) list"
  show "single_inv st'" "dom (PROPOSALS st) \<subseteq> dom (PROPOSALS st')" "single_settled st i t \<Longrightarrow> single_settled st' i t"
    if "single_reports a st cs st'" "single_inv st"
    using that single_reports_step step_keeps_inv single_step_known single_step_settled by blast+
  show "single_inv st'" "single_settled st j t \<Longrightarrow> single_settled st' j t"
    "i \<notin> dom (PROPOSALS st) \<and> insert i (dom (PROPOSALS st)) \<subseteq> dom (PROPOSALS st')"
    if c: "single_creates a st m i st'" "single_inv st" for j
  proof -
    from single_creates_step [OF c(1)] obtain l where l: "single_step st l st'" ..
    show "single_inv st'" using l c(2) by (rule step_keeps_inv)
    show "single_settled st j t \<Longrightarrow> single_settled st' j t" using l c(2) by (rule single_step_settled)
    show "i \<notin> dom (PROPOSALS st) \<and> insert i (dom (PROPOSALS st)) \<subseteq> dom (PROPOSALS st')"
      using single_creates_known [OF c] single_step_known [OF l c(2)] by blast
  qed
qed (auto simp: single_reports_completes, auto simp: single_settled_def)

section \<open>Deposits\<close>

definition empty_pre_propose :: pre_propose_state where
  "empty_pre_propose =
     \<lparr>pp_contract_info = None, pp_proposal_module = None, pp_dao = None, pp_config = None,
      pp_deposits = Map.empty, pp_proposal_submitted_hooks = None\<rparr>"

abbreviation single_joint_run ::
  "addr \<Rightarrow> addr \<Rightarrow> 'm single_state \<times> pre_propose_state \<Rightarrow> payout list \<Rightarrow> 'm single_state \<times> pre_propose_state \<Rightarrow> bool" where
  "single_joint_run module a \<equiv> module_run (joint_step module (single_reports a) (single_creates a))"

section \<open>A concrete run of the pair\<close>

definition sample_must_pay :: "message_info \<Rightarrow> string \<Rightarrow> (nat, payment_error) result" where
  "sample_must_pay info d =
     (case funds info of
        [] \<Rightarrow> Err NoFunds
      | [c] \<Rightarrow> if coin_amount c = 0 then Err NoFunds
               else if coin_denom c = d then Ok (coin_amount c) else Err (MissingDenom d)
      | _ \<Rightarrow> Err MultipleDenoms)"

definition sample_tokens :: token_querier where
  "sample_tokens = dao_querier.extend sample_querier
     \<lparr>query_token_info = (\<lambda>_. Ok ()), query_bank_balance = (\<lambda>_ _. Ok 0),
      query_cw20_balance = (\<lambda>_ _. Ok 0), query_denom = (\<lambda>_. Ok ''utoken''),
      query_token_contract = (\<lambda>_. Err NotFound), ask_next_proposal_id = (\<lambda>_. Ok 1),
      query_module_dao = (\<lambda>_. Ok ''dao''), must_pay = sample_must_pay,
      version_matches = (\<lambda>_ _. None)\<rparr>"

lemma sample_must_pay_exact: "must_pay_exact sample_tokens"
  by (auto simp: must_pay_exact_def sample_tokens_def sample_must_pay_def dao_querier.extend_def
      split: list.splits if_splits)

definition joint_deposit :: checked_deposit_info where
  "joint_deposit = \<lparr>denom = Native ''utoken'', amount = 10, refund_policy = OnlyPassed\<rparr>"

definition joint_instantiate :: pre_propose_instantiate_msg where
  "joint_instantiate =
     \<lparr>pim_deposit_info = Some
        \<lparr>udi_denom = VotingModuleToken NativeType, udi_amount = 10, udi_refund_policy = OnlyPassed\<rparr>,
      pim_submission_policy = SubmitSpecific True [] [''eve'']\<rparr>"

definition joint_pp0 :: pre_propose_state where
  "joint_pp0 =
     \<lparr>pp_contract_info = Some (PRE_SINGLE_NAME, CONTRACT_VERSION), pp_proposal_module = Some ''module'',
      pp_dao = Some ''dao'',
      pp_config = Some \<lparr>deposit_info = Some joint_deposit, submission_policy = SubmitSpecific True [] [''eve'']\<rparr>,
      pp_deposits = Map.empty, pp_proposal_submitted_hooks = None\<rparr>"

definition joint_pp :: pre_propose_state where
  "joint_pp = joint_pp0\<lparr>pp_deposits := [1 \<mapsto> (Some joint_deposit, ''cyd'')]\<rparr>"

definition guarded :: "string single_state \<Rightarrow> string single_state" where
  "guarded st = st\<lparr>CREATION_POLICY := Some (Module ''pre'')\<rparr>"

abbreviation "joint_executed \<equiv> guarded sample_executed"

definition joint_info :: message_info where
  "joint_info = \<lparr>sender = ''cyd'', funds = [\<lparr>coin_denom = ''utoken'', coin_amount = 10\<rparr>]\<rparr>"

definition joint_env :: env where
  "joint_env = \<lparr>block = sample_block 10, contract_address = ''pre''\<rparr>"

definition joint_message :: "string propose_message_single" where
  "joint_message = \<lparr>ps_title = ''raise'', ps_description = ''pay cyd'', ps_msgs = [''pay''], ps_vote = None\<rparr>"

lemmas joint_sample_defs =
  sample_tokens_def sample_must_pay_def joint_deposit_def joint_instantiate_def joint_pp0_def joint_pp_def
  guarded_def joint_info_def joint_env_def joint_message_def empty_pre_propose_def

lemma joint_instantiated:
  "pre_single_instantiate sample_tokens empty_pre_propose \<lparr>sender = ''module'', funds = []\<rparr> joint_instantiate =
     Ok (joint_pp0, [])"
  by (simp add: pre_single_instantiate_def base_instantiate_def deposit_into_checked_def
      denom_into_checked_def validate_native_denom_def is_ascii_alphabetic_def is_ascii_alphanumeric_def
      denom_char_def less_eq_char_def submission_policy_validate_def
      joint_sample_defs sample_defs dao_querier.extend_def)

lemma joint_run_start: "single_run sample_start [] (guarded sample_start)"
proof -
  have "reply single_deps sample_start
      \<lparr>rep_id = pre_propose_module_instantiation_id,
       parsed_instantiate_data = Ok \<lparr>res_contract_address = ''pre'', res_data = None\<rparr>\<rparr> =
     Ok (guarded sample_start, no_messages)"
    by (simp add: reply_def tagged_module_ids sample_single_defs guarded_def respond_def)
  then show ?thesis
    by (intro run_one step_reply) (auto simp: reply_expected_def tagged_module_ids)
qed

lemma joint_submission:
  "pre_single_execute sample_tokens joint_pp0 joint_env joint_info (PpPropose joint_message) =
     Ok (joint_pp, [OutExecute (WasmExecute ''module'' (fill_single joint_info joint_message) [])])"
  by (simp add: pre_single_execute_def internalize_def base_execute_def base_execute_propose_def
      check_can_submit_def check_native_deposit_paid_def get_take_deposit_messages_def submitted_hooks_def
      joint_sample_defs sample_defs dao_querier.extend_def)

lemma joint_created:
  "single_creates ''pre'' (guarded sample_start) (fill_single joint_info joint_message) 1 (guarded sample_proposed)"
proof -
  have "execute single_deps (guarded sample_start) (sample_env 10) (sent_by ''pre'')
      (Propose (fill_single joint_info joint_message)) = Ok (guarded sample_proposed, no_messages)"
    by (simp add: eval_single sample_single_defs joint_sample_defs fill_single_def)
  moreover have "next_proposal_id (guarded sample_start) = Ok 1"
    by (simp add: eval_single sample_single_defs guarded_def)
  ultimately show ?thesis unfolding single_creates_def by (metis message_info.select_convs(1) sent_by_def)
qed

lemma joint_voted: "single_reports ''pre'' (guarded sample_proposed) [] (guarded sample_voted)"
proof -
  have "execute single_deps (guarded sample_proposed) (sample_env 20) (sent_by ''ann'') (Vote 1 Yes None) =
      Ok (guarded sample_voted, no_messages)"
    by (simp add: eval_single sample_single_defs guarded_def)
  moreover have "completions ''pre'' (messages no_messages) = []" by (simp add: no_messages_def)
  ultimately show ?thesis unfolding single_reports_def by metis
qed

lemma joint_reported: "single_reports ''pre'' (guarded sample_voted) [(1, Executed)] joint_executed"
proof -
  obtain r where "execute single_deps (guarded sample_voted) (sample_env 50) (sent_by ''bob'') (Execute 1) =
      Ok (joint_executed, r)" "completions ''pre'' (messages r) = [(1, Executed)]"
    by (simp add: eval_single sample_single_defs guarded_def completions_def completion_def reply_on_error_def)
  then show ?thesis unfolding single_reports_def by metis
qed

lemma joint_run_submitted:
  "single_joint_run ''module'' ''pre'' (guarded sample_start, joint_pp0) [] (guarded sample_proposed, joint_pp)"
proof -
  have "ask_next_proposal_id sample_tokens ''module'' = Ok 1" by (simp add: sample_tokens_def dao_querier.extend_def)
  then show ?thesis
    by (intro run_one joint_submit [where creates = "single_creates ''pre''", OF _ _ joint_created])
       (use joint_submission in \<open>simp_all add: pre_single_execute_def internalize_def\<close>)
qed

lemma joint_run_all:
  "single_joint_run ''module'' ''pre'' (guarded sample_start, joint_pp0)
     [(1, Executed, [BankSend ''cyd'' [\<lparr>coin_denom = ''utoken'', coin_amount = 10\<rparr>]])] (joint_executed, joint_pp)"
proof -
  let ?step = "joint_step ''module'' (single_reports ''pre'') (single_creates ''pre'')"
  have v: "?step (guarded sample_proposed, joint_pp) [] (guarded sample_voted, joint_pp)"
    by (rule joint_module [where mstep = "single_reports ''pre''", OF joint_voted])
  have "base_execute sample_tokens joint_pp (sample_env 50) \<lparr>sender = ''module'', funds = []\<rparr>
      (PpProposalCompletedHook 1 Executed :: string single_choice_propose_msg pre_propose_execute_msg) =
    Ok (joint_pp, [OutTransfer (BankSend ''cyd'' [\<lparr>coin_denom = ''utoken'', coin_amount = 10\<rparr>])])"
    by (simp add: base_execute_def base_execute_proposal_completed_hook_def should_refund_to_proposer_def
        get_return_deposit_message_def get_transfer_to_message_def joint_sample_defs)
  from joint_complete [where mstep = "single_reports ''pre''" and creates = "single_creates ''pre''",
      OF joint_reported this]
  have c: "?step (guarded sample_voted, joint_pp)
      [(1, Executed, [BankSend ''cyd'' [\<lparr>coin_denom = ''utoken'', coin_amount = 10\<rparr>]])] (joint_executed, joint_pp)"
    by simp
  from run_step [of ?step, OF run_step [of ?step, OF joint_run_submitted v] c] show ?thesis by simp
qed

lemma pre_single_instantiate_joint:
  assumes "pre_single_instantiate deps empty_pre_propose \<lparr>sender = module, funds = fs\<rparr> msg = Ok (pp, out)"
    and "single_inv st"
  shows "single_deposits.joint_inv module (st, pp)" and "pp_dao pp \<noteq> None"
proof -
  from assms(1) obtain pp' where
    pp': "base_instantiate deps empty_pre_propose \<lparr>sender = module, funds = fs\<rparr> msg = Ok (pp', out)"
    and pp: "pp = pp'\<lparr>pp_contract_info := Some (PRE_SINGLE_NAME, CONTRACT_VERSION)\<rparr>"
    by (auto simp: pre_single_instantiate_def result_ok)
  have "pre_propose_inv empty_pre_propose"
    by (simp add: pre_propose_inv_def empty_pre_propose_def all_deposits_ok_def hooks_distinct_def)
  from base_instantiate_inv [OF pp' this] have "pre_propose_inv pp" by (simp add: pp pre_propose_inv_def)
  moreover from pp' pp have "pp_deposits pp = Map.empty" "pp_proposal_module pp = Some module" "pp_dao pp \<noteq> None"
    by (auto simp: base_instantiate_def empty_pre_propose_def result_ok)
  ultimately show "single_deposits.joint_inv module (st, pp)" and "pp_dao pp \<noteq> None"
    using assms(2) by (simp_all add: single_deposits.joint_inv_def)
qed

lemma single_joint_reachable:
  assumes "instantiate deps0 empty_state info0 msg0 = Ok (st0, r0)" and "single_run st0 log0 st1"
    and "pre_single_instantiate deps1 empty_pre_propose \<lparr>sender = module, funds = fs\<rparr> msg1 = Ok (pp1, out1)"
    and "single_joint_run module a (st1, pp1) log (st, pp)"
  shows "single_deposits.joint_inv module (st, pp)" and "single_deposits.paid_as_owed log (st, pp)"
    and "pp_dao pp \<noteq> None"
proof -
  have "single_inv st1" using assms(1,2) by (blast intro: run_keeps_inv instantiate_inv)
  note start = pre_single_instantiate_joint [OF assms(3) this]
  from single_deposits.joint_run_pays [OF assms(4) start(1)] start(2)
  show "single_deposits.joint_inv module (st, pp)" and "single_deposits.paid_as_owed log (st, pp)"
    and "pp_dao pp \<noteq> None" by simp_all
qed

text \<open>C12: deposits are settled exactly once. Let the pre-propose contract be instantiated by a
  reachable proposal module, and let both run together in any way. Then every proposal is paid out
  for at most once; a payout happens for a proposal that is then closed, executed (possibly with
  failing messages) or vetoed; it transfers exactly the deposit recorded when the proposal was
  submitted, to the proposer when the refund policy says so for this status and to the DAO
  otherwise, and nothing when no deposit was taken. And whenever the module reports a completed
  proposal the report is accepted and the payout made.\<close>

theorem deposits_settled_once:
  assumes "instantiate deps0 empty_state info0 msg0 = Ok (st0, r0)" and "single_run st0 log0 st1"
    and "pre_single_instantiate deps1 empty_pre_propose \<lparr>sender = module, funds = fs\<rparr> msg1 = Ok (pp1, out1)"
    and "single_joint_run module a (st1, pp1) log (st, pp)"
  shows "distinct (map fst log) \<and>
    (\<forall>(i, t, ts) \<in> set log. single_settled st i t \<and> owed pp i t ts) \<and>
    (\<forall>i t st'. single_reports a st [(i, t)] st' \<longrightarrow>
       (\<exists>ts. joint_step module (single_reports a) (single_creates a) (st, pp) [(i, t, ts)] (st', pp)))"
proof -
  note reach = single_joint_reachable [OF assms]
  have "\<exists>ts. joint_step module (single_reports a) (single_creates a) (st, pp) [(i, t, ts)] (st', pp)"
    if "single_reports a st [(i, t)] st'" for i t st'
  proof -
    have "t \<in> {Closed, Executed, Vetoed}"
      using single_reports_completes [OF that] by (auto simp: single_settled_def settled_as_def)
    moreover have "pp_proposal_module pp = Some module" using reach(1) by (simp add: single_deposits.joint_inv_def)
    ultimately obtain out :: "'a single_choice_propose_msg pre_propose_out list" where
      "base_execute_proposal_completed_hook pp \<lparr>sender = module, funds = []\<rparr> i t = Ok (pp, out)"
      using completed_accepted [of pp "\<lparr>sender = module, funds = []\<rparr>" t i] reach(3) by auto
    then have "base_execute deps pp env \<lparr>sender = module, funds = []\<rparr> (PpProposalCompletedHook i t) =
        Ok (pp, out)" for deps :: token_querier and env
      by (simp add: base_execute_def)
    from joint_complete [where mstep = "single_reports a", OF that this] show ?thesis by blast
  qed
  with reach(2) show ?thesis by (auto simp: single_deposits.paid_as_owed_def)
qed

theorem deposits_settled_once_witness:
  "owed joint_pp 1 Executed [BankSend ''cyd'' [\<lparr>coin_denom = ''utoken'', coin_amount = 10\<rparr>]] \<and>
   single_settled joint_executed 1 Executed"
  using deposits_settled_once [OF sample_instantiated joint_run_start joint_instantiated joint_run_all] by simp

text \<open>what an accepted submission does. In a reachable state of the pair, a proposal is accepted
  only from a sender whom the policy allows, with exactly the configured deposit: the coins sent
  along, or a transfer of the tokens that the contract orders. The deposit and the sender are
  recorded under the number the new proposal gets, where no proposal exists yet, and the first
  message forwards the proposal with the sender as its proposer.\<close>

theorem submission_takes_deposit:
  assumes "instantiate deps0 empty_state info0 msg0 = Ok (st0, r0)" and "single_run st0 log0 st1"
    and "pre_single_instantiate deps1 empty_pre_propose \<lparr>sender = module, funds = fs\<rparr> msg1 = Ok (pp1, out1)"
    and "single_joint_run module a (st1, pp1) log (st, pp)"
    and "pre_single_execute deps pp env info (PpPropose m) = Ok (pp', out)"
    and "ask_next_proposal_id deps module = next_proposal_id st" and "must_pay_exact deps"
  shows "\<exists>config i. pp_config pp = Some config \<and> may_submit deps pp (sender info) \<and>
    next_proposal_id st = Ok i \<and> PROPOSALS st i = None \<and>
    pp' = pp\<lparr>pp_deposits := (pp_deposits pp)(i \<mapsto> (deposit_info config, sender info))\<rparr> \<and>
    hd out = OutExecute (WasmExecute module (fill_single info m) []) \<and>
    (case deposit_info config of
       None \<Rightarrow> transfers out = []
     | Some d \<Rightarrow> hands_over d info (contract_address env) (transfers out))"
proof -
  have j: "single_inv st" "pre_propose_inv pp" "pp_proposal_module pp = Some module"
    using single_joint_reachable(1) [OF assms(1-4)] by (simp_all add: single_deposits.joint_inv_def)
  have ts: "transfers (OutExecute x # submitted_hooks hs y @ map OutTransfer ts) = ts" for x hs y ts
    by (induction ts) (simp_all add: transfers_def submitted_hooks_def comp_def)
  from assms(5) have "base_execute_propose deps pp env info (fill_single info m) = Ok (pp', out)"
    by (simp add: pre_single_execute_def internalize_def base_execute_def)
  then show ?thesis
  proof (rule base_execute_propose_Ok)
    fix config b i us
    assume c: "may_submit deps pp (sender info)" "pp_config pp = Some config" "pp_proposal_module pp = Some b"
      "ask_next_proposal_id deps b = Ok i"
      "case deposit_info config of None \<Rightarrow> us = []
       | Some d \<Rightarrow> check_native_deposit_paid deps d info = Ok () \<and>
           us = get_take_deposit_messages d (sender info) (contract_address env)"
      "pp' = pp\<lparr>pp_deposits := (pp_deposits pp)(i \<mapsto> (deposit_info config, sender info))\<rparr>"
      "out = OutExecute (WasmExecute b (fill_single info m) []) #
         submitted_hooks (pp_proposal_submitted_hooks pp) (fill_single info m) @ map OutTransfer us"
    then have b: "b = module" and i: "next_proposal_id st = Ok i" using j(3) assms(6) by auto
    have "numbered st" using j(1) by (simp add: single_inv_def)
    moreover have "advance_proposal_id st = Ok (i, st\<lparr>PROPOSAL_COUNT := Some i\<rparr>)"
      using i by (simp add: advance_proposal_id_def)
    ultimately have "PROPOSALS st i = None" by (blast intro: numbered_next_free(1) advance_proposal_id_Ok(1))
    moreover have "deposit_ok d" if "deposit_info config = Some d" for d
      using j(2) c(2) that by (simp add: pre_propose_inv_def config_ok_def)
    ultimately show ?thesis
      using c b i assms(7) by (auto simp: ts intro!: deposit_handed_over split: option.splits)
  qed
qed

theorem submission_takes_deposit_witness:
  "may_submit sample_tokens joint_pp0 ''cyd'' \<and>
   hands_over joint_deposit joint_info ''pre'' []"
proof -
  have "ask_next_proposal_id sample_tokens ''module'' = next_proposal_id (guarded sample_start)"
    by (simp add: eval_single sample_single_defs guarded_def sample_tokens_def)
  from submission_takes_deposit [OF sample_instantiated joint_run_start joint_instantiated run_start
      joint_submission this sample_must_pay_exact]
  show ?thesis
    by (auto simp: joint_pp0_def joint_info_def joint_env_def transfers_def)
qed

end
