(* ===== verification/Pre_Propose_With_Multiple.thy ===== *)
theory Pre_Propose_With_Multiple
  imports Pre_Propose_System Proposal_Multiple_Claims
begin

text \<open>
  \<open>dao-proposal-multiple\<close> with \<open>dao-pre-propose-multiple\<close> in front of it: the contract
  \<open>completing_module\<close> holds of the proposal module, and the statements about deposits.
\<close>

section \<open>The module keeps the contract\<close>

definition multi_creates ::
  "addr \<Rightarrow> 'm multiple_state \<Rightarrow> 'm multiple_choice_propose_msg \<Rightarrow> u64 \<Rightarrow> 'm multiple_state \<Rightarrow> bool" where
  "multi_creates a st m i st' \<longleftrightarrow>
     (\<exists>deps env info r. sender info = a \<and> next_proposal_id st = Ok i \<and>
        execute deps st env info (Propose m) = Ok (st', r))"

definition multi_reports ::
  "addr \<Rightarrow> 'm multiple_state \<Rightarrow> (u64 \<times> status) list \<Rightarrow> 'm multiple_state \<Rightarrow> bool" where
  "multi_reports a st cs st' \<longleftrightarrow>
     (\<exists>deps env info msg r. execute deps st env info msg = Ok (st', r) \<and> cs = completions a (messages r)) \<or>
     (\<exists>(deps :: 'm multiple_choice_proposal module_deps) msg r.
        reply deps st msg = Ok (st', r) \<and> reply_expected st msg \<and> cs = [])"

definition multi_settled :: "'m multiple_state \<Rightarrow> u64 \<Rightarrow> status \<Rightarrow> bool" where
  "multi_settled st i t \<longleftrightarrow> (\<exists>p. PROPOSALS st i = Some p \<and> settled_as (status p) t)"

lemma multi_reports_step: "multi_reports a st cs st' \<Longrightarrow> \<exists>l. multi_step st l st'"
  by (auto simp: multi_reports_def intro: step_execute step_reply)

lemma multi_creates_step: "multi_creates a st m i st' \<Longrightarrow> \<exists>l. multi_step st l st'"
  by (auto simp: multi_creates_def intro: step_execute)

lemma multi_vote_reports:
  "execute_vote deps st env who pid v why = Ok (st', r) \<Longrightarrow> completions a (messages r) = []"
  by (erule multi_execute_vote_cases) simp

lemma multi_completions_dispatch [simp]: "completions a (dispatch config pid ms) = []"
  by (auto simp: dispatch_def completions_def completion_def reply_on_error_def sub_msg_new_def Let_def)

lemma multi_execute_reports:
  assumes "execute deps st env info msg = Ok (st', r)" and "(i, t) \<in> set (completions a (messages r))"
  shows "\<exists>p s. PROPOSALS st i = Some p \<and> current_status deps p (block env) = Ok s \<and> concludes s t \<and>
    PROPOSALS st' = (PROPOSALS st)(i \<mapsto> p\<lparr>status := t\<rparr>)"
proof (cases msg)
  case (Propose m)
  with assms(1) have "execute_propose deps st env (sender info) m = Ok (st', r)" by (simp add: execute_def)
  then have "completions a (messages r) = []"
    by (rule multi_execute_propose_cases)
       (auto simp: result_ok multi_vote_reports split: option.splits)
  with assms(2) show ?thesis by simp
next
  case (Vote pid v why)
  with assms show ?thesis by (auto simp: execute_def multi_vote_reports)
next
  case (Execute pid)
  with assms(1) have "execute_execute deps st env info pid = Ok (st', r)" by (simp add: execute_def)
  then show ?thesis
    by (rule multi_execute_execute_cases)
       (use assms(2) in \<open>auto simp: result_ok concludes_def may_execute_def split: if_splits\<close>)
next
  case (Veto pid)
  with assms show ?thesis
    by (auto simp: execute_def execute_veto_def result_ok Let_def concludes_def may_veto_def
        split: if_splits)
next
  case (Close pid)
  with assms show ?thesis
    by (auto simp: execute_def execute_close_def result_ok Let_def concludes_def split: if_splits)
qed (use assms in \<open>auto simp: execute_def multi_admin_handler_defs execute_update_rationale_def result_ok
    completions_initial_policy split: if_splits prod.splits option.splits\<close>)

lemma multi_current_status_settled: "settled_as (status p) t \<Longrightarrow> current_status cw p b = Ok (status p)"
  by (auto simp: current_status_def settled_as_def)

lemma multi_reports_completes:
  assumes "multi_reports a st [(i, t)] st'"
  shows "(\<nexists>u. multi_settled st i u) \<and> multi_settled st' i t"
proof -
  from assms obtain deps env info msg r where
    ex: "execute deps st env info msg = Ok (st', r)" and "[(i, t)] = completions a (messages r)"
    by (auto simp: multi_reports_def)
  then have "(i, t) \<in> set (completions a (messages r))" by (metis list.set_intros(1))
  with ex obtain p s where p: "PROPOSALS st i = Some p" "current_status deps p (block env) = Ok s" "concludes s t"
    "PROPOSALS st' = (PROPOSALS st)(i \<mapsto> p\<lparr>status := t\<rparr>)"
    by (blast dest: multi_execute_reports)
  have "\<not> settled_as (status p) u" for u
    using p(2) concludes_settled(2) [OF p(3), of u] multi_current_status_settled [of p u deps "block env"] by auto
  with p concludes_settled(1) [OF p(3)] show ?thesis by (auto simp: multi_settled_def)
qed

lemma multi_step_settled:
  assumes "multi_step st l st'" and "multi_inv st" and "multi_settled st i t"
  shows "multi_settled st' i t"
proof -
  from assms(3) obtain p where p: "PROPOSALS st i = Some p" "settled_as (status p) t"
    by (auto simp: multi_settled_def)
  from multi_step_evolves [OF assms(1,2) p(1)] obtain q where "PROPOSALS st' i = Some q" "evolves p q" by blast
  with p(2) show ?thesis
    by (auto simp: multi_settled_def evolves_def intro: settled_as_becomes)
qed

lemma multi_step_known: "multi_step st l st' \<Longrightarrow> multi_inv st \<Longrightarrow> dom (PROPOSALS st) \<subseteq> dom (PROPOSALS st')"
  using multi_step_evolves by fast

lemma multi_creates_known:
  assumes "multi_creates a st m i st'" and "multi_inv st"
  shows "i \<notin> dom (PROPOSALS st)" and "i \<in> dom (PROPOSALS st')"
proof -
  from assms(1) obtain deps env r and info :: message_info where i: "next_proposal_id st = Ok i"
    and "execute_propose deps st env (sender info) m = Ok (st', r)"
    by (auto simp: multi_creates_def execute_def)
  then have adv: "advance_proposal_id st = Ok (i, st\<lparr>PROPOSAL_COUNT := Some i\<rparr>)"
    by (simp add: advance_proposal_id_def)
  have "numbered st" using assms(2) by (simp add: multi_inv_def)
  from numbered_next_free(1) [OF this advance_proposal_id_Ok(1) [OF adv]]
  show "i \<notin> dom (PROPOSALS st)" by auto
  from \<open>execute_propose deps st env (sender info) m = Ok (st', r)\<close> show "i \<in> dom (PROPOSALS st')"
  proof (cases rule: multi_execute_propose_cases)
    case (1 config policy author voting_module cs expir tp min_period s j size st1 ms)
    have st1: "i \<in> dom (PROPOSALS st1)" using 1(11,14) adv by simp
    with 1(15) show ?thesis
      by (auto simp: result_ok split: option.splits dest!: multi_vote_evolves)
  qed
qed

interpretation multi_deposits:
  completing_module "multi_reports a" "multi_creates a" multi_inv "\<lambda>st. dom (PROPOSALS st)" multi_settled
proof
  fix st st' :: "'a multiple_state" and m i t and cs :: "(u64 \<times> status) list"
  show "multi_inv st'" "dom (PROPOSALS st) \<subseteq> dom (PROPOSALS st')" "multi_settled st i t \<Longrightarrow> multi_settled st' i t"
    if "multi_reports a st cs st'" "multi_inv st"
    using that multi_reports_step multi_step_keeps_inv multi_step_known multi_step_settled by blast+
  show "multi_inv st'" "multi_settled st j t \<Longrightarrow> multi_settled st' j t"
    "i \<notin> dom (PROPOSALS st) \<and> insert i (dom (PROPOSALS st)) \<subseteq> dom (PROPOSALS st')"
    if c: "multi_creates a st m i st'" "multi_inv st" for j
  proof -
    from multi_creates_step [OF c(1)] obtain l where l: "multi_step st l st'" ..
    show "multi_inv st'" using l c(2) by (rule multi_step_keeps_inv)
    show "multi_settled st j t \<Longrightarrow> multi_settled st' j t" using l c(2) by (rule multi_step_settled)
    show "i \<notin> dom (PROPOSALS st) \<and> insert i (dom (PROPOSALS st)) \<subseteq> dom (PROPOSALS st')"
      using multi_creates_known [OF c] multi_step_known [OF l c(2)] by blast
  qed
qed (auto simp: multi_reports_completes, auto simp: multi_settled_def)

end
