(* ===== verification/Staking_Store.thy ===== *)
theory Staking_Store
  imports Cw_Denom Dao_Hooks
begin

text \<open>
  What the staking contracts rely on from third-party crates, as parameters: historical storage
  (\<open>SnapshotMap\<close> and \<open>SnapshotItem\<close> of \<open>cw-storage-plus\<close>) and claims on tokens that
  are being unbonded (\<open>Claims\<close> of \<open>cw-controllers\<close>). The documented behaviour of each is a
  named hypothesis; lemmas show what balances and their total then are at every height.
\<close>

section \<open>Snapshots\<close>

text \<open>
  The state of a snapshot store is \<open>'s\<close>, its keys are \<open>'k\<close> and its values \<open>'v\<close>: the store as created, the
  current value, saving a value at a height, the value at the beginning of the block of a height
  and the current entries in ascending order.
\<close>

record ('s, 'k, 'v) snap_ops =
  snap_new :: 's
  snap_load :: "'s \<Rightarrow> 'k \<Rightarrow> 'v option"
  snap_save :: "'s \<Rightarrow> 'k \<Rightarrow> 'v \<Rightarrow> u64 \<Rightarrow> 's"
  snap_at :: "'s \<Rightarrow> 'k \<Rightarrow> u64 \<Rightarrow> 'v option"
  snap_range :: "'s \<Rightarrow> ('k \<times> 'v) list"

type_synonym ('s, 'k) snapshot_ops = "('s, 'k, nat) snap_ops"

text \<open>\<open>update\<close>: load, apply the closure, save at the height.\<close>

definition snap_update ::
  "('s, 'k, 'v, 'x) snap_ops_scheme \<Rightarrow> 's \<Rightarrow> 'k \<Rightarrow> u64 \<Rightarrow> ('v option \<Rightarrow> ('v, 'e) result) \<Rightarrow> ('s, 'e) result" where
  "snap_update ops s k h f = and_then (f (snap_load ops s k)) (\<lambda>v. Ok (snap_save ops s k v h))"

definition or_zero :: "nat option \<Rightarrow> nat" where
  "or_zero x = (case x of None \<Rightarrow> 0 | Some n \<Rightarrow> n)"

lemma or_zero_simps [simp]: "or_zero None = 0" "or_zero (Some n) = n"
  by (simp_all add: or_zero_def)

text \<open>
  The documented behaviour. \<open>till s h\<close> says that nothing was saved at a height above \<open>h\<close>;
  heights of a chain only grow. A value saved at a height is what later blocks see, and the past
  keeps what it had.
\<close>

definition snapshot_laws :: "('s, 'k, 'v, 'x) snap_ops_scheme \<Rightarrow> ('s \<Rightarrow> u64 \<Rightarrow> bool) \<Rightarrow> bool" where
  "snapshot_laws ops till \<longleftrightarrow>
     (\<forall>k h. snap_load ops (snap_new ops) k = None \<and> snap_at ops (snap_new ops) k h = None) \<and>
     (\<forall>h. till (snap_new ops) h) \<and>
     (\<forall>s k v h. till s h \<longrightarrow> till (snap_save ops s k v h) h) \<and>
     (\<forall>s h h'. till s h \<longrightarrow> h \<le> h' \<longrightarrow> till s h') \<and>
     (\<forall>s k v h k'. snap_load ops (snap_save ops s k v h) k' =
        (if k' = k then Some v else snap_load ops s k')) \<and>
     (\<forall>s k v h k' h'. till s h \<longrightarrow>
        snap_at ops (snap_save ops s k v h) k' h' =
          (if k' = k \<and> h < h' then Some v else snap_at ops s k' h')) \<and>
     (\<forall>s k h h'. till s h \<longrightarrow> h < h' \<longrightarrow> snap_at ops s k h' = snap_load ops s k)"

lemma snapshot_new:
  assumes "snapshot_laws ops till"
  shows "snap_load ops (snap_new ops) k = None" and "snap_at ops (snap_new ops) k h = None"
    and "till (snap_new ops) h"
  using assms by (simp_all add: snapshot_laws_def)

lemma snapshot_upto: "snapshot_laws ops till \<Longrightarrow> till s h \<Longrightarrow> h \<le> h' \<Longrightarrow> till s h'"
  unfolding snapshot_laws_def by blast

lemma snapshot_saved_upto: "snapshot_laws ops till \<Longrightarrow> till s h \<Longrightarrow> till (snap_save ops s k v h) h"
  by (simp add: snapshot_laws_def)

lemma snapshot_load:
  "snapshot_laws ops till \<Longrightarrow>
     snap_load ops (snap_save ops s k v h) k' = (if k' = k then Some v else snap_load ops s k')"
  unfolding snapshot_laws_def by blast

lemma snapshot_at:
  "snapshot_laws ops till \<Longrightarrow> till s h \<Longrightarrow>
     snap_at ops (snap_save ops s k v h) k' h' =
       (if k' = k \<and> h < h' then Some v else snap_at ops s k' h')"
  unfolding snapshot_laws_def by blast

lemma snapshot_current:
  "snapshot_laws ops till \<Longrightarrow> till s h \<Longrightarrow> h < h' \<Longrightarrow> snap_at ops s k h' = snap_load ops s k"
  unfolding snapshot_laws_def by blast

section \<open>Claims\<close>

record 'c claims_ops =
  claims_new :: 'c
  query_claims :: "'c \<Rightarrow> addr \<Rightarrow> (nat \<times> expiration) list"
  create_claim :: "'c \<Rightarrow> addr \<Rightarrow> nat \<Rightarrow> expiration \<Rightarrow> ('c, std_error) result"
  claim_tokens :: "'c \<Rightarrow> addr \<Rightarrow> block_info \<Rightarrow> ('c \<times> nat, std_error) result"

definition claimed_amount :: "(nat \<times> expiration) list \<Rightarrow> nat" where
  "claimed_amount cs = (\<Sum>(n, e) \<leftarrow> cs. n)"

text \<open>A claim is added at the end; claiming releases what has expired and keeps the rest.\<close>

definition claims_laws :: "'c claims_ops \<Rightarrow> (expiration \<Rightarrow> block_info \<Rightarrow> bool) \<Rightarrow> bool" where
  "claims_laws ops expiry \<longleftrightarrow>
     (\<forall>a. query_claims ops (claims_new ops) a = []) \<and>
     (\<forall>c a n e c' b. create_claim ops c a n e = Ok c' \<longrightarrow>
        query_claims ops c' b = (if b = a then query_claims ops c a @ [(n, e)] else query_claims ops c b)) \<and>
     (\<forall>c a blk c' r b. claim_tokens ops c a blk = Ok (c', r) \<longrightarrow>
        query_claims ops c' b =
          (if b = a then filter (\<lambda>(n, e). \<not> expiry e blk) (query_claims ops c a) else query_claims ops c b) \<and>
        r = claimed_amount (filter (\<lambda>(n, e). expiry e blk) (query_claims ops c a)))"

lemma claimed_amount_simps [simp]:
  "claimed_amount [] = 0" "claimed_amount ((n, e) # cs) = n + claimed_amount cs"
  "claimed_amount (cs @ ds) = claimed_amount cs + claimed_amount ds"
  by (simp_all add: claimed_amount_def)

lemma claimed_amount_split:
  "claimed_amount (filter (\<lambda>(n, e). P e) cs) + claimed_amount (filter (\<lambda>(n, e). \<not> P e) cs) = claimed_amount cs"
  by (induction cs) auto

lemma claims_created:
  "claims_laws ops expiry \<Longrightarrow> create_claim ops c a n e = Ok c' \<Longrightarrow>
     claimed_amount (query_claims ops c' b) =
       claimed_amount (query_claims ops c b) + (if b = a then n else 0)"
  by (simp add: claims_laws_def)

lemma claims_claimed:
  assumes "claims_laws ops expiry" and "claim_tokens ops c a blk = Ok (c', r)"
  shows "claimed_amount (query_claims ops c' b) + (if b = a then r else 0) = claimed_amount (query_claims ops c b)"
proof -
  from assms have "query_claims ops c' b =
      (if b = a then filter (\<lambda>(n, e). \<not> expiry e blk) (query_claims ops c a) else query_claims ops c b)"
    "r = claimed_amount (filter (\<lambda>(n, e). expiry e blk) (query_claims ops c a))"
    unfolding claims_laws_def by blast+
  with claimed_amount_split [of "\<lambda>e. expiry e blk" "query_claims ops c a"] show ?thesis by simp
qed

lemma claims_fresh: "claims_laws ops expiry \<Longrightarrow> query_claims ops (claims_new ops) a = []"
  by (simp add: claims_laws_def)

section \<open>Balances and their total\<close>

text \<open>
  \<open>balanced\<close>: at every height, and now, the total is the sum of the balances; only finitely
  many accounts ever had one.
\<close>

definition balanced ::
  "('b, addr) snapshot_ops \<Rightarrow> ('t, unit) snapshot_ops \<Rightarrow> 'b \<Rightarrow> 't \<Rightarrow> bool" where
  "balanced bo to b t \<longleftrightarrow>
     (\<exists>A. finite A \<and>
        (\<forall>a. a \<notin> A \<longrightarrow> or_zero (snap_load bo b a) = 0 \<and> (\<forall>h. or_zero (snap_at bo b a h) = 0)) \<and>
        or_zero (snap_load to t ()) = (\<Sum>a \<in> A. or_zero (snap_load bo b a)) \<and>
        (\<forall>h. or_zero (snap_at to t () h) = (\<Sum>a \<in> A. or_zero (snap_at bo b a h))))"

lemma balanced_new:
  assumes "snapshot_laws bo bu" and "snapshot_laws to tu"
  shows "balanced bo to (snap_new bo) (snap_new to)"
  unfolding balanced_def using snapshot_new [OF assms(1)] snapshot_new [OF assms(2)]
  by (intro exI [of _ "{}"]) simp

lemma sum_changed:
  assumes "finite A" and "a \<in> A" and "\<And>x. x \<in> A \<Longrightarrow> x \<noteq> a \<Longrightarrow> g x = f x"
  shows "sum g A = sum f A - f a + (g a :: nat)"
proof -
  have "sum f A = f a + sum f (A - {a})" "sum g A = g a + sum g (A - {a})"
    using assms(1,2) by (simp_all add: sum.remove)
  moreover have "sum g (A - {a}) = sum f (A - {a})" using assms(3) by (intro sum.cong) auto
  ultimately show ?thesis by simp
qed

text \<open>Saving a new balance and adjusting the total by the difference keeps them balanced.\<close>

lemma balanced_save:
  assumes "snapshot_laws bo bu" and "snapshot_laws to tu" and "bu b h" and "tu t h"
    and "balanced bo to b t"
    and "or_zero (snap_load to t ()) + v = or_zero (snap_load bo b a) + w"
  shows "balanced bo to (snap_save bo b a v h) (snap_save to t () w h)"
proof -
  from assms(5) obtain A where A: "finite A"
    "\<And>a. a \<notin> A \<Longrightarrow> or_zero (snap_load bo b a) = 0 \<and> (\<forall>h. or_zero (snap_at bo b a h) = 0)"
    "or_zero (snap_load to t ()) = (\<Sum>a \<in> A. or_zero (snap_load bo b a))"
    "\<And>h. or_zero (snap_at to t () h) = (\<Sum>a \<in> A. or_zero (snap_at bo b a h))"
    unfolding balanced_def by blast
  let ?A = "insert a A" and ?b = "snap_save bo b a v h" and ?t = "snap_save to t () w h"
  have load: "or_zero (snap_load to t ()) = (\<Sum>x \<in> ?A. or_zero (snap_load bo b x))"
    and at: "or_zero (snap_at to t () h') = (\<Sum>x \<in> ?A. or_zero (snap_at bo b x h'))" for h'
    using A by (auto simp: insert_absorb sum.insert_if)
  have le: "or_zero (snap_load bo b a) \<le> (\<Sum>x \<in> ?A. or_zero (snap_load bo b x))"
    using A(1) by (intro member_le_sum) auto
  have new: "(\<Sum>x \<in> ?A. or_zero (snap_load bo ?b x)) = w"
    using sum_changed [of ?A a "\<lambda>x. or_zero (snap_load bo ?b x)" "\<lambda>x. or_zero (snap_load bo b x)"]
      A(1) snapshot_load [OF assms(1), of b a v h] assms(6) load le by simp
  have "or_zero (snap_at to ?t () h') = (\<Sum>x \<in> ?A. or_zero (snap_at bo ?b x h'))" for h'
  proof (cases "h < h'")
    case True
    have "snap_at bo ?b x h' = snap_load bo ?b x" for x
      using snapshot_current [OF assms(1) snapshot_saved_upto [OF assms(1,3)] True] .
    with new True snapshot_at [OF assms(2,4), of "()" w "()" h'] show ?thesis by simp
  next
    case False
    then show ?thesis
      using at [of h'] snapshot_at [OF assms(1,3)] snapshot_at [OF assms(2,4), of "()" w "()" h'] by simp
  qed
  moreover have "or_zero (snap_load to ?t ()) = (\<Sum>x \<in> ?A. or_zero (snap_load bo ?b x))"
    using new snapshot_load [OF assms(2)] by simp
  moreover have "or_zero (snap_load bo ?b x) = 0 \<and> (\<forall>h. or_zero (snap_at bo ?b x h) = 0)" if "x \<notin> ?A" for x
    using that A(2) [of x] snapshot_load [OF assms(1)] snapshot_at [OF assms(1,3)] by simp
  ultimately show ?thesis unfolding balanced_def using A(1) by (intro exI [of _ ?A]) simp
qed

text \<open>Distinct accounts never hold more than the total.\<close>

lemma balanced_part:
  assumes "balanced bo to b t" and "distinct as"
  shows "(\<Sum>a \<leftarrow> as. or_zero (snap_at bo b a h)) \<le> or_zero (snap_at to t () h)"
proof -
  from assms(1) obtain A where A: "finite A" "\<And>a h. a \<notin> A \<Longrightarrow> or_zero (snap_at bo b a h) = 0"
    "or_zero (snap_at to t () h) = (\<Sum>a \<in> A. or_zero (snap_at bo b a h))"
    unfolding balanced_def by blast
  have "(\<Sum>a \<leftarrow> as. or_zero (snap_at bo b a h)) = (\<Sum>a \<in> set as. or_zero (snap_at bo b a h))"
    using assms(2) by (rule sum_list_distinct_conv_sum_set)
  also have "\<dots> = (\<Sum>a \<in> set as \<inter> A. or_zero (snap_at bo b a h))"
    using A(2) by (intro sum.mono_neutral_right) auto
  also have "\<dots> \<le> (\<Sum>a \<in> A. or_zero (snap_at bo b a h))" using A(1) by (intro sum_mono2) auto
  finally show ?thesis using A(3) by simp
qed

lemma balanced_load:
  assumes "balanced bo to b t"
  shows "or_zero (snap_load bo b a) \<le> or_zero (snap_load to t ())"
proof -
  from assms obtain A where A: "finite A" "\<And>a. a \<notin> A \<Longrightarrow> or_zero (snap_load bo b a) = 0"
    "or_zero (snap_load to t ()) = (\<Sum>a \<in> A. or_zero (snap_load bo b a))"
    unfolding balanced_def by blast
  show ?thesis
  proof (cases "a \<in> A")
    case True
    then show ?thesis using A(1,3) member_le_sum [of a A "\<lambda>a. or_zero (snap_load bo b a)"] by simp
  next
    case False
    with A(2) show ?thesis by simp
  qed
qed

lemma balanced_same_total:
  assumes "snapshot_laws bo bu" and "snapshot_laws to tu" and "bu b h" and "tu t h"
    and "balanced bo to b t"
  shows "balanced bo to b (snap_save to t () (or_zero (snap_load to t ())) h)"
proof -
  from assms(5) obtain A where A: "finite A"
    "\<And>a. a \<notin> A \<Longrightarrow> or_zero (snap_load bo b a) = 0 \<and> (\<forall>h. or_zero (snap_at bo b a h) = 0)"
    "or_zero (snap_load to t ()) = (\<Sum>a \<in> A. or_zero (snap_load bo b a))"
    "\<And>h. or_zero (snap_at to t () h) = (\<Sum>a \<in> A. or_zero (snap_at bo b a h))"
    unfolding balanced_def by blast
  have "or_zero (snap_at to (snap_save to t () (or_zero (snap_load to t ())) h) () h') =
      (\<Sum>a \<in> A. or_zero (snap_at bo b a h'))" for h'
    using A(3,4) snapshot_at [OF assms(2,4), of "()" _ "()" h'] snapshot_current [OF assms(1,3)] by simp
  with A snapshot_load [OF assms(2)] show ?thesis unfolding balanced_def by (intro exI [of _ A]) simp
qed

section \<open>All claims\<close>

text \<open>
  The amount that all accounts together have in claims; it is meaningful while only finitely many
  accounts have any.
\<close>

definition claims_finite :: "'c claims_ops \<Rightarrow> 'c \<Rightarrow> bool" where
  "claims_finite co c \<longleftrightarrow> finite {a. query_claims co c a \<noteq> []}"

definition claims_total :: "'c claims_ops \<Rightarrow> 'c \<Rightarrow> nat" where
  "claims_total co c = (\<Sum>a \<in> {a. query_claims co c a \<noteq> []}. claimed_amount (query_claims co c a))"

lemma claims_total_on:
  assumes "finite A" and "\<And>a. a \<notin> A \<Longrightarrow> query_claims co c a = []"
  shows "claims_total co c = (\<Sum>a \<in> A. claimed_amount (query_claims co c a))"
  unfolding claims_total_def using assms by (intro sum.mono_neutral_left) auto

lemma claims_total_new:
  "claims_laws co expiry \<Longrightarrow> claims_finite co (claims_new co) \<and> claims_total co (claims_new co) = 0"
  by (simp add: claims_finite_def claims_total_def claims_fresh)

lemma claims_total_change:
  assumes "claims_finite co c" and "\<And>b. b \<noteq> a \<Longrightarrow> query_claims co c' b = query_claims co c b"
    and "claimed_amount (query_claims co c' a) + m = claimed_amount (query_claims co c a) + n"
  shows "claims_finite co c' \<and> claims_total co c' + m = claims_total co c + n"
proof -
  let ?A = "insert a {b. query_claims co c b \<noteq> []}"
  have A: "finite ?A" using assms(1) by (simp add: claims_finite_def)
  have sub: "{b. query_claims co c' b \<noteq> []} \<subseteq> ?A" using assms(2) by auto
  have "claims_total co c = (\<Sum>b \<in> ?A. claimed_amount (query_claims co c b))"
    "claims_total co c' = (\<Sum>b \<in> ?A. claimed_amount (query_claims co c' b))"
    using A sub by (intro claims_total_on; auto)+
  moreover have "(\<Sum>b \<in> ?A. claimed_amount (query_claims co c' b)) =
      (\<Sum>b \<in> ?A. claimed_amount (query_claims co c b)) - claimed_amount (query_claims co c a)
        + claimed_amount (query_claims co c' a)"
    using A assms(2) by (intro sum_changed) auto
  moreover have "claimed_amount (query_claims co c a) \<le> (\<Sum>b \<in> ?A. claimed_amount (query_claims co c b))"
    using A by (intro member_le_sum) auto
  ultimately show ?thesis using assms(3) finite_subset [OF sub A] by (simp add: claims_finite_def)
qed

lemma claims_total_created:
  assumes "claims_laws co expiry" and "create_claim co c a n e = Ok c'" and "claims_finite co c"
  shows "claims_finite co c' \<and> claims_total co c' = claims_total co c + n"
  using claims_total_change [OF assms(3), of a c' 0 n] claims_created [OF assms(1,2), of a] assms(1,2)
  by (simp add: claims_laws_def)

lemma claims_total_claimed:
  assumes "claims_laws co expiry" and "claim_tokens co c a blk = Ok (c', r)" and "claims_finite co c"
  shows "claims_finite co c' \<and> claims_total co c' + r = claims_total co c"
proof -
  have "query_claims co c' b = query_claims co c b" if "b \<noteq> a" for b
    using assms(1,2) that unfolding claims_laws_def by metis
  with claims_total_change [OF assms(3), of a c' r 0] claims_claimed [OF assms(1,2), of a] show ?thesis by simp
qed

section \<open>Active thresholds\<close>

definition ACTIVE_PRECISION_FACTOR :: nat where
  "ACTIVE_PRECISION_FACTOR = 10 ^ 9"

text \<open>The count that a percentage of the supply stands for, rounded up.\<close>

definition active_count :: "nat \<Rightarrow> decimal \<Rightarrow> (nat, 'e) result" where
  "active_count supply pct =
     and_then (multiply_ratio256 (supply * ACTIVE_PRECISION_FACTOR) (atomics pct) (10 ^ decimal_places)) (\<lambda>applied.
     if applied + ACTIVE_PRECISION_FACTOR < 2 ^ 256 then
       (let rounded = (applied + ACTIVE_PRECISION_FACTOR - 1) div ACTIVE_PRECISION_FACTOR in
        if rounded < 2 ^ 128 then Ok rounded else Panic)
     else Panic)"

text \<open>For a percentage up to the whole and a supply of \<open>Uint128\<close> the computation of an active
  threshold does not fail, and the count is the least stake that reaches the percentage of the
  supply at nine decimal places; it never exceeds the supply.\<close>

theorem active_count_exact:
  assumes "supply < 2 ^ 128" and "atomics pct \<le> 10 ^ 18"
  shows "\<exists>c. active_count supply pct = (Ok c :: (_, 'a) result) \<and> c \<le> supply \<and>
    (\<forall>n. c \<le> n \<longleftrightarrow> supply * 10 ^ 9 * atomics pct div 10 ^ 18 \<le> n * 10 ^ 9)"
proof -
  define x where "x = supply * 10 ^ 9 * atomics pct div 10 ^ 18"
  have "x \<le> supply * 10 ^ 9 * 10 ^ 18 div 10 ^ 18"
    unfolding x_def using assms(2) by (intro div_le_mono mult_le_mono2)
  then have x: "x \<le> supply * 10 ^ 9" by simp
  have small: "supply * 10 ^ 9 + 10 ^ 9 < (2 :: nat) ^ 256" using assms(1) by simp
  let ?c = "(x + 10 ^ 9 - 1) div 10 ^ 9"
  have "?c \<le> (supply * 10 ^ 9 + (10 ^ 9 - 1)) div 10 ^ 9" using x by (intro div_le_mono) simp
  then have c: "?c \<le> supply" by simp
  have "?c \<le> n \<longleftrightarrow> x \<le> n * 10 ^ 9" for n
    using div_less_iff_less_mult [of "10 ^ 9" "x + 10 ^ 9 - 1" "Suc n"] by (simp add: less_Suc_eq_le)
  moreover have "active_count supply pct = (Ok ?c :: (_, 'a) result)"
  proof -
    have "x < 2 ^ 256" using x small by simp
    then have "multiply_ratio256 (supply * ACTIVE_PRECISION_FACTOR) (atomics pct) (10 ^ decimal_places)
        = (Ok x :: (_, 'a) result)"
      unfolding multiply_ratio256_def ACTIVE_PRECISION_FACTOR_def decimal_places_def x_def [symmetric] by simp
    then show ?thesis using c x small assms(1)
      by (simp add: active_count_def ACTIVE_PRECISION_FACTOR_def Let_def)
  qed
  ultimately show ?thesis using c unfolding x_def by blast
qed

theorem active_count_exact_witness:
  "\<exists>c. active_count 1001 (decimal_percent 50) = (Ok c :: (_, unit) result) \<and> c \<le> 1001 \<and>
    (\<forall>n. c \<le> n \<longleftrightarrow> 1001 * 10 ^ 9 * atomics (decimal_percent 50) div 10 ^ 18 \<le> n * 10 ^ 9)"
  by (rule active_count_exact) (simp_all add: decimal_percent_def decimal_places_def)

end
