(* ===== verification/Cw20_Stake.thy ===== *)
theory Cw20_Stake
  imports Staking_Store Proposal_Module Cw_Paginate
begin

text \<open>
  The staking contract \<open>cw20-stake\<close>: members stake cw20 tokens for shares of what the contract
  holds; funding the contract makes every share worth more. Every handler, query and the migration of
  \<open>contract.rs\<close>, with \<open>math.rs\<close>, \<open>state.rs\<close>, \<open>error.rs\<close> and \<open>msg.rs\<close>.
\<close>

section \<open>Shares (math.rs)\<close>

text \<open>Products are taken in 256 bits; a quotient that does not fit 128 bits panics.\<close>

definition full_mul_div :: "nat \<Rightarrow> nat \<Rightarrow> nat \<Rightarrow> (nat, 'e) result" where
  "full_mul_div a b d =
     (if d = 0 then Panic
      else if a * b div d < 2 ^ 128 then Ok (a * b div d) else Panic)"

definition amount_to_stake :: "nat \<Rightarrow> nat \<Rightarrow> nat \<Rightarrow> (nat, 'e) result" where
  "amount_to_stake staked_total balance sent =
     (if staked_total = 0 \<or> balance = 0 then Ok sent
      else full_mul_div staked_total sent balance)"

definition amount_to_claim :: "nat \<Rightarrow> nat \<Rightarrow> nat \<Rightarrow> (nat, 'e) result" where
  "amount_to_claim staked_total balance ask = full_mul_div ask balance staked_total"

section \<open>Storage, messages and errors\<close>

record config =
  token_address :: addr
  unstaking_duration :: "duration option"

text \<open>The configuration of version 1, as its crate stored it.\<close>

record v1_config =
  v1_owner :: "addr option"
  v1_token_address :: addr
  v1_unstaking_duration :: "duration option"

definition MAX_CLAIMS :: nat where
  "MAX_CLAIMS = 100"

record ('b, 't, 'c, 'o) stake_state =
  CONTRACT_INFO :: "(string \<times> string) option"
  CONFIG :: "config option"
  V1_CONFIG :: "v1_config option"
  STAKED_BALANCES :: 'b
  STAKED_TOTAL :: 't
  CLAIMS :: 'c
  BALANCE :: "nat option"
  HOOKS :: hooks
  OWNERSHIP :: 'o

record instantiate_msg =
  im_owner :: "string option"
  im_token_address :: string
  im_unstaking_duration :: "duration option"

record cw20_receive_msg =
  rcv_sender :: string
  rcv_amount :: nat
  rcv_msg :: binary

datatype receive_msg = ReceiveStake | ReceiveFund

text \<open>The actions of the crate \<open>cw_ownable\<close>.\<close>

datatype ownership_action =
    TransferOwnership string "expiration option"
  | AcceptOwnership
  | RenounceOwnership

datatype execute_msg =
    Receive cw20_receive_msg
  | Unstake_Shares nat
  | Claim
  | UpdateConfig "duration option"
  | AddHook string
  | RemoveHook string
  | UpdateOwnership ownership_action

text \<open>The variant for errors of \<open>cw20_base\<close> is never built and left out.\<close>

datatype contract_error =
    Std std_error
  | Ownership string
  | HookError hook_error
  | UnstakingDurationError unstaking_duration_error
  | AlreadyMigrated
  | Cw20InvaraintViolation
  | ImpossibleUnstake
  | InvalidCw20
  | InvalidToken addr addr
  | NothingToClaim
  | NothingStaked
  | TooManyClaims

text \<open>
  \<open>cw_ownable\<close> keeps the owner of a contract; its functions are parameters, as are the
  snapshot stores, the claims and the decoding of the message inside a cw20 \<open>Send\<close>.
\<close>

record 'o ownable_ops =
  initialize_owner :: "'o \<Rightarrow> string option \<Rightarrow> ('o, std_error) result"
  assert_owner :: "'o \<Rightarrow> addr \<Rightarrow> (unit, string) result"
  update_ownership :: "'o \<Rightarrow> block_info \<Rightarrow> addr \<Rightarrow> ownership_action \<Rightarrow> ('o, string) result"
  get_ownership :: "'o \<Rightarrow> ('o, std_error) result"

record ('b, 't, 'c, 'o) stake_deps = token_querier +
  balances_ops :: "('b, addr) snapshot_ops"
  total_ops :: "('t, unit) snapshot_ops"
  claims_api :: "'c claims_ops"
  ownable :: "'o ownable_ops"
  decode_receive :: "binary \<Rightarrow> (receive_msg, std_error) result"

datatype stake_payload = Cw20Transfer string nat | StakeChange stake_changed_hook_msg

type_synonym stake_msg = "stake_payload wasm_msg sub_msg"

type_synonym ('b, 't, 'c, 'o) outcome =
  "(('b, 't, 'c, 'o) stake_state \<times> stake_msg list, contract_error) result"

definition hook_messages :: "stake_changed_hook_msg wasm_msg sub_msg list \<Rightarrow> stake_msg list" where
  "hook_messages ms =
     map (\<lambda>m. \<lparr>msg_id = msg_id m, msg_body = map_wasm_msg StakeChange (msg_body m),
                msg_reply_on = msg_reply_on m\<rparr>) ms"

definition cw20_transfer :: "config \<Rightarrow> addr \<Rightarrow> nat \<Rightarrow> stake_msg" where
  "cw20_transfer cfg recipient amount =
     sub_msg_new (WasmExecute (token_address cfg) (Cw20Transfer recipient amount) [])"

section \<open>Handlers (contract.rs)\<close>

definition CONTRACT_NAME :: string where
  "CONTRACT_NAME = ''crates.io:cw20-stake''"

definition instantiate ::
  "('b, 't, 'c, 'o, 'x) stake_deps_scheme \<Rightarrow> ('b, 't, 'c, 'o) stake_state \<Rightarrow> env \<Rightarrow> instantiate_msg
     \<Rightarrow> ('b, 't, 'c, 'o) outcome" where
  "instantiate deps st env msg =
     and_then (map_err Std (initialize_owner (ownable deps) (OWNERSHIP st) (im_owner msg))) (\<lambda>own.
     and_then (map_err Std (addr_validate deps (im_token_address msg))) (\<lambda>token.
     and_then (map_err (\<lambda>_. InvalidCw20) (query_token_info deps token)) (\<lambda>_.
     and_then (map_err UnstakingDurationError (validate_duration (im_unstaking_duration msg))) (\<lambda>_.
     Ok (st\<lparr>OWNERSHIP := own,
            CONFIG := Some \<lparr>token_address = token, unstaking_duration = im_unstaking_duration msg\<rparr>,
            STAKED_TOTAL := snap_save (total_ops deps) (STAKED_TOTAL st) () 0 (height (block env)),
            BALANCE := Some 0,
            CONTRACT_INFO := Some (CONTRACT_NAME, CONTRACT_VERSION)\<rparr>, [])))))"

definition execute_update_config ::
  "('b, 't, 'c, 'o, 'x) stake_deps_scheme \<Rightarrow> ('b, 't, 'c, 'o) stake_state \<Rightarrow> message_info \<Rightarrow> duration option
     \<Rightarrow> ('b, 't, 'c, 'o) outcome" where
  "execute_update_config deps st info d =
     and_then (map_err Ownership (assert_owner (ownable deps) (OWNERSHIP st) (sender info))) (\<lambda>_.
     and_then (map_err UnstakingDurationError (validate_duration d)) (\<lambda>_.
     and_then (map_err Std (load (CONFIG st))) (\<lambda>cfg.
     Ok (st\<lparr>CONFIG := Some (cfg\<lparr>unstaking_duration := d\<rparr>)\<rparr>, []))))"

definition execute_stake ::
  "('b, 't, 'c, 'o, 'x) stake_deps_scheme \<Rightarrow> ('b, 't, 'c, 'o) stake_state \<Rightarrow> env \<Rightarrow> addr \<Rightarrow> nat
     \<Rightarrow> ('b, 't, 'c, 'o) outcome" where
  "execute_stake deps st env who amount =
     and_then (map_err Std (load (BALANCE st))) (\<lambda>balance.
     and_then (map_err Std (load (snap_load (total_ops deps) (STAKED_TOTAL st) ()))) (\<lambda>staked_total.
     and_then (amount_to_stake staked_total balance amount) (\<lambda>to_stake.
     and_then (snap_update (balances_ops deps) (STAKED_BALANCES st) who (height (block env))
        (\<lambda>bal. map_err Std (checked_add128 (or_zero bal) to_stake))) (\<lambda>bals.
     and_then (snap_update (total_ops deps) (STAKED_TOTAL st) () (height (block env))
        (\<lambda>total. and_then (ok_or_panic total) (\<lambda>t. map_err Std (checked_add128 t to_stake)))) (\<lambda>tot.
     and_then (map_err Std (checked_add128 balance amount)) (\<lambda>new_balance.
     Ok (st\<lparr>STAKED_BALANCES := bals, STAKED_TOTAL := tot, BALANCE := Some new_balance\<rparr>,
         hook_messages (stake_hook_msgs (HOOKS st) who to_stake))))))))"

definition execute_fund ::
  "('b, 't, 'c, 'o) stake_state \<Rightarrow> nat \<Rightarrow> ('b, 't, 'c, 'o) outcome" where
  "execute_fund st amount =
     and_then (map_err Std (load (BALANCE st))) (\<lambda>balance.
     and_then (map_err Std (checked_add128 balance amount)) (\<lambda>new_balance.
     Ok (st\<lparr>BALANCE := Some new_balance\<rparr>, [])))"

definition execute_receive ::
  "('b, 't, 'c, 'o, 'x) stake_deps_scheme \<Rightarrow> ('b, 't, 'c, 'o) stake_state \<Rightarrow> env \<Rightarrow> message_info
     \<Rightarrow> cw20_receive_msg \<Rightarrow> ('b, 't, 'c, 'o) outcome" where
  "execute_receive deps st env info wrapper =
     and_then (map_err Std (load (CONFIG st))) (\<lambda>cfg.
     if sender info \<noteq> token_address cfg then Err (InvalidToken (sender info) (token_address cfg))
     else
     and_then (map_err Std (decode_receive deps (rcv_msg wrapper))) (\<lambda>msg.
     and_then (map_err Std (addr_validate deps (rcv_sender wrapper))) (\<lambda>who.
     case msg of
       ReceiveStake \<Rightarrow> execute_stake deps st env who (rcv_amount wrapper)
     | ReceiveFund \<Rightarrow> execute_fund st (rcv_amount wrapper))))"

text \<open>The end of \<open>execute_unstake\<close>: the tokens are sent back at once, or a claim is created.\<close>

definition release_or_claim ::
  "('b, 't, 'c, 'o, 'x) stake_deps_scheme \<Rightarrow> ('b, 't, 'c, 'o) stake_state \<Rightarrow> env \<Rightarrow> message_info \<Rightarrow> config
     \<Rightarrow> nat \<Rightarrow> stake_msg list \<Rightarrow> ('b, 't, 'c, 'o) outcome" where
  "release_or_claim deps st env info cfg amount hook_msgs =
     (case unstaking_duration cfg of
        None \<Rightarrow> Ok (st, cw20_transfer cfg (sender info) amount # hook_msgs)
      | Some duration \<Rightarrow>
          if length (query_claims (claims_api deps) (CLAIMS st) (sender info)) + 1 > MAX_CLAIMS
          then Err TooManyClaims
          else
          and_then (ok_or_panic (duration_after deps duration (block env))) (\<lambda>release_at.
          and_then (map_err Std (create_claim (claims_api deps) (CLAIMS st) (sender info) amount release_at))
            (\<lambda>claims.
          Ok (st\<lparr>CLAIMS := claims\<rparr>, hook_msgs))))"

definition execute_unstake ::
  "('b, 't, 'c, 'o, 'x) stake_deps_scheme \<Rightarrow> ('b, 't, 'c, 'o) stake_state \<Rightarrow> env \<Rightarrow> message_info \<Rightarrow> nat
     \<Rightarrow> ('b, 't, 'c, 'o) outcome" where
  "execute_unstake deps st env info amount =
     and_then (map_err Std (load (CONFIG st))) (\<lambda>cfg.
     and_then (map_err Std (load (BALANCE st))) (\<lambda>balance.
     and_then (map_err Std (load (snap_load (total_ops deps) (STAKED_TOTAL st) ()))) (\<lambda>staked_total.
     if staked_total = 0 then Err NothingStaked
     else if min (amount + balance) (2 ^ 128 - 1) = 2 ^ 128 - 1 then Err Cw20InvaraintViolation
     else if amount > staked_total then Err ImpossibleUnstake
     else
     and_then (amount_to_claim staked_total balance amount) (\<lambda>to_claim.
     and_then (snap_update (balances_ops deps) (STAKED_BALANCES st) (sender info) (height (block env))
        (\<lambda>bal. map_err Std (checked_sub128 (or_zero bal) amount))) (\<lambda>bals.
     and_then (snap_update (total_ops deps) (STAKED_TOTAL st) () (height (block env))
        (\<lambda>total. and_then (ok_or_panic total) (\<lambda>t. map_err Std (checked_sub128 t amount)))) (\<lambda>tot.
     and_then (map_err Std (checked_sub128 balance to_claim)) (\<lambda>new_balance.
     release_or_claim deps
       (st\<lparr>STAKED_BALANCES := bals, STAKED_TOTAL := tot, BALANCE := Some new_balance\<rparr>) env info cfg to_claim
       (hook_messages (unstake_hook_msgs (HOOKS st) (sender info) amount)))))))))"

definition execute_claim ::
  "('b, 't, 'c, 'o, 'x) stake_deps_scheme \<Rightarrow> ('b, 't, 'c, 'o) stake_state \<Rightarrow> env \<Rightarrow> message_info
     \<Rightarrow> ('b, 't, 'c, 'o) outcome" where
  "execute_claim deps st env info =
     and_then (map_err Std (claim_tokens (claims_api deps) (CLAIMS st) (sender info) (block env)))
       (\<lambda>(claims, release).
     if release = 0 then Err NothingToClaim
     else
     and_then (map_err Std (load (CONFIG st))) (\<lambda>cfg.
     Ok (st\<lparr>CLAIMS := claims\<rparr>, [cw20_transfer cfg (sender info) release])))"

definition execute_add_hook ::
  "('b, 't, 'c, 'o, 'x) stake_deps_scheme \<Rightarrow> ('b, 't, 'c, 'o) stake_state \<Rightarrow> message_info \<Rightarrow> string
     \<Rightarrow> ('b, 't, 'c, 'o) outcome" where
  "execute_add_hook deps st info a =
     and_then (map_err Ownership (assert_owner (ownable deps) (OWNERSHIP st) (sender info))) (\<lambda>_.
     and_then (map_err Std (addr_validate deps a)) (\<lambda>hook.
     and_then (map_err HookError (add_hook (HOOKS st) hook)) (\<lambda>hs.
     Ok (st\<lparr>HOOKS := hs\<rparr>, []))))"

definition execute_remove_hook ::
  "('b, 't, 'c, 'o, 'x) stake_deps_scheme \<Rightarrow> ('b, 't, 'c, 'o) stake_state \<Rightarrow> message_info \<Rightarrow> string
     \<Rightarrow> ('b, 't, 'c, 'o) outcome" where
  "execute_remove_hook deps st info a =
     and_then (map_err Ownership (assert_owner (ownable deps) (OWNERSHIP st) (sender info))) (\<lambda>_.
     and_then (map_err Std (addr_validate deps a)) (\<lambda>hook.
     and_then (map_err HookError (remove_hook (HOOKS st) hook)) (\<lambda>hs.
     Ok (st\<lparr>HOOKS := hs\<rparr>, []))))"

definition execute_update_owner ::
  "('b, 't, 'c, 'o, 'x) stake_deps_scheme \<Rightarrow> ('b, 't, 'c, 'o) stake_state \<Rightarrow> env \<Rightarrow> message_info
     \<Rightarrow> ownership_action \<Rightarrow> ('b, 't, 'c, 'o) outcome" where
  "execute_update_owner deps st env info action =
     and_then (map_err Ownership (update_ownership (ownable deps) (OWNERSHIP st) (block env) (sender info) action))
       (\<lambda>own. Ok (st\<lparr>OWNERSHIP := own\<rparr>, []))"

definition execute ::
  "('b, 't, 'c, 'o, 'x) stake_deps_scheme \<Rightarrow> ('b, 't, 'c, 'o) stake_state \<Rightarrow> env \<Rightarrow> message_info \<Rightarrow> execute_msg
     \<Rightarrow> ('b, 't, 'c, 'o) outcome" where
  "execute deps st env info msg =
     (case msg of
        Receive wrapper \<Rightarrow> execute_receive deps st env info wrapper
      | Unstake_Shares amount \<Rightarrow> execute_unstake deps st env info amount
      | Claim \<Rightarrow> execute_claim deps st env info
      | UpdateConfig d \<Rightarrow> execute_update_config deps st info d
      | AddHook a \<Rightarrow> execute_add_hook deps st info a
      | RemoveHook a \<Rightarrow> execute_remove_hook deps st info a
      | UpdateOwnership action \<Rightarrow> execute_update_owner deps st env info action)"

definition migrate ::
  "('b, 't, 'c, 'o, 'x) stake_deps_scheme \<Rightarrow> ('b, 't, 'c, 'o) stake_state \<Rightarrow> ('b, 't, 'c, 'o) outcome" where
  "migrate deps st =
     and_then (map_err Std (load (CONTRACT_INFO st))) (\<lambda>(_, version).
     let st = st\<lparr>CONTRACT_INFO := Some (CONTRACT_NAME, CONTRACT_VERSION)\<rparr> in
     if version = CONTRACT_VERSION then Err AlreadyMigrated
     else
     and_then (map_err Std (load (V1_CONFIG st))) (\<lambda>old.
     and_then (map_err Std (initialize_owner (ownable deps) (OWNERSHIP st) (v1_owner old))) (\<lambda>own.
     Ok (st\<lparr>OWNERSHIP := own,
            CONFIG := Some \<lparr>token_address = v1_token_address old,
                            unstaking_duration = v1_unstaking_duration old\<rparr>\<rparr>, []))))"

section \<open>Queries\<close>

definition query_staked_balance_at_height ::
  "('b, 't, 'c, 'o, 'x) stake_deps_scheme \<Rightarrow> ('b, 't, 'c, 'o) stake_state \<Rightarrow> env \<Rightarrow> string \<Rightarrow> u64 option
     \<Rightarrow> (nat \<times> u64, std_error) result" where
  "query_staked_balance_at_height deps st env a h =
     and_then (addr_validate deps a) (\<lambda>a.
     let h = (case h of None \<Rightarrow> height (block env) | Some h \<Rightarrow> h) in
     Ok (or_zero (snap_at (balances_ops deps) (STAKED_BALANCES st) a h), h))"

definition query_total_staked_at_height ::
  "('b, 't, 'c, 'o, 'x) stake_deps_scheme \<Rightarrow> ('b, 't, 'c, 'o) stake_state \<Rightarrow> env \<Rightarrow> u64 option
     \<Rightarrow> (nat \<times> u64, std_error) result" where
  "query_total_staked_at_height deps st env h =
     (let h = (case h of None \<Rightarrow> height (block env) | Some h \<Rightarrow> h) in
      Ok (or_zero (snap_at (total_ops deps) (STAKED_TOTAL st) () h), h))"

definition query_staked_value ::
  "('b, 't, 'c, 'o, 'x) stake_deps_scheme \<Rightarrow> ('b, 't, 'c, 'o) stake_state \<Rightarrow> string \<Rightarrow> (nat, std_error) result" where
  "query_staked_value deps st a =
     and_then (addr_validate deps a) (\<lambda>a.
     let balance = or_zero (BALANCE st);
         staked = or_zero (snap_load (balances_ops deps) (STAKED_BALANCES st) a) in
     and_then (load (snap_load (total_ops deps) (STAKED_TOTAL st) ())) (\<lambda>total.
     if balance = 0 \<or> staked = 0 \<or> total = 0 then Ok 0
     else if staked * balance < 2 ^ 128 then Ok (staked * balance div total)
     else Err OverflowErr))"

definition query_total_value :: "('b, 't, 'c, 'o) stake_state \<Rightarrow> (nat, std_error) result" where
  "query_total_value st = load (BALANCE st)"

definition query_config :: "('b, 't, 'c, 'o) stake_state \<Rightarrow> (config, std_error) result" where
  "query_config st = load (CONFIG st)"

definition query_staking_claims ::
  "('b, 't, 'c, 'o, 'x) stake_deps_scheme \<Rightarrow> ('b, 't, 'c, 'o) stake_state \<Rightarrow> string
     \<Rightarrow> ((nat \<times> expiration) list, std_error) result" where
  "query_staking_claims deps st a =
     and_then (addr_validate deps a) (\<lambda>a. Ok (query_claims (claims_api deps) (CLAIMS st) a))"

definition query_stake_hooks :: "('b, 't, 'c, 'o) stake_state \<Rightarrow> (addr list, std_error) result" where
  "query_stake_hooks st = Ok (query_hooks (HOOKS st))"

definition query_list_stakers ::
  "('b, 't, 'c, 'o, 'x) stake_deps_scheme \<Rightarrow> ('b, 't, 'c, 'o) stake_state \<Rightarrow> string option \<Rightarrow> nat option
     \<Rightarrow> ((addr \<times> nat) list, std_error) result" where
  "query_list_stakers deps st start_after limit =
     and_then (transpose_opt (addr_validate deps) start_after) (\<lambda>start_at.
     Ok (paginate_snapshot_map (snap_load (balances_ops deps) (STAKED_BALANCES st)) start_at limit Ascending))"

datatype query_msg =
    StakedBalanceAtHeight string "u64 option"
  | TotalStakedAtHeight "u64 option"
  | StakedValue string
  | TotalValue
  | QueryGetConfig
  | QueryClaims string
  | GetHooks
  | ListStakers "string option" "nat option"
  | QueryOwnership

datatype 'o query_answer =
    AtHeightAnswer "nat \<times> u64"
  | ValueAnswer nat
  | ConfigAnswer config
  | ClaimsAnswer "(nat \<times> expiration) list"
  | HooksAnswer "addr list"
  | StakersAnswer "(addr \<times> nat) list"
  | OwnershipAnswer 'o

definition answer :: "('a \<Rightarrow> 'o query_answer) \<Rightarrow> ('a, 'e) result \<Rightarrow> ('o query_answer, 'e) result" where
  "answer f r = and_then r (\<lambda>x. Ok (f x))"

definition query ::
  "('b, 't, 'c, 'o, 'x) stake_deps_scheme \<Rightarrow> ('b, 't, 'c, 'o) stake_state \<Rightarrow> env \<Rightarrow> query_msg
     \<Rightarrow> ('o query_answer, std_error) result" where
  "query deps st env msg =
     (case msg of
        QueryGetConfig \<Rightarrow> answer ConfigAnswer (query_config st)
      | StakedBalanceAtHeight a h \<Rightarrow> answer AtHeightAnswer (query_staked_balance_at_height deps st env a h)
      | TotalStakedAtHeight h \<Rightarrow> answer AtHeightAnswer (query_total_staked_at_height deps st env h)
      | StakedValue a \<Rightarrow> answer ValueAnswer (query_staked_value deps st a)
      | TotalValue \<Rightarrow> answer ValueAnswer (query_total_value st)
      | QueryClaims a \<Rightarrow> answer ClaimsAnswer (query_staking_claims deps st a)
      | GetHooks \<Rightarrow> answer HooksAnswer (query_stake_hooks st)
      | ListStakers start_after limit \<Rightarrow> answer StakersAnswer (query_list_stakers deps st start_after limit)
      | QueryOwnership \<Rightarrow> answer OwnershipAnswer (get_ownership (ownable deps) (OWNERSHIP st)))"

end
