(* ===== verification/Cw20_Stake_Props.thy ===== *)
theory Cw20_Stake_Props
  imports Cw20_Stake Proposal_Lifecycle
begin

text \<open>
  Runs of \<open>cw20-stake\<close>. Shares and tokens are first seen as a vault, a pair of numbers with
  deposits, withdrawals and donations; the handlers are shown to move the vault and to keep the
  tokens of the contract accounted for.
\<close>

section \<open>The vault\<close>

text \<open>The number of shares, and of the tokens that they share.\<close>

inductive vault_step :: "nat \<times> nat \<Rightarrow> nat \<times> nat \<Rightarrow> bool" where
  vault_first: "vault_step (0, B) (n, B + n)"
| vault_deposit: "0 < T \<Longrightarrow> vault_step (T, B) (T + T * n div B, B + n)"
| vault_withdraw: "0 < T \<Longrightarrow> n \<le> T \<Longrightarrow> vault_step (T, B) (T - n, B - n * B div T)"
| vault_donate: "vault_step (T, B) (T, B + n)"

text \<open>There are never more shares than tokens.\<close>

lemma withdrawn_le: "n \<le> T \<Longrightarrow> 0 < T \<Longrightarrow> n * B div T \<le> (B :: nat)"
proof -
  assume "n \<le> T" "0 < T"
  then have "n * B div T \<le> T * B div T" by (intro div_le_mono) simp
  with \<open>0 < T\<close> show ?thesis by simp
qed

lemma deposited_le: "T \<le> B \<Longrightarrow> T * n div B \<le> (n :: nat)"
proof (cases "B = 0")
  case False
  assume "T \<le> B"
  then have "T * n div B \<le> B * n div B" by (intro div_le_mono) simp
  with False show ?thesis by simp
qed simp

lemma vault_backed:
  assumes "vault_step (T, B) (T', B')" and "T \<le> B"
  shows "T' \<le> B'"
  using assms(1)
proof (cases rule: vault_step.cases)
  case (vault_deposit n)
  with deposited_le [OF assms(2), of n] assms(2) show ?thesis by simp
next
  case (vault_withdraw n)
  have "n * B div T * T \<le> n * B" by simp
  from diff_le_mono [OF this, of "n * T"] have "(n * B div T - n) * T \<le> n * (B - T)"
    by (simp only: diff_mult_distrib diff_mult_distrib2)
  also have "\<dots> \<le> (B - T) * T" using vault_withdraw(4) by simp
  finally have "n * B div T - n \<le> B - T" using vault_withdraw(3) by simp
  with vault_withdraw assms(2) withdrawn_le [of n T B] show ?thesis by simp
qed (use assms(2) in auto)

text \<open>A share never loses value: tokens per share do not fall.\<close>

lemma vault_price:
  assumes "vault_step (T, B) (T', B')" and "0 < T" and "T \<le> B"
  shows "B * T' \<le> B' * T"
  using assms(1)
proof (cases rule: vault_step.cases)
  case (vault_deposit n)
  have "B * (T * n div B) \<le> T * n" by simp
  with vault_deposit show ?thesis by (simp add: algebra_simps)
next
  case (vault_withdraw n)
  have le: "n * B div T * T \<le> n * B" by simp
  have "B * (T - n) = B * T - n * B" by (simp add: diff_mult_distrib2 mult.commute)
  also have "\<dots> \<le> B * T - n * B div T * T" by (rule diff_le_mono2 [OF le])
  finally show ?thesis using vault_withdraw by (simp add: diff_mult_distrib)
qed (use assms(2) in \<open>simp_all add: mult.commute\<close>)

text \<open>Depositing and withdrawing again never gains: the code rounds against the member twice.\<close>

lemma no_free_tokens:
  assumes "0 < T" and "T \<le> B" and "x = T * n div B"
  shows "x * (B + n) div (T + x) \<le> (n :: nat)"
proof -
  have "x * B \<le> T * n" using assms(3) by simp
  then have "x * (B + n) \<le> n * (T + x)" by (simp add: algebra_simps)
  then have "x * (B + n) div (T + x) \<le> n * (T + x) div (T + x)" by (rule div_le_mono)
  with assms(1) show ?thesis by simp
qed

section \<open>Effects of the handlers\<close>

text \<open>The token contract that the configuration names, and what a response sends away of its tokens.\<close>

definition token_of :: "('b, 't, 'c, 'o) stake_state \<Rightarrow> addr option" where
  "token_of st = map_option token_address (CONFIG st)"

definition transferred :: "addr option \<Rightarrow> stake_msg list \<Rightarrow> nat" where
  "transferred tok ms =
     (\<Sum>m \<leftarrow> ms. case msg_body m of WasmExecute c (Cw20Transfer _ n) _ \<Rightarrow> if tok = Some c then n else 0 | _ \<Rightarrow> 0)"

lemma transferred_simps [simp]:
  "transferred tok [] = 0"
  "transferred tok (cw20_transfer cfg a n # ms) = (if tok = Some (token_address cfg) then n else 0) + transferred tok ms"
  by (simp_all add: transferred_def cw20_transfer_def sub_msg_new_def)

lemma hooks_transfer_nothing [simp]:
  "transferred tok (hook_messages (stake_hook_msgs hs a n)) = 0"
  "transferred tok (hook_messages (unstake_hook_msgs hs a n)) = 0"
  by (simp_all add: transferred_def hook_messages_def stake_hook_msgs_def unstake_hook_msgs_def sub_msg_new_def comp_def)

definition pool_total :: "('t, unit) snapshot_ops \<Rightarrow> ('b, 't, 'c, 'o) stake_state \<Rightarrow> nat option" where
  "pool_total to st = snap_load to (STAKED_TOTAL st) ()"

lemma cw20_execute_stake_Ok:
  assumes "execute_stake deps st env who n = Ok (st', ms)"
  obtains B T x where "BALANCE st = Some B" and "pool_total (total_ops deps) st = Some T"
    and "amount_to_stake T B n = (Ok x :: (_, contract_error) result)" and "B + n < 2 ^ 128"
    and "st' = st\<lparr>
      STAKED_BALANCES := snap_save (balances_ops deps) (STAKED_BALANCES st) who
        (or_zero (snap_load (balances_ops deps) (STAKED_BALANCES st) who) + x) (height (block env)),
      STAKED_TOTAL := snap_save (total_ops deps) (STAKED_TOTAL st) () (T + x) (height (block env)),
      BALANCE := Some (B + n)\<rparr>"
    and "transferred tok ms = 0"
proof -
  from assms obtain B T x where "BALANCE st = Some B" "pool_total (total_ops deps) st = Some T"
    "amount_to_stake T B n = (Ok x :: (_, contract_error) result)" "B + n < 2 ^ 128"
    "st' = st\<lparr>
      STAKED_BALANCES := snap_save (balances_ops deps) (STAKED_BALANCES st) who
        (or_zero (snap_load (balances_ops deps) (STAKED_BALANCES st) who) + x) (height (block env)),
      STAKED_TOTAL := snap_save (total_ops deps) (STAKED_TOTAL st) () (T + x) (height (block env)),
      BALANCE := Some (B + n)\<rparr>" "transferred tok ms = 0"
    by (auto simp: execute_stake_def snap_update_def pool_total_def result_ok)
  then show thesis by (rule that)
qed

definition released ::
  "addr option \<Rightarrow> 'c claims_ops \<Rightarrow> 'c \<Rightarrow> addr \<Rightarrow> nat \<Rightarrow> 'c \<Rightarrow> stake_msg list \<Rightarrow> bool" where
  "released tok co c who n c' ms \<longleftrightarrow>
     c' = c \<and> transferred tok ms = n \<or> (\<exists>e. create_claim co c who n e = Ok c') \<and> transferred tok ms = 0"

lemma cw20_release_or_claim_Ok:
  assumes "release_or_claim deps st env info cfg n (hook_messages (unstake_hook_msgs hs a k)) = Ok (st', ms)"
  shows "\<exists>c. st' = st\<lparr>CLAIMS := c\<rparr> \<and> released (Some (token_address cfg)) (claims_api deps) (CLAIMS st) (sender info) n c ms"
  using assms
  by (cases "unstaking_duration cfg")
     (auto simp: release_or_claim_def released_def result_ok intro: exI [of _ "CLAIMS st"] split: if_splits)

lemma cw20_execute_unstake_Ok:
  assumes "execute_unstake deps st env info n = Ok (st', ms)"
  obtains B T c where "BALANCE st = Some B" and "pool_total (total_ops deps) st = Some T" and "0 < T" and "n \<le> T"
    and "n \<le> or_zero (snap_load (balances_ops deps) (STAKED_BALANCES st) (sender info))"
    and "st' = st\<lparr>
      STAKED_BALANCES := snap_save (balances_ops deps) (STAKED_BALANCES st) (sender info)
        (or_zero (snap_load (balances_ops deps) (STAKED_BALANCES st) (sender info)) - n) (height (block env)),
      STAKED_TOTAL := snap_save (total_ops deps) (STAKED_TOTAL st) () (T - n) (height (block env)),
      BALANCE := Some (B - n * B div T), CLAIMS := c\<rparr>"
    and "released (token_of st) (claims_api deps) (CLAIMS st) (sender info) (n * B div T) c ms"
proof -
  from assms obtain cfg B T bals tot where cfg: "CONFIG st = Some cfg" and T: "BALANCE st = Some B" "pool_total (total_ops deps) st = Some T" "0 < T" "n \<le> T"
    "n \<le> or_zero (snap_load (balances_ops deps) (STAKED_BALANCES st) (sender info))"
    and st: "bals = snap_save (balances_ops deps) (STAKED_BALANCES st) (sender info)
        (or_zero (snap_load (balances_ops deps) (STAKED_BALANCES st) (sender info)) - n) (height (block env))"
      "tot = snap_save (total_ops deps) (STAKED_TOTAL st) () (T - n) (height (block env))"
    and rel: "release_or_claim deps (st\<lparr>STAKED_BALANCES := bals, STAKED_TOTAL := tot,
          BALANCE := Some (B - n * B div T)\<rparr>) env info cfg (n * B div T)
        (hook_messages (unstake_hook_msgs (HOOKS st) (sender info) n)) = Ok (st', ms)"
    by (auto simp: execute_unstake_def snap_update_def pool_total_def amount_to_claim_def full_mul_div_def result_ok
        split: if_splits)
  from cw20_release_or_claim_Ok [OF rel] that [OF T] st cfg show thesis by (auto simp: token_of_def)
qed

lemma cw20_execute_claim_Ok:
  assumes "execute_claim deps st env info = Ok (st', ms)"
  obtains c n where "claim_tokens (claims_api deps) (CLAIMS st) (sender info) (block env) = Ok (c, n)"
    and "st' = st\<lparr>CLAIMS := c\<rparr>" and "transferred (token_of st) ms = n"
  using assms that by (auto simp: execute_claim_def token_of_def result_ok split: if_splits)

lemma execute_fund_Ok:
  assumes "execute_fund st n = Ok (st', ms)"
  obtains B where "BALANCE st = Some B" and "st' = st\<lparr>BALANCE := Some (B + n)\<rparr>" and "transferred tok ms = 0"
  using assms that by (auto simp: execute_fund_def result_ok)

lemma execute_receive_Ok:
  assumes "execute_receive deps st env info w = Ok (st', ms)"
  shows "token_of st = Some (sender info) \<and>
    ((\<exists>who. execute_stake deps st env who (rcv_amount w) = Ok (st', ms)) \<or> execute_fund st (rcv_amount w) = Ok (st', ms))"
proof -
  from assms obtain msg who where "token_of st = Some (sender info)"
    and "(case msg of ReceiveStake \<Rightarrow> execute_stake deps st env who (rcv_amount w)
      | ReceiveFund \<Rightarrow> execute_fund st (rcv_amount w)) = Ok (st', ms)"
    by (auto simp: execute_receive_def token_of_def result_ok split: if_splits)
  then show ?thesis by (cases msg) auto
qed

lemma execute_receive_cases:
  assumes "execute_receive deps st env info w = Ok (st', ms)"
  obtains (stake) who where "execute_stake deps st env who (rcv_amount w) = Ok (st', ms)"
    | (fund) "execute_fund st (rcv_amount w) = Ok (st', ms)"
  using execute_receive_Ok [OF assms] by blast

text \<open>The other messages leave the pool alone.\<close>

definition same_pool :: "('b, 't, 'c, 'o) stake_state \<Rightarrow> ('b, 't, 'c, 'o) stake_state \<Rightarrow> bool" where
  "same_pool st st' \<longleftrightarrow>
     STAKED_BALANCES st' = STAKED_BALANCES st \<and> STAKED_TOTAL st' = STAKED_TOTAL st \<and> CLAIMS st' = CLAIMS st \<and>
     BALANCE st' = BALANCE st"

lemma cw20_execute_others_Ok:
  assumes "execute deps st env info msg = Ok (st', ms)"
    and "\<forall>w. msg \<noteq> Receive w" and "\<forall>n. msg \<noteq> Unstake_Shares n" and "msg \<noteq> Claim"
  shows "same_pool st st' \<and> ms = []"
  using assms
  by (cases msg)
     (auto simp: execute_def execute_update_config_def execute_add_hook_def execute_remove_hook_def
      execute_update_owner_def result_ok same_pool_def)

lemma migrate_Ok_pool: "migrate deps st = Ok (st', ms) \<Longrightarrow> same_pool st st'"
  by (auto simp: migrate_def result_ok same_pool_def Let_def split: if_splits)

section \<open>Runs\<close>

text \<open>
  A run logs, for every message, how many tokens the configured token contract reports with it, and how
  many of its tokens the response sends away. A report of any other sender counts nothing. The
  stores are the same throughout and time does not go back.
\<close>

definition received :: "addr option \<Rightarrow> message_info \<Rightarrow> execute_msg \<Rightarrow> nat" where
  "received tok info msg = (case msg of Receive w \<Rightarrow> if tok = Some (sender info) then rcv_amount w else 0 | _ \<Rightarrow> 0)"

inductive stake_step ::
  "('b, addr) snapshot_ops \<Rightarrow> ('t, unit) snapshot_ops \<Rightarrow> 'c claims_ops
     \<Rightarrow> block_info \<times> ('b, 't, 'c, 'o) stake_state \<Rightarrow> (nat \<times> nat) list
     \<Rightarrow> block_info \<times> ('b, 't, 'c, 'o) stake_state \<Rightarrow> bool" for bo to co where
  step_execute: "execute (deps :: ('b, 't, 'c, 'o) stake_deps) st env info msg = Ok (st', ms) \<Longrightarrow>
      balances_ops deps = bo \<Longrightarrow> total_ops deps = to \<Longrightarrow> claims_api deps = co \<Longrightarrow> block_le b (block env) \<Longrightarrow>
      stake_step bo to co (b, st) [(received (token_of st) info msg, transferred (token_of st) ms)] (block env, st')"
| step_migrate: "migrate (deps :: ('b, 't, 'c, 'o) stake_deps) st = Ok (st', ms) \<Longrightarrow>
      stake_step bo to co (b, st) [] (b, st')"

definition stores_ok ::
  "('b, addr) snapshot_ops \<Rightarrow> ('t, unit) snapshot_ops \<Rightarrow> 'c claims_ops \<Rightarrow> (expiration \<Rightarrow> block_info \<Rightarrow> bool)
     \<Rightarrow> ('b \<Rightarrow> u64 \<Rightarrow> bool) \<Rightarrow> ('t \<Rightarrow> u64 \<Rightarrow> bool) \<Rightarrow> bool" where
  "stores_ok bo to co expiry bu tu \<longleftrightarrow> snapshot_laws bo bu \<and> snapshot_laws to tu \<and> claims_laws co expiry"

text \<open>
  The invariant: shares are balanced with their total and backed by tokens, and what was received
  is what was sent away, what the shares are worth and what is claimed.
\<close>

definition pool_inv ::
  "('b, addr) snapshot_ops \<Rightarrow> ('t, unit) snapshot_ops \<Rightarrow> 'c claims_ops \<Rightarrow> ('b \<Rightarrow> u64 \<Rightarrow> bool) \<Rightarrow> ('t \<Rightarrow> u64 \<Rightarrow> bool)
     \<Rightarrow> (nat \<times> nat) list \<Rightarrow> block_info \<times> ('b, 't, 'c, 'o) stake_state \<Rightarrow> bool" where
  "pool_inv bo to co bu tu log x \<longleftrightarrow>
     balanced bo to (STAKED_BALANCES (snd x)) (STAKED_TOTAL (snd x)) \<and>
     bu (STAKED_BALANCES (snd x)) (height (fst x)) \<and> tu (STAKED_TOTAL (snd x)) (height (fst x)) \<and>
     claims_finite co (CLAIMS (snd x)) \<and>
     (\<exists>T B. pool_total to (snd x) = Some T \<and> BALANCE (snd x) = Some B \<and> T \<le> B \<and> B < 2 ^ 128 \<and>
        (\<Sum>f \<leftarrow> log. fst f) = (\<Sum>f \<leftarrow> log. snd f) + B + claims_total co (CLAIMS (snd x)))"

lemma pool_invE:
  assumes "pool_inv bo to co bu tu log (b, st)"
  obtains T B where "pool_total to st = Some T" and "BALANCE st = Some B" and "T \<le> B" and "B < 2 ^ 128"
    and "(\<Sum>f \<leftarrow> log. fst f) = (\<Sum>f \<leftarrow> log. snd f) + B + claims_total co (CLAIMS st)"
  using assms by (auto simp: pool_inv_def)

lemma pool_inv_later:
  assumes "stores_ok bo to co expiry bu tu" and "pool_inv bo to co bu tu log (b, st)" and "block_le b b'"
  shows "bu (STAKED_BALANCES st) (height b')" and "tu (STAKED_TOTAL st) (height b')"
proof -
  have "height b \<le> height b'" using assms(3) by (simp add: block_le_def)
  with assms(1,2) show "bu (STAKED_BALANCES st) (height b')" and "tu (STAKED_TOTAL st) (height b')"
    using snapshot_upto [of bo bu] snapshot_upto [of to tu] by (auto simp: stores_ok_def pool_inv_def)
qed

lemma pool_inv_same:
  assumes "stores_ok bo to co expiry bu tu" and "pool_inv bo to co bu tu log (b, st)" and "block_le b b'"
    and "same_pool st st'"
  shows "pool_inv bo to co bu tu log (b', st')"
  using assms(2,4) pool_inv_later [OF assms(1-3)]
  by (auto simp: pool_inv_def same_pool_def pool_total_def)

text \<open>A change of one account's shares, of the total by the same amount, of the tokens and the claims.\<close>

lemma pool_inv_change:
  assumes "stores_ok bo to co expiry bu tu" and "pool_inv bo to co bu tu log (b, st)" and "block_le b b'"
    and "pool_total to st = Some T" and "BALANCE st = Some B"
    and "T + v = or_zero (snap_load bo (STAKED_BALANCES st) a) + T'"
    and "vault_step (T, B) (T', B')" and "B' < 2 ^ 128"
    and "claims_finite co c" and "fst f + B + claims_total co (CLAIMS st) = snd f + B' + claims_total co c"
  shows "pool_inv bo to co bu tu (log @ [f])
    (b', st\<lparr>STAKED_BALANCES := snap_save bo (STAKED_BALANCES st) a v (height b'),
           STAKED_TOTAL := snap_save to (STAKED_TOTAL st) () T' (height b'), BALANCE := Some B', CLAIMS := c\<rparr>)"
proof -
  have laws: "snapshot_laws bo bu" "snapshot_laws to tu" using assms(1) by (simp_all add: stores_ok_def)
  note u = pool_inv_later [OF assms(1-3)]
  have bal: "balanced bo to (STAKED_BALANCES st) (STAKED_TOTAL st)" using assms(2) by (simp add: pool_inv_def)
  have "T \<le> B" and flow: "(\<Sum>f \<leftarrow> log. fst f) = (\<Sum>f \<leftarrow> log. snd f) + B + claims_total co (CLAIMS st)"
    using assms(2,4,5) by (auto elim!: pool_invE)
  from this(1) have "T' \<le> B'" by (rule vault_backed [OF assms(7)])
  then show ?thesis
    using balanced_save [OF laws u bal, of v a T'] assms(4,6,8-10) snapshot_saved_upto [OF laws(1) u(1)]
      snapshot_saved_upto [OF laws(2) u(2)] snapshot_load [OF laws(2)] flow
    by (simp add: pool_inv_def pool_total_def)
qed

text \<open>How a message moves the vault.\<close>

lemma stake_moves:
  assumes "amount_to_stake T B n = (Ok x :: (_, contract_error) result)" and "T \<le> B"
  shows "vault_step (T, B) (T + x, B + n)"
proof (cases "T = 0")
  case True
  with assms(1) vault_first [of B n] show ?thesis by (simp add: amount_to_stake_def)
next
  case False
  with assms have "x = T * n div B"
    by (auto simp: amount_to_stake_def full_mul_div_def split: if_splits)
  with False vault_deposit [of T B n] show ?thesis by simp
qed

lemma execute_keeps_pool:
  assumes "execute deps st env info msg = Ok (st', ms)" and "block_le b (block env)"
    and "balances_ops deps = bo" and "total_ops deps = to" and "claims_api deps = co"
    and "stores_ok bo to co expiry bu tu" and "pool_inv bo to co bu tu log (b, st)"
  shows "pool_inv bo to co bu tu (log @ [(received (token_of st) info msg, transferred (token_of st) ms)]) (block env, st')"
proof -
  have laws: "claims_laws co expiry" using assms(6) by (simp add: stores_ok_def)
  have fin: "claims_finite co (CLAIMS st)" using assms(7) by (simp add: pool_inv_def)
  obtain T B where TB: "pool_total to st = Some T" "BALANCE st = Some B" "T \<le> B" "B < 2 ^ 128"
    and flow: "(\<Sum>f \<leftarrow> log. fst f) = (\<Sum>f \<leftarrow> log. snd f) + B + claims_total co (CLAIMS st)"
    using assms(7) by (rule pool_invE)
  note change = pool_inv_change [OF assms(6,7,2) TB(1,2)]
  show ?thesis
  proof (cases msg)
    case (Receive w)
    with assms(1) have rcv: "execute_receive deps st env info w = Ok (st', ms)" by (simp add: execute_def)
    then have tok: "token_of st = Some (sender info)" using execute_receive_Ok by blast
    from rcv show ?thesis
    proof (cases rule: execute_receive_cases)
      case (stake who)
      then obtain x where x: "amount_to_stake T B (rcv_amount w) = (Ok x :: (_, contract_error) result)"
        "B + rcv_amount w < 2 ^ 128" "transferred (token_of st) ms = 0" "st' = st\<lparr>
          STAKED_BALANCES := snap_save bo (STAKED_BALANCES st) who
            (or_zero (snap_load bo (STAKED_BALANCES st) who) + x) (height (block env)),
          STAKED_TOTAL := snap_save to (STAKED_TOTAL st) () (T + x) (height (block env)),
          BALANCE := Some (B + rcv_amount w)\<rparr>"
        using TB(1,2) unfolding assms(3,4) [symmetric] by (auto elim!: cw20_execute_stake_Ok)
      from change [OF _ stake_moves [OF x(1) TB(3)] x(2) fin, of _ who "(received (token_of st) info msg, transferred (token_of st) ms)"] x(3,4) Receive tok
      show ?thesis by (simp add: received_def)
    next
      case fund
      then obtain "st' = st\<lparr>BALANCE := Some (B + rcv_amount w)\<rparr>" "transferred (token_of st) ms = 0" "B + rcv_amount w < 2 ^ 128"
        using TB(2) by (auto simp: execute_fund_def result_ok)
      with assms(7) pool_inv_later [OF assms(6,7,2)] TB flow Receive tok show ?thesis
        by (simp add: pool_inv_def pool_total_def received_def)
    qed
  next
    case (Unstake_Shares n)
    with assms(1) have "execute_unstake deps st env info n = Ok (st', ms)" by (simp add: execute_def)
    then obtain c where n: "0 < T" "n \<le> T" "n \<le> or_zero (snap_load bo (STAKED_BALANCES st) (sender info))"
      "released (token_of st) co (CLAIMS st) (sender info) (n * B div T) c ms" "st' = st\<lparr>
        STAKED_BALANCES := snap_save bo (STAKED_BALANCES st) (sender info)
          (or_zero (snap_load bo (STAKED_BALANCES st) (sender info)) - n) (height (block env)),
        STAKED_TOTAL := snap_save to (STAKED_TOTAL st) () (T - n) (height (block env)),
        BALANCE := Some (B - n * B div T), CLAIMS := c\<rparr>"
      using TB(1,2) unfolding assms(3-5) [symmetric] by (auto elim!: cw20_execute_unstake_Ok)
    have c: "claims_finite co c" "claims_total co c + transferred (token_of st) ms = claims_total co (CLAIMS st) + n * B div T"
      using n(4) fin claims_total_created [OF laws _ fin] by (auto simp: released_def)
    have "B - n * B div T < 2 ^ 128" using TB(4) by simp
    from change [OF _ vault_withdraw [OF n(1,2)] this c(1), of _ "sender info" "(received (token_of st) info msg, transferred (token_of st) ms)"]
      n c(2) withdrawn_le [OF n(2,1), of B] Unstake_Shares
    show ?thesis by (simp add: received_def)
  next
    case Claim
    with assms(1) have "execute_claim deps st env info = Ok (st', ms)" by (simp add: execute_def)
    then obtain c n where c: "claim_tokens co (CLAIMS st) (sender info) (block env) = Ok (c, n)"
      "st' = st\<lparr>CLAIMS := c\<rparr>" "transferred (token_of st) ms = n"
      unfolding assms(5) [symmetric] by (elim cw20_execute_claim_Ok)
    with claims_total_claimed [OF laws c(1) fin] assms(7) pool_inv_later [OF assms(6,7,2)] TB flow Claim
    show ?thesis by (simp add: pool_inv_def pool_total_def received_def)
  qed (use cw20_execute_others_Ok [OF assms(1)] pool_inv_same [OF assms(6,7,2), of st'] in
      \<open>auto simp: pool_inv_def received_def\<close>)
qed

lemma stake_step_inv:
  assumes "stake_step bo to co x l y" and "stores_ok bo to co expiry bu tu" and "pool_inv bo to co bu tu log x"
  shows "pool_inv bo to co bu tu (log @ l) y"
  using assms(1)
proof (cases rule: stake_step.cases)
  case (step_execute deps st env info msg st' ms b)
  with assms(2,3) show ?thesis by (auto intro: execute_keeps_pool)
next
  case (step_migrate deps st st' ms b)
  have "block_le b b" by (simp add: block_le_def)
  with step_migrate assms(2,3) show ?thesis by (auto intro: pool_inv_same dest: migrate_Ok_pool)
qed

lemma stake_run_inv:
  "module_run (stake_step bo to co) x l y \<Longrightarrow> stores_ok bo to co expiry bu tu \<Longrightarrow>
     pool_inv bo to co bu tu log x \<Longrightarrow> pool_inv bo to co bu tu (log @ l) y"
  by (induction rule: module_run.induct) (auto dest: stake_step_inv)

section \<open>The token\<close>

text \<open>Payments go to the sender of the message, in the configured token, which never changes.\<close>

lemma hooks_no_transfer:
  "m \<in> set (hook_messages (stake_hook_msgs hs a n)) \<Longrightarrow> msg_body m \<noteq> WasmExecute c (Cw20Transfer b k) fs"
  "m \<in> set (hook_messages (unstake_hook_msgs hs a n)) \<Longrightarrow> msg_body m \<noteq> WasmExecute c (Cw20Transfer b k) fs"
  by (auto simp: hook_messages_def stake_hook_msgs_def unstake_hook_msgs_def sub_msg_new_def)

lemma cw20_transfer_body:
  "msg_body (cw20_transfer cfg a n) = WasmExecute c (Cw20Transfer b k) fs \<Longrightarrow> c = token_address cfg \<and> b = a"
  by (simp add: cw20_transfer_def sub_msg_new_def)

lemma execute_pays_sender:
  assumes "execute deps st env info msg = Ok (st', ms)" and "m \<in> set ms"
    and "msg_body m = WasmExecute c (Cw20Transfer a n) fs"
  shows "token_of st = Some c \<and> a = sender info"
proof (cases msg)
  case (Receive w)
  with assms(1) have "execute_receive deps st env info w = Ok (st', ms)" by (simp add: execute_def)
  then have "ms = [] \<or> (\<exists>b k. ms = hook_messages (stake_hook_msgs (HOOKS st) b k))"
    by (cases rule: execute_receive_cases) (auto simp: execute_stake_def execute_fund_def snap_update_def result_ok)
  with assms(2,3) show ?thesis using hooks_no_transfer(1) by fastforce
next
  case (Unstake_Shares k)
  with assms(1) have "execute_unstake deps st env info k = Ok (st', ms)" by (simp add: execute_def)
  then obtain cfg st1 x where "CONFIG st = Some cfg"
    and rel: "release_or_claim deps st1 env info cfg x (hook_messages (unstake_hook_msgs (HOOKS st) (sender info) k)) = Ok (st', ms)"
    by (auto simp: execute_unstake_def result_ok split: if_splits)
  moreover from rel have "set ms \<subseteq> insert (cw20_transfer cfg (sender info) x)
      (set (hook_messages (unstake_hook_msgs (HOOKS st) (sender info) k)))"
    by (auto simp: release_or_claim_def result_ok split: option.splits if_splits)
  ultimately show ?thesis
    using assms(2,3) hooks_no_transfer(2) cw20_transfer_body by (auto simp: token_of_def)
next
  case Claim
  with assms(1) have "execute_claim deps st env info = Ok (st', ms)" by (simp add: execute_def)
  with assms(2,3) cw20_transfer_body show ?thesis
    by (auto simp: execute_claim_def token_of_def result_ok split: if_splits)
qed (use cw20_execute_others_Ok [OF assms(1)] assms(2) in auto)

lemma stake_step_token:
  assumes "stake_step bo to co x l y" and "V1_CONFIG (snd x) = None"
  shows "token_of (snd y) = token_of (snd x) \<and> V1_CONFIG (snd y) = None"
  using assms(1)
proof (cases rule: stake_step.cases)
  case (step_execute deps st env info msg st' ms b)
  from step_execute(4) have "token_of st' = token_of st \<and> V1_CONFIG st' = V1_CONFIG st"
  proof (cases msg)
    case (Receive w)
    with step_execute(4) have "execute_receive deps st env info w = Ok (st', ms)" by (simp add: execute_def)
    then show ?thesis
      by (cases rule: execute_receive_cases)
         (auto simp: token_of_def elim!: cw20_execute_stake_Ok execute_fund_Ok)
  next
    case (Unstake_Shares n)
    with step_execute(4) have "execute_unstake deps st env info n = Ok (st', ms)" by (simp add: execute_def)
    then show ?thesis by (auto simp: token_of_def elim!: cw20_execute_unstake_Ok)
  next
    case Claim
    with step_execute(4) have "execute_claim deps st env info = Ok (st', ms)" by (simp add: execute_def)
    then show ?thesis by (auto simp: token_of_def elim!: cw20_execute_claim_Ok)
  qed (auto simp: execute_def execute_update_config_def execute_add_hook_def execute_remove_hook_def
      execute_update_owner_def result_ok token_of_def)
  with step_execute(1,3) assms(2) show ?thesis by simp
next
  case (step_migrate deps st st' ms b)
  with assms(2) show ?thesis by (auto simp: migrate_def result_ok Let_def split: if_splits)
qed

lemma stake_run_token:
  assumes "module_run (stake_step bo to co) x l y" and "V1_CONFIG (snd x) = None"
  shows "token_of (snd y) = token_of (snd x)"
proof -
  have "token_of (snd y) = token_of (snd x) \<and> V1_CONFIG (snd y) = None"
    using assms by (induction rule: module_run.induct) (auto dest: stake_step_token)
  then show ?thesis ..
qed

section \<open>Instantiation\<close>

definition empty_state ::
  "('b, addr) snapshot_ops \<Rightarrow> ('t, unit) snapshot_ops \<Rightarrow> 'c claims_ops \<Rightarrow> 'o \<Rightarrow> ('b, 't, 'c, 'o) stake_state" where
  "empty_state bo to co own =
     \<lparr>CONTRACT_INFO = None, CONFIG = None, V1_CONFIG = None, STAKED_BALANCES = snap_new bo,
      STAKED_TOTAL = snap_new to, CLAIMS = claims_new co, BALANCE = None, HOOKS = None, OWNERSHIP = own\<rparr>"

lemma instantiate_pool_inv:
  assumes "instantiate deps (empty_state bo to co own) env msg = Ok (st, ms)" and "stores_ok bo to co expiry bu tu"
    and "total_ops deps = to"
  shows "pool_inv bo to co bu tu [] (block env, st)"
proof -
  have laws: "snapshot_laws bo bu" "snapshot_laws to tu" "claims_laws co expiry"
    using assms(2) by (simp_all add: stores_ok_def)
  have st: "STAKED_BALANCES st = snap_new bo" "CLAIMS st = claims_new co" "BALANCE st = Some 0"
    "STAKED_TOTAL st = snap_save to (snap_new to) () 0 (height (block env))"
    using assms(1,3) by (auto simp: instantiate_def empty_state_def result_ok)
  have "balanced bo to (snap_new bo) (snap_save to (snap_new to) () 0 (height (block env)))"
    using balanced_same_total [OF laws(1,2) snapshot_new(3) [OF laws(1)] snapshot_new(3) [OF laws(2)]
        balanced_new [OF laws(1,2)], of "height (block env)"] snapshot_new(1) [OF laws(2)] by simp
  then show ?thesis
    using st claims_total_new [OF laws(3)] snapshot_new(3) [OF laws(1)]
      snapshot_saved_upto [OF laws(2) snapshot_new(3) [OF laws(2)]] snapshot_load [OF laws(2)]
    by (simp add: pool_inv_def pool_total_def)
qed

section \<open>The contract refines the vault\<close>

definition vault_of :: "('t, unit) snapshot_ops \<Rightarrow> ('b, 't, 'c, 'o) stake_state \<Rightarrow> nat \<times> nat" where
  "vault_of to st = (or_zero (pool_total to st), or_zero (BALANCE st))"

lemma vault_idle: "vault_step (T, B) (T, B)"
  using vault_donate [of T B 0] by simp

lemma same_pool_vault: "same_pool st st' \<Longrightarrow> vault_of to st' = vault_of to st"
  by (simp add: same_pool_def vault_of_def pool_total_def)

lemma execute_moves_vault:
  assumes "execute deps st env info msg = Ok (st', ms)" and "total_ops deps = to"
    and "stores_ok bo to co expiry bu tu" and "pool_inv bo to co bu tu log (b, st)"
  shows "vault_step (vault_of to st) (vault_of to st')"
proof -
  have laws: "snapshot_laws to tu" using assms(3) by (simp add: stores_ok_def)
  obtain T B where TB: "pool_total to st = Some T" "BALANCE st = Some B" "T \<le> B"
    using assms(4) by (rule pool_invE)
  then have old: "vault_of to st = (T, B)" by (simp add: vault_of_def)
  show ?thesis
  proof (cases msg)
    case (Receive w)
    with assms(1) have "execute_receive deps st env info w = Ok (st', ms)" by (simp add: execute_def)
    then show ?thesis
    proof (cases rule: execute_receive_cases)
      case (stake who)
      then obtain x where x: "amount_to_stake T B (rcv_amount w) = (Ok x :: (_, contract_error) result)"
        "STAKED_TOTAL st' = snap_save to (STAKED_TOTAL st) () (T + x) (height (block env))"
        "BALANCE st' = Some (B + rcv_amount w)"
        using TB(1,2) unfolding assms(2) [symmetric] by (auto elim!: cw20_execute_stake_Ok)
      with stake_moves [OF x(1) TB(3)] old show ?thesis
        by (simp add: vault_of_def pool_total_def snapshot_load [OF laws])
    next
      case fund
      with TB old vault_donate [of T B "rcv_amount w"] show ?thesis
        by (auto elim!: execute_fund_Ok simp: vault_of_def pool_total_def)
    qed
  next
    case (Unstake_Shares n)
    with assms(1) have "execute_unstake deps st env info n = Ok (st', ms)" by (simp add: execute_def)
    then obtain "0 < T" "n \<le> T" "STAKED_TOTAL st' = snap_save to (STAKED_TOTAL st) () (T - n) (height (block env))"
      "BALANCE st' = Some (B - n * B div T)"
      using TB(1,2) unfolding assms(2) [symmetric] by (auto elim!: cw20_execute_unstake_Ok)
    with vault_withdraw [of T n B] old show ?thesis
      by (simp add: vault_of_def pool_total_def snapshot_load [OF laws])
  next
    case Claim
    with assms(1) have "execute_claim deps st env info = Ok (st', ms)" by (simp add: execute_def)
    with old vault_idle [of T B] show ?thesis by (auto elim!: cw20_execute_claim_Ok simp: vault_of_def pool_total_def)
  qed (use cw20_execute_others_Ok [OF assms(1)] same_pool_vault [of st st' to] old vault_idle in auto)
qed

lemma stake_step_vault:
  assumes "stake_step bo to co x l y" and "stores_ok bo to co expiry bu tu" and "pool_inv bo to co bu tu log x"
  shows "vault_step (vault_of to (snd x)) (vault_of to (snd y))"
  using assms(1)
proof (cases rule: stake_step.cases)
  case (step_execute deps st env info msg st' ms b)
  with assms(2,3) execute_moves_vault [OF step_execute(4,6) assms(2)] show ?thesis by simp
next
  case (step_migrate deps st st' ms b)
  with same_pool_vault [OF migrate_Ok_pool [OF step_migrate(4)]] vault_idle show ?thesis by (metis snd_conv surj_pair)
qed

lemma stake_run_vault:
  assumes "module_run (stake_step bo to co) x l y" and "stores_ok bo to co expiry bu tu"
    and "pool_inv bo to co bu tu log x"
  shows "vault_step\<^sup>*\<^sup>* (vault_of to (snd x)) (vault_of to (snd y))"
  using assms
proof (induction rule: module_run.induct)
  case (run_step x l y l' z)
  have "pool_inv bo to co bu tu (log @ l) y" using run_step stake_run_inv by blast
  from stake_step_vault [OF run_step.hyps(2) run_step.prems(1) this] run_step show ?case
    by (meson rtranclp.rtrancl_into_rtrancl)
qed simp

section \<open>The value of a share\<close>

definition kept_stake ::
  "('b, addr) snapshot_ops \<Rightarrow> ('t, unit) snapshot_ops \<Rightarrow> 'c claims_ops
     \<Rightarrow> block_info \<times> ('b, 't, 'c, 'o) stake_state \<Rightarrow> (nat \<times> nat) list
     \<Rightarrow> block_info \<times> ('b, 't, 'c, 'o) stake_state \<Rightarrow> bool" where
  "kept_stake bo to co x l y \<longleftrightarrow> stake_step bo to co x l y \<and> 0 < fst (vault_of to (snd y))"

lemma ratio_trans:
  assumes "(b0 :: nat) * t1 \<le> b1 * t0" and "b1 * t2 \<le> b2 * t1" and "0 < t1"
  shows "b0 * t2 \<le> b2 * t0"
proof -
  have "b0 * t2 * t1 = b0 * t1 * t2" by simp
  also have "\<dots> \<le> b1 * t0 * t2" using assms(1) by (rule mult_le_mono1)
  also have "\<dots> = b1 * t2 * t0" by simp
  also have "\<dots> \<le> b2 * t1 * t0" using assms(2) by (rule mult_le_mono1)
  finally have "b0 * t2 * t1 \<le> b2 * t0 * t1" by (simp add: mult.assoc mult.commute)
  with assms(3) show ?thesis by simp
qed

lemma kept_run_price:
  assumes "module_run (kept_stake bo to co) x l y" and "stores_ok bo to co expiry bu tu"
    and "pool_inv bo to co bu tu log x" and "0 < fst (vault_of to (snd x))"
  shows "snd (vault_of to (snd x)) * fst (vault_of to (snd y)) \<le> snd (vault_of to (snd y)) * fst (vault_of to (snd x))
    \<and> 0 < fst (vault_of to (snd y)) \<and> pool_inv bo to co bu tu (log @ l) y"
  using assms
proof (induction rule: module_run.induct)
  case (run_start st)
  then show ?case by simp
next
  case (run_step x l y l' z)
  then have step: "stake_step bo to co y l' z" and z: "0 < fst (vault_of to (snd z))"
    by (simp_all add: kept_stake_def)
  have IH: "snd (vault_of to (snd x)) * fst (vault_of to (snd y)) \<le> snd (vault_of to (snd y)) * fst (vault_of to (snd x))"
    "0 < fst (vault_of to (snd y))" "pool_inv bo to co bu tu (log @ l) y" using run_step by auto
  obtain T B T' B' where v: "vault_of to (snd y) = (T, B)" "vault_of to (snd z) = (T', B')" by (metis surj_pair)
  have "T \<le> B" using IH(3) v(1) by (cases y) (auto elim!: pool_invE simp: vault_of_def)
  with stake_step_vault [OF step run_step.prems(1) IH(3)] v IH(2) have "B * T' \<le> B' * T"
    by (intro vault_price) auto
  with ratio_trans [OF IH(1), of T' B'] v IH(2) stake_step_inv [OF step run_step.prems(1) IH(3)] z
  show ?case by simp
qed

section \<open>History\<close>

definition share_at ::
  "('b, addr) snapshot_ops \<Rightarrow> ('b, 't, 'c, 'o) stake_state \<Rightarrow> addr \<Rightarrow> u64 \<Rightarrow> nat" where
  "share_at bo st a h = or_zero (snap_at bo (STAKED_BALANCES st) a h)"

definition shares_at :: "('t, unit) snapshot_ops \<Rightarrow> ('b, 't, 'c, 'o) stake_state \<Rightarrow> u64 \<Rightarrow> nat" where
  "shares_at to st h = or_zero (snap_at to (STAKED_TOTAL st) () h)"

lemma same_pool_history:
  "same_pool st st' \<Longrightarrow> share_at bo st' = share_at bo st \<and> shares_at to st' = shares_at to st"
  by (auto simp: same_pool_def share_at_def shares_at_def fun_eq_iff)

lemma cw20_execute_keeps_history:
  assumes "execute deps st env info msg = Ok (st', ms)" and "block_le b (block env)"
    and "balances_ops deps = bo" and "total_ops deps = to"
    and "stores_ok bo to co expiry bu tu" and "pool_inv bo to co bu tu log (b, st)" and "h \<le> height b"
  shows "share_at bo st' a h = share_at bo st a h \<and> shares_at to st' h = shares_at to st h"
proof -
  have laws: "snapshot_laws bo bu" "snapshot_laws to tu" using assms(5) by (simp_all add: stores_ok_def)
  have h: "\<not> height (block env) < h" using assms(2,7) by (auto simp: block_le_def not_less)
  note u = pool_inv_later [OF assms(5,6,2)]
  have saved: "snap_at bo (snap_save bo (STAKED_BALANCES st) x v (height (block env))) a h = snap_at bo (STAKED_BALANCES st) a h"
    "snap_at to (snap_save to (STAKED_TOTAL st) () w (height (block env))) () h = snap_at to (STAKED_TOTAL st) () h" for x v w
    using snapshot_at [OF laws(1) u(1)] snapshot_at [OF laws(2) u(2), of "()" w "()" h] h by simp_all
  show ?thesis
  proof (cases msg)
    case (Receive w)
    with assms(1) have "execute_receive deps st env info w = Ok (st', ms)" by (simp add: execute_def)
    then show ?thesis
      by (cases rule: execute_receive_cases)
         (auto elim!: cw20_execute_stake_Ok execute_fund_Ok simp: assms(3,4) saved share_at_def shares_at_def)
  next
    case (Unstake_Shares n)
    with assms(1) have "execute_unstake deps st env info n = Ok (st', ms)" by (simp add: execute_def)
    then show ?thesis by (elim cw20_execute_unstake_Ok) (simp add: assms(3,4) saved share_at_def shares_at_def)
  next
    case Claim
    with assms(1) have "execute_claim deps st env info = Ok (st', ms)" by (simp add: execute_def)
    then show ?thesis by (elim cw20_execute_claim_Ok) (simp add: share_at_def shares_at_def)
  qed (use cw20_execute_others_Ok [OF assms(1)] same_pool_history [of st st' bo to] in auto)
qed

lemma stake_step_history:
  assumes "stake_step bo to co x l y" and "stores_ok bo to co expiry bu tu" and "pool_inv bo to co bu tu log x"
    and "h \<le> height (fst x)"
  shows "share_at bo (snd y) a h = share_at bo (snd x) a h \<and> shares_at to (snd y) h = shares_at to (snd x) h"
  using assms(1)
proof (cases rule: stake_step.cases)
  case (step_execute deps st env info msg st' ms b)
  with assms(2-4) show ?thesis
    using cw20_execute_keeps_history [OF step_execute(4,8,5,6) assms(2), of log h a] by simp
next
  case (step_migrate deps st st' ms b)
  with same_pool_history [OF migrate_Ok_pool [OF step_migrate(4)]] show ?thesis by simp
qed

lemma stake_step_time: "stake_step bo to co x l y \<Longrightarrow> height (fst x) \<le> height (fst y)"
  by (cases rule: stake_step.cases) (auto simp: block_le_def)

end
