(* ===== verification/Voting_Cw20_Staked.thy ===== *)
theory Voting_Cw20_Staked
  imports Cw20_Stake
begin

text \<open>
  The voting module \<open>dao-voting-cw20-staked\<close>: it has a token and a staking contract
  \<open>cw20-stake\<close>, either of which it may instantiate, and answers with the balances staked there.
  Every handler, reply, query and the migration of \<open>contract.rs\<close>, with \<open>state.rs\<close>,
  \<open>error.rs\<close> and \<open>msg.rs\<close>.
\<close>

section \<open>Messages, storage and errors\<close>

datatype staking_info =
    StakingExisting string
  | StakingNew u64 "binary option" "duration option"

record cw20_coin =
  cw20_address :: string
  cw20_amount :: nat

text \<open>The instantiation message of \<open>cw20_base\<close>, with marketing information left as it is encoded.\<close>

record token_instantiate_msg =
  tk_name :: string
  tk_symbol :: string
  tk_decimals :: nat
  tk_initial_balances :: "cw20_coin list"
  tk_minter :: "string option"
  tk_marketing :: "binary option"

record new_token =
  nt_code_id :: u64
  nt_salt :: "binary option"
  nt_label :: string
  nt_name :: string
  nt_symbol :: string
  nt_decimals :: nat
  nt_initial_balances :: "cw20_coin list"
  nt_marketing :: "binary option"
  nt_staking_code_id :: u64
  nt_staking_salt :: "binary option"
  nt_unstaking_duration :: "duration option"
  nt_initial_dao_balance :: "nat option"

datatype token_info = TokenExisting string staking_info | TokenNew new_token

record instantiate_msg =
  im_token_info :: token_info
  im_active_threshold :: "active_threshold option"

datatype execute_msg = UpdateActiveThreshold "active_threshold option"

record cw20_voting_state =
  CONTRACT_INFO :: "(string \<times> string) option"
  ACTIVE_THRESHOLD :: "active_threshold option"
  TOKEN :: "addr option"
  DAO :: "addr option"
  STAKING_CONTRACT :: "addr option"
  STAKING_CONTRACT_UNSTAKING_DURATION :: "duration option option"
  STAKING_CONTRACT_CODE_ID :: "u64 option"
  STAKING_CONTRACT_SALT :: "binary option"

datatype contract_error =
    Std std_error
  | Unauthorized
  | InitialBalancesError
  | DuplicateToken
  | TokenInstantiateError
  | StakingInstantiateError
  | UnknownReplyId u64
  | StakingContractMismatch
  | DuplicateStakingContract
  | InvalidActivePercentage
  | ZeroActiveCount
  | InvalidAbsoluteCount

text \<open>
  What the token and the staking contract answer, and the encoding of the messages that
  instantiate them.
\<close>

record cw20_voting_deps = cw_env +
  query_cw20_supply :: "addr \<Rightarrow> (nat, std_error) result"
  query_stake_config :: "addr \<Rightarrow> (Cw20_Stake.config, std_error) result"
  query_staked_balance :: "addr \<Rightarrow> string \<Rightarrow> u64 option \<Rightarrow> (nat \<times> u64, std_error) result"
  query_total_staked :: "addr \<Rightarrow> u64 option \<Rightarrow> (nat \<times> u64, std_error) result"
  encode_stake_instantiate :: "Cw20_Stake.instantiate_msg \<Rightarrow> binary"
  encode_token_instantiate :: "token_instantiate_msg \<Rightarrow> binary"

type_synonym outcome = "(cw20_voting_state \<times> unit wasm_msg sub_msg list, contract_error) result"

section \<open>Instantiation\<close>

definition CONTRACT_NAME :: string where
  "CONTRACT_NAME = ''crates.io:dao-voting-cw20-staked''"

definition INSTANTIATE_TOKEN_REPLY_ID :: u64 where
  "INSTANTIATE_TOKEN_REPLY_ID = 0"

definition INSTANTIATE_STAKING_REPLY_ID :: u64 where
  "INSTANTIATE_STAKING_REPLY_ID = 1"

definition assert_valid_absolute_count_threshold ::
  "'x cw20_voting_deps_scheme \<Rightarrow> addr \<Rightarrow> nat \<Rightarrow> (unit, contract_error) result" where
  "assert_valid_absolute_count_threshold deps token count =
     (if count = 0 then Err ZeroActiveCount
      else
      and_then (map_err Std (query_cw20_supply deps token)) (\<lambda>supply.
      if count > supply then Err InvalidAbsoluteCount else Ok ()))"

definition check_absolute_count ::
  "'x cw20_voting_deps_scheme \<Rightarrow> addr \<Rightarrow> active_threshold option \<Rightarrow> (unit, contract_error) result" where
  "check_absolute_count deps token thr =
     (case thr of
        Some (ActiveAbsoluteCount count) \<Rightarrow> assert_valid_absolute_count_threshold deps token count
      | _ \<Rightarrow> Ok ())"

text \<open>The sub-message that instantiates the staking contract, with the DAO as owner and admin.\<close>

definition staking_instantiation ::
  "'x cw20_voting_deps_scheme \<Rightarrow> env \<Rightarrow> addr \<Rightarrow> addr \<Rightarrow> u64 \<Rightarrow> binary option \<Rightarrow> duration option
     \<Rightarrow> unit wasm_msg sub_msg" where
  "staking_instantiation deps env dao token staking_code_id salt unstaking =
     reply_on_success
       (into_wasm_msg
          \<lparr>code_id = staking_code_id,
           info_msg = encode_stake_instantiate deps
             \<lparr>im_owner = Some dao, im_token_address = token, im_unstaking_duration = unstaking\<rparr>,
           info_admin = Some CoreModule,
           info_funds = None,
           info_label = contract_address env,
           info_salt = salt\<rparr> dao)
       INSTANTIATE_STAKING_REPLY_ID"

definition sum_cw20_coins :: "cw20_coin list \<Rightarrow> (nat, 'e) result" where
  "sum_cw20_coins cs = try_fold (\<lambda>p n. add128 p (cw20_amount n)) 0 cs"

definition instantiate ::
  "'x cw20_voting_deps_scheme \<Rightarrow> cw20_voting_state \<Rightarrow> env \<Rightarrow> message_info \<Rightarrow> instantiate_msg \<Rightarrow> outcome" where
  "instantiate deps st env info msg =
     (let st = st\<lparr>CONTRACT_INFO := Some (CONTRACT_NAME, CONTRACT_VERSION), DAO := Some (sender info)\<rparr> in
      and_then
        (case im_active_threshold msg of
           Some thr \<Rightarrow>
             and_then (case thr of
                 ActivePercentage pct \<Rightarrow>
                   if decimal_less (decimal_percent 100) pct \<or> \<not> decimal_less (decimal_percent 0) pct
                   then Err InvalidActivePercentage else Ok ()
               | _ \<Rightarrow> Ok ()) (\<lambda>_. Ok (st\<lparr>ACTIVE_THRESHOLD := Some thr\<rparr>))
         | None \<Rightarrow> Ok st) (\<lambda>st.
      case im_token_info msg of
        TokenExisting token staking_contract \<Rightarrow>
          and_then (map_err Std (addr_validate deps token)) (\<lambda>token.
          let st = st\<lparr>TOKEN := Some token\<rparr> in
          and_then (check_absolute_count deps token (im_active_threshold msg)) (\<lambda>_.
          case staking_contract of
            StakingExisting staking_address \<Rightarrow>
              and_then (map_err Std (addr_validate deps staking_address)) (\<lambda>staking_address.
              and_then (map_err Std (query_stake_config deps staking_address)) (\<lambda>resp.
              if token \<noteq> token_address resp then Err StakingContractMismatch
              else Ok (st\<lparr>STAKING_CONTRACT := Some staking_address\<rparr>, [])))
          | StakingNew staking_code_id salt unstaking \<Rightarrow>
              Ok (st, [staking_instantiation deps env (sender info) token staking_code_id salt unstaking])))
      | TokenNew t \<Rightarrow>
          and_then (sum_cw20_coins (nt_initial_balances t)) (\<lambda>initial_supply.
          if initial_supply = 0 then Err InitialBalancesError
          else
          let balances = nt_initial_balances t @
                (case nt_initial_dao_balance t of
                   Some n \<Rightarrow> if n > 0 then [\<lparr>cw20_address = sender info, cw20_amount = n\<rparr>] else []
                 | None \<Rightarrow> []);
              st = st\<lparr>STAKING_CONTRACT_CODE_ID := Some (nt_staking_code_id t)\<rparr>;
              st = (case nt_staking_salt t of Some s \<Rightarrow> st\<lparr>STAKING_CONTRACT_SALT := Some s\<rparr> | None \<Rightarrow> st);
              st = st\<lparr>STAKING_CONTRACT_UNSTAKING_DURATION := Some (nt_unstaking_duration t)\<rparr>;
              info_new = \<lparr>code_id = nt_code_id t,
                          info_msg = encode_token_instantiate deps
                            \<lparr>tk_name = nt_name t, tk_symbol = nt_symbol t, tk_decimals = nt_decimals t,
                             tk_initial_balances = balances, tk_minter = Some (sender info),
                             tk_marketing = nt_marketing t\<rparr>,
                          info_admin = Some CoreModule,
                          info_funds = None,
                          info_label = nt_label t,
                          info_salt = nt_salt t\<rparr> in
          Ok (st, [reply_on_success (into_wasm_msg info_new (sender info)) INSTANTIATE_TOKEN_REPLY_ID]))))"

section \<open>Execution, replies and migration\<close>

definition execute_update_active_threshold ::
  "'x cw20_voting_deps_scheme \<Rightarrow> cw20_voting_state \<Rightarrow> message_info \<Rightarrow> active_threshold option \<Rightarrow> outcome" where
  "execute_update_active_threshold deps st info thr =
     and_then (map_err Std (load (DAO st))) (\<lambda>dao.
     if sender info \<noteq> dao then Err Unauthorized
     else
     case thr of
       Some new_thr \<Rightarrow>
         and_then
           (case new_thr of
              ActivePercentage pct \<Rightarrow>
                if decimal_less (decimal_percent 100) pct \<or> decimal_is_zero pct
                then Err InvalidActivePercentage else Ok ()
            | ActiveAbsoluteCount count \<Rightarrow>
                and_then (map_err Std (load (TOKEN st))) (\<lambda>token.
                assert_valid_absolute_count_threshold deps token count)) (\<lambda>_.
         Ok (st\<lparr>ACTIVE_THRESHOLD := Some new_thr\<rparr>, []))
     | None \<Rightarrow> Ok (st\<lparr>ACTIVE_THRESHOLD := None\<rparr>, []))"

definition execute ::
  "'x cw20_voting_deps_scheme \<Rightarrow> cw20_voting_state \<Rightarrow> message_info \<Rightarrow> execute_msg \<Rightarrow> outcome" where
  "execute deps st info msg =
     (case msg of UpdateActiveThreshold thr \<Rightarrow> execute_update_active_threshold deps st info thr)"

definition token_reply ::
  "'x cw20_voting_deps_scheme \<Rightarrow> cw20_voting_state \<Rightarrow> env \<Rightarrow> reply \<Rightarrow> outcome" where
  "token_reply deps st env msg =
     (case parsed_instantiate_data msg of
        Ok res \<Rightarrow>
          if TOKEN st \<noteq> None then Err DuplicateToken
          else
          and_then (map_err Std (addr_validate deps (res_contract_address res))) (\<lambda>token.
          let st = st\<lparr>TOKEN := Some token\<rparr> in
          and_then (check_absolute_count deps token (ACTIVE_THRESHOLD st)) (\<lambda>_.
          and_then (map_err Std (load (STAKING_CONTRACT_CODE_ID st))) (\<lambda>staking_code_id.
          and_then (map_err Std (load (STAKING_CONTRACT_UNSTAKING_DURATION st))) (\<lambda>unstaking.
          and_then (map_err Std (load (DAO st))) (\<lambda>dao.
          Ok (st, [staking_instantiation deps env dao token staking_code_id (STAKING_CONTRACT_SALT st) unstaking]))))))
      | Err _ \<Rightarrow> Err TokenInstantiateError
      | Panic \<Rightarrow> Panic)"

definition staking_reply ::
  "'x cw20_voting_deps_scheme \<Rightarrow> cw20_voting_state \<Rightarrow> reply \<Rightarrow> outcome" where
  "staking_reply deps st msg =
     (case parsed_instantiate_data msg of
        Ok res \<Rightarrow>
          and_then (map_err Std (addr_validate deps (res_contract_address res))) (\<lambda>staking.
          if STAKING_CONTRACT st \<noteq> None then Err DuplicateStakingContract
          else Ok (st\<lparr>STAKING_CONTRACT := Some staking\<rparr>, []))
      | Err _ \<Rightarrow> Err StakingInstantiateError
      | Panic \<Rightarrow> Panic)"

definition reply ::
  "'x cw20_voting_deps_scheme \<Rightarrow> cw20_voting_state \<Rightarrow> env \<Rightarrow> reply \<Rightarrow> outcome" where
  "reply deps st env msg =
     (if rep_id msg = INSTANTIATE_TOKEN_REPLY_ID then token_reply deps st env msg
      else if rep_id msg = INSTANTIATE_STAKING_REPLY_ID then staking_reply deps st msg
      else Err (UnknownReplyId (rep_id msg)))"

definition migrate :: "cw20_voting_state \<Rightarrow> outcome" where
  "migrate st =
     and_then (map_err Std (load (CONTRACT_INFO st))) (\<lambda>(_, version).
     Ok (if version < CONTRACT_VERSION
         then st\<lparr>CONTRACT_INFO := Some (CONTRACT_NAME, CONTRACT_VERSION)\<rparr> else st, []))"

section \<open>Queries\<close>

definition query_token_contract :: "cw20_voting_state \<Rightarrow> (addr, std_error) result" where
  "query_token_contract st = load (TOKEN st)"

definition query_staking_contract :: "cw20_voting_state \<Rightarrow> (addr, std_error) result" where
  "query_staking_contract st = load (STAKING_CONTRACT st)"

definition query_voting_power_at_height ::
  "'x cw20_voting_deps_scheme \<Rightarrow> cw20_voting_state \<Rightarrow> string \<Rightarrow> u64 option \<Rightarrow> (nat \<times> u64, std_error) result" where
  "query_voting_power_at_height deps st a h =
     and_then (load (STAKING_CONTRACT st)) (\<lambda>staking_contract.
     and_then (addr_validate deps a) (\<lambda>a.
     query_staked_balance deps staking_contract a h))"

definition query_total_power_at_height ::
  "'x cw20_voting_deps_scheme \<Rightarrow> cw20_voting_state \<Rightarrow> u64 option \<Rightarrow> (nat \<times> u64, std_error) result" where
  "query_total_power_at_height deps st h =
     and_then (load (STAKING_CONTRACT st)) (\<lambda>staking_contract.
     query_total_staked deps staking_contract h)"

definition query_info :: "cw20_voting_state \<Rightarrow> (string \<times> string, std_error) result" where
  "query_info st = load (CONTRACT_INFO st)"

definition query_dao :: "cw20_voting_state \<Rightarrow> (addr, std_error) result" where
  "query_dao st = load (DAO st)"

definition query_is_active ::
  "'x cw20_voting_deps_scheme \<Rightarrow> cw20_voting_state \<Rightarrow> (bool, std_error) result" where
  "query_is_active deps st =
     (case ACTIVE_THRESHOLD st of
        Some thr \<Rightarrow>
          and_then (load (TOKEN st)) (\<lambda>token_contract.
          and_then (load (STAKING_CONTRACT st)) (\<lambda>staking_contract.
          and_then (query_total_staked deps staking_contract None) (\<lambda>(actual_power, _).
          case thr of
            ActiveAbsoluteCount count \<Rightarrow> Ok (actual_power \<ge> count)
          | ActivePercentage pct \<Rightarrow>
              and_then (query_cw20_supply deps token_contract) (\<lambda>supply.
              and_then (active_count supply pct) (\<lambda>count.
              Ok (actual_power \<ge> count))))))
      | None \<Rightarrow> Ok True)"

definition query_active_threshold ::
  "cw20_voting_state \<Rightarrow> (active_threshold option, std_error) result" where
  "query_active_threshold st = Ok (ACTIVE_THRESHOLD st)"

datatype query_msg =
    TokenContract
  | StakingContract
  | VotingPowerAtHeight string "u64 option"
  | TotalPowerAtHeight "u64 option"
  | QueryInfo
  | QueryDao
  | IsActive
  | QueryActiveThreshold

datatype query_answer =
    AddrAnswer addr
  | PowerAnswer "nat \<times> u64"
  | InfoAnswer "string \<times> string"
  | ActiveAnswer bool
  | ThresholdAnswer "active_threshold option"

definition answer :: "('a \<Rightarrow> query_answer) \<Rightarrow> ('a, 'e) result \<Rightarrow> (query_answer, 'e) result" where
  "answer f r = and_then r (\<lambda>x. Ok (f x))"

definition query ::
  "'x cw20_voting_deps_scheme \<Rightarrow> cw20_voting_state \<Rightarrow> query_msg \<Rightarrow> (query_answer, std_error) result" where
  "query deps st msg =
     (case msg of
        TokenContract \<Rightarrow> answer AddrAnswer (query_token_contract st)
      | StakingContract \<Rightarrow> answer AddrAnswer (query_staking_contract st)
      | VotingPowerAtHeight a h \<Rightarrow> answer PowerAnswer (query_voting_power_at_height deps st a h)
      | TotalPowerAtHeight h \<Rightarrow> answer PowerAnswer (query_total_power_at_height deps st h)
      | QueryInfo \<Rightarrow> answer InfoAnswer (query_info st)
      | QueryDao \<Rightarrow> answer AddrAnswer (query_dao st)
      | IsActive \<Rightarrow> answer ActiveAnswer (query_is_active deps st)
      | QueryActiveThreshold \<Rightarrow> answer ThresholdAnswer (query_active_threshold st))"

end
