(* ===== verification/Voting_Token_Staked.thy ===== *)
theory Voting_Token_Staked
  imports Staking_Store Proposal_Module
begin

text \<open>
  The voting module \<open>dao-voting-token-staked\<close>: members stake native tokens and have the power
  of their stake at a height. Every handler, query, reply and the migration of
  \<open>contract.rs\<close>, with \<open>state.rs\<close>, \<open>error.rs\<close> and \<open>msg.rs\<close>, in the default build.
\<close>

section \<open>Tokens (dao-interface/src/token.rs)\<close>

record initial_balance =
  ib_amount :: nat
  ib_address :: string

record denom_unit =
  unit_denom :: string
  unit_exponent :: nat
  unit_aliases :: "string list"

record token_metadata =
  md_description :: string
  md_denom_units :: "denom_unit list"
  md_base :: string
  md_display :: string
  md_name :: string
  md_symbol :: string

record new_denom_metadata =
  nm_name :: string
  nm_description :: string
  nm_symbol :: string
  nm_display :: string
  nm_additional_denom_units :: "denom_unit list option"

record new_token_info =
  token_issuer_code_id :: u64
  token_issuer_salt :: "binary option"
  subdenom :: string
  new_metadata :: "new_denom_metadata option"
  initial_balances :: "initial_balance list"
  initial_dao_balance :: "nat option"

text \<open>The payloads of the messages that the contract sends, before their encoding.\<close>

datatype token_payload =
    SetMinterAllowance string nat
  | SetDenomMetadata token_metadata
  | Mint string nat
  | TransferOwnership string
  | AcceptOwnership
  | StakeChangeHook stake_changed_hook_msg
  | RawPayload binary

datatype bank_msg = BankSend string "coin list"

type_synonym token_msg = "(token_payload, bank_msg) cosmos_msg"

record token_factory_callback =
  cb_denom :: string
  cb_token_contract :: "string option"
  cb_module_instantiate_callback :: "token_msg list option"

section \<open>Messages, storage and errors (msg.rs, state.rs, error.rs)\<close>

datatype token_info = Existing string | New new_token_info | Factory binary

record instantiate_msg =
  im_token_info :: token_info
  im_unstaking_duration :: "duration option"
  im_active_threshold :: "active_threshold option"

datatype execute_msg =
    Stake_Tokens
  | Unstake_Tokens nat
  | UpdateConfig "duration option"
  | Claim
  | UpdateActiveThreshold "active_threshold option"
  | AddHook string
  | RemoveHook string

record config =
  unstaking_duration :: "duration option"

definition MAX_CLAIMS :: nat where
  "MAX_CLAIMS = 100"

record ('b, 't, 'c) token_state =
  CONTRACT_INFO :: "(string \<times> string) option"
  CONFIG :: "config option"
  DAO :: "addr option"
  DENOM :: "string option"
  STAKED_BALANCES :: 'b
  STAKED_TOTAL :: 't
  CLAIMS :: 'c
  ACTIVE_THRESHOLD :: "active_threshold option"
  HOOKS :: hooks
  TOKEN_INSTANTIATION_INFO :: "token_info option"
  TOKEN_ISSUER_CONTRACT :: "addr option"

datatype contract_error =
    Std std_error
  | ActiveThresholdError active_threshold_error
  | HookError hook_error
  | PaymentError payment_error
  | ParseReplyError string
  | UnstakingDurationError unstaking_duration_error
  | InitialBalancesError
  | InvalidUnstakeAmount
  | NoFactoryCallback
  | NothingToClaim
  | TooManyClaims
  | Unauthorized
  | UnknownReplyId u64
  | UnsupportedFactoryMsg
  | ZeroUnstake

text \<open>
  The querier with the supply of a native token, the stores of third-party crates, and the JSON
  decoding and encoding of factory messages.
\<close>

record ('b, 't, 'c) staking_deps = token_querier +
  query_supply :: "string \<Rightarrow> (nat, std_error) result"
  balances_ops :: "('b, addr) snapshot_ops"
  total_ops :: "('t, unit) snapshot_ops"
  claims_api :: "'c claims_ops"
  decode_factory_msg :: "binary \<Rightarrow> (binary wasm_msg, std_error) result"
  decode_factory_callback :: "binary \<Rightarrow> (token_factory_callback, std_error) result"
  encode_new_token :: "string \<Rightarrow> binary"

record token_reply = reply +
  parsed_execute_data :: "(binary option, string) result"

record token_response =
  tr_messages :: "token_msg sub_msg list"
  tr_data :: "token_msg list option"

type_synonym ('b, 't, 'c) outcome = "(('b, 't, 'c) token_state \<times> token_response, contract_error) result"

definition respond ::
  "('b, 't, 'c) token_state \<Rightarrow> token_msg sub_msg list \<Rightarrow> ('b, 't, 'c) outcome" where
  "respond st ms = Ok (st, \<lparr>tr_messages = ms, tr_data = None\<rparr>)"

section \<open>Instantiation\<close>

definition CONTRACT_NAME :: string where
  "CONTRACT_NAME = ''crates.io:dao-voting-token-staked''"

definition INSTANTIATE_TOKEN_FACTORY_ISSUER_REPLY_ID :: u64 where
  "INSTANTIATE_TOKEN_FACTORY_ISSUER_REPLY_ID = 0"

definition FACTORY_EXECUTE_REPLY_ID :: u64 where
  "FACTORY_EXECUTE_REPLY_ID = 2"

definition check_absolute_count ::
  "active_threshold option \<Rightarrow> (nat, contract_error) result \<Rightarrow> (unit, contract_error) result" where
  "check_absolute_count thr supply =
     (case thr of
        Some (ActiveAbsoluteCount count) \<Rightarrow>
          and_then supply (\<lambda>n. map_err ActiveThresholdError (assert_valid_absolute_count_threshold count n))
      | _ \<Rightarrow> Ok ())"

definition instantiate ::
  "('b, 't, 'c, 'x) staking_deps_scheme \<Rightarrow> ('b, 't, 'c) token_state \<Rightarrow> message_info \<Rightarrow> instantiate_msg
     \<Rightarrow> ('b, 't, 'c) outcome" where
  "instantiate deps st info msg =
     and_then (map_err UnstakingDurationError (validate_duration (im_unstaking_duration msg))) (\<lambda>_.
     let st = st\<lparr>CONTRACT_INFO := Some (CONTRACT_NAME, CONTRACT_VERSION),
                CONFIG := Some \<lparr>unstaking_duration = im_unstaking_duration msg\<rparr>,
                DAO := Some (sender info)\<rparr> in
     and_then
       (case im_active_threshold msg of
          Some thr \<Rightarrow>
            and_then (case thr of
                ActivePercentage pct \<Rightarrow>
                  map_err ActiveThresholdError (assert_valid_percentage_threshold pct)
              | _ \<Rightarrow> Ok ()) (\<lambda>_. Ok (st\<lparr>ACTIVE_THRESHOLD := Some thr\<rparr>))
        | None \<Rightarrow> Ok st) (\<lambda>st.
     case im_token_info msg of
       Existing denom \<Rightarrow>
         and_then (check_absolute_count (im_active_threshold msg) (map_err Std (query_supply deps denom))) (\<lambda>_.
         respond (st\<lparr>DENOM := Some denom\<rparr>) [])
     | New token \<Rightarrow>
         let st = st\<lparr>TOKEN_INSTANTIATION_INFO := Some (im_token_info msg)\<rparr>;
             issuer = \<lparr>code_id = token_issuer_code_id token,
                       info_msg = encode_new_token deps (subdenom token),
                       info_admin = Some CoreModule,
                       info_funds = Some (funds info),
                       info_label = ''cw-tokenfactory-issuer'',
                       info_salt = token_issuer_salt token\<rparr> in
         respond st
           [reply_on_success (Wasm (into_wasm_msg issuer (sender info)))
              INSTANTIATE_TOKEN_FACTORY_ISSUER_REPLY_ID]
     | Factory bin \<Rightarrow>
         and_then (map_err Std (decode_factory_msg deps bin)) (\<lambda>m.
         case m of
           WasmExecute a p fs \<Rightarrow>
             respond st [reply_on_success (Wasm (WasmExecute a (RawPayload p) fs)) FACTORY_EXECUTE_REPLY_ID]
         | _ \<Rightarrow> Err UnsupportedFactoryMsg)))"

section \<open>Staking\<close>

text \<open>The hook messages of \<open>dao-hooks\<close>, as messages of this contract.\<close>

definition hook_messages :: "stake_changed_hook_msg wasm_msg sub_msg list \<Rightarrow> token_msg sub_msg list" where
  "hook_messages ms =
     map (\<lambda>m. \<lparr>msg_id = msg_id m, msg_body = Wasm (map_wasm_msg StakeChangeHook (msg_body m)),
                msg_reply_on = msg_reply_on m\<rparr>) ms"

definition execute_stake ::
  "('b, 't, 'c, 'x) staking_deps_scheme \<Rightarrow> ('b, 't, 'c) token_state \<Rightarrow> env \<Rightarrow> message_info
     \<Rightarrow> ('b, 't, 'c) outcome" where
  "execute_stake deps st env info =
     and_then (map_err Std (load (DENOM st))) (\<lambda>denom.
     and_then (map_err PaymentError (must_pay deps info denom)) (\<lambda>amount.
     and_then (snap_update (balances_ops deps) (STAKED_BALANCES st) (sender info) (height (block env))
        (\<lambda>balance. map_err Std (checked_add128 (or_zero balance) amount))) (\<lambda>bals.
     and_then (snap_update (total_ops deps) (STAKED_TOTAL st) () (height (block env))
        (\<lambda>total. map_err Std (checked_add128 (or_zero total) amount))) (\<lambda>tot.
     respond (st\<lparr>STAKED_BALANCES := bals, STAKED_TOTAL := tot\<rparr>)
       (hook_messages (stake_hook_msgs (HOOKS st) (sender info) amount))))))"

definition unstake_sub :: "nat option \<Rightarrow> nat \<Rightarrow> (nat, contract_error) result" where
  "unstake_sub x n = map_err (\<lambda>_. InvalidUnstakeAmount) (checked_sub128 (or_zero x) n)"

text \<open>The end of \<open>execute_unstake\<close>: the tokens are sent back at once, or a claim is created.\<close>

definition release_or_claim ::
  "('b, 't, 'c, 'x) staking_deps_scheme \<Rightarrow> ('b, 't, 'c) token_state \<Rightarrow> env \<Rightarrow> message_info \<Rightarrow> nat
     \<Rightarrow> token_msg sub_msg list \<Rightarrow> ('b, 't, 'c) outcome" where
  "release_or_claim deps st env info amount hook_msgs =
     and_then (map_err Std (load (CONFIG st))) (\<lambda>cfg.
     and_then (map_err Std (load (DENOM st))) (\<lambda>denom.
     case unstaking_duration cfg of
       None \<Rightarrow>
         respond st
           (sub_msg_new (Forwarded (BankSend (sender info) [\<lparr>coin_denom = denom, coin_amount = amount\<rparr>]))
            # hook_msgs)
     | Some duration \<Rightarrow>
         if length (query_claims (claims_api deps) (CLAIMS st) (sender info)) \<ge> MAX_CLAIMS
         then Err TooManyClaims
         else
         and_then (ok_or_panic (duration_after deps duration (block env))) (\<lambda>release_at.
         and_then (map_err Std (create_claim (claims_api deps) (CLAIMS st) (sender info) amount release_at))
           (\<lambda>claims.
         respond (st\<lparr>CLAIMS := claims\<rparr>) hook_msgs))))"

definition execute_unstake ::
  "('b, 't, 'c, 'x) staking_deps_scheme \<Rightarrow> ('b, 't, 'c) token_state \<Rightarrow> env \<Rightarrow> message_info \<Rightarrow> nat
     \<Rightarrow> ('b, 't, 'c) outcome" where
  "execute_unstake deps st env info amount =
     (if amount = 0 then Err ZeroUnstake
      else
      and_then (snap_update (balances_ops deps) (STAKED_BALANCES st) (sender info) (height (block env))
         (\<lambda>balance. unstake_sub balance amount)) (\<lambda>bals.
      and_then (snap_update (total_ops deps) (STAKED_TOTAL st) () (height (block env))
         (\<lambda>total. unstake_sub total amount)) (\<lambda>tot.
      release_or_claim deps (st\<lparr>STAKED_BALANCES := bals, STAKED_TOTAL := tot\<rparr>) env info amount
        (hook_messages (unstake_hook_msgs (HOOKS st) (sender info) amount)))))"

definition execute_update_config ::
  "('b, 't, 'c) token_state \<Rightarrow> message_info \<Rightarrow> duration option \<Rightarrow> ('b, 't, 'c) outcome" where
  "execute_update_config st info d =
     and_then (map_err Std (load (CONFIG st))) (\<lambda>cfg.
     and_then (map_err Std (load (DAO st))) (\<lambda>dao.
     if sender info \<noteq> dao then Err Unauthorized
     else
     and_then (map_err UnstakingDurationError (validate_duration d)) (\<lambda>_.
     respond (st\<lparr>CONFIG := Some (cfg\<lparr>unstaking_duration := d\<rparr>)\<rparr>) [])))"

definition execute_claim ::
  "('b, 't, 'c, 'x) staking_deps_scheme \<Rightarrow> ('b, 't, 'c) token_state \<Rightarrow> env \<Rightarrow> message_info
     \<Rightarrow> ('b, 't, 'c) outcome" where
  "execute_claim deps st env info =
     and_then (map_err Std (claim_tokens (claims_api deps) (CLAIMS st) (sender info) (block env)))
       (\<lambda>(claims, release).
     if release = 0 then Err NothingToClaim
     else
     and_then (map_err Std (load (DENOM st))) (\<lambda>denom.
     respond (st\<lparr>CLAIMS := claims\<rparr>)
       [sub_msg_new (Forwarded (BankSend (sender info) [\<lparr>coin_denom = denom, coin_amount = release\<rparr>]))]))"

definition execute_update_active_threshold ::
  "('b, 't, 'c, 'x) staking_deps_scheme \<Rightarrow> ('b, 't, 'c) token_state \<Rightarrow> message_info
     \<Rightarrow> active_threshold option \<Rightarrow> ('b, 't, 'c) outcome" where
  "execute_update_active_threshold deps st info thr =
     and_then (map_err Std (load (DAO st))) (\<lambda>dao.
     if sender info \<noteq> dao then Err Unauthorized
     else
     case thr of
       Some new_thr \<Rightarrow>
         and_then
           (case new_thr of
              ActivePercentage pct \<Rightarrow>
                map_err ActiveThresholdError (assert_valid_percentage_threshold pct)
            | ActiveAbsoluteCount count \<Rightarrow>
                and_then (map_err Std (load (DENOM st))) (\<lambda>denom.
                and_then (map_err Std (query_supply deps denom)) (\<lambda>supply.
                map_err ActiveThresholdError (assert_valid_absolute_count_threshold count supply)))) (\<lambda>_.
         respond (st\<lparr>ACTIVE_THRESHOLD := Some new_thr\<rparr>) [])
     | None \<Rightarrow> respond (st\<lparr>ACTIVE_THRESHOLD := None\<rparr>) [])"

definition execute_add_hook ::
  "'x cw_env_scheme \<Rightarrow> ('b, 't, 'c) token_state \<Rightarrow> message_info \<Rightarrow> string \<Rightarrow> ('b, 't, 'c) outcome" where
  "execute_add_hook deps st info a =
     and_then (map_err Std (load (DAO st))) (\<lambda>dao.
     if sender info \<noteq> dao then Err Unauthorized
     else
     and_then (map_err Std (addr_validate deps a)) (\<lambda>hook.
     and_then (map_err HookError (add_hook (HOOKS st) hook)) (\<lambda>hs.
     respond (st\<lparr>HOOKS := hs\<rparr>) [])))"

definition execute_remove_hook ::
  "'x cw_env_scheme \<Rightarrow> ('b, 't, 'c) token_state \<Rightarrow> message_info \<Rightarrow> string \<Rightarrow> ('b, 't, 'c) outcome" where
  "execute_remove_hook deps st info a =
     and_then (map_err Std (load (DAO st))) (\<lambda>dao.
     if sender info \<noteq> dao then Err Unauthorized
     else
     and_then (map_err Std (addr_validate deps a)) (\<lambda>hook.
     and_then (map_err HookError (remove_hook (HOOKS st) hook)) (\<lambda>hs.
     respond (st\<lparr>HOOKS := hs\<rparr>) [])))"

definition execute ::
  "('b, 't, 'c, 'x) staking_deps_scheme \<Rightarrow> ('b, 't, 'c) token_state \<Rightarrow> env \<Rightarrow> message_info \<Rightarrow> execute_msg
     \<Rightarrow> ('b, 't, 'c) outcome" where
  "execute deps st env info msg =
     (case msg of
        Stake_Tokens \<Rightarrow> execute_stake deps st env info
      | Unstake_Tokens amount \<Rightarrow> execute_unstake deps st env info amount
      | UpdateConfig d \<Rightarrow> execute_update_config st info d
      | Claim \<Rightarrow> execute_claim deps st env info
      | UpdateActiveThreshold thr \<Rightarrow> execute_update_active_threshold deps st info thr
      | AddHook a \<Rightarrow> execute_add_hook deps st info a
      | RemoveHook a \<Rightarrow> execute_remove_hook deps st info a)"

section \<open>Replies\<close>

definition sum_initial_balances :: "initial_balance list \<Rightarrow> (nat, 'e) result" where
  "sum_initial_balances bs = try_fold (\<lambda>previous b. add128 previous (ib_amount b)) 0 bs"

definition denom_metadata :: "string \<Rightarrow> string \<Rightarrow> new_denom_metadata \<Rightarrow> token_metadata" where
  "denom_metadata denom sub m =
     \<lparr>md_description = nm_description m,
      md_denom_units = sort_key unit_exponent
        (\<lparr>unit_denom = denom, unit_exponent = 0, unit_aliases = [sub]\<rparr> #
         (case nm_additional_denom_units m of None \<Rightarrow> [] | Some us \<Rightarrow> us)),
      md_base = denom,
      md_display = nm_display m,
      md_name = nm_name m,
      md_symbol = nm_symbol m\<rparr>"

text \<open>The messages that set a new token up, in order.\<close>

definition setup_messages ::
  "addr \<Rightarrow> addr \<Rightarrow> addr \<Rightarrow> string \<Rightarrow> new_token_info \<Rightarrow> nat \<Rightarrow> token_payload list" where
  "setup_messages self dao issuer denom token total_supply =
     [SetMinterAllowance self total_supply]
     @ (case new_metadata token of
          None \<Rightarrow> [] | Some m \<Rightarrow> [SetDenomMetadata (denom_metadata denom (subdenom token) m)])
     @ map (\<lambda>b. Mint (ib_address b) (ib_amount b)) (initial_balances token)
     @ (case initial_dao_balance token of
          None \<Rightarrow> [] | Some n \<Rightarrow> if n \<noteq> 0 then [Mint dao n] else [])
     @ [TransferOwnership dao]"

definition issuer_reply ::
  "'x cw_env_scheme \<Rightarrow> ('b, 't, 'c) token_state \<Rightarrow> env \<Rightarrow> token_reply \<Rightarrow> ('b, 't, 'c) outcome" where
  "issuer_reply deps st env msg =
     and_then (map_err ParseReplyError (parsed_instantiate_data msg)) (\<lambda>res.
     let issuer_addr = res_contract_address res in
     and_then (map_err Std (addr_validate deps issuer_addr)) (\<lambda>a.
     let st = st\<lparr>TOKEN_ISSUER_CONTRACT := Some a\<rparr> in
     and_then (map_err Std (load (TOKEN_INSTANTIATION_INFO st))) (\<lambda>tinfo.
     let st = st\<lparr>TOKEN_INSTANTIATION_INFO := None\<rparr> in
     case tinfo of
       New token \<Rightarrow>
         and_then (map_err Std (load (DAO st))) (\<lambda>dao.
         let denom = ''factory/'' @ issuer_addr @ ''/'' @ subdenom token;
             st = st\<lparr>DENOM := Some denom\<rparr> in
         and_then (sum_initial_balances (initial_balances token)) (\<lambda>initial_supply.
         and_then (add128 initial_supply (or_zero (initial_dao_balance token))) (\<lambda>total_supply.
         and_then (check_absolute_count (ACTIVE_THRESHOLD st) (Ok initial_supply)) (\<lambda>_.
         if initial_supply = 0 then Err InitialBalancesError
         else
         Ok (st, \<lparr>tr_messages =
                    map (\<lambda>p. sub_msg_new (Wasm (WasmExecute issuer_addr p [])))
                      (setup_messages (contract_address env) dao issuer_addr denom token total_supply),
                  tr_data = Some [Wasm (WasmExecute issuer_addr AcceptOwnership [])]\<rparr>)))))
     | _ \<Rightarrow> Panic)))"

definition factory_reply ::
  "('b, 't, 'c, 'x) staking_deps_scheme \<Rightarrow> ('b, 't, 'c) token_state \<Rightarrow> token_reply \<Rightarrow> ('b, 't, 'c) outcome" where
  "factory_reply deps st msg =
     and_then (map_err ParseReplyError (parsed_execute_data msg)) (\<lambda>res.
     case res of
       None \<Rightarrow> Err NoFactoryCallback
     | Some bin \<Rightarrow>
         and_then (map_err Std (decode_factory_callback deps bin)) (\<lambda>info.
         let st = st\<lparr>DENOM := Some (cb_denom info)\<rparr> in
         and_then (map_err Std (load (DAO st))) (\<lambda>dao.
         and_then (map_err Std (query_supply deps (cb_denom info))) (\<lambda>total_minted.
         and_then (map_err Std (query_bank_balance deps dao (cb_denom info))) (\<lambda>dao_minted.
         and_then (sub128 total_minted dao_minted) (\<lambda>initial_supply.
         and_then (check_absolute_count (ACTIVE_THRESHOLD st) (Ok initial_supply)) (\<lambda>_.
         if initial_supply = 0 then Err InitialBalancesError
         else
         and_then
           (case cb_token_contract info of
              Some a \<Rightarrow> and_then (map_err Std (addr_validate deps a)) (\<lambda>a. Ok (Some a))
            | None \<Rightarrow> Ok (TOKEN_ISSUER_CONTRACT st)) (\<lambda>issuer.
         Ok (st\<lparr>TOKEN_ISSUER_CONTRACT := issuer\<rparr>,
             \<lparr>tr_messages = [], tr_data = cb_module_instantiate_callback info\<rparr>)))))))))"

definition reply ::
  "('b, 't, 'c, 'x) staking_deps_scheme \<Rightarrow> ('b, 't, 'c) token_state \<Rightarrow> env \<Rightarrow> token_reply
     \<Rightarrow> ('b, 't, 'c) outcome" where
  "reply deps st env msg =
     (if rep_id msg = INSTANTIATE_TOKEN_FACTORY_ISSUER_REPLY_ID then issuer_reply deps st env msg
      else if rep_id msg = FACTORY_EXECUTE_REPLY_ID then factory_reply deps st msg
      else Err (UnknownReplyId (rep_id msg)))"

definition migrate :: "('b, 't, 'c) token_state \<Rightarrow> ('b, 't, 'c) outcome" where
  "migrate st =
     and_then (map_err Std (load (CONTRACT_INFO st))) (\<lambda>(_, version).
     respond
       (if version < CONTRACT_VERSION
        then st\<lparr>CONTRACT_INFO := Some (CONTRACT_NAME, CONTRACT_VERSION)\<rparr> else st) [])"

section \<open>Queries\<close>

definition MAX_LIMIT :: nat where
  "MAX_LIMIT = 30"

definition DEFAULT_LIMIT :: nat where
  "DEFAULT_LIMIT = 10"

definition query_voting_power_at_height ::
  "('b, 't, 'c, 'x) staking_deps_scheme \<Rightarrow> ('b, 't, 'c) token_state \<Rightarrow> env \<Rightarrow> string \<Rightarrow> u64 option
     \<Rightarrow> (nat \<times> u64, std_error) result" where
  "query_voting_power_at_height deps st env a h =
     (let h = (case h of None \<Rightarrow> height (block env) | Some h \<Rightarrow> h) in
      and_then (addr_validate deps a) (\<lambda>a.
      Ok (or_zero (snap_at (balances_ops deps) (STAKED_BALANCES st) a h), h)))"

definition query_total_power_at_height ::
  "('b, 't, 'c, 'x) staking_deps_scheme \<Rightarrow> ('b, 't, 'c) token_state \<Rightarrow> env \<Rightarrow> u64 option
     \<Rightarrow> (nat \<times> u64, std_error) result" where
  "query_total_power_at_height deps st env h =
     (let h = (case h of None \<Rightarrow> height (block env) | Some h \<Rightarrow> h) in
      Ok (or_zero (snap_at (total_ops deps) (STAKED_TOTAL st) () h), h))"

definition query_info :: "('b, 't, 'c) token_state \<Rightarrow> (string \<times> string, std_error) result" where
  "query_info st = load (CONTRACT_INFO st)"

definition query_dao :: "('b, 't, 'c) token_state \<Rightarrow> (addr, std_error) result" where
  "query_dao st = load (DAO st)"

definition query_staking_claims ::
  "('b, 't, 'c, 'x) staking_deps_scheme \<Rightarrow> ('b, 't, 'c) token_state \<Rightarrow> string
     \<Rightarrow> ((nat \<times> expiration) list, std_error) result" where
  "query_staking_claims deps st a =
     and_then (addr_validate deps a) (\<lambda>a. Ok (query_claims (claims_api deps) (CLAIMS st) a))"

definition query_list_stakers ::
  "('b, 't, 'c, 'x) staking_deps_scheme \<Rightarrow> ('b, 't, 'c) token_state \<Rightarrow> string option \<Rightarrow> nat option
     \<Rightarrow> ((addr \<times> nat) list, std_error) result" where
  "query_list_stakers deps st start_after limit =
     (let limit = min (case limit of None \<Rightarrow> DEFAULT_LIMIT | Some n \<Rightarrow> n) MAX_LIMIT in
      and_then (transpose_opt (addr_validate deps) start_after) (\<lambda>start.
      Ok (take limit
            (filter (\<lambda>(a, _). case start of None \<Rightarrow> True | Some s \<Rightarrow> s < a)
               (snap_range (balances_ops deps) (STAKED_BALANCES st))))))"

definition query_is_active ::
  "('b, 't, 'c, 'x) staking_deps_scheme \<Rightarrow> ('b, 't, 'c) token_state \<Rightarrow> (bool, std_error) result" where
  "query_is_active deps st =
     (case ACTIVE_THRESHOLD st of
        Some thr \<Rightarrow>
          and_then (load (DENOM st)) (\<lambda>denom.
          let actual_power = or_zero (snap_load (total_ops deps) (STAKED_TOTAL st) ()) in
          case thr of
            ActiveAbsoluteCount count \<Rightarrow> Ok (actual_power \<ge> count)
          | ActivePercentage pct \<Rightarrow>
              and_then (query_supply deps denom) (\<lambda>supply.
              and_then (active_count supply pct) (\<lambda>count.
              Ok (actual_power \<ge> count))))
      | None \<Rightarrow> Ok True)"

definition query_active_threshold ::
  "('b, 't, 'c) token_state \<Rightarrow> (active_threshold option, std_error) result" where
  "query_active_threshold st = Ok (ACTIVE_THRESHOLD st)"

definition query_stake_hooks :: "('b, 't, 'c) token_state \<Rightarrow> (addr list, std_error) result" where
  "query_stake_hooks st = Ok (query_hooks (HOOKS st))"

datatype query_msg =
    VotingPowerAtHeight string "u64 option"
  | TotalPowerAtHeight "u64 option"
  | QueryInfo
  | QueryDao
  | QueryClaims string
  | QueryGetConfig
  | QueryDenom
  | ListStakers "string option" "nat option"
  | IsActive
  | QueryActiveThreshold
  | GetHooks
  | TokenContract

datatype query_answer =
    PowerAnswer "nat \<times> u64"
  | InfoAnswer "string \<times> string"
  | AddrAnswer addr
  | ClaimsAnswer "(nat \<times> expiration) list"
  | ConfigAnswer config
  | DenomAnswer string
  | StakersAnswer "(addr \<times> nat) list"
  | ActiveAnswer bool
  | ThresholdAnswer "active_threshold option"
  | HooksAnswer "addr list"
  | ContractAnswer "addr option"

definition answer :: "('a \<Rightarrow> query_answer) \<Rightarrow> ('a, 'e) result \<Rightarrow> (query_answer, 'e) result" where
  "answer f r = and_then r (\<lambda>x. Ok (f x))"

definition query ::
  "('b, 't, 'c, 'x) staking_deps_scheme \<Rightarrow> ('b, 't, 'c) token_state \<Rightarrow> env \<Rightarrow> query_msg
     \<Rightarrow> (query_answer, std_error) result" where
  "query deps st env msg =
     (case msg of
        VotingPowerAtHeight a h \<Rightarrow> answer PowerAnswer (query_voting_power_at_height deps st env a h)
      | TotalPowerAtHeight h \<Rightarrow> answer PowerAnswer (query_total_power_at_height deps st env h)
      | QueryInfo \<Rightarrow> answer InfoAnswer (query_info st)
      | QueryDao \<Rightarrow> answer AddrAnswer (query_dao st)
      | QueryClaims a \<Rightarrow> answer ClaimsAnswer (query_staking_claims deps st a)
      | QueryGetConfig \<Rightarrow> answer ConfigAnswer (load (CONFIG st))
      | QueryDenom \<Rightarrow> answer DenomAnswer (load (DENOM st))
      | ListStakers start_after limit \<Rightarrow> answer StakersAnswer (query_list_stakers deps st start_after limit)
      | IsActive \<Rightarrow> answer ActiveAnswer (query_is_active deps st)
      | QueryActiveThreshold \<Rightarrow> answer ThresholdAnswer (query_active_threshold st)
      | GetHooks \<Rightarrow> answer HooksAnswer (query_stake_hooks st)
      | TokenContract \<Rightarrow> Ok (ContractAnswer (TOKEN_ISSUER_CONTRACT st)))"

end
