(* ===== verification/Voting_Token_Props.thy ===== *)
theory Voting_Token_Props
  imports Voting_Token_Staked Proposal_Lifecycle Dao_Deposit
begin

text \<open>
  Runs of \<open>dao-voting-token-staked\<close>: what each handler does to the stakes, the claims and the
  tokens in custody, and the invariant that ties the three together at every height.
\<close>

section \<open>Movements of tokens\<close>

text \<open>What a member pays in by staking, and what the messages of a response pay out to an account.\<close>

definition paid_in :: "execute_msg \<Rightarrow> message_info \<Rightarrow> addr \<Rightarrow> nat" where
  "paid_in msg info a =
     (if msg = Stake_Tokens \<and> sender info = a then \<Sum>c \<leftarrow> funds info. coin_amount c else 0)"

definition bank_out :: "addr \<Rightarrow> token_msg sub_msg \<Rightarrow> nat" where
  "bank_out a m =
     (case msg_body m of
        Forwarded (BankSend b cs) \<Rightarrow> if b = a then \<Sum>c \<leftarrow> cs. coin_amount c else 0
      | _ \<Rightarrow> 0)"

definition paid_out :: "token_msg sub_msg list \<Rightarrow> addr \<Rightarrow> nat" where
  "paid_out ms a = (\<Sum>m \<leftarrow> ms. bank_out a m)"

lemma paid_out_simps [simp]:
  "paid_out [] a = 0" "paid_out (m # ms) a = bank_out a m + paid_out ms a"
  by (simp_all add: paid_out_def)

lemma bank_out_send [simp]:
  "bank_out a (sub_msg_new (Forwarded (BankSend b [\<lparr>coin_denom = d, coin_amount = n\<rparr>]))) = (if b = a then n else 0)"
  by (simp add: bank_out_def sub_msg_new_def)

lemma hooks_pay_nothing [simp]: "paid_out (hook_messages ms) a = 0"
  by (induction ms) (simp_all add: hook_messages_def paid_out_def bank_out_def)

section \<open>Effects of the handlers\<close>

lemma execute_stake_Ok:
  assumes "execute_stake deps st env info = Ok (st', r)"
  obtains denom n where "DENOM st = Some denom" and "must_pay deps info denom = Ok n"
    and "st' = st\<lparr>
      STAKED_BALANCES := snap_save (balances_ops deps) (STAKED_BALANCES st) (sender info)
        (or_zero (snap_load (balances_ops deps) (STAKED_BALANCES st) (sender info)) + n) (height (block env)),
      STAKED_TOTAL := snap_save (total_ops deps) (STAKED_TOTAL st) ()
        (or_zero (snap_load (total_ops deps) (STAKED_TOTAL st) ()) + n) (height (block env))\<rparr>"
    and "\<forall>a. paid_out (tr_messages r) a = 0"
proof -
  from assms obtain denom n where "DENOM st = Some denom" "must_pay deps info denom = Ok n"
    "st' = st\<lparr>
      STAKED_BALANCES := snap_save (balances_ops deps) (STAKED_BALANCES st) (sender info)
        (or_zero (snap_load (balances_ops deps) (STAKED_BALANCES st) (sender info)) + n) (height (block env)),
      STAKED_TOTAL := snap_save (total_ops deps) (STAKED_TOTAL st) ()
        (or_zero (snap_load (total_ops deps) (STAKED_TOTAL st) ()) + n) (height (block env))\<rparr>"
    "\<forall>a. paid_out (tr_messages r) a = 0"
    by (auto simp: execute_stake_def snap_update_def respond_def result_ok)
  then show thesis by (rule that)
qed

text \<open>How unstaked tokens leave: at once, or as a claim.\<close>

definition released ::
  "'c claims_ops \<Rightarrow> 'c \<Rightarrow> addr \<Rightarrow> nat \<Rightarrow> 'c \<Rightarrow> token_msg sub_msg list \<Rightarrow> bool" where
  "released co c who n c' ms \<longleftrightarrow>
     c' = c \<and> (\<forall>a. paid_out ms a = (if who = a then n else 0)) \<or>
     (\<exists>e. create_claim co c who n e = Ok c') \<and> (\<forall>a. paid_out ms a = 0)"

lemma release_or_claim_Ok:
  assumes "release_or_claim deps st env info n (hook_messages hs) = Ok (st', r)"
  shows "\<exists>c. st' = st\<lparr>CLAIMS := c\<rparr> \<and> released (claims_api deps) (CLAIMS st) (sender info) n c (tr_messages r)"
proof -
  from assms obtain cfg where "CONFIG st = Some cfg" by (auto simp: release_or_claim_def result_ok)
  with assms show ?thesis
    by (cases "unstaking_duration cfg")
       (auto simp: release_or_claim_def released_def respond_def result_ok intro: exI [of _ "CLAIMS st"]
        split: if_splits)
qed

lemma execute_unstake_Ok:
  assumes "execute_unstake deps st env info n = Ok (st', r)"
  obtains c where "n \<le> or_zero (snap_load (balances_ops deps) (STAKED_BALANCES st) (sender info))"
    and "n \<le> or_zero (snap_load (total_ops deps) (STAKED_TOTAL st) ())"
    and "st' = st\<lparr>
      STAKED_BALANCES := snap_save (balances_ops deps) (STAKED_BALANCES st) (sender info)
        (or_zero (snap_load (balances_ops deps) (STAKED_BALANCES st) (sender info)) - n) (height (block env)),
      STAKED_TOTAL := snap_save (total_ops deps) (STAKED_TOTAL st) ()
        (or_zero (snap_load (total_ops deps) (STAKED_TOTAL st) ()) - n) (height (block env)),
      CLAIMS := c\<rparr>"
    and "released (claims_api deps) (CLAIMS st) (sender info) n c (tr_messages r)"
proof -
  from assms obtain bals tot where
    "n \<le> or_zero (snap_load (balances_ops deps) (STAKED_BALANCES st) (sender info))"
    "n \<le> or_zero (snap_load (total_ops deps) (STAKED_TOTAL st) ())"
    "bals = snap_save (balances_ops deps) (STAKED_BALANCES st) (sender info)
        (or_zero (snap_load (balances_ops deps) (STAKED_BALANCES st) (sender info)) - n) (height (block env))"
    "tot = snap_save (total_ops deps) (STAKED_TOTAL st) ()
        (or_zero (snap_load (total_ops deps) (STAKED_TOTAL st) ()) - n) (height (block env))"
    "release_or_claim deps (st\<lparr>STAKED_BALANCES := bals, STAKED_TOTAL := tot\<rparr>) env info n
        (hook_messages (unstake_hook_msgs (HOOKS st) (sender info) n)) = Ok (st', r)"
    by (auto simp: execute_unstake_def snap_update_def unstake_sub_def result_ok split: if_splits)
  with release_or_claim_Ok [OF this(5)] that show thesis by auto
qed

lemma execute_claim_Ok:
  assumes "execute_claim deps st env info = Ok (st', r)"
  obtains c n where "claim_tokens (claims_api deps) (CLAIMS st) (sender info) (block env) = Ok (c, n)"
    and "st' = st\<lparr>CLAIMS := c\<rparr>" and "\<forall>a. paid_out (tr_messages r) a = (if sender info = a then n else 0)"
  using assms that by (auto simp: execute_claim_def respond_def result_ok split: if_splits)

text \<open>The other messages move no tokens and leave stakes and claims alone.\<close>

definition same_stakes :: "('b, 't, 'c) token_state \<Rightarrow> ('b, 't, 'c) token_state \<Rightarrow> bool" where
  "same_stakes st st' \<longleftrightarrow>
     STAKED_BALANCES st' = STAKED_BALANCES st \<and> STAKED_TOTAL st' = STAKED_TOTAL st \<and> CLAIMS st' = CLAIMS st"

lemma execute_others_Ok:
  assumes "execute deps st env info msg = Ok (st', r)"
    and "msg \<noteq> Stake_Tokens" and "\<forall>n. msg \<noteq> Unstake_Tokens n" and "msg \<noteq> Claim"
  shows "same_stakes st st' \<and> tr_messages r = []"
  using assms
  by (cases msg)
     (auto simp: execute_def execute_update_config_def execute_update_active_threshold_def execute_add_hook_def
      execute_remove_hook_def respond_def result_ok same_stakes_def split: if_splits option.splits)

lemma issuer_reply_stakes:
  assumes "issuer_reply deps st env msg = Ok (st', r)"
  shows "same_stakes st st'"
proof -
  from assms obtain tinfo where "TOKEN_INSTANTIATION_INFO st = Some tinfo"
    by (auto simp: issuer_reply_def result_ok Let_def)
  with assms show ?thesis
    by (cases tinfo) (auto simp: issuer_reply_def result_ok Let_def same_stakes_def split: if_splits)
qed

lemma factory_reply_stakes:
  assumes "factory_reply deps st msg = Ok (st', r)"
  shows "same_stakes st st'"
proof -
  from assms obtain x where "parsed_execute_data msg = Ok x" by (auto simp: factory_reply_def result_ok)
  with assms show ?thesis
    by (cases x) (auto simp: factory_reply_def result_ok Let_def same_stakes_def split: if_splits)
qed

lemma reply_Ok_stakes: "reply deps st env msg = Ok (st', r) \<Longrightarrow> same_stakes st st'"
  by (auto simp: reply_def split: if_splits intro: issuer_reply_stakes factory_reply_stakes)

lemma migrate_Ok_stakes: "migrate st = Ok (st', r) \<Longrightarrow> same_stakes st st'"
  by (auto simp: migrate_def respond_def result_ok same_stakes_def)

section \<open>Runs\<close>

text \<open>
  A run logs, for every message, what each account paid in and was paid out. The stores are the
  same throughout, time does not go back, and a reply arrives in the transaction that instantiates
  the contract, before its token is known.
\<close>

type_synonym flow = "(addr \<Rightarrow> nat) \<times> (addr \<Rightarrow> nat)"

inductive token_step ::
  "('b, addr) snapshot_ops \<Rightarrow> ('t, unit) snapshot_ops \<Rightarrow> 'c claims_ops
     \<Rightarrow> block_info \<times> ('b, 't, 'c) token_state \<Rightarrow> flow list \<Rightarrow> block_info \<times> ('b, 't, 'c) token_state \<Rightarrow> bool"
  for bo to co where
  step_execute: "execute (deps :: ('b, 't, 'c) staking_deps) st env info msg = Ok (st', r) \<Longrightarrow>
      balances_ops deps = bo \<Longrightarrow> total_ops deps = to \<Longrightarrow> claims_api deps = co \<Longrightarrow> must_pay_exact deps \<Longrightarrow>
      block_le b (block env) \<Longrightarrow>
      token_step bo to co (b, st) [(paid_in msg info, paid_out (tr_messages r))] (block env, st')"
| step_reply: "reply (deps :: ('b, 't, 'c) staking_deps) st env msg = Ok (st', r) \<Longrightarrow> DENOM st = None \<Longrightarrow>
      block_le b (block env) \<Longrightarrow> token_step bo to co (b, st) [] (block env, st')"
| step_migrate: "migrate st = Ok (st', r) \<Longrightarrow> token_step bo to co (b, st) [] (b, st')"

inductive_cases token_stepE: "token_step bo to co x l y"

definition total_in :: "flow list \<Rightarrow> addr \<Rightarrow> nat" where
  "total_in log a = (\<Sum>f \<leftarrow> log. fst f a)"

definition total_out :: "flow list \<Rightarrow> addr \<Rightarrow> nat" where
  "total_out log a = (\<Sum>f \<leftarrow> log. snd f a)"

lemma totals_simps [simp]:
  "total_in [] a = 0" "total_out [] a = 0"
  "total_in (log @ l) a = total_in log a + total_in l a" "total_out (log @ l) a = total_out log a + total_out l a"
  "total_in [f] a = fst f a" "total_out [f] a = snd f a"
  by (simp_all add: total_in_def total_out_def)

section \<open>The invariant\<close>

text \<open>The stores of third-party crates behave as documented.\<close>

definition stores_ok ::
  "('b, addr) snapshot_ops \<Rightarrow> ('t, unit) snapshot_ops \<Rightarrow> 'c claims_ops \<Rightarrow> (expiration \<Rightarrow> block_info \<Rightarrow> bool)
     \<Rightarrow> ('b \<Rightarrow> u64 \<Rightarrow> bool) \<Rightarrow> ('t \<Rightarrow> u64 \<Rightarrow> bool) \<Rightarrow> bool" where
  "stores_ok bo to co expiry bu tu \<longleftrightarrow> snapshot_laws bo bu \<and> snapshot_laws to tu \<and> claims_laws co expiry"

definition token_inv ::
  "('b, addr) snapshot_ops \<Rightarrow> ('t, unit) snapshot_ops \<Rightarrow> 'c claims_ops \<Rightarrow> ('b \<Rightarrow> u64 \<Rightarrow> bool) \<Rightarrow> ('t \<Rightarrow> u64 \<Rightarrow> bool)
     \<Rightarrow> flow list \<Rightarrow> block_info \<times> ('b, 't, 'c) token_state \<Rightarrow> bool" where
  "token_inv bo to co bu tu log x \<longleftrightarrow>
     balanced bo to (STAKED_BALANCES (snd x)) (STAKED_TOTAL (snd x)) \<and>
     bu (STAKED_BALANCES (snd x)) (height (fst x)) \<and> tu (STAKED_TOTAL (snd x)) (height (fst x)) \<and>
     (\<forall>a. total_in log a = total_out log a + or_zero (snap_load bo (STAKED_BALANCES (snd x)) a)
        + claimed_amount (query_claims co (CLAIMS (snd x)) a))"

lemma token_inv_later:
  assumes "stores_ok bo to co expiry bu tu" and "token_inv bo to co bu tu log (b, st)" and "block_le b b'"
  shows "bu (STAKED_BALANCES st) (height b')" and "tu (STAKED_TOTAL st) (height b')"
proof -
  have "height b \<le> height b'" using assms(3) by (simp add: block_le_def)
  with assms(1,2) show "bu (STAKED_BALANCES st) (height b')" and "tu (STAKED_TOTAL st) (height b')"
    using snapshot_upto [of bo bu] snapshot_upto [of to tu] by (auto simp: stores_ok_def token_inv_def)
qed

lemma token_inv_same:
  assumes "stores_ok bo to co expiry bu tu" and "token_inv bo to co bu tu log (b, st)" and "block_le b b'"
    and "same_stakes st st'"
  shows "token_inv bo to co bu tu log (b', st')"
  using assms(2,4) token_inv_later [OF assms(1-3)] by (simp add: token_inv_def same_stakes_def)

lemma token_inv_idle:
  "token_inv bo to co bu tu log x \<Longrightarrow> (\<And>a. fst f a = 0 \<and> snd f a = 0) \<Longrightarrow> token_inv bo to co bu tu (log @ [f]) x"
  by (simp add: token_inv_def)

text \<open>A change of one stake, of the total by the same amount, and of the claims.\<close>

lemma token_inv_change:
  assumes "stores_ok bo to co expiry bu tu" and "token_inv bo to co bu tu log (b, st)" and "block_le b b'"
    and "or_zero (snap_load to (STAKED_TOTAL st) ()) + v = or_zero (snap_load bo (STAKED_BALANCES st) a) + w"
    and "\<And>x. fst f x + or_zero (snap_load bo (STAKED_BALANCES st) x) + claimed_amount (query_claims co (CLAIMS st) x)
      = snd f x + (if x = a then v else or_zero (snap_load bo (STAKED_BALANCES st) x))
        + claimed_amount (query_claims co c x)"
  shows "token_inv bo to co bu tu (log @ [f])
    (b', st\<lparr>STAKED_BALANCES := snap_save bo (STAKED_BALANCES st) a v (height b'),
           STAKED_TOTAL := snap_save to (STAKED_TOTAL st) () w (height b'), CLAIMS := c\<rparr>)"
proof -
  have laws: "snapshot_laws bo bu" "snapshot_laws to tu" using assms(1) by (simp_all add: stores_ok_def)
  note u = token_inv_later [OF assms(1-3)]
  have bal: "balanced bo to (STAKED_BALANCES st) (STAKED_TOTAL st)"
    and flow: "total_in log x = total_out log x + or_zero (snap_load bo (STAKED_BALANCES st) x)
        + claimed_amount (query_claims co (CLAIMS st) x)" for x
    using assms(2) by (simp_all add: token_inv_def)
  have "total_in (log @ [f]) x = total_out (log @ [f]) x
      + (if x = a then v else or_zero (snap_load bo (STAKED_BALANCES st) x))
      + claimed_amount (query_claims co c x)" for x
    using flow [of x] assms(5) [of x] by simp
  then show ?thesis
    using balanced_save [OF laws u bal assms(4)] snapshot_saved_upto [OF laws(1) u(1)]
      snapshot_saved_upto [OF laws(2) u(2)] snapshot_load [OF laws(1)]
    by (auto simp: token_inv_def)
qed

lemma execute_keeps_stakes:
  assumes "execute deps st env info msg = Ok (st', r)" and "must_pay_exact deps" and "block_le b (block env)"
    and "balances_ops deps = bo" and "total_ops deps = to" and "claims_api deps = co"
    and "stores_ok bo to co expiry bu tu" and "token_inv bo to co bu tu log (b, st)"
  shows "token_inv bo to co bu tu (log @ [(paid_in msg info, paid_out (tr_messages r))]) (block env, st')"
proof (cases msg)
  case Stake_Tokens
  with assms(1) have "execute_stake deps st env info = Ok (st', r)" by (simp add: execute_def)
  then obtain denom n where n: "must_pay deps info denom = Ok n"
    "st' = st\<lparr>
      STAKED_BALANCES := snap_save bo (STAKED_BALANCES st) (sender info)
        (or_zero (snap_load bo (STAKED_BALANCES st) (sender info)) + n) (height (block env)),
      STAKED_TOTAL := snap_save to (STAKED_TOTAL st) ()
        (or_zero (snap_load to (STAKED_TOTAL st) ()) + n) (height (block env))\<rparr>"
    "\<forall>a. paid_out (tr_messages r) a = 0" unfolding assms(4,5) [symmetric] by (elim execute_stake_Ok)
  have "funds info = [\<lparr>coin_denom = denom, coin_amount = n\<rparr>]"
    using assms(2) n(1) unfolding must_pay_exact_def by blast
  then have "paid_in msg info a = (if a = sender info then n else 0)" for a
    using Stake_Tokens by (auto simp: paid_in_def)
  with n token_inv_change [OF assms(7,8,3), of _ "sender info" _
      "(paid_in msg info, paid_out (tr_messages r))" "CLAIMS st"] show ?thesis by simp
next
  case (Unstake_Tokens n)
  with assms(1) have "execute_unstake deps st env info n = Ok (st', r)" by (simp add: execute_def)
  then obtain c where n: "n \<le> or_zero (snap_load bo (STAKED_BALANCES st) (sender info))"
    "n \<le> or_zero (snap_load to (STAKED_TOTAL st) ())"
    "st' = st\<lparr>
      STAKED_BALANCES := snap_save bo (STAKED_BALANCES st) (sender info)
        (or_zero (snap_load bo (STAKED_BALANCES st) (sender info)) - n) (height (block env)),
      STAKED_TOTAL := snap_save to (STAKED_TOTAL st) ()
        (or_zero (snap_load to (STAKED_TOTAL st) ()) - n) (height (block env)), CLAIMS := c\<rparr>"
    "released co (CLAIMS st) (sender info) n c (tr_messages r)" unfolding assms(4,5,6) [symmetric]
    by (elim execute_unstake_Ok)
  have none: "paid_in msg info a = 0" for a using Unstake_Tokens by (simp add: paid_in_def)
  have "claims_laws co expiry" using assms(7) by (simp add: stores_ok_def)
  then have moved: "claimed_amount (query_claims co c a) + paid_out (tr_messages r) a =
      claimed_amount (query_claims co (CLAIMS st) a) + (if a = sender info then n else 0)" for a
    using n(4) claims_created [of co expiry "CLAIMS st" "sender info" n _ c a] by (auto simp: released_def)
  show ?thesis unfolding n(3)
  proof (intro token_inv_change [OF assms(7,8,3)])
    fix x
    show "fst (paid_in msg info, paid_out (tr_messages r)) x + or_zero (snap_load bo (STAKED_BALANCES st) x)
        + claimed_amount (query_claims co (CLAIMS st) x) =
      snd (paid_in msg info, paid_out (tr_messages r)) x
        + (if x = sender info then or_zero (snap_load bo (STAKED_BALANCES st) (sender info)) - n
           else or_zero (snap_load bo (STAKED_BALANCES st) x))
        + claimed_amount (query_claims co c x)"
      using none [of x] moved [of x] n(1) by (cases "x = sender info") auto
  qed (use n(1,2) in simp)
next
  case Claim
  with assms(1) have "execute_claim deps st env info = Ok (st', r)" by (simp add: execute_def)
  then obtain c n where c: "claim_tokens co (CLAIMS st) (sender info) (block env) = Ok (c, n)"
    "st' = st\<lparr>CLAIMS := c\<rparr>" "\<forall>a. paid_out (tr_messages r) a = (if sender info = a then n else 0)"
    unfolding assms(6) [symmetric] by (elim execute_claim_Ok)
  have laws: "claims_laws co expiry" using assms(7) by (simp add: stores_ok_def)
  have flow: "total_in log a = total_out log a + or_zero (snap_load bo (STAKED_BALANCES st) a)
      + claimed_amount (query_claims co (CLAIMS st) a)" for a
    using assms(8) by (simp add: token_inv_def)
  have "total_in log a + paid_in msg info a = total_out log a + paid_out (tr_messages r) a
      + or_zero (snap_load bo (STAKED_BALANCES st) a) + claimed_amount (query_claims co c a)" for a
    using flow [of a] claims_claimed [OF laws c(1), of a] c(3) Claim
    by (cases "a = sender info") (simp_all add: paid_in_def)
  with c(2) token_inv_later [OF assms(7,8,3)] assms(8) show ?thesis by (simp add: token_inv_def)
qed (use execute_others_Ok [OF assms(1)] token_inv_same [OF assms(7,8,3)] in
    \<open>auto intro!: token_inv_idle simp: paid_in_def\<close>)

lemma token_step_inv:
  assumes "token_step bo to co x l y" and "stores_ok bo to co expiry bu tu" and "token_inv bo to co bu tu log x"
  shows "token_inv bo to co bu tu (log @ l) y"
  using assms(1)
proof (cases rule: token_step.cases)
  case (step_execute deps st env info msg st' r b)
  with assms(2,3) show ?thesis by (auto intro: execute_keeps_stakes)
next
  case (step_reply deps st env msg st' r b)
  with assms(2,3) show ?thesis by (auto intro: token_inv_same dest: reply_Ok_stakes)
next
  case (step_migrate st st' r b)
  have "block_le b b" by (simp add: block_le_def)
  with step_migrate assms(2,3) show ?thesis by (auto intro: token_inv_same dest: migrate_Ok_stakes)
qed

lemma token_run_inv:
  "module_run (token_step bo to co) x l y \<Longrightarrow> stores_ok bo to co expiry bu tu \<Longrightarrow>
     token_inv bo to co bu tu log x \<Longrightarrow> token_inv bo to co bu tu (log @ l) y"
  by (induction rule: module_run.induct) (auto dest: token_step_inv)

section \<open>History\<close>

definition power_at ::
  "('b, addr) snapshot_ops \<Rightarrow> ('b, 't, 'c) token_state \<Rightarrow> addr \<Rightarrow> u64 \<Rightarrow> nat" where
  "power_at bo st a h = or_zero (snap_at bo (STAKED_BALANCES st) a h)"

definition total_at :: "('t, unit) snapshot_ops \<Rightarrow> ('b, 't, 'c) token_state \<Rightarrow> u64 \<Rightarrow> nat" where
  "total_at to st h = or_zero (snap_at to (STAKED_TOTAL st) () h)"

lemma same_stakes_power:
  "same_stakes st st' \<Longrightarrow> power_at bo st' = power_at bo st \<and> total_at to st' = total_at to st"
  by (auto simp: same_stakes_def power_at_def total_at_def fun_eq_iff)

lemma execute_keeps_history:
  assumes "execute deps st env info msg = Ok (st', r)" and "block_le b (block env)"
    and "balances_ops deps = bo" and "total_ops deps = to"
    and "stores_ok bo to co expiry bu tu" and "token_inv bo to co bu tu log (b, st)" and "h \<le> height b"
  shows "power_at bo st' a h = power_at bo st a h" and "total_at to st' h = total_at to st h"
proof -
  have laws: "snapshot_laws bo bu" "snapshot_laws to tu" using assms(5) by (simp_all add: stores_ok_def)
  have h: "\<not> height (block env) < h" using assms(2,7) by (auto simp: block_le_def not_less)
  note u = token_inv_later [OF assms(5,6,2)]
  have saved: "snap_at bo (snap_save bo (STAKED_BALANCES st) x v (height (block env))) a h = snap_at bo (STAKED_BALANCES st) a h"
    "snap_at to (snap_save to (STAKED_TOTAL st) () w (height (block env))) () h = snap_at to (STAKED_TOTAL st) () h" for x v w
    using snapshot_at [OF laws(1) u(1)] snapshot_at [OF laws(2) u(2), of "()" w "()" h] h by simp_all
  have "power_at bo st' a h = power_at bo st a h \<and> total_at to st' h = total_at to st h"
  proof (cases msg)
    case Stake_Tokens
    with assms(1) have "execute_stake deps st env info = Ok (st', r)" by (simp add: execute_def)
    then show ?thesis
      by (elim execute_stake_Ok) (simp add: assms(3,4) saved power_at_def total_at_def)
  next
    case (Unstake_Tokens n)
    with assms(1) have "execute_unstake deps st env info n = Ok (st', r)" by (simp add: execute_def)
    then show ?thesis
      by (elim execute_unstake_Ok) (simp add: assms(3,4) saved power_at_def total_at_def)
  next
    case Claim
    with assms(1) have "execute_claim deps st env info = Ok (st', r)" by (simp add: execute_def)
    then show ?thesis by (elim execute_claim_Ok) (simp add: power_at_def total_at_def)
  qed (use execute_others_Ok [OF assms(1)] same_stakes_power [of st st' bo to] in auto)
  then show "power_at bo st' a h = power_at bo st a h" and "total_at to st' h = total_at to st h" by auto
qed

lemma token_step_history:
  assumes "token_step bo to co x l y" and "stores_ok bo to co expiry bu tu" and "token_inv bo to co bu tu log x"
    and "h \<le> height (fst x)"
  shows "power_at bo (snd y) a h = power_at bo (snd x) a h \<and> total_at to (snd y) h = total_at to (snd x) h \<and>
    height (fst x) \<le> height (fst y)"
  using assms(1)
proof (cases rule: token_step.cases)
  case (step_execute deps st env info msg st' r b)
  with assms(2-4) show ?thesis
    using execute_keeps_history [OF step_execute(4) step_execute(9,5,6) assms(2), of log h]
    by (auto simp: block_le_def)
next
  case (step_reply deps st env msg st' r b)
  with same_stakes_power [OF reply_Ok_stakes [OF step_reply(4)]] show ?thesis by (simp add: block_le_def)
next
  case (step_migrate st st' r b)
  with same_stakes_power [OF migrate_Ok_stakes [OF step_migrate(4)]] show ?thesis by simp
qed

lemma token_run_history:
  assumes "module_run (token_step bo to co) x l y" and "stores_ok bo to co expiry bu tu"
    and "token_inv bo to co bu tu log x" and "h \<le> height (fst x)"
  shows "power_at bo (snd y) a h = power_at bo (snd x) a h \<and> total_at to (snd y) h = total_at to (snd x) h \<and>
    height (fst x) \<le> height (fst y)"
  using assms
proof (induction rule: module_run.induct)
  case (run_start st)
  then show ?case by simp
next
  case (run_step st l st' l' st'')
  have inv: "token_inv bo to co bu tu (log @ l) st'"
    using run_step token_run_inv by blast
  from run_step token_step_history [OF run_step.hyps(2) run_step.prems(1) inv, of h a] show ?case by force
qed

section \<open>A fresh contract\<close>

definition empty_state ::
  "('b, addr) snapshot_ops \<Rightarrow> ('t, unit) snapshot_ops \<Rightarrow> 'c claims_ops \<Rightarrow> ('b, 't, 'c) token_state" where
  "empty_state bo to co =
     \<lparr>CONTRACT_INFO = None, CONFIG = None, DAO = None, DENOM = None, STAKED_BALANCES = snap_new bo,
      STAKED_TOTAL = snap_new to, CLAIMS = claims_new co, ACTIVE_THRESHOLD = None, HOOKS = None,
      TOKEN_INSTANTIATION_INFO = None, TOKEN_ISSUER_CONTRACT = None\<rparr>"

lemma instantiate_stakes:
  assumes "instantiate deps st info msg = Ok (st', r)"
  shows "same_stakes st st'"
proof (cases "im_token_info msg")
  case (Factory bin)
  with assms obtain m where "decode_factory_msg deps bin = Ok m"
    by (auto simp: instantiate_def result_ok Let_def)
  with assms Factory show ?thesis
    by (cases m; cases "im_active_threshold msg")
       (auto simp: instantiate_def respond_def result_ok Let_def same_stakes_def)
qed (use assms in \<open>cases "im_active_threshold msg";
      auto simp: instantiate_def respond_def result_ok Let_def same_stakes_def\<close>)+

lemma instantiate_token_inv:
  assumes "instantiate deps (empty_state bo to co) info msg = Ok (st, r)" and "stores_ok bo to co expiry bu tu"
  shows "token_inv bo to co bu tu [] (b, st)"
proof -
  have "snapshot_laws bo bu" "snapshot_laws to tu" "claims_laws co expiry"
    using assms(2) by (simp_all add: stores_ok_def)
  with instantiate_stakes [OF assms(1)] show ?thesis
    using balanced_new snapshot_new [of bo bu] snapshot_new [of to tu] claims_fresh [of co expiry]
    by (auto simp: token_inv_def same_stakes_def empty_state_def)
qed

end
