(* ===== verification/Voting_Token_Claims.thy ===== *)
theory Voting_Token_Claims
  imports Voting_Token_Props Samples
begin

text \<open>
  What \<open>dao-voting-token-staked\<close> promises of every run: tokens in custody are accounted for,
  the powers at a height add up to the total, the past is fixed, and stakes can be taken back.
\<close>

section \<open>Sample stores\<close>

text \<open>
  Reference stores that behave as documented: a snapshot store keeps every save, newest first;
  claims are one list.
\<close>

definition sample_snapshots :: "(('k :: linorder \<times> u64 \<times> nat) list, 'k) snapshot_ops" where
  "sample_snapshots =
     \<lparr>snap_new = [],
      snap_load = (\<lambda>s k. map_option (snd \<circ> snd) (find (\<lambda>(k', _, _). k' = k) s)),
      snap_save = (\<lambda>s k v h. (k, h, v) # s),
      snap_at = (\<lambda>s k h. map_option (snd \<circ> snd) (find (\<lambda>(k', h', _). k' = k \<and> h' < h) s)),
      snap_range = (\<lambda>s. map (\<lambda>k. (k, case find (\<lambda>(k', _, _). k' = k) s of None \<Rightarrow> 0 | Some (_, _, v) \<Rightarrow> v))
        (sort (remdups (map fst s))))\<rparr>"

definition saved_till :: "('k \<times> u64 \<times> nat) list \<Rightarrow> u64 \<Rightarrow> bool" where
  "saved_till s h \<longleftrightarrow> (\<forall>(k, h', v) \<in> set s. h' \<le> h)"

lemma sample_snapshot_laws: "snapshot_laws sample_snapshots saved_till"
proof -
  have "find (\<lambda>(k', h'', _). k' = k \<and> h'' < h') s = find (\<lambda>(k', _, _). k' = k) s"
    if "saved_till s h" "h < h'" for s :: "('a \<times> u64 \<times> nat) list" and k h h'
    using that by (induction s) (auto simp: saved_till_def)
  then show ?thesis
    by (auto simp: snapshot_laws_def sample_snapshots_def saved_till_def)
qed

definition sample_claims :: "(addr \<times> nat \<times> expiration) list claims_ops" where
  "sample_claims =
     \<lparr>claims_new = [],
      query_claims = (\<lambda>c a. map snd (filter (\<lambda>(b, _). b = a) c)),
      create_claim = (\<lambda>c a n e. Ok (c @ [(a, n, e)])),
      claim_tokens = (\<lambda>c a blk. Ok (filter (\<lambda>(b, n, e). \<not> (b = a \<and> sample_is_expired e blk)) c,
         claimed_amount (filter (\<lambda>(n, e). sample_is_expired e blk) (map snd (filter (\<lambda>(b, _). b = a) c)))))\<rparr>"

lemma sample_claims_laws: "claims_laws sample_claims sample_is_expired"
proof -
  have "map snd (filter (\<lambda>(c, _). c = b) (filter (\<lambda>(b, n, e). \<not> (b = a \<and> sample_is_expired e blk)) cs)) =
    (if b = a then filter (\<lambda>(n, e). \<not> sample_is_expired e blk) (map snd (filter (\<lambda>(c, _). c = a) cs))
     else map snd (filter (\<lambda>(c, _). c = b) cs))" for a b blk and cs :: "(addr \<times> nat \<times> expiration) list"
    by (induction cs) auto
  then show ?thesis by (simp add: claims_laws_def sample_claims_def)
qed

lemma sample_stores_ok:
  "stores_ok sample_snapshots sample_snapshots sample_claims sample_is_expired saved_till saved_till"
  by (simp add: stores_ok_def sample_snapshot_laws sample_claims_laws)

type_synonym sample_state =
  "((addr \<times> u64 \<times> nat) list, (unit \<times> u64 \<times> nat) list, (addr \<times> nat \<times> expiration) list) token_state"

definition sample_must_pay :: "message_info \<Rightarrow> string \<Rightarrow> (nat, payment_error) result" where
  "sample_must_pay info d =
     (case funds info of
        [] \<Rightarrow> Err NoFunds
      | [c] \<Rightarrow> if coin_denom c = d \<and> coin_amount c \<noteq> 0 then Ok (coin_amount c) else Err (MissingDenom d)
      | _ \<Rightarrow> Err MultipleDenoms)"

definition sample_staking ::
  "((addr \<times> u64 \<times> nat) list, (unit \<times> u64 \<times> nat) list, (addr \<times> nat \<times> expiration) list) staking_deps" where
  "sample_staking =
     \<lparr>is_expired = sample_is_expired, duration_after = sample_after, expiration_add = sample_add,
      expiration_debug = (\<lambda>_. ''expiration''), addr_validate = (\<lambda>a. Ok a),
      query_voting_module = (\<lambda>_. Ok ''voting''), query_is_active = (\<lambda>_. Ok True),
      query_voting_power = (\<lambda>_ _ _. Ok 0), query_total_power = (\<lambda>_ _. Ok 0),
      query_delegations = (\<lambda>_ _ _. Ok []), query_udvp = (\<lambda>_ _ _ _ _. Ok udvp_default),
      query_udvp_reduction = (\<lambda>_ _ _ _ _ _. Ok 0),
      query_token_info = (\<lambda>_. Ok ()), query_bank_balance = (\<lambda>_ _. Ok 0), query_cw20_balance = (\<lambda>_ _. Ok 0),
      query_denom = (\<lambda>_. Ok ''ujuno''), query_token_contract = (\<lambda>a. Ok a), ask_next_proposal_id = (\<lambda>_. Ok 1),
      query_module_dao = (\<lambda>_. Ok ''dao''), must_pay = sample_must_pay, version_matches = (\<lambda>_ _. Some True),
      query_supply = (\<lambda>_. Ok 1000), balances_ops = sample_snapshots, total_ops = sample_snapshots,
      claims_api = sample_claims, decode_factory_msg = (\<lambda>_. Err (GenericErr ''no factory'')),
      decode_factory_callback = (\<lambda>_. Err (GenericErr ''no factory'')), encode_new_token = (\<lambda>s. s)\<rparr>"

lemma sample_staking_sel [simp]:
  "balances_ops sample_staking = sample_snapshots" "total_ops sample_staking = sample_snapshots"
  "claims_api sample_staking = sample_claims" "addr_validate sample_staking = Ok"
  by (simp_all add: sample_staking_def)

definition staking_start :: sample_state where
  "staking_start =
     (empty_state sample_snapshots sample_snapshots sample_claims)
       \<lparr>CONTRACT_INFO := Some (CONTRACT_NAME, CONTRACT_VERSION),
        CONFIG := Some \<lparr>unstaking_duration = Some (Height 5)\<rparr>, DAO := Some ''dao'', DENOM := Some ''ujuno''\<rparr>"

definition staking_staked :: sample_state where
  "staking_staked = staking_start\<lparr>STAKED_BALANCES := [(''ann'', 1, 60)], STAKED_TOTAL := [((), 1, 60)]\<rparr>"

definition staking_unstaked :: sample_state where
  "staking_unstaked =
     staking_staked\<lparr>STAKED_BALANCES := [(''ann'', 3, 40), (''ann'', 1, 60)],
       STAKED_TOTAL := [((), 3, 40), ((), 1, 60)], CLAIMS := [(''ann'', 20, AtHeight 8)]\<rparr>"

definition ann_pays :: message_info where
  "ann_pays = \<lparr>sender = ''ann'', funds = [\<lparr>coin_denom = ''ujuno'', coin_amount = 60\<rparr>]\<rparr>"

lemma sample_pays: "must_pay_exact sample_staking"
  by (auto simp: must_pay_exact_def sample_staking_def sample_must_pay_def split: list.splits if_splits)

lemma sample_token_instantiate:
  "instantiate sample_staking (empty_state sample_snapshots sample_snapshots sample_claims) (sent_by ''dao'')
     \<lparr>im_token_info = Existing ''ujuno'', im_unstaking_duration = Some (Height 5), im_active_threshold = None\<rparr>
   = Ok (staking_start, \<lparr>tr_messages = [], tr_data = None\<rparr>)"
  by (simp add: instantiate_def validate_duration_def check_absolute_count_def respond_def staking_start_def
      sent_by_def Let_def)

lemma sample_stake:
  "execute sample_staking staking_start (sample_env 1) ann_pays Stake_Tokens
     = Ok (staking_staked, \<lparr>tr_messages = [], tr_data = None\<rparr>)"
  by (simp add: execute_def execute_stake_def staking_start_def empty_state_def sample_staking_def ann_pays_def
      sample_must_pay_def snap_update_def sample_snapshots_def checked_add128_def respond_def sample_env_def
      sample_block_def staking_staked_def hook_messages_def stake_hook_msgs_def hooks_or_default_def)

lemma sample_unstake:
  "execute sample_staking staking_staked (sample_env 3) (sent_by ''ann'') (Unstake_Tokens 20)
     = Ok (staking_unstaked, \<lparr>tr_messages = [], tr_data = None\<rparr>)"
  by (simp add: execute_def execute_unstake_def staking_staked_def staking_start_def empty_state_def
      sample_staking_def sent_by_def snap_update_def unstake_sub_def sample_snapshots_def checked_sub128_def
      release_or_claim_def sample_claims_def sample_after_def MAX_CLAIMS_def respond_def sample_env_def
      sample_block_def staking_unstaked_def hook_messages_def unstake_hook_msgs_def hooks_or_default_def)

abbreviation staking_run :: "block_info \<times> sample_state \<Rightarrow> flow list \<Rightarrow> block_info \<times> sample_state \<Rightarrow> bool" where
  "staking_run \<equiv> module_run (token_step sample_snapshots sample_snapshots sample_claims)"

lemma sample_token_step:
  assumes "execute sample_staking st (sample_env h) info msg = Ok (st', r)" and "block_le b (sample_block h)"
  shows "token_step sample_snapshots sample_snapshots sample_claims (b, st)
    [(paid_in msg info, paid_out (tr_messages r))] (sample_block h, st')"
  using token_step.step_execute [OF assms(1) _ _ _ sample_pays, of sample_snapshots sample_snapshots sample_claims b] assms(2)
  by (simp add: sample_env_def sample_staking_def)

lemma sample_run_staked:
  "staking_run (sample_block 1, staking_start) [(paid_in Stake_Tokens ann_pays, paid_out [])]
     (sample_block 1, staking_staked)"
  using run_one [of "token_step sample_snapshots sample_snapshots sample_claims",
      OF sample_token_step [OF sample_stake, of "sample_block 1"]]
  by (simp add: block_le_def)

lemma sample_run_unstaked:
  "staking_run (sample_block 1, staking_staked) [(paid_in (Unstake_Tokens 20) (sent_by ''ann''), paid_out [])]
     (sample_block 3, staking_unstaked)"
  using run_one [of "token_step sample_snapshots sample_snapshots sample_claims",
      OF sample_token_step [OF sample_unstake, of "sample_block 1"]]
  by (simp add: block_le_def sample_block_def)

definition staking_free :: sample_state where
  "staking_free = staking_staked\<lparr>CONFIG := Some \<lparr>unstaking_duration = None\<rparr>\<rparr>"

lemma sample_update_config:
  "execute sample_staking staking_staked (sample_env 1) (sent_by ''dao'') (UpdateConfig None)
     = Ok (staking_free, \<lparr>tr_messages = [], tr_data = None\<rparr>)"
  by (simp add: execute_def execute_update_config_def staking_staked_def staking_start_def sent_by_def
      validate_duration_def respond_def staking_free_def empty_state_def)

lemma sample_run_free:
  "staking_run (sample_block 1, staking_staked) [(paid_in (UpdateConfig None) (sent_by ''dao''), paid_out [])]
     (sample_block 1, staking_free)"
  using run_one [of "token_step sample_snapshots sample_snapshots sample_claims",
      OF sample_token_step [OF sample_update_config, of "sample_block 1"]]
  by (simp add: block_le_def)

section \<open>Claims\<close>

text \<open>C25: Custody. At every point of every run and for every account, what the account has paid in by
  staking is what it has been paid out, plus what it has staked, plus what it has in claims: no token
  that was staked is lost, created or paid to anyone else.\<close>

theorem token_custody:
  assumes "stores_ok bo to co expiry bu tu"
    and "instantiate deps (empty_state bo to co) info msg = Ok (st0, r0)"
    and "module_run (token_step bo to co) (b0, st0) log (b, st)"
  shows "total_in log a = total_out log a + or_zero (snap_load bo (STAKED_BALANCES st) a)
    + claimed_amount (query_claims co (CLAIMS st) a)"
  using token_run_inv [OF assms(3,1) instantiate_token_inv [OF assms(2,1)]] by (simp add: token_inv_def)

theorem token_custody_witness:
  "total_in [(paid_in Stake_Tokens ann_pays, paid_out []), (paid_in (Unstake_Tokens 20) (sent_by ''ann''), paid_out [])] ''ann''
     = 0 + 40 + 20"
  using token_custody [OF sample_stores_ok sample_token_instantiate
      module_run_append [OF sample_run_unstaked sample_run_staked], of "''ann''"]
  by (simp add: staking_unstaked_def sample_snapshots_def sample_claims_def total_out_def)

text \<open>C26: The voting power that the contract reports at a height is a share of the total power it reports
  at that height: there are finitely many members with power, and their powers add up to exactly the
  total. The query for an account is answered with its power exactly when its address is valid, and
  with the error of the address check otherwise.\<close>

theorem token_powers_add_up:
  assumes "stores_ok (balances_ops deps) (total_ops deps) co expiry bu tu"
    and "instantiate deps0 (empty_state (balances_ops deps) (total_ops deps) co) info msg = Ok (st0, r0)"
    and "module_run (token_step (balances_ops deps) (total_ops deps) co) (b0, st0) log (b, st)"
  shows "\<exists>members. distinct members
    \<and> (\<forall>a. a \<notin> set members \<longrightarrow> power_at (balances_ops deps) st a h = 0)
    \<and> query_total_power_at_height deps st env (Some h) = Ok (\<Sum>a \<leftarrow> members. power_at (balances_ops deps) st a h, h)
    \<and> (\<forall>s. query_voting_power_at_height deps st env s (Some h) =
         and_then (addr_validate deps s) (\<lambda>a. Ok (power_at (balances_ops deps) st a h, h)))"
proof -
  from token_run_inv [OF assms(3,1) instantiate_token_inv [OF assms(2,1)]]
  have "balanced (balances_ops deps) (total_ops deps) (STAKED_BALANCES st) (STAKED_TOTAL st)"
    by (simp add: token_inv_def)
  then obtain A where A: "finite A" "\<And>a. a \<notin> A \<Longrightarrow> power_at (balances_ops deps) st a h = 0"
    "total_at (total_ops deps) st h = (\<Sum>a \<in> A. power_at (balances_ops deps) st a h)"
    unfolding balanced_def power_at_def total_at_def by blast
  obtain xs where xs: "set xs = A" "distinct xs" using finite_distinct_list [OF A(1)] by blast
  have "(\<Sum>a \<leftarrow> xs. power_at (balances_ops deps) st a h) = total_at (total_ops deps) st h"
    using A(3) xs by (simp add: sum_list_distinct_conv_sum_set)
  with A(2) xs show ?thesis
    by (intro exI [of _ xs])
       (simp add: query_voting_power_at_height_def query_total_power_at_height_def power_at_def total_at_def)
qed

theorem token_powers_add_up_witness:
  "\<exists>members. distinct members \<and>
     query_total_power_at_height sample_staking staking_staked (sample_env 2) (Some 2)
       = Ok (\<Sum>a \<leftarrow> members. power_at sample_snapshots staking_staked a 2, 2)"
  using token_powers_add_up [of sample_staking sample_claims, unfolded sample_staking_sel,
      OF sample_stores_ok sample_token_instantiate sample_run_staked, of 2 "sample_env 2"]
  by blast

text \<open>The past is fixed. The voting power of an account and the total power at a height that has been
  reached never change again, whatever is staked, unstaked or claimed later; a proposal that fixes
  its height counts every vote with the power of that height.\<close>

theorem token_history_fixed:
  assumes "stores_ok bo to co expiry bu tu"
    and "instantiate deps (empty_state bo to co) info msg = Ok (st0, r0)"
    and "module_run (token_step bo to co) (b0, st0) log (b, st)"
    and "module_run (token_step bo to co) (b, st) log' (b', st')" and "h \<le> height b"
  shows "power_at bo st' a h = power_at bo st a h \<and> total_at to st' h = total_at to st h"
  using token_run_history [OF assms(4,1) token_run_inv [OF assms(3,1) instantiate_token_inv [OF assms(2,1)]], of h a]
    assms(5) by simp

theorem token_history_fixed_witness:
  "power_at sample_snapshots staking_unstaked ''ann'' 1 = power_at sample_snapshots staking_staked ''ann'' 1"
  using token_history_fixed [OF sample_stores_ok sample_token_instantiate sample_run_staked sample_run_unstaked, of 1]
  by (simp add: sample_block_def)

text \<open>A stake can be taken back. Where the DAO sets no unstaking period, a member can at any time
  unstake any part of its stake: neither balance nor total can underflow, and the tokens are sent to
  the member in the same transaction.\<close>

theorem token_unstake_available:
  assumes "stores_ok (balances_ops deps) (total_ops deps) co expiry bu tu"
    and "instantiate deps0 (empty_state (balances_ops deps) (total_ops deps) co) info msg = Ok (st0, r0)"
    and "module_run (token_step (balances_ops deps) (total_ops deps) co) (b0, st0) log (b, st)"
    and "CONFIG st = Some \<lparr>unstaking_duration = None\<rparr>" and "DENOM st = Some d"
    and "0 < n" and "n \<le> or_zero (snap_load (balances_ops deps) (STAKED_BALANCES st) (sender info1))"
  shows "\<exists>st' r. execute deps st env info1 (Unstake_Tokens n) = Ok (st', r)
    \<and> hd (tr_messages r) = sub_msg_new (Forwarded (BankSend (sender info1) [\<lparr>coin_denom = d, coin_amount = n\<rparr>]))"
proof -
  from token_run_inv [OF assms(3,1) instantiate_token_inv [OF assms(2,1)]]
  have bal: "balanced (balances_ops deps) (total_ops deps) (STAKED_BALANCES st) (STAKED_TOTAL st)"
    by (simp add: token_inv_def)
  have "n \<le> or_zero (snap_load (total_ops deps) (STAKED_TOTAL st) ())"
    using balanced_load [OF bal, of "sender info1"] assms(7) by simp
  with assms(4-7) show ?thesis
    by (simp add: execute_def execute_unstake_def snap_update_def unstake_sub_def checked_sub128_def
        release_or_claim_def respond_def)
qed

theorem token_unstake_available_witness:
  "\<exists>st' r. execute sample_staking staking_free (sample_env 2) (sent_by ''ann'') (Unstake_Tokens 60) = Ok (st', r)
     \<and> hd (tr_messages r) = sub_msg_new (Forwarded (BankSend ''ann'' [\<lparr>coin_denom = ''ujuno'', coin_amount = 60\<rparr>]))"
  using token_unstake_available [of sample_staking sample_claims, unfolded sample_staking_sel,
      OF sample_stores_ok sample_token_instantiate module_run_append [OF sample_run_free sample_run_staked],
      of "''ujuno''" 60 "sent_by ''ann''" "sample_env 2"]
  by (simp add: staking_free_def staking_staked_def staking_start_def sample_snapshots_def sent_by_def)

end
