(* ===== verification/Condorcet_Matrix.thy ===== *)
theory Condorcet_Matrix
  imports Prelude
begin

text \<open>
  The matrix of pairwise margins in \<open>dao-proposal-condorcet\<close> (\<open>cell.rs\<close>, \<open>m.rs\<close>): a
  signed integer as a tagged magnitude, and an antisymmetric matrix of which only the upper
  triangle is stored. The lemmas show that the cells behave as integers and the triangle as the
  whole matrix. Arithmetic on \<open>u32\<close> is checked and panics.
\<close>

section \<open>Cells (cell.rs)\<close>

datatype cell = Positive nat | Zero | Negative nat

definition cell_increment :: "cell \<Rightarrow> nat \<Rightarrow> (cell, 'e) result" where
  "cell_increment self n =
     (case self of
        Positive m \<Rightarrow> and_then (add128 m n) (\<lambda>k. Ok (Positive k))
      | Zero \<Rightarrow> Ok (Positive n)
      | Negative m \<Rightarrow>
          if n = m then Ok Zero
          else if n > m then and_then (sub128 n m) (\<lambda>k. Ok (Positive k))
          else and_then (sub128 m n) (\<lambda>k. Ok (Negative k)))"

definition cell_decrement :: "cell \<Rightarrow> nat \<Rightarrow> (cell, 'e) result" where
  "cell_decrement self n =
     (case self of
        Positive m \<Rightarrow>
          if n = m then Ok Zero
          else if n > m then and_then (sub128 n m) (\<lambda>k. Ok (Negative k))
          else and_then (sub128 m n) (\<lambda>k. Ok (Positive k))
      | Zero \<Rightarrow> Ok (Negative n)
      | Negative m \<Rightarrow> and_then (add128 m n) (\<lambda>k. Ok (Negative k)))"

definition invert :: "cell \<Rightarrow> cell" where
  "invert self = (case self of Positive n \<Rightarrow> Negative n | Zero \<Rightarrow> Zero | Negative n \<Rightarrow> Positive n)"

text \<open>The integer a cell stands for; a cell with a sign is not zero.\<close>

definition cell_value :: "cell \<Rightarrow> int" where
  "cell_value c = (case c of Positive n \<Rightarrow> int n | Zero \<Rightarrow> 0 | Negative n \<Rightarrow> - int n)"

definition cell_ok :: "cell \<Rightarrow> bool" where
  "cell_ok c = (case c of Positive n \<Rightarrow> n > 0 | Zero \<Rightarrow> True | Negative n \<Rightarrow> n > 0)"

lemma invert_value [simp]: "cell_value (invert c) = - cell_value c" "cell_ok (invert c) = cell_ok c"
  by (cases c; simp add: invert_def cell_value_def cell_ok_def)+

lemma cell_increment_total:
  assumes "n > 0" and "n < 2 ^ 128" and "cell_value c + int n < 2 ^ 128" and "cell_ok c"
  shows "\<exists>d. cell_increment c n = Ok d \<and> cell_value d = cell_value c + int n \<and> cell_ok d"
  using assms by (cases c) (auto simp: cell_increment_def cell_value_def cell_ok_def add128_def sub128_def)

lemma cell_decrement_total:
  assumes "n > 0" and "n < 2 ^ 128" and "- (2 ^ 128) < cell_value c - int n" and "cell_ok c"
  shows "\<exists>d. cell_decrement c n = Ok d \<and> cell_value d = cell_value c - int n \<and> cell_ok d"
  using assms by (cases c) (auto simp: cell_decrement_def cell_value_def cell_ok_def add128_def sub128_def)

section \<open>The triangle (m.rs)\<close>

definition mul_u32 :: "nat \<Rightarrow> nat \<Rightarrow> (nat, 'e) result" where
  "mul_u32 a b = (if a * b < 2 ^ 32 then Ok (a * b) else Panic)"

record matrix =
  cells :: "cell list"
  dim :: nat

definition matrix_new :: "nat \<Rightarrow> (matrix, 'e) result" where
  "matrix_new n =
     and_then (sub_u32 n 1) (\<lambda>k.
     and_then (mul_u32 n k) (\<lambda>area.
     Ok \<lparr>cells = replicate (area div 2) Zero, dim = n\<rparr>))"

definition index :: "matrix \<Rightarrow> nat \<Rightarrow> nat \<Rightarrow> (nat, 'e) result" where
  "index self x y =
     and_then (mul_u32 y (dim self)) (\<lambda>area.
     and_then (add_u32 y 1) (\<lambda>y1.
     and_then (mul_u32 y1 y) (\<lambda>tri.
     and_then (sub_u32 area (tri div 2)) (\<lambda>row.
     and_then (sub_u32 x y1) (\<lambda>offset.
     add_u32 row offset)))))"

definition cell_at :: "matrix \<Rightarrow> nat \<Rightarrow> (cell, 'e) result" where
  "cell_at self i = (if i < length (cells self) then Ok (cells self ! i) else Panic)"

function get :: "matrix \<Rightarrow> nat \<Rightarrow> nat \<Rightarrow> (cell, 'e) result" where
  "get self x y =
     (if x < y then and_then (get self y x) (\<lambda>c. Ok (invert c))
      else and_then (index self x y) (\<lambda>i. cell_at self i))"
  by pat_completeness auto
termination
  by (relation "measure (\<lambda>(_, x, y). if x < y then 1 else 0)") auto

function increment :: "matrix \<Rightarrow> nat \<Rightarrow> nat \<Rightarrow> nat \<Rightarrow> (matrix, 'e) result"
  and decrement :: "matrix \<Rightarrow> nat \<Rightarrow> nat \<Rightarrow> nat \<Rightarrow> (matrix, 'e) result" where
  "increment self x y n =
     (if x < y then decrement self y x n
      else
        and_then (index self x y) (\<lambda>i.
        and_then (cell_at self i) (\<lambda>c.
        and_then (cell_increment c n) (\<lambda>d.
        Ok (self\<lparr>cells := (cells self)[i := d]\<rparr>)))))"
| "decrement self x y n =
     (if x < y then increment self y x n
      else
        and_then (index self x y) (\<lambda>i.
        and_then (cell_at self i) (\<lambda>c.
        and_then (cell_decrement c n) (\<lambda>d.
        Ok (self\<lparr>cells := (cells self)[i := d]\<rparr>)))))"
  by pat_completeness auto
termination
  by (relation "measure (\<lambda>z. case z of
        Inl (_, x, y, _) \<Rightarrow> if x < y then 1 else 0
      | Inr (_, x, y, _) \<Rightarrow> if x < y then 1 else 0)") auto

declare get.simps [simp del] increment.simps [simp del] decrement.simps [simp del]

section \<open>The index\<close>

text \<open>Rows of the triangle follow each other, so that the pairs above the diagonal are numbered
  without gaps or overlaps.\<close>

definition row_start :: "nat \<Rightarrow> nat \<Rightarrow> nat" where
  "row_start n y = y * n - (y + 1) * y div 2"

definition slot :: "nat \<Rightarrow> nat \<Rightarrow> nat \<Rightarrow> nat" where
  "slot n x y = row_start n y + (x - (y + 1))"

lemma triangle_Suc: "(Suc y + 1) * Suc y div 2 = (y + 1) * y div 2 + (y + 1)"
proof -
  have "(Suc y + 1) * Suc y = (y + 1) * y + (y + 1) * 2" by simp
  then show ?thesis by simp
qed

lemma row_start_Suc:
  assumes "y < n"
  shows "row_start n (Suc y) = row_start n y + (n - 1 - y)"
proof -
  have le: "(k + 1) * k div 2 \<le> k * n" if "k \<le> n" for k
  proof -
    have "(k + 1) * k \<le> (n + n) * k" if "k > 0" using that \<open>k \<le> n\<close> by (intro mult_le_mono1) simp
    then have "(k + 1) * k \<le> 2 * (k * n)" by (cases "k = 0") (simp_all add: algebra_simps)
    then show ?thesis by simp
  qed
  show ?thesis
    using assms le [of y] le [of "Suc y"] triangle_Suc [of y] by (simp add: row_start_def)
qed

lemma row_start_mono: "y \<le> z \<Longrightarrow> z \<le> n \<Longrightarrow> row_start n y \<le> row_start n z"
proof (induction z)
  case (Suc z)
  then show ?case using row_start_Suc [of z n] by (cases "y = Suc z") auto
qed simp

lemma row_start_end: "row_start n n = n * (n - 1) div 2"
proof (cases n)
  case 0
  then show ?thesis by (simp add: row_start_def)
next
  case (Suc k)
  have "even (Suc k * k)" "even (Suc (Suc k) * Suc k)" by simp_all
  then obtain a b where ab: "Suc k * k = 2 * a" "Suc (Suc k) * Suc k = 2 * b" by (elim evenE)
  then have "Suc k * Suc k = a + b" by simp
  then show ?thesis using Suc ab by (simp add: row_start_def del: mult_Suc)
qed

lemma slot_bound:
  assumes "y < x" and "x < n"
  shows "slot n x y < row_start n (Suc y)" and "slot n x y < n * (n - 1) div 2"
proof -
  have y: "y < n" using assms by simp
  show "slot n x y < row_start n (Suc y)"
    unfolding slot_def row_start_Suc [OF y] using assms by simp
  also have "\<dots> \<le> n * (n - 1) div 2" using row_start_mono [of "Suc y" n n] y row_start_end by simp
  finally show "slot n x y < n * (n - 1) div 2" .
qed

lemma slot_inj:
  assumes "y < x" "x < n" "w < v" "v < n" and "slot n x y = slot n v w"
  shows "x = v \<and> y = w"
proof -
  have "slot n x y < slot n v w" if "y < w" "y < x" "x < n" "w < v" "v < n" for x y v w
  proof -
    have "slot n x y < row_start n (Suc y)" using that by (intro slot_bound)
    also have "\<dots> \<le> row_start n w" using that by (intro row_start_mono) auto
    also have "\<dots> \<le> slot n v w" by (simp add: slot_def)
    finally show ?thesis .
  qed
  from this [of y w x v] this [of w y v x] assms have "y = w" by (metis less_irrefl linorder_neqE_nat)
  with assms show ?thesis by (auto simp: slot_def)
qed

section \<open>The triangle as a matrix\<close>

text \<open>
  \<open>represents m n f\<close>: the triangle \<open>m\<close> stores the integers \<open>f x y\<close>, an antisymmetric
  matrix of dimension \<open>n\<close>; its size fits \<open>u32\<close>.
\<close>

definition antisymmetric :: "(nat \<Rightarrow> nat \<Rightarrow> int) \<Rightarrow> bool" where
  "antisymmetric f \<longleftrightarrow> (\<forall>x y. f x y = - f y x)"

lemma antisymmetricD: "antisymmetric f \<Longrightarrow> f x y = - f y x"
  unfolding antisymmetric_def by blast

definition represents :: "matrix \<Rightarrow> nat \<Rightarrow> (nat \<Rightarrow> nat \<Rightarrow> int) \<Rightarrow> bool" where
  "represents m n f \<longleftrightarrow>
     dim m = n \<and> length (cells m) = n * (n - 1) div 2 \<and> n * (n - 1) < 2 ^ 32 \<and>
     antisymmetric f \<and>
     (\<forall>x < n. \<forall>y < x. cell_value (cells m ! slot n x y) = f x y \<and> cell_ok (cells m ! slot n x y))"

lemma representsD:
  assumes "represents m n f" and "y < x" and "x < n"
  shows "slot n x y < length (cells m)"
    and "cell_value (cells m ! slot n x y) = f x y" and "cell_ok (cells m ! slot n x y)"
proof -
  have m: "dim m = n" "length (cells m) = n * (n - 1) div 2" "n * (n - 1) < 2 ^ 32"
    using assms(1) by (simp_all add: represents_def)
  show "slot n x y < length (cells m)" using slot_bound(2) [OF assms(2,3)] m(2) by simp
  show "cell_value (cells m ! slot n x y) = f x y" "cell_ok (cells m ! slot n x y)"
    using assms by (simp_all add: represents_def)
qed

lemma index_slot:
  assumes "represents m n f" and "y < x" and "x < n"
  shows "index m x y = Ok (slot n x y)"
proof -
  have m: "dim m = n" "length (cells m) = n * (n - 1) div 2" "n * (n - 1) < 2 ^ 32"
    using assms(1) by (simp_all add: represents_def)
  note len = representsD(1) [OF assms]
  have y1: "(y + 1) * y \<le> n * (n - 1)" using assms(2,3) by (intro mult_le_mono) auto
  have "y * n \<le> (n - 1) * n" using assms(2,3) by (intro mult_le_mono1) simp
  then have yn: "y * n < 2 ^ 32" using m(3) by (simp only: mult.commute [of n] le_less_trans)
  have "(y + 1) * y \<le> n * y" using assms(2,3) by (intro mult_le_mono1) simp
  then have le: "(y + 1) * y div 2 \<le> y * n" by (simp add: mult.commute)
  have "slot n x y < 2 ^ 32" using len m(2,3) by simp
  moreover have "y + 1 < 2 ^ 32"
  proof -
    have "y + 1 \<le> n * (n - 1)" using assms(2,3) by (cases n) (auto intro: le_trans [of _ n])
    with m(3) show ?thesis by simp
  qed
  ultimately show "index m x y = Ok (slot n x y)"
    using m(1,3) y1 yn le assms(2)
    by (simp add: index_def mul_u32_def add_u32_def sub_u32_def slot_def row_start_def)
qed

lemma get_represents:
  assumes "represents m n f" and "x \<noteq> y" and "x < n" and "y < n"
  obtains c where "get m x y = (Ok c :: (cell, 'e) result)" and "cell_value c = f x y" and "cell_ok c"
proof (cases "y < x")
  case True
  with representsD [OF assms(1) True assms(3)] have "get m x y = (Ok (cells m ! slot n x y) :: (cell, 'e) result)"
    by (simp add: get.simps [of m x y] cell_at_def index_slot [OF assms(1) True assms(3)])
  with representsD [OF assms(1) True assms(3)] show ?thesis by (intro that)
next
  case False
  with assms(2) have "x < y" by simp
  note d = representsD [OF assms(1) this assms(4)]
  have "get m x y = (Ok (invert (cells m ! slot n y x)) :: (cell, 'e) result)"
    using \<open>x < y\<close> d by (simp add: get.simps [of m x y] get.simps [of m y x] cell_at_def
        index_slot [OF assms(1) \<open>x < y\<close> assms(4)])
  moreover have "f y x = - f x y" using assms(1) antisymmetricD unfolding represents_def by blast
  ultimately show ?thesis using d by (intro that [of "invert (cells m ! slot n y x)"]) simp_all
qed

text \<open>The matrix after one comparison: \<open>x\<close> gains \<open>k\<close> on \<open>y\<close>.\<close>

definition gain :: "nat \<Rightarrow> nat \<Rightarrow> int \<Rightarrow> (nat \<Rightarrow> nat \<Rightarrow> int) \<Rightarrow> nat \<Rightarrow> nat \<Rightarrow> int" where
  "gain x y k f a b =
     (if a = x \<and> b = y then f a b + k else if a = y \<and> b = x then f a b - k else f a b)"

lemma antisymmetric_gain:
  assumes "antisymmetric f" and "x \<noteq> y"
  shows "antisymmetric (gain x y k f)"
  unfolding antisymmetric_def
proof (intro allI)
  fix a b
  show "gain x y k f a b = - gain x y k f b a"
    using antisymmetricD [OF assms(1), of a b] antisymmetricD [OF assms(1), of x y] assms(2) by (auto simp: gain_def)
qed

lemma represents_update:
  assumes "represents m n f" and "y < x" and "x < n" and "cell_value d = f x y + k" and "cell_ok d"
  shows "represents (m\<lparr>cells := (cells m)[slot n x y := d]\<rparr>) n (gain x y k f)"
proof -
  have "antisymmetric (gain x y k f)"
    using assms(1,2) by (simp add: represents_def antisymmetric_gain)
  moreover have "cell_value ((cells m)[slot n x y := d] ! slot n a b) = gain x y k f a b \<and>
      cell_ok ((cells m)[slot n x y := d] ! slot n a b)" if "a < n" "b < a" for a b
  proof (cases "a = x \<and> b = y")
    case True
    with assms representsD(1) [OF assms(1-3)] show ?thesis by (simp add: gain_def)
  next
    case False
    then have "slot n a b \<noteq> slot n x y" using slot_inj [OF that(2,1) assms(2,3)] by blast
    with False that assms(2) representsD(2,3) [OF assms(1) that(2,1)] show ?thesis by (auto simp: gain_def)
  qed
  ultimately show ?thesis using assms(1) by (simp add: represents_def)
qed

lemma gain_swap: "x \<noteq> y \<Longrightarrow> gain y x (- k) f = gain x y k f"
  by (intro ext) (auto simp: gain_def)

lemma decrement_represents:
  assumes "represents m n f" and "x \<noteq> y" and "x < n" and "y < n"
    and "k > 0" and "k < 2 ^ 128" and "\<bar>f x y - int k\<bar> < 2 ^ 128"
  shows "\<exists>m'. decrement m x y k = (Ok m' :: (matrix, 'e) result) \<and> represents m' n (gain x y (- int k) f)"
proof (cases "y < x")
  case True
  note d = representsD [OF assms(1) True assms(3)]
  obtain c where "cell_decrement (cells m ! slot n x y) k = (Ok c :: (cell, 'e) result)"
    "cell_value c = f x y + - int k" "cell_ok c"
    using cell_decrement_total [of k "cells m ! slot n x y"] assms(5-7) d by force
  with represents_update [OF assms(1) True assms(3), of c "- int k"] d True show ?thesis
    by (simp add: decrement.simps [of m x y] cell_at_def index_slot [OF assms(1) True assms(3)])
next
  case False
  with assms(2) have xy: "x < y" by simp
  note d = representsD [OF assms(1) xy assms(4)]
  have "f y x = - f x y" using assms(1) antisymmetricD unfolding represents_def by blast
  then obtain c where "cell_increment (cells m ! slot n y x) k = (Ok c :: (cell, 'e) result)"
    "cell_value c = f y x + int k" "cell_ok c"
    using cell_increment_total [of k "cells m ! slot n y x"] assms(5-7) d by force
  with represents_update [OF assms(1) xy assms(4), of c "int k"] d xy
    gain_swap [of x y "- int k" f] assms(2) show ?thesis
    by (simp add: decrement.simps [of m x y] increment.simps [of m y x] cell_at_def
        index_slot [OF assms(1) xy assms(4)])
qed

lemma new_represents:
  assumes "n > 0" and "n * (n - 1) < 2 ^ 32"
  shows "\<exists>m. matrix_new n = (Ok m :: (matrix, 'e) result) \<and> represents m n (\<lambda>_ _. 0)"
proof -
  have "represents \<lparr>cells = replicate (n * (n - 1) div 2) Zero, dim = n\<rparr> n (\<lambda>_ _. 0)"
    using assms(2) slot_bound(2) by (simp add: represents_def antisymmetric_def cell_value_def cell_ok_def)
  with assms show ?thesis by (simp add: matrix_new_def sub_u32_def mul_u32_def)
qed

end
