(* ===== verification/Condorcet_Election.thy ===== *)
theory Condorcet_Election
  imports Prelude
begin

text \<open>
  Ranked-choice elections, stated without reference to any contract: ballots with weights,
  the margin of one candidate over another, the Condorcet winner, and what the votes that are
  still outstanding can do to the result. The tally of \<open>dao-proposal-condorcet\<close> is later
  proved to compute exactly these notions.
\<close>

section \<open>Ballots and margins\<close>

text \<open>A ballot ranks the candidates from most to least favoured and carries a voting power.\<close>

type_synonym election = "(nat list \<times> nat) list"

definition ranks :: "nat list \<Rightarrow> nat \<Rightarrow> nat \<Rightarrow> bool" where
  "ranks v a b \<longleftrightarrow> (\<exists>i < length v. \<exists>j < i. v ! j = a \<and> v ! i = b)"

definition preference :: "nat list \<Rightarrow> nat \<Rightarrow> nat \<Rightarrow> int" where
  "preference v a b = of_bool (ranks v a b) - of_bool (ranks v b a)"

definition margin :: "election \<Rightarrow> nat \<Rightarrow> nat \<Rightarrow> int" where
  "margin es a b = (\<Sum>(v, p) \<leftarrow> es. int p * preference v a b)"

definition cast_power :: "election \<Rightarrow> nat" where
  "cast_power es = (\<Sum>(v, p) \<leftarrow> es. p)"

definition valid_ranking :: "nat \<Rightarrow> nat list \<Rightarrow> bool" where
  "valid_ranking n v \<longleftrightarrow> length v = n \<and> distinct v \<and> (\<forall>c \<in> set v. c < n)"

definition beats_all :: "nat \<Rightarrow> election \<Rightarrow> nat \<Rightarrow> bool" where
  "beats_all n es c \<longleftrightarrow> c < n \<and> (\<forall>y < n. y \<noteq> c \<longrightarrow> 0 < margin es c y)"

text \<open>The ways the votes still outstanding, of power \<open>w\<close> altogether, may be cast.\<close>

definition completes :: "nat \<Rightarrow> nat \<Rightarrow> election \<Rightarrow> bool" where
  "completes n w fs \<longleftrightarrow> (\<forall>(v, p) \<in> set fs. valid_ranking n v) \<and> cast_power fs \<le> w"

definition always_wins :: "nat \<Rightarrow> nat \<Rightarrow> election \<Rightarrow> nat \<Rightarrow> bool" where
  "always_wins n w es c \<longleftrightarrow> (\<forall>fs. completes n w fs \<longrightarrow> beats_all n (es @ fs) c)"

definition may_win :: "nat \<Rightarrow> nat \<Rightarrow> election \<Rightarrow> nat \<Rightarrow> bool" where
  "may_win n w es c \<longleftrightarrow> (\<exists>fs. completes n w fs \<and> beats_all n (es @ fs) c)"

section \<open>Margins\<close>

lemma margin_simps [simp]:
  "margin [] a b = 0"
  "margin ((v, p) # es) a b = int p * preference v a b + margin es a b"
  "margin (es @ fs) a b = margin es a b + margin fs a b"
  by (simp_all add: margin_def)

lemma cast_power_simps [simp]:
  "cast_power [] = 0"
  "cast_power ((v, p) # es) = p + cast_power es"
  "cast_power (es @ fs) = cast_power es + cast_power fs"
  by (simp_all add: cast_power_def)

lemma preference_bound: "\<bar>preference v a b\<bar> \<le> 1"
  by (simp add: preference_def)

lemma preference_swap: "preference v a b = - preference v b a"
  by (simp add: preference_def)

lemma margin_swap: "margin es a b = - margin es b a"
proof (induction es)
  case (Cons e es)
  obtain v p where "e = (v, p)" by fastforce
  with Cons preference_swap [of v a b] show ?case by simp
qed simp

lemma margin_bound: "\<bar>margin es a b\<bar> \<le> int (cast_power es)"
proof (induction es)
  case (Cons e es)
  obtain v p where e: "e = (v, p)" by fastforce
  have "\<bar>int p * preference v a b\<bar> \<le> int p"
    using mult_left_mono [OF preference_bound [of v a b], of "int p"] by (simp add: abs_mult)
  with Cons e show ?case by simp
qed simp

lemma completes_bound: "completes n w fs \<Longrightarrow> \<bar>margin fs a b\<bar> \<le> int w"
  using margin_bound [of fs a b] unfolding completes_def by linarith

lemma beats_all_unique: "beats_all n es c \<Longrightarrow> beats_all n es d \<Longrightarrow> c = d"
  using margin_swap [of es c d] unfolding beats_all_def by force

section \<open>Ballots that put one candidate first, or last\<close>

lemma ranks_distinct: "distinct v \<Longrightarrow> ranks v a b \<Longrightarrow> \<not> ranks v b a"
  unfolding ranks_def by (metis less_trans less_irrefl nth_eq_iff_index_eq)

lemma ranks_Cons: "y \<in> set v \<Longrightarrow> ranks (c # v) c y"
proof -
  assume "y \<in> set v"
  then obtain i where "i < length v" "v ! i = y" by (auto simp: in_set_conv_nth)
  then have "Suc i < length (c # v)" "0 < Suc i" "(c # v) ! 0 = c" "(c # v) ! Suc i = y" by simp_all
  then show ?thesis unfolding ranks_def by blast
qed

lemma ranks_snoc: "y \<in> set v \<Longrightarrow> ranks (v @ [c]) y c"
proof -
  assume "y \<in> set v"
  then obtain i where i: "i < length v" "v ! i = y" by (auto simp: in_set_conv_nth)
  then have "length v < length (v @ [c])" "(v @ [c]) ! i = y" "(v @ [c]) ! length v = c"
    by (simp_all add: nth_append)
  with i(1) show ?thesis unfolding ranks_def by blast
qed

definition others :: "nat \<Rightarrow> nat \<Rightarrow> nat list" where
  "others n c = filter (\<lambda>y. y \<noteq> c) [0..<n]"

lemma set_others: "set (others n c) = {y. y < n \<and> y \<noteq> c}"
  by (auto simp: others_def)

lemma length_others: "c < n \<Longrightarrow> Suc (length (others n c)) = n"
proof -
  assume "c < n"
  have "length (others n c) = card ({..<n} - {c})"
    using distinct_card [of "others n c"] by (simp add: set_others others_def set_diff_eq)
  with \<open>c < n\<close> show ?thesis by simp
qed

lemma first_ballot:
  assumes "c < n"
  shows "valid_ranking n (c # others n c)"
    and "y < n \<Longrightarrow> y \<noteq> c \<Longrightarrow> preference (c # others n c) c y = 1"
proof -
  show v: "valid_ranking n (c # others n c)"
    using assms length_others [OF assms] by (simp add: valid_ranking_def set_others) (simp add: others_def)
  show "preference (c # others n c) c y = 1" if "y < n" "y \<noteq> c"
    using that ranks_Cons [of y "others n c" c] ranks_distinct [of "c # others n c" c y] v
    by (simp add: preference_def set_others valid_ranking_def)
qed

lemma last_ballot:
  assumes "c < n"
  shows "valid_ranking n (others n c @ [c])"
    and "y < n \<Longrightarrow> y \<noteq> c \<Longrightarrow> preference (others n c @ [c]) c y = - 1"
proof -
  show v: "valid_ranking n (others n c @ [c])"
    using assms length_others [OF assms] by (simp add: valid_ranking_def set_others) (simp add: others_def)
  show "preference (others n c @ [c]) c y = - 1" if "y < n" "y \<noteq> c"
    using that ranks_snoc [of y "others n c" c] ranks_distinct [of "others n c @ [c]" y c] v
    by (simp add: preference_def set_others valid_ranking_def)
qed

section \<open>What outstanding votes can decide\<close>

lemma may_win_iff:
  "may_win n w es c \<longleftrightarrow> c < n \<and> (\<forall>y < n. y \<noteq> c \<longrightarrow> 0 < margin es c y + int w)"
proof
  assume "may_win n w es c"
  then obtain fs where fs: "completes n w fs" "beats_all n (es @ fs) c" by (auto simp: may_win_def)
  have "margin fs c y \<le> int w" for y
    using completes_bound [OF fs(1), of c y] by simp
  with fs(2) show "c < n \<and> (\<forall>y < n. y \<noteq> c \<longrightarrow> 0 < margin es c y + int w)"
    unfolding beats_all_def by (metis add_left_mono less_le_trans margin_simps(3))
next
  assume *: "c < n \<and> (\<forall>y < n. y \<noteq> c \<longrightarrow> 0 < margin es c y + int w)"
  let ?fs = "[(c # others n c, w)]"
  have "completes n w ?fs" using first_ballot(1) * by (simp add: completes_def)
  moreover have "beats_all n (es @ ?fs) c" using * first_ballot(2) by (simp add: beats_all_def)
  ultimately show "may_win n w es c" unfolding may_win_def by blast
qed

lemma always_wins_iff:
  "always_wins n w es c \<longleftrightarrow> c < n \<and> (\<forall>y < n. y \<noteq> c \<longrightarrow> int w < margin es c y)"
proof
  assume w: "always_wins n w es c"
  have "completes n w []" by (simp add: completes_def)
  with w have "beats_all n es c" unfolding always_wins_def by fastforce
  then have c: "c < n" by (simp add: beats_all_def)
  let ?fs = "[(others n c @ [c], w)]"
  have "completes n w ?fs" using last_ballot(1) [OF c] by (simp add: completes_def)
  with w have "beats_all n (es @ ?fs) c" by (simp add: always_wins_def)
  with c last_ballot(2) [OF c] show "c < n \<and> (\<forall>y < n. y \<noteq> c \<longrightarrow> int w < margin es c y)"
    by (force simp: beats_all_def)
next
  assume *: "c < n \<and> (\<forall>y < n. y \<noteq> c \<longrightarrow> int w < margin es c y)"
  show "always_wins n w es c" unfolding always_wins_def beats_all_def
  proof (intro allI impI conjI)
    fix fs y assume "completes n w fs" "y < n" "y \<noteq> c"
    moreover from this have "- int w \<le> margin fs c y"
      using completes_bound [of n w fs c y] by simp
    ultimately show "0 < margin (es @ fs) c y" using * by force
  qed (use * in simp)
qed

text \<open>A completion may be continued by a smaller one.\<close>

lemma completes_append:
  assumes "completes n w fs" and "completes n (w - cast_power fs) gs"
  shows "completes n w (fs @ gs)"
  using assms by (auto simp: completes_def)

lemma always_wins_later:
  assumes "always_wins n w es c" and "completes n w fs"
  shows "always_wins n (w - cast_power fs) (es @ fs) c"
  using assms completes_append by (fastforce simp: always_wins_def)

lemma never_won_later:
  assumes "\<not> (\<exists>c. may_win n w es c)" and "completes n w fs"
  shows "\<not> (\<exists>c. may_win n (w - cast_power fs) (es @ fs) c)"
  using assms completes_append by (fastforce simp: may_win_def)

end
