(* ===== verification/Condorcet_Tally.thy ===== *)
theory Condorcet_Tally
  imports Condorcet_Matrix Condorcet_Election
begin

text \<open>
  The tally of \<open>dao-proposal-condorcet\<close>: validation of a ballot (\<open>vote.rs\<close>), the
  statistics of the margin matrix (\<open>M::stats\<close> in \<open>m.rs\<close>) and the tally itself
  (\<open>tally.rs\<close>). The lemmas show that the matrix stores the margins of the votes cast, and
  that the \<open>winner\<close> field says exactly what those votes and the outstanding power decide.
\<close>

section \<open>Votes (vote.rs)\<close>

datatype vote_error =
    DuplicateCandidate nat
  | InvalidCandidate nat
  | LenMissmatch (got: nat) (expected: nat)

definition vote_new :: "nat list \<Rightarrow> nat \<Rightarrow> (nat list, vote_error) result" where
  "vote_new vote candidates =
     (if length vote \<noteq> candidates then Err (LenMissmatch (length vote) candidates)
      else try_fold (\<lambda>seen v.
             if v \<ge> candidates then Err (InvalidCandidate v)
             else if v \<in> set seen then Err (DuplicateCandidate v)
             else Ok (seen @ [v])) [] vote)"

definition vote_at :: "nat list \<Rightarrow> nat \<Rightarrow> (nat, 'e) result" where
  "vote_at vote i = (if i < length vote then Ok (vote ! i) else Panic)"

section \<open>Statistics of the matrix (M::stats)\<close>

definition add256 :: "nat \<Rightarrow> nat \<Rightarrow> (nat, 'e) result" where
  "add256 a b = (if a + b < 2 ^ 256 then Ok (a + b) else Panic)"

datatype stats =
    PositiveColumn (stats_col: nat) (stats_min_margin: nat)
  | NoPositiveColumn (no_winnable_columns: bool)

text \<open>One row of a column: distance from positivity, smallest margin, largest negative.\<close>

definition stats_row :: "matrix \<Rightarrow> nat \<Rightarrow> nat \<times> nat \<times> nat \<Rightarrow> nat \<Rightarrow> (nat \<times> nat \<times> nat, 'e) result" where
  "stats_row self col acc row =
     (case acc of (distance, min_margin, max_negative) \<Rightarrow>
        if row \<noteq> col then
          and_then (get self col row) (\<lambda>c.
            case c of
              Positive p \<Rightarrow> Ok (distance, if p < min_margin then p else min_margin, max_negative)
            | Negative v \<Rightarrow>
                and_then (add256 v 1) (\<lambda>v1.
                and_then (add256 distance v1) (\<lambda>d.
                Ok (d, min_margin, if v > max_negative then v else max_negative)))
            | Zero \<Rightarrow> and_then (add256 distance 1) (\<lambda>d. Ok (d, min_margin, max_negative)))
        else Ok acc)"

definition stats_column :: "matrix \<Rightarrow> nat \<Rightarrow> (nat \<times> nat \<times> nat, 'e) result" where
  "stats_column self col = try_fold (stats_row self col) (0, 2 ^ 128 - 1, 0) [0..<dim self]"

primrec stats_columns :: "matrix \<Rightarrow> nat \<Rightarrow> bool \<Rightarrow> nat list \<Rightarrow> (stats, 'e) result" where
  "stats_columns self power_outstanding no_winnable [] = Ok (NoPositiveColumn no_winnable)"
| "stats_columns self power_outstanding no_winnable (col # cols) =
     and_then (stats_column self col) (\<lambda>(distance, min_margin, max_negative).
     if distance = 0 then Ok (PositiveColumn col min_margin)
     else
       and_then (sub_u32 (dim self) 1) (\<lambda>k.
       stats_columns self power_outstanding
         (if distance \<le> power_outstanding * k \<and> max_negative < power_outstanding
          then False else no_winnable)
         cols))"

definition matrix_stats :: "matrix \<Rightarrow> nat \<Rightarrow> (stats, 'e) result" where
  "matrix_stats self power_outstanding = stats_columns self power_outstanding True [0..<dim self]"

section \<open>The tally (tally.rs)\<close>

datatype winner = WinnerNever | WinnerNone | WinnerSome nat | Undisputed nat

record tally =
  tally_m :: matrix
  tally_expiration :: expiration
  tally_start_height :: u64
  power_outstanding :: nat
  winner :: winner

definition tally_winner :: "tally \<Rightarrow> (winner, 'e) result" where
  "tally_winner self =
     and_then (matrix_stats (tally_m self) (power_outstanding self)) (\<lambda>s.
       case s of
         PositiveColumn col min_margin \<Rightarrow>
           Ok (if min_margin > power_outstanding self then Undisputed col else WinnerSome col)
       | NoPositiveColumn no_winnable \<Rightarrow> Ok (if no_winnable then WinnerNever else WinnerNone))"

definition tally_new :: "nat \<Rightarrow> nat \<Rightarrow> u64 \<Rightarrow> expiration \<Rightarrow> (tally, 'e) result" where
  "tally_new candidates total_power start expires =
     and_then (matrix_new candidates) (\<lambda>m.
     let tally = \<lparr>tally_m = m, tally_expiration = expires, tally_start_height = start,
                  power_outstanding = total_power, winner = WinnerNone\<rparr> in
     and_then (tally_winner tally) (\<lambda>w. Ok (tally\<lparr>winner := w\<rparr>)))"

definition candidates :: "tally \<Rightarrow> nat" where
  "candidates self = dim (tally_m self)"

definition expired :: "'x cw_env_scheme \<Rightarrow> tally \<Rightarrow> block_info \<Rightarrow> bool" where
  "expired cw self b = is_expired cw (tally_expiration self) b"

definition record_defeats :: "matrix \<Rightarrow> nat list \<Rightarrow> nat \<Rightarrow> (matrix, 'e) result" where
  "record_defeats m vote vpower =
     try_fold (\<lambda>m (index, preference).
       try_fold (\<lambda>m defeat.
         and_then (vote_at vote defeat) (\<lambda>d. decrement m preference d vpower)) m [0..<index])
       m (List.enumerate 0 vote)"

definition tally_add_vote :: "tally \<Rightarrow> nat list \<Rightarrow> nat \<Rightarrow> (tally, 'e) result" where
  "tally_add_vote self vote vpower =
     and_then (record_defeats (tally_m self) vote vpower) (\<lambda>m.
     and_then (sub128 (power_outstanding self) vpower) (\<lambda>left.
     let self = self\<lparr>tally_m := m, power_outstanding := left\<rparr> in
     and_then (tally_winner self) (\<lambda>w. Ok (self\<lparr>winner := w\<rparr>))))"

section \<open>A valid ballot is a ranking\<close>

lemma vote_new_loop:
  "try_fold (\<lambda>seen v. if v \<ge> n then Err (InvalidCandidate v)
       else if v \<in> set seen then Err (DuplicateCandidate v) else Ok (seen @ [v])) seen vs = Ok r \<longleftrightarrow>
   r = seen @ vs \<and> (\<forall>v \<in> set vs. v < n \<and> v \<notin> set seen) \<and> distinct vs"
  by (induction vs arbitrary: seen) (auto simp: and_then_Ok split: if_splits)

lemma vote_new_Ok [result_ok]: "vote_new vote n = Ok r \<longleftrightarrow> r = vote \<and> valid_ranking n vote"
  by (auto simp: vote_new_def vote_new_loop valid_ranking_def)

lemma vote_new_never_panics: "vote_new vote n \<noteq> Panic"
proof -
  have "try_fold (\<lambda>seen v. if v \<ge> n then Err (InvalidCandidate v)
       else if v \<in> set seen then Err (DuplicateCandidate v) else Ok (seen @ [v])) seen vs \<noteq> Panic" for seen vs
    by (induction vs arbitrary: seen) auto
  then show ?thesis by (simp add: vote_new_def)
qed

section \<open>Recording a ballot\<close>

text \<open>What the tally relies on: a store of an antisymmetric matrix of integers.\<close>

locale margin_matrix =
  fixes repr :: "'m \<Rightarrow> nat \<Rightarrow> (nat \<Rightarrow> nat \<Rightarrow> int) \<Rightarrow> bool"
    and dec :: "'m \<Rightarrow> nat \<Rightarrow> nat \<Rightarrow> nat \<Rightarrow> ('m, 'e) result"
  assumes dec_law: "repr m n f \<Longrightarrow> x \<noteq> y \<Longrightarrow> x < n \<Longrightarrow> y < n \<Longrightarrow> k > 0 \<Longrightarrow> k < 2 ^ 128 \<Longrightarrow>
      \<bar>f x y - int k\<bar> < 2 ^ 128 \<Longrightarrow> \<exists>m'. dec m x y k = Ok m' \<and> repr m' n (gain x y (- int k) f)"
begin

lemma dec_pairs:
  assumes "repr m n f" and "k > 0" and "k < 2 ^ 128"
    and "\<And>x y. (x, y) \<in> set ps \<Longrightarrow> x \<noteq> y \<and> x < n \<and> y < n \<and> \<bar>f x y - int k\<bar> < 2 ^ 128"
    and "distinct (map (\<lambda>(x, y). {x, y}) ps)"
  shows "\<exists>m'. try_fold (\<lambda>m (x, y). dec m x y k) m ps = Ok m' \<and>
    repr m' n (\<lambda>a b. f a b + int k * (of_bool ((b, a) \<in> set ps) - of_bool ((a, b) \<in> set ps)))"
  using assms
proof (induction ps arbitrary: m f)
  case Nil
  then show ?case by simp
next
  case (Cons p ps)
  obtain x y where p: "p = (x, y)" by fastforce
  let ?g = "gain x y (- int k) f"
  from Cons.prems(4) [of x y] p have xy: "x \<noteq> y" "x < n" "y < n" "\<bar>f x y - int k\<bar> < 2 ^ 128" by auto
  from dec_law [OF Cons.prems(1) xy(1-3) Cons.prems(2,3) xy(4)] obtain m1
    where m1: "dec m x y k = Ok m1" "repr m1 n ?g" by blast
  from Cons.prems(5) p have fresh: "(x, y) \<notin> set ps" "(y, x) \<notin> set ps" by (force simp: doubleton_eq_iff)+
  then have same: "?g a b = f a b" if "(a, b) \<in> set ps" for a b using that by (auto simp: gain_def)
  have "\<exists>m'. try_fold (\<lambda>m (x, y). dec m x y k) m1 ps = Ok m' \<and>
    repr m' n (\<lambda>a b. ?g a b + int k * (of_bool ((b, a) \<in> set ps) - of_bool ((a, b) \<in> set ps)))"
    using Cons.prems(2-5) same p by (intro Cons.IH [OF m1(2)]) auto
  moreover have "(\<lambda>a b. ?g a b + int k * (of_bool ((b, a) \<in> set ps) - of_bool ((a, b) \<in> set ps))) =
    (\<lambda>a b. f a b + int k * (of_bool ((b, a) \<in> set (p # ps)) - of_bool ((a, b) \<in> set (p # ps))))"
    using fresh xy(1) p by (intro ext) (auto simp: gain_def)
  ultimately show ?case using m1(1) p by simp
qed

end

interpretation mm: margin_matrix represents "decrement :: _ \<Rightarrow> _ \<Rightarrow> _ \<Rightarrow> _ \<Rightarrow> (_, 'e) result"
  by unfold_locales (rule decrement_represents)

definition defeats :: "nat list \<Rightarrow> (nat \<times> nat) list" where
  "defeats v = concat (map (\<lambda>i. map (\<lambda>j. (v ! i, v ! j)) [0..<i]) [0..<length v])"

lemma record_defeats_of:
  assumes "\<forall>j \<in> set js. j < length vote"
  shows "try_fold (\<lambda>m defeat. and_then (vote_at vote defeat) (\<lambda>d. decrement m x d vpower)) m js =
    try_fold (\<lambda>m (x, y). decrement m x y vpower) m (map (\<lambda>j. (x, vote ! j)) js)"
  using assms by (induction js arbitrary: m) (simp_all add: vote_at_def)

lemma record_defeats_from:
  assumes "\<forall>i \<in> set is. i < length vote"
  shows "try_fold (\<lambda>m (index, preference).
      try_fold (\<lambda>m defeat. and_then (vote_at vote defeat) (\<lambda>d. decrement m preference d vpower)) m [0..<index])
      m (map (\<lambda>i. (i, vote ! i)) is) =
    try_fold (\<lambda>m (x, y). decrement m x y vpower) m
      (concat (map (\<lambda>i. map (\<lambda>j. (vote ! i, vote ! j)) [0..<i]) is))"
  using assms by (induction "is" arbitrary: m) (simp_all add: record_defeats_of try_fold_append)

lemma record_defeats_pairs:
  "record_defeats m vote vpower = try_fold (\<lambda>m (x, y). decrement m x y vpower) m (defeats vote)"
proof -
  have enum: "List.enumerate 0 vote = map (\<lambda>i. (i, vote ! i)) [0..<length vote]"
    by (rule nth_equalityI) (simp_all add: nth_enumerate_eq)
  show ?thesis unfolding record_defeats_def enum defeats_def by (simp add: record_defeats_from)
qed

lemma set_defeats: "(b, a) \<in> set (defeats v) \<longleftrightarrow> ranks v a b"
proof
  assume "(b, a) \<in> set (defeats v)"
  then obtain i j where "i < length v" "j < i" "v ! j = a" "v ! i = b" by (auto simp: defeats_def)
  then show "ranks v a b" unfolding ranks_def by blast
next
  assume "ranks v a b"
  then obtain i j where ij: "i < length v" "j < i" "v ! j = a" "v ! i = b" unfolding ranks_def by blast
  then have "(b, a) \<in> set (map (\<lambda>j. (v ! i, v ! j)) [0..<i])" by auto
  moreover have "map (\<lambda>j. (v ! i, v ! j)) [0..<i] \<in>
      set (map (\<lambda>i. map (\<lambda>j. (v ! i, v ! j)) [0..<i]) [0..<length v])"
    unfolding set_map by (rule imageI) (use ij(1) in simp)
  ultimately show "(b, a) \<in> set (defeats v)" unfolding defeats_def set_concat by (rule UN_I [rotated])
qed

lemma defeats_snoc: "defeats (v @ [c]) = defeats v @ map (Pair c) v"
proof -
  have "map (\<lambda>i. map (\<lambda>j. ((v @ [c]) ! i, (v @ [c]) ! j)) [0..<i]) [0..<length v] =
      map (\<lambda>i. map (\<lambda>j. (v ! i, v ! j)) [0..<i]) [0..<length v]"
    by (simp add: nth_append)
  moreover have "map (\<lambda>j. (c, (v @ [c]) ! j)) [0..<length v] = map (Pair c) v"
    by (rule nth_equalityI) (simp_all add: nth_append)
  ultimately show ?thesis by (simp add: defeats_def del: map_eq_conv)
qed

lemma distinct_defeats: "distinct v \<Longrightarrow> distinct (map (\<lambda>(x, y). {x, y}) (defeats v))"
proof (induction v rule: rev_induct)
  case Nil
  then show ?case by (simp add: defeats_def)
next
  case (snoc c v)
  then have "inj_on (\<lambda>y. {c, y}) (set v)" by (auto simp: inj_on_def doubleton_eq_iff)
  moreover have "x \<in> set v \<and> y \<in> set v" if "(x, y) \<in> set (defeats v)" for x y
    using that by (auto simp: set_defeats ranks_def)
  ultimately show ?case using snoc
    by (auto simp: defeats_snoc distinct_map comp_def doubleton_eq_iff)
qed

lemma record_defeats_represents:
  assumes "represents m n (margin es)" and "valid_ranking n v" and "k > 0"
    and "cast_power es + k < 2 ^ 128"
  shows "\<exists>m'. record_defeats m v k = (Ok m' :: (matrix, 'e) result) \<and>
    represents m' n (margin (es @ [(v, k)]))"
proof -
  have in_range: "x \<noteq> y \<and> x < n \<and> y < n \<and> \<bar>margin es x y - int k\<bar> < 2 ^ 128"
    if "(x, y) \<in> set (defeats v)" for x y
  proof -
    from that obtain i j where ij: "i < length v" "j < i" "v ! j = y" "v ! i = x"
      unfolding set_defeats ranks_def by blast
    with assms(2) have "x \<noteq> y" "x < n" "y < n"
      by (auto simp: valid_ranking_def nth_eq_iff_index_eq)
    moreover have "int (cast_power es) + int k < 2 ^ 128" using assms(4) by simp
    ultimately show ?thesis using margin_bound [of es x y] by linarith
  qed
  have k: "k < 2 ^ 128" and v: "distinct v" using assms(2,4) by (simp_all add: valid_ranking_def)
  note all = mm.dec_pairs [OF assms(1,3) k in_range distinct_defeats [OF v]]
  have "(\<lambda>a b. margin es a b + int k * (of_bool ((b, a) \<in> set (defeats v)) - of_bool ((a, b) \<in> set (defeats v)))) =
      margin (es @ [(v, k)])"
    by (intro ext) (simp add: set_defeats preference_def)
  with all show ?thesis unfolding record_defeats_pairs by simp
qed

section \<open>Reading a column\<close>

text \<open>
  What the three accumulators of \<open>M::stats\<close> say of the rows already read: the distance is
  zero exactly on a positive column, the margin is the smallest positive entry and the last
  is the largest magnitude of a negative one.
\<close>

definition scanned :: "(nat \<Rightarrow> int) \<Rightarrow> nat set \<Rightarrow> nat \<Rightarrow> nat \<times> nat \<times> nat \<Rightarrow> bool" where
  "scanned g R k acc \<longleftrightarrow>
     (case acc of (distance, min_margin, max_negative) \<Rightarrow>
       (distance = 0 \<longleftrightarrow> (\<forall>y \<in> R. 0 < g y)) \<and> distance \<le> k * Suc max_negative \<and>
       (\<forall>y \<in> R. 0 < g y \<longrightarrow> int min_margin \<le> g y) \<and>
       (min_margin = 2 ^ 128 - 1 \<or> (\<exists>y \<in> R. int min_margin = g y)) \<and>
       (\<forall>y \<in> R. - g y \<le> int max_negative) \<and>
       (max_negative = 0 \<or> (\<exists>y \<in> R. int max_negative = - g y)))"

lemma scanned_positive:
  assumes "scanned g R k (d, mn, mx)" and "g y = int p" and "p > 0"
  shows "scanned g (insert y R) (Suc k) (d, if p < mn then p else mn, mx)"
  using assms by (auto simp: scanned_def)

lemma scanned_zero:
  assumes "scanned g R k (d, mn, mx)" and "g y = 0"
  shows "scanned g (insert y R) (Suc k) (d + 1, mn, mx)"
  using assms by (auto simp: scanned_def)

lemma scanned_negative:
  assumes "scanned g R k (d, mn, mx)" and "g y = - int v" and "v > 0"
  shows "scanned g (insert y R) (Suc k) (d + (v + 1), mn, if v > mx then v else mx)"
proof -
  let ?mx = "if v > mx then v else mx"
  have "d \<le> k * Suc mx" using assms(1) by (simp add: scanned_def)
  also have "\<dots> \<le> k * Suc ?mx" by simp
  finally have "d + (v + 1) \<le> k * Suc ?mx + Suc ?mx" by (intro add_mono) simp_all
  then have "d + (v + 1) \<le> Suc k * Suc ?mx" by (simp only: mult_Suc add.commute)
  moreover have "\<forall>z \<in> R. - g z \<le> int ?mx" using assms(1) by (auto simp: scanned_def intro: order_trans)
  ultimately show ?thesis using assms by (auto simp: scanned_def)
qed

lemma stats_row_scanned:
  assumes "represents m n f" and "col < n" and "row < n" and "row \<noteq> col"
    and "scanned (f col) R k acc" and "Suc k < 2 ^ 32" and "\<And>y. \<bar>f col y\<bar> < 2 ^ 128"
  shows "\<exists>acc'. stats_row m col acc row = (Ok acc' :: (_, 'e) result) \<and>
    scanned (f col) (insert row R) (Suc k) acc'"
proof -
  obtain d mn mx where acc: "acc = (d, mn, mx)" by (cases acc)
  note sc = assms(5) [unfolded acc]
  obtain c where c: "get m col row = (Ok c :: (cell, 'e) result)" "cell_value c = f col row" "cell_ok c"
    using get_represents [OF assms(1) assms(4) [symmetric] assms(2,3)] by blast
  have "mx = 0 \<or> (\<exists>y. int mx = - f col y)" using sc by (auto simp: scanned_def)
  then have mx: "mx < 2 ^ 128"
  proof
    assume "\<exists>y. int mx = - f col y"
    then obtain y where "int mx = - f col y" by blast
    with assms(7) [of y] show ?thesis by simp
  qed simp
  have "k * Suc mx \<le> 2 ^ 32 * 2 ^ 128" using assms(6) mx by (intro mult_le_mono) auto
  with sc have d: "d \<le> 2 ^ 32 * 2 ^ 128" by (simp add: scanned_def)
  show ?thesis
  proof (cases c)
    case (Positive p)
    with c scanned_positive [OF sc, of row p] assms(4) show ?thesis
      by (simp add: stats_row_def acc cell_value_def cell_ok_def)
  next
    case Zero
    with c scanned_zero [OF sc, of row] assms(4) d show ?thesis
      by (simp add: stats_row_def acc cell_value_def add256_def)
  next
    case (Negative v)
    have "v < 2 ^ 128" using assms(7) [of row] c(2) Negative by (simp add: cell_value_def)
    with Negative c scanned_negative [OF sc, of row v] assms(4) d show ?thesis
      by (simp add: stats_row_def acc cell_value_def cell_ok_def add256_def)
  qed
qed

lemma stats_rows_scanned:
  assumes "represents m n f" and "col < n" and "\<And>y. \<bar>f col y\<bar> < 2 ^ 128" and "n < 2 ^ 32"
    and "k \<le> n"
  shows "\<exists>acc. try_fold (stats_row m col) (0, 2 ^ 128 - 1, 0) [0..<k] = (Ok acc :: (_, 'e) result) \<and>
    scanned (f col) {y. y < k \<and> y \<noteq> col} (if col < k then k - 1 else k) acc"
  using assms(5)
proof (induction k)
  case 0
  then show ?case by (simp add: scanned_def)
next
  case (Suc k)
  then obtain acc where acc:
      "try_fold (stats_row m col) (0, 2 ^ 128 - 1, 0) [0..<k] = (Ok acc :: (_, 'e) result)"
      "scanned (f col) {y. y < k \<and> y \<noteq> col} (if col < k then k - 1 else k) acc" by auto
  show ?case
  proof (cases "k = col")
    case True
    then have "{y. y < Suc k \<and> y \<noteq> col} = {y. y < k \<and> y \<noteq> col}" by auto
    moreover have "stats_row m col acc k = (Ok acc :: (_, 'e) result)"
      using True by (simp add: stats_row_def split: prod.splits)
    ultimately show ?thesis using acc True by (simp add: try_fold_append)
  next
    case False
    let ?k = "if col < k then k - 1 else k"
    from Suc.prems assms(4) have "Suc ?k < 2 ^ 32" by auto
    from stats_row_scanned [OF assms(1,2) _ False acc(2) this assms(3)] Suc.prems obtain acc' where
      "stats_row m col acc k = (Ok acc' :: (_, 'e) result)"
      "scanned (f col) (insert k {y. y < k \<and> y \<noteq> col}) (Suc ?k) acc'" by auto
    moreover have "insert k {y. y < k \<and> y \<noteq> col} = {y. y < Suc k \<and> y \<noteq> col}" using False by auto
    moreover have "Suc ?k = (if col < Suc k then Suc k - 1 else Suc k)" using False by auto
    ultimately show ?thesis using acc(1) by (simp add: try_fold_append)
  qed
qed

section \<open>The statistics\<close>

text \<open>The candidates other than \<open>c\<close>.\<close>

definition rivals :: "nat \<Rightarrow> nat \<Rightarrow> nat set" where
  "rivals n c = {y. y < n \<and> y \<noteq> c}"

definition positive_column :: "nat \<Rightarrow> (nat \<Rightarrow> nat \<Rightarrow> int) \<Rightarrow> nat \<Rightarrow> bool" where
  "positive_column n f c \<longleftrightarrow> (\<forall>y \<in> rivals n c. 0 < f c y)"

definition winnable_column :: "nat \<Rightarrow> (nat \<Rightarrow> nat \<Rightarrow> int) \<Rightarrow> nat \<Rightarrow> nat \<Rightarrow> bool" where
  "winnable_column n f w c \<longleftrightarrow> (\<forall>y \<in> rivals n c. 0 < f c y + int w)"

lemma stats_column_ok:
  assumes "represents m n f" and "col < n" and "\<And>y. \<bar>f col y\<bar> < 2 ^ 128" and "n < 2 ^ 32"
  shows "\<exists>acc. stats_column m col = (Ok acc :: (_, 'e) result) \<and> scanned (f col) (rivals n col) (n - 1) acc"
  using stats_rows_scanned [OF assms order_refl] assms(1,2)
  by (simp add: stats_column_def rivals_def represents_def)

text \<open>
  The test of the code on the accumulators: the bound on the total distance never excludes a
  column that the bound on the largest negative leaves in.
\<close>

lemma winnable_test:
  assumes "scanned (f col) (rivals n col) (n - 1) (d, mn, mx)" and "d > 0" and "rivals n col \<noteq> {}"
  shows "d \<le> w * (n - 1) \<and> mx < w \<longleftrightarrow> winnable_column n f w col"
proof
  assume "d \<le> w * (n - 1) \<and> mx < w"
  then show "winnable_column n f w col"
    using assms(1) by (fastforce simp: scanned_def winnable_column_def)
next
  assume w: "winnable_column n f w col"
  have "w > 0"
  proof (rule ccontr)
    assume "\<not> w > 0"
    with w assms(1,2) show False by (simp add: scanned_def winnable_column_def)
  qed
  with w assms(1) have "mx < w" by (fastforce simp: scanned_def winnable_column_def)
  moreover have "d \<le> (n - 1) * Suc mx" using assms(1) by (simp add: scanned_def)
  moreover have "(n - 1) * Suc mx \<le> (n - 1) * w" using calculation(1) by (intro mult_le_mono) auto
  ultimately show "d \<le> w * (n - 1) \<and> mx < w" by (metis mult.commute order_trans)
qed

lemma min_margin_test:
  assumes "scanned g R k (d, mn, mx)" and "\<forall>y \<in> R. 0 < g y" and "R \<noteq> {}" and "\<And>y. g y < 2 ^ 128"
  shows "w < mn \<longleftrightarrow> (\<forall>y \<in> R. int w < g y)"
proof -
  have le: "\<forall>y \<in> R. int mn \<le> g y" using assms(1,2) by (simp add: scanned_def)
  obtain z where z: "z \<in> R" using assms(3) by blast
  have "\<exists>y \<in> R. int mn = g y"
  proof (cases "mn = 2 ^ 128 - 1")
    case True
    with le z assms(4) [of z] have "int mn = g z" by force
    with z show ?thesis by blast
  next
    case False
    with assms(1) show ?thesis by (simp add: scanned_def)
  qed
  with le show ?thesis by (force simp flip: of_nat_less_iff)
qed

definition stats_say :: "nat \<Rightarrow> (nat \<Rightarrow> nat \<Rightarrow> int) \<Rightarrow> nat \<Rightarrow> bool \<Rightarrow> nat set \<Rightarrow> stats \<Rightarrow> bool" where
  "stats_say n f w b C s =
     (case s of
        PositiveColumn c mn \<Rightarrow>
          c \<in> C \<and> positive_column n f c \<and> (w < mn \<longleftrightarrow> (\<forall>y \<in> rivals n c. int w < f c y))
      | NoPositiveColumn none \<Rightarrow>
          (\<forall>c \<in> C. \<not> positive_column n f c) \<and> (none \<longleftrightarrow> b \<and> (\<forall>c \<in> C. \<not> winnable_column n f w c)))"

lemma represents_dim: "represents m n f \<Longrightarrow> dim m = n"
  by (simp add: represents_def)

lemma represents_small:
  assumes "represents m n f" and "n \<ge> 2"
  shows "n < 2 ^ 32"
proof -
  have "n * 1 \<le> n * (n - 1)" using assms(2) by (intro mult_le_mono) auto
  moreover have "n * (n - 1) < 2 ^ 32" using assms(1) by (simp add: represents_def)
  ultimately show ?thesis by linarith
qed

lemma rivals_nonempty: "n \<ge> 2 \<Longrightarrow> rivals n c \<noteq> {}"
  unfolding rivals_def by (cases "c = 0") (auto intro: exI [of _ 0] exI [of _ 1])

lemma stats_columns_ok:
  assumes "represents m n f" and "n \<ge> 2" and "\<And>x y. \<bar>f x y\<bar> < 2 ^ 128" and "\<forall>c \<in> set cols. c < n"
  shows "\<exists>s. stats_columns m w b cols = (Ok s :: (_, 'e) result) \<and> stats_say n f w b (set cols) s"
  using assms(4)
proof (induction cols arbitrary: b)
  case Nil
  then show ?case by (simp add: stats_say_def)
next
  case (Cons col cols)
  have bound: "\<bar>f col y\<bar> < 2 ^ 128" "f col y < 2 ^ 128" for y using assms(3) [of col y] by auto
  from Cons.prems have "col < n" by simp
  from stats_column_ok [OF assms(1) this bound(1) represents_small [OF assms(1,2)]] obtain d mn mx where
    acc: "stats_column m col = (Ok (d, mn, mx) :: (_, 'e) result)"
      "scanned (f col) (rivals n col) (n - 1) (d, mn, mx)" by auto
  have zero: "d = 0 \<longleftrightarrow> positive_column n f col"
    using acc(2) by (simp add: scanned_def positive_column_def)
  show ?case
  proof (cases "d = 0")
    case True
    then have pos: "positive_column n f col" using zero by simp
    have "w < mn \<longleftrightarrow> (\<forall>y \<in> rivals n col. int w < f col y)"
      using pos bound(2) rivals_nonempty [OF assms(2)]
      by (intro min_margin_test [OF acc(2)]) (auto simp: positive_column_def)
    with pos True acc(1) show ?thesis by (simp add: stats_say_def)
  next
    case False
    let ?b = "if winnable_column n f w col then False else b"
    obtain s where s: "stats_columns m w ?b cols = (Ok s :: (_, 'e) result)" "stats_say n f w ?b (set cols) s"
      using Cons.IH [of ?b] Cons.prems by auto
    have "stats_say n f w b (set (col # cols)) s"
      using s(2) False zero by (auto simp: stats_say_def split: stats.splits if_splits)
    with s(1) acc(1) False show ?thesis
      using winnable_test [of f col n d mn mx w, OF acc(2)] rivals_nonempty [OF assms(2)] represents_dim [OF assms(1)] assms(2)
      by (simp add: sub_u32_def)
  qed
qed

lemma matrix_stats_ok:
  assumes "represents m n f" and "n \<ge> 2" and "\<And>x y. \<bar>f x y\<bar> < 2 ^ 128"
  shows "\<exists>s. matrix_stats m w = (Ok s :: (_, 'e) result) \<and> stats_say n f w True {..<n} s"
  using stats_columns_ok [OF assms, of "[0..<n]" w True] represents_dim [OF assms(1)]
  by (simp add: matrix_stats_def atLeast0LessThan)

section \<open>The winner\<close>

text \<open>
  What the \<open>winner\<close> field of a tally means, in terms of the votes cast and of every way the
  outstanding power may still be used.
\<close>

definition winner_spec :: "nat \<Rightarrow> nat \<Rightarrow> election \<Rightarrow> winner \<Rightarrow> bool" where
  "winner_spec n w es r =
     (case r of
        Undisputed c \<Rightarrow> always_wins n w es c
      | WinnerSome c \<Rightarrow> beats_all n es c \<and> \<not> always_wins n w es c
      | WinnerNone \<Rightarrow> (\<forall>c. \<not> beats_all n es c) \<and> (\<exists>c. may_win n w es c)
      | WinnerNever \<Rightarrow> (\<forall>c. \<not> may_win n w es c))"

lemma beats_all_column: "beats_all n es c \<longleftrightarrow> c < n \<and> positive_column n (margin es) c"
  by (auto simp: beats_all_def positive_column_def rivals_def)

lemma may_win_column: "may_win n w es c \<longleftrightarrow> c < n \<and> winnable_column n (margin es) w c"
  by (auto simp: may_win_iff winnable_column_def rivals_def)

lemma always_wins_column:
  "always_wins n w es c \<longleftrightarrow> c < n \<and> (\<forall>y \<in> rivals n c. int w < margin es c y)"
  by (auto simp: always_wins_iff rivals_def)

lemma always_wins_beats: "always_wins n w es c \<Longrightarrow> beats_all n es c"
  by (auto simp: always_wins_column beats_all_column positive_column_def)

lemma beats_may_win: "beats_all n es c \<Longrightarrow> may_win n w es c"
  by (auto simp: may_win_column beats_all_column positive_column_def winnable_column_def)

lemma winner_spec_unique:
  assumes "winner_spec n w es r" and "winner_spec n w es s"
  shows "r = s"
  using assms beats_all_unique always_wins_beats beats_may_win
  unfolding winner_spec_def by (cases r; cases s; simp; blast)

lemma tally_winner_ok:
  assumes "represents (tally_m t) n (margin es)" and "n \<ge> 2" and "cast_power es < 2 ^ 128"
  shows "\<exists>r. tally_winner t = (Ok r :: (_, 'e) result) \<and> winner_spec n (power_outstanding t) es r"
proof -
  have "int (cast_power es) < 2 ^ 128" using assms(3) by simp
  then have bound: "\<bar>margin es x y\<bar> < 2 ^ 128" for x y using margin_bound [of es x y] by linarith
  from matrix_stats_ok [OF assms(1,2) bound, of "power_outstanding t"] obtain s where
    s: "matrix_stats (tally_m t) (power_outstanding t) = (Ok s :: (_, 'e) result)"
      "stats_say n (margin es) (power_outstanding t) True {..<n} s" by blast
  show ?thesis
  proof (cases s)
    case (PositiveColumn c mn)
    with s show ?thesis
      by (auto simp: tally_winner_def winner_spec_def stats_say_def beats_all_column always_wins_column)
  next
    case (NoPositiveColumn none)
    with s show ?thesis
      by (auto simp: tally_winner_def winner_spec_def stats_say_def beats_all_column may_win_column)
  qed
qed

section \<open>The tally\<close>

text \<open>\<open>tally_of tot es t\<close>: \<open>t\<close> is the tally of the votes \<open>es\<close> when \<open>tot\<close> may vote.\<close>

definition tally_of :: "nat \<Rightarrow> election \<Rightarrow> tally \<Rightarrow> bool" where
  "tally_of tot es t \<longleftrightarrow>
     candidates t \<ge> 2 \<and> tot < 2 ^ 128 \<and>
     represents (tally_m t) (candidates t) (margin es) \<and>
     (\<forall>(v, p) \<in> set es. valid_ranking (candidates t) v) \<and>
     cast_power es + power_outstanding t = tot \<and>
     winner_spec (candidates t) (power_outstanding t) es (winner t)"

lemma tally_new_ok:
  assumes "n \<ge> 2" and "n * (n - 1) < 2 ^ 32" and "tot < 2 ^ 128"
  shows "\<exists>t. tally_new n tot start expires = (Ok t :: (_, 'e) result) \<and> tally_of tot [] t \<and>
    candidates t = n \<and> tally_start_height t = start \<and> tally_expiration t = expires"
proof -
  obtain m where m: "matrix_new n = (Ok m :: (_, 'e) result)" "represents m n (\<lambda>_ _. 0)"
    using new_represents [OF _ assms(2)] assms(1) by auto
  let ?t = "\<lparr>tally_m = m, tally_expiration = expires, tally_start_height = start,
      power_outstanding = tot, winner = WinnerNone\<rparr>"
  have "represents (tally_m ?t) n (margin [])" using m(2) by (simp add: margin_def [abs_def])
  from tally_winner_ok [OF this assms(1)] obtain r where
    r: "tally_winner ?t = (Ok r :: (_, 'e) result)" "winner_spec n tot [] r" by auto
  have "dim m = n" using m(2) by (simp add: represents_def)
  then have "tally_of tot [] (?t\<lparr>winner := r\<rparr>)"
    using assms m(2) r(2) by (simp add: tally_of_def candidates_def margin_def [abs_def])
  with m(1) r(1) \<open>dim m = n\<close> show ?thesis by (simp add: tally_new_def candidates_def)
qed

lemma tally_add_vote_ok:
  assumes "tally_of tot es t" and "valid_ranking (candidates t) v" and "p > 0"
    and "p \<le> power_outstanding t"
  shows "\<exists>t'. tally_add_vote t v p = (Ok t' :: (_, 'e) result) \<and> tally_of tot (es @ [(v, p)]) t' \<and>
    candidates t' = candidates t \<and> tally_start_height t' = tally_start_height t \<and>
    tally_expiration t' = tally_expiration t \<and> power_outstanding t' = power_outstanding t - p"
proof -
  let ?n = "candidates t"
  have t: "?n \<ge> 2" "tot < 2 ^ 128" "represents (tally_m t) ?n (margin es)"
    "cast_power es + power_outstanding t = tot" using assms(1) by (simp_all add: tally_of_def)
  have "cast_power es + p < 2 ^ 128" using t(2,4) assms(4) by linarith
  from record_defeats_represents [OF t(3) assms(2,3) this] obtain m where
    m: "record_defeats (tally_m t) v p = (Ok m :: (_, 'e) result)"
      "represents m ?n (margin (es @ [(v, p)]))" by blast
  let ?t = "t\<lparr>tally_m := m, power_outstanding := power_outstanding t - p\<rparr>"
  have "represents (tally_m ?t) ?n (margin (es @ [(v, p)]))" using m(2) by simp
  from tally_winner_ok [OF this t(1)] t(2,4) assms(4) obtain r where
    r: "tally_winner ?t = (Ok r :: (_, 'e) result)"
      "winner_spec ?n (power_outstanding t - p) (es @ [(v, p)]) r" by auto
  have dim: "dim m = ?n" using m(2) by (rule represents_dim)
  then have "tally_of tot (es @ [(v, p)]) (?t\<lparr>winner := r\<rparr>)"
    using assms m(2) r(2) by (auto simp: tally_of_def candidates_def)
  with m(1) r(1) dim assms(4) show ?thesis
    by (simp add: tally_add_vote_def sub128_def candidates_def)
qed

end
