(* ===== verification/Condorcet_Contract.thy ===== *)
theory Condorcet_Contract
  imports Condorcet_Tally Proposal_Lifecycle
begin

text \<open>
  The contract \<open>dao-proposal-condorcet\<close>: configuration, proposals and their status, storage,
  every message handler, queries and replies (\<open>config.rs\<close>, \<open>proposal.rs\<close>, \<open>state.rs\<close>,
  \<open>error.rs\<close>, \<open>msg.rs\<close>, \<open>contract.rs\<close>). Assertions of debug builds are left out, as
  in the release build.
\<close>

section \<open>Errors and messages (error.rs, msg.rs)\<close>

type_synonym u32 = "32 word"

datatype contract_error =
    Std std_error
  | InvalidVote vote_error
  | Threshold threshold_error
  | Voting voting_error
  | Tag tag_error
  | ZeroVotingPower
  | Unexecutable
  | Unclosable
  | NotDao
  | Voted
  | Expired
  | ZeroChoices

record unchecked_config =
  uc_quorum :: percentage_threshold
  uc_voting_period :: duration
  uc_min_voting_period :: "duration option"
  uc_close_proposals_on_execution_failure :: bool

record config =
  cfg_quorum :: percentage_threshold
  cfg_voting_period :: duration
  cfg_min_voting_period :: "duration option"
  cfg_close_proposals_on_execution_failure :: bool

record 'm choice =
  choice_msgs :: "'m list"

datatype 'm execute_msg =
    Propose "'m choice list"
  | Vote u32 "nat list"
  | Execute u32
  | Close u32
  | SetConfig unchecked_config

section \<open>Configuration (config.rs)\<close>

definition into_checked :: "unchecked_config \<Rightarrow> (config, contract_error) result" where
  "into_checked self =
     and_then (map_err Threshold (validate_quorum (uc_quorum self))) (\<lambda>_.
     and_then (map_err Voting
        (validate_voting_period (uc_min_voting_period self) (uc_voting_period self)))
       (\<lambda>(min_voting_period, voting_period).
     Ok \<lparr>cfg_quorum = uc_quorum self, cfg_voting_period = voting_period,
         cfg_min_voting_period = min_voting_period,
         cfg_close_proposals_on_execution_failure = uc_close_proposals_on_execution_failure self\<rparr>))"

section \<open>Proposals (proposal.rs)\<close>

datatype condorcet_status =
    Open | Rejected | Passed (passed_winner: nat) | Executed | Closed | ExecutionFailed

record 'm proposal =
  last_status :: condorcet_status
  proposer :: addr
  quorum :: percentage_threshold
  min_voting_period :: "expiration option"
  close_on_execution_failure :: bool
  total_power :: nat
  proposal_id :: u32
  choices :: "'m choice list"

record 'm proposal_response =
  resp_proposal :: "'m proposal"
  resp_tally :: tally

definition status_open ::
  "'x cw_env_scheme \<Rightarrow> block_info \<Rightarrow> 'm proposal \<Rightarrow> tally \<Rightarrow> (condorcet_status, 'e) result" where
  "status_open cw blk self t =
     (if (case min_voting_period self of None \<Rightarrow> False | Some mn \<Rightarrow> \<not> is_expired cw mn blk) then Ok Open
      else
        let over = is_expired cw (tally_expiration t) blk in
        and_then (sub128 (total_power self) (power_outstanding t)) (\<lambda>cast.
        and_then (does_vote_count_pass cast (total_power self) (quorum self)) (\<lambda>q.
        Ok (if over \<and> \<not> q then Rejected
            else case winner t of
              WinnerNever \<Rightarrow> Rejected
            | WinnerNone \<Rightarrow> if over then Rejected else Open
            | WinnerSome w \<Rightarrow> if over \<and> q then Passed w else Open
            | Undisputed w \<Rightarrow> if q then Passed w else Open))))"

definition status ::
  "'x cw_env_scheme \<Rightarrow> block_info \<Rightarrow> 'm proposal \<Rightarrow> tally \<Rightarrow> (condorcet_status, 'e) result" where
  "status cw blk self t =
     (case last_status self of Open \<Rightarrow> status_open cw blk self t | s \<Rightarrow> Ok s)"

definition duration_after_opt :: "'x cw_env_scheme \<Rightarrow> duration \<Rightarrow> block_info \<Rightarrow> (expiration, 'e) result" where
  "duration_after_opt cw d blk = ok_or_panic (duration_after cw d blk)"

definition proposal_new ::
  "'x cw_env_scheme \<Rightarrow> block_info \<Rightarrow> config \<Rightarrow> addr \<Rightarrow> u32 \<Rightarrow> 'm choice list \<Rightarrow> nat
     \<Rightarrow> ('m proposal, 'e) result" where
  "proposal_new cw blk cfg who i cs pow =
     and_then (transpose_opt (\<lambda>d. duration_after_opt cw d blk) (cfg_min_voting_period cfg)) (\<lambda>mn.
     Ok \<lparr>last_status = Open, proposer = who, quorum = cfg_quorum cfg, min_voting_period = mn,
         close_on_execution_failure = cfg_close_proposals_on_execution_failure cfg,
         total_power = pow, proposal_id = i, choices = cs\<rparr>)"

definition update_status ::
  "'x cw_env_scheme \<Rightarrow> block_info \<Rightarrow> 'm proposal \<Rightarrow> tally \<Rightarrow> ('m proposal, 'e) result" where
  "update_status cw blk self t = and_then (status cw blk self t) (\<lambda>s. Ok (self\<lparr>last_status := s\<rparr>))"

definition set_closed :: "'m proposal \<Rightarrow> 'm proposal" where
  "set_closed self = self\<lparr>last_status := Closed\<rparr>"

definition set_executed ::
  "'m proposal \<Rightarrow> addr \<Rightarrow> nat \<Rightarrow> ('m proposal \<times> 'm module_sub_msg, 'e) result" where
  "set_executed self dao w =
     (if w < length (choices self) then
        let core_exec = WasmExecute dao (ExecuteProposalHook (choice_msgs (choices self ! w))) [] in
        Ok (self\<lparr>last_status := Executed\<rparr>,
            if close_on_execution_failure self
            then reply_on_error core_exec (mask_proposal_execution_proposal_id (ucast (proposal_id self)))
            else sub_msg_new core_exec)
      else Panic)"

definition set_execution_failed :: "'m proposal \<Rightarrow> 'm proposal" where
  "set_execution_failed self = self\<lparr>last_status := ExecutionFailed\<rparr>"

section \<open>Storage (state.rs)\<close>

record 'm condorcet_state =
  CONTRACT_INFO :: "(string \<times> string) option"
  DAO :: "addr option"
  CONFIG :: "config option"
  TALLY :: "u32 \<rightharpoonup> tally"
  PROPOSAL :: "u32 \<rightharpoonup> 'm proposal"
  VOTE :: "u32 \<times> addr \<rightharpoonup> nat list"

definition next_proposal_id :: "'m condorcet_state \<Rightarrow> (u32, 'e) result" where
  "next_proposal_id st =
     (let last = (case range_before (PROPOSAL st) None of [] \<Rightarrow> 0 | (i, _) # _ \<Rightarrow> i) in
      if unat last + 1 < 2 ^ 32 then Ok (last + 1) else Panic)"

section \<open>Handlers (contract.rs)\<close>

definition CONTRACT_NAME :: string where
  "CONTRACT_NAME = ''crates.io:dao-proposal-condorcet''"

type_synonym 'm outcome = "('m condorcet_state \<times> 'm module_sub_msg list, contract_error) result"

definition instantiate ::
  "'m condorcet_state \<Rightarrow> message_info \<Rightarrow> unchecked_config \<Rightarrow> 'm outcome" where
  "instantiate st info msg =
     and_then (into_checked msg) (\<lambda>cfg.
     Ok (st\<lparr>CONTRACT_INFO := Some (CONTRACT_NAME, CONTRACT_VERSION), DAO := Some (sender info),
            CONFIG := Some cfg\<rparr>, []))"

definition execute_propose ::
  "'x dao_querier_scheme \<Rightarrow> 'm condorcet_state \<Rightarrow> env \<Rightarrow> message_info \<Rightarrow> 'm choice list \<Rightarrow> 'm outcome" where
  "execute_propose deps st env info cs =
     and_then (map_err Std (load (DAO st))) (\<lambda>dao.
     and_then (map_err Std (get_voting_power deps (sender info) dao None)) (\<lambda>sender_voting_power.
     if sender_voting_power = 0 then Err ZeroVotingPower
     else
     and_then (map_err Std (load (CONFIG st))) (\<lambda>cfg.
     and_then (next_proposal_id st) (\<lambda>i.
     and_then (map_err Std (get_total_power deps dao None)) (\<lambda>pow.
     if cs = [] then Err ZeroChoices
     else
     let cs = cs @ [\<lparr>choice_msgs = []\<rparr>] in
     and_then (duration_after_opt deps (cfg_voting_period cfg) (block env)) (\<lambda>expires.
     and_then (tally_new (length cs) pow (height (block env)) expires) (\<lambda>t.
     let st = st\<lparr>TALLY := (TALLY st)(i \<mapsto> t)\<rparr> in
     and_then (proposal_new deps (block env) cfg (sender info) i cs pow) (\<lambda>prop.
     and_then (update_status deps (block env) prop t) (\<lambda>prop.
     Ok (st\<lparr>PROPOSAL := (PROPOSAL st)(i \<mapsto> prop)\<rparr>, []))))))))))"

definition execute_vote ::
  "'x dao_querier_scheme \<Rightarrow> 'm condorcet_state \<Rightarrow> env \<Rightarrow> message_info \<Rightarrow> u32 \<Rightarrow> nat list \<Rightarrow> 'm outcome" where
  "execute_vote deps st env info pid vote =
     and_then (map_err Std (load (TALLY st pid))) (\<lambda>t.
     and_then (map_err Std (load (DAO st))) (\<lambda>dao.
     and_then (map_err Std (get_voting_power deps (sender info) dao (Some (tally_start_height t))))
       (\<lambda>sender_power.
     if sender_power = 0 then Err ZeroVotingPower
     else if VOTE st (pid, sender info) \<noteq> None then Err Voted
     else if expired deps t (block env) then Err Expired
     else
     and_then (map_err InvalidVote (vote_new vote (candidates t))) (\<lambda>vote.
     let st = st\<lparr>VOTE := (VOTE st)((pid, sender info) \<mapsto> vote)\<rparr> in
     and_then (tally_add_vote t vote sender_power) (\<lambda>t.
     Ok (st\<lparr>TALLY := (TALLY st)(pid \<mapsto> t)\<rparr>, []))))))"

definition execute_execute ::
  "'x dao_querier_scheme \<Rightarrow> 'm condorcet_state \<Rightarrow> env \<Rightarrow> message_info \<Rightarrow> u32 \<Rightarrow> 'm outcome" where
  "execute_execute deps st env info pid =
     and_then (map_err Std (load (TALLY st pid))) (\<lambda>t.
     and_then (map_err Std (load (DAO st))) (\<lambda>dao.
     and_then (map_err Std (get_voting_power deps (sender info) dao (Some (tally_start_height t))))
       (\<lambda>sender_power.
     if sender_power = 0 then Err ZeroVotingPower
     else
     and_then (map_err Std (load (PROPOSAL st pid))) (\<lambda>prop.
     and_then (update_status deps (block env) prop t) (\<lambda>prop.
     case last_status prop of
       Passed w \<Rightarrow>
         and_then (set_executed prop dao w) (\<lambda>(prop, m).
         Ok (st\<lparr>PROPOSAL := (PROPOSAL st)(pid \<mapsto> prop)\<rparr>, [m]))
     | _ \<Rightarrow> Err Unexecutable)))))"

definition execute_close ::
  "'x dao_querier_scheme \<Rightarrow> 'm condorcet_state \<Rightarrow> env \<Rightarrow> u32 \<Rightarrow> 'm outcome" where
  "execute_close deps st env pid =
     and_then (map_err Std (load (TALLY st pid))) (\<lambda>t.
     and_then (map_err Std (load (PROPOSAL st pid))) (\<lambda>prop.
     and_then (update_status deps (block env) prop t) (\<lambda>prop.
     case last_status prop of
       Rejected \<Rightarrow> Ok (st\<lparr>PROPOSAL := (PROPOSAL st)(pid \<mapsto> set_closed prop)\<rparr>, [])
     | _ \<Rightarrow> Err Unclosable)))"

definition execute_set_config ::
  "'m condorcet_state \<Rightarrow> message_info \<Rightarrow> unchecked_config \<Rightarrow> 'm outcome" where
  "execute_set_config st info cfg =
     and_then (map_err Std (load (DAO st))) (\<lambda>dao.
     if sender info \<noteq> dao then Err NotDao
     else and_then (into_checked cfg) (\<lambda>cfg. Ok (st\<lparr>CONFIG := Some cfg\<rparr>, [])))"

definition execute ::
  "'x dao_querier_scheme \<Rightarrow> 'm condorcet_state \<Rightarrow> env \<Rightarrow> message_info \<Rightarrow> 'm execute_msg \<Rightarrow> 'm outcome" where
  "execute deps st env info msg =
     (case msg of
        Propose cs \<Rightarrow> execute_propose deps st env info cs
      | Vote pid vote \<Rightarrow> execute_vote deps st env info pid vote
      | Execute pid \<Rightarrow> execute_execute deps st env info pid
      | Close pid \<Rightarrow> execute_close deps st env pid
      | SetConfig cfg \<Rightarrow> execute_set_config st info cfg)"

definition reply :: "'m condorcet_state \<Rightarrow> reply \<Rightarrow> 'm outcome" where
  "reply st msg =
     and_then (map_err Tag (tagged_reply_id_new (rep_id msg))) (\<lambda>repl.
     case repl of
       FailedProposalExecution i \<Rightarrow>
         and_then (map_err Std (load (PROPOSAL st (ucast i)))) (\<lambda>prop.
         Ok (st\<lparr>PROPOSAL := (PROPOSAL st)(ucast i \<mapsto> set_execution_failed prop)\<rparr>, []))
     | _ \<Rightarrow> Panic)"

section \<open>Queries (contract.rs)\<close>

datatype query_msg = QueryProposal u32 | QueryConfig | QueryNextProposalId | QueryDao | QueryInfo

datatype 'm query_answer =
    ProposalAnswer "'m proposal_response"
  | ConfigAnswer config
  | NextIdAnswer u32
  | DaoAnswer addr
  | InfoAnswer "string \<times> string"

definition query ::
  "'x cw_env_scheme \<Rightarrow> 'm condorcet_state \<Rightarrow> env \<Rightarrow> query_msg \<Rightarrow> ('m query_answer, std_error) result" where
  "query deps st env msg =
     (case msg of
        QueryProposal i \<Rightarrow>
          and_then (load (PROPOSAL st i)) (\<lambda>prop.
          and_then (load (TALLY st i)) (\<lambda>t.
          and_then (update_status deps (block env) prop t) (\<lambda>prop.
          Ok (ProposalAnswer \<lparr>resp_proposal = prop, resp_tally = t\<rparr>))))
      | QueryConfig \<Rightarrow> and_then (load (CONFIG st)) (\<lambda>c. Ok (ConfigAnswer c))
      | QueryNextProposalId \<Rightarrow> and_then (next_proposal_id st) (\<lambda>i. Ok (NextIdAnswer i))
      | QueryDao \<Rightarrow> and_then (load (DAO st)) (\<lambda>d. Ok (DaoAnswer d))
      | QueryInfo \<Rightarrow> and_then (load (CONTRACT_INFO st)) (\<lambda>i. Ok (InfoAnswer i)))"

end
