(* ===== verification/Condorcet_Props.thy ===== *)
theory Condorcet_Props
  imports Condorcet_Contract
begin

text \<open>
  Runs of \<open>dao-proposal-condorcet\<close> and their invariant: the effect of each handler, the steps
  of the contract with a log of the votes cast and the messages dispatched, and the relation
  between that log and the storage.
\<close>

section \<open>Effects of the handlers\<close>

lemma tally_new_Ok:
  assumes "tally_new n tot start expires = (Ok t :: (_, contract_error) result)" and "n \<ge> 2" and "tot < 2 ^ 128"
  shows "tally_of tot [] t" and "candidates t = n"
proof -
  from assms(1) have "n * (n - 1) < 2 ^ 32"
    by (auto simp: tally_new_def matrix_new_def mul_u32_def sub_u32_def result_ok split: if_splits)
  from tally_new_ok [where 'e = contract_error, OF assms(2) this assms(3), of start expires] assms(1)
  show "tally_of tot [] t" and "candidates t = n" by auto
qed

lemma tally_add_vote_Ok:
  assumes "tally_add_vote t v k = (Ok t' :: (_, contract_error) result)" and "tally_of tot es t" and "valid_ranking (candidates t) v"
    and "k > 0"
  shows "tally_of tot (es @ [(v, k)]) t'" and "candidates t' = candidates t"
    and "tally_expiration t' = tally_expiration t" and "k \<le> power_outstanding t"
    and "power_outstanding t' = power_outstanding t - k"
proof -
  from assms(1) show k: "k \<le> power_outstanding t"
    by (auto simp: tally_add_vote_def result_ok Let_def)
  from tally_add_vote_ok [where 'e = contract_error, OF assms(2,3,4) k] assms(1)
  show "tally_of tot (es @ [(v, k)]) t'" and "candidates t' = candidates t"
    and "tally_expiration t' = tally_expiration t" and "power_outstanding t' = power_outstanding t - k"
    by auto
qed

text \<open>\<open>Uint128\<close> answers of the voting module.\<close>

definition u128_powers :: "'x dao_querier_scheme \<Rightarrow> bool" where
  "u128_powers deps \<longleftrightarrow>
     (\<forall>d a h k. query_voting_power deps d a h = Ok k \<longrightarrow> k < 2 ^ 128) \<and>
     (\<forall>d h k. query_total_power deps d h = Ok k \<longrightarrow> k < 2 ^ 128)"

lemma sorted_le_last: "sorted xs \<Longrightarrow> x \<in> set xs \<Longrightarrow> x \<le> last xs"
  by (induction xs) auto

lemma range_before_last:
  assumes "finite (dom m)" and "m k = Some v"
  obtains i w rest where "range_before m None = (i, w) # rest" and "k \<le> i"
proof -
  let ?ks = "sorted_list_of_set (dom m)"
  from assms have k: "k \<in> set ?ks" by auto
  then obtain ks i where ks: "?ks = ks @ [i]" by (metis empty_iff list.set(1) rev_exhaust)
  then have "range_before m None = (i, the (m i)) # rev (map (\<lambda>k. (k, the (m k))) ks)"
    by (simp add: range_before_def entries_def)
  moreover have "k \<le> i" using sorted_le_last [OF sorted_sorted_list_of_set k] ks by simp
  ultimately show thesis by (rule that)
qed

lemma next_proposal_id_fresh:
  assumes "next_proposal_id st = Ok i" and "finite (dom (PROPOSAL st))"
  shows "PROPOSAL st i = None"
proof (rule ccontr)
  assume "PROPOSAL st i \<noteq> None"
  then obtain p where "PROPOSAL st i = Some p" by blast
  from range_before_last [OF assms(2) this] obtain j w rest where
    j: "range_before (PROPOSAL st) None = (j, w) # rest" "i \<le> j" by blast
  from assms(1) j(1) have "unat i = unat j + 1"
    by (auto simp: next_proposal_id_def Let_def unat_word_ariths split: if_splits)
  with j(2) show False by (simp add: word_le_nat_alt)
qed

lemma no_votes_no_winner:
  assumes "tally_of tot [] t"
  shows "winner t = WinnerNever \<or> winner t = WinnerNone"
proof -
  have "\<not> beats_all (candidates t) [] c" for c
    using assms rivals_nonempty [of "candidates t" c]
    by (auto simp: tally_of_def beats_all_column positive_column_def)
  with assms show ?thesis
    by (auto simp: tally_of_def winner_spec_def dest: always_wins_beats split: winner.splits)
qed

lemma execute_propose_Ok:
  assumes "execute_propose deps st env info cs = Ok (st', ms)" and "u128_powers deps"
    and "finite (dom (PROPOSAL st))"
  obtains i t p where "PROPOSAL st i = None" and "tally_of (total_power p) [] t"
    and "length (choices p) = candidates t" and "proposal_id p = i"
    and "st' = st\<lparr>TALLY := (TALLY st)(i \<mapsto> t), PROPOSAL := (PROPOSAL st)(i \<mapsto> p)\<rparr>" and "ms = []"
    and "last_status p \<in> {Open, Rejected}"
proof -
  from assms(1) obtain dao pow cfg i t q p expires where
    i: "next_proposal_id st = (Ok i :: (_, contract_error) result)" and cs: "cs \<noteq> []"
    and pow: "query_total_power deps dao None = Ok pow"
    and t: "tally_new (Suc (length cs)) pow (height (block env)) expires = (Ok t :: (_, contract_error) result)"
    and q: "proposal_new deps (block env) cfg (sender info) i (cs @ [\<lparr>choice_msgs = []\<rparr>]) pow
        = (Ok q :: (_, contract_error) result)"
    and p: "update_status deps (block env) q t = (Ok p :: (_, contract_error) result)"
    and st': "st' = st\<lparr>TALLY := (TALLY st)(i \<mapsto> t), PROPOSAL := (PROPOSAL st)(i \<mapsto> p)\<rparr>" "ms = []"
    by (auto simp: execute_propose_def result_ok Let_def get_total_power_def split: if_splits)
  have "pow < 2 ^ 128" using assms(2) pow unfolding u128_powers_def by blast
  moreover have "Suc (length cs) \<ge> 2" using cs by (cases cs) auto
  ultimately have tally: "tally_of pow [] t" "candidates t = Suc (length cs)"
    using tally_new_Ok [OF t] by auto
  have qp: "last_status q = Open" "total_power q = pow" "length (choices q) = Suc (length cs)"
    "proposal_id q = i" using q by (auto simp: proposal_new_def result_ok)
  from p obtain s where s: "status deps (block env) q t = (Ok s :: (_, contract_error) result)"
    "p = q\<lparr>last_status := s\<rparr>" by (auto simp: update_status_def result_ok)
  have "s \<in> {Open, Rejected}"
    using s(1) qp(1) no_votes_no_winner [OF tally(1)]
    by (auto simp: status_def status_open_def result_ok Let_def split: if_splits)
  with s(2) tally qp st' next_proposal_id_fresh [OF i assms(3)] show thesis by (intro that [of i p t]) auto
qed

lemma execute_vote_Ok:
  assumes "execute_vote deps st env info pid v = Ok (st', ms)"
  obtains t dao k t' where "TALLY st pid = Some t" and "DAO st = Some dao"
    and "query_voting_power deps dao (sender info) (Some (tally_start_height t)) = Ok k" and "k > 0"
    and "VOTE st (pid, sender info) = None" and "\<not> is_expired deps (tally_expiration t) (block env)"
    and "valid_ranking (candidates t) v"
    and "tally_add_vote t v k = (Ok t' :: (_, contract_error) result)"
    and "st' = st\<lparr>VOTE := (VOTE st)((pid, sender info) \<mapsto> v), TALLY := (TALLY st)(pid \<mapsto> t')\<rparr>"
    and "ms = []"
  using assms that
  by (auto simp: execute_vote_def result_ok Let_def get_voting_power_def expired_def split: if_splits)

definition dispatch_msg :: "'m proposal \<Rightarrow> addr \<Rightarrow> nat \<Rightarrow> 'm module_sub_msg" where
  "dispatch_msg p dao w =
     (let core_exec = WasmExecute dao (ExecuteProposalHook (choice_msgs (choices p ! w))) [] in
      if close_on_execution_failure p
      then reply_on_error core_exec (mask_proposal_execution_proposal_id (ucast (proposal_id p)))
      else sub_msg_new core_exec)"

lemma execute_execute_Ok:
  assumes "execute_execute deps st env info pid = Ok (st', ms)"
  obtains t dao p w where "TALLY st pid = Some t" and "DAO st = Some dao" and "PROPOSAL st pid = Some p"
    and "status deps (block env) p t = (Ok (Passed w) :: (_, contract_error) result)"
    and "w < length (choices p)"
    and "st' = st\<lparr>PROPOSAL := (PROPOSAL st)(pid \<mapsto> p\<lparr>last_status := Executed\<rparr>)\<rparr>"
    and "ms = [dispatch_msg p dao w]"
proof -
  from assms obtain t dao p s where st: "TALLY st pid = Some t" "DAO st = Some dao" "PROPOSAL st pid = Some p"
    and s: "status deps (block env) p t = (Ok s :: (_, contract_error) result)"
    and run: "(case s of
       Passed w \<Rightarrow> and_then (set_executed (p\<lparr>last_status := s\<rparr>) dao w)
          (\<lambda>(prop, m). Ok (st\<lparr>PROPOSAL := (PROPOSAL st)(pid \<mapsto> prop)\<rparr>, [m]))
     | _ \<Rightarrow> Err Unexecutable) = Ok (st', ms)"
    by (auto simp: execute_execute_def result_ok update_status_def split: if_splits)
  from run obtain w where "s = Passed w" by (cases s) auto
  with st s run show thesis
    by (intro that) (auto simp: set_executed_def dispatch_msg_def result_ok Let_def split: if_splits)
qed

lemma execute_close_Ok:
  assumes "execute_close deps st env pid = Ok (st', ms)"
  obtains t p where "TALLY st pid = Some t" and "PROPOSAL st pid = Some p"
    and "status deps (block env) p t = (Ok Rejected :: (_, contract_error) result)"
    and "st' = st\<lparr>PROPOSAL := (PROPOSAL st)(pid \<mapsto> p\<lparr>last_status := Closed\<rparr>)\<rparr>" and "ms = []"
proof -
  from assms obtain t p s where st: "TALLY st pid = Some t" "PROPOSAL st pid = Some p"
    and s: "status deps (block env) p t = (Ok s :: (_, contract_error) result)"
    and run: "(case s of
       Rejected \<Rightarrow> Ok (st\<lparr>PROPOSAL := (PROPOSAL st)(pid \<mapsto> set_closed (p\<lparr>last_status := s\<rparr>))\<rparr>, [])
     | _ \<Rightarrow> Err Unclosable) = Ok (st', ms)"
    by (auto simp: execute_close_def result_ok update_status_def)
  from run have "s = Rejected" by (cases s) auto
  with st s run show thesis by (intro that) (auto simp: set_closed_def)
qed

lemma execute_set_config_Ok:
  assumes "execute_set_config st info cfg = Ok (st', ms)"
  obtains c where "DAO st = Some (sender info)" and "into_checked cfg = Ok c"
    and "st' = st\<lparr>CONFIG := Some c\<rparr>" and "ms = []"
  using assms that by (auto simp: execute_set_config_def result_ok split: if_splits)

lemma reply_Ok:
  assumes "reply st msg = Ok (st', ms)"
  obtains i p where "tagged_reply_id_new (rep_id msg) = Ok (FailedProposalExecution i)"
    and "PROPOSAL st (ucast i) = Some p"
    and "st' = st\<lparr>PROPOSAL := (PROPOSAL st)(ucast i \<mapsto> p\<lparr>last_status := ExecutionFailed\<rparr>)\<rparr>" and "ms = []"
proof -
  from assms obtain r where r: "tagged_reply_id_new (rep_id msg) = Ok r"
    by (auto simp: reply_def result_ok)
  from assms r obtain i where "r = FailedProposalExecution i" by (cases r) (auto simp: reply_def)
  with assms r that show thesis by (auto simp: reply_def result_ok set_execution_failed_def)
qed

section \<open>Runs\<close>

text \<open>
  A run logs the votes it counts, with the power each was given, and the messages it dispatches.
  Time does not go back, expiry is judged the same way throughout, and the chain only reports the
  failure of an execution that took place.
\<close>

datatype 'm event = Cast u32 addr "nat list" nat | Dispatch u32 "'m module_sub_msg"

definition queried_power :: "'x dao_querier_scheme \<Rightarrow> 'm condorcet_state \<Rightarrow> addr \<Rightarrow> u32 \<Rightarrow> nat" where
  "queried_power deps st who pid =
     (case (TALLY st pid, DAO st) of
        (Some t, Some dao) \<Rightarrow>
          (case get_voting_power deps who dao (Some (tally_start_height t)) of Ok k \<Rightarrow> k | _ \<Rightarrow> 0)
      | _ \<Rightarrow> 0)"

definition events ::
  "'x dao_querier_scheme \<Rightarrow> 'm condorcet_state \<Rightarrow> message_info \<Rightarrow> 'm execute_msg \<Rightarrow> 'm module_sub_msg list
     \<Rightarrow> 'm event list" where
  "events deps st info msg ms =
     (case msg of
        Vote pid v \<Rightarrow> [Cast pid (sender info) v (queried_power deps st (sender info) pid)]
      | Execute pid \<Rightarrow> map (Dispatch pid) ms
      | _ \<Rightarrow> [])"

definition reply_expected :: "'m condorcet_state \<Rightarrow> reply \<Rightarrow> bool" where
  "reply_expected st msg \<longleftrightarrow>
     (case tagged_reply_id_new (rep_id msg) of
        Ok (FailedProposalExecution i) \<Rightarrow>
          (case PROPOSAL st (ucast i) of None \<Rightarrow> True | Some p \<Rightarrow> last_status p = Executed)
      | _ \<Rightarrow> True)"

inductive condorcet_step ::
  "(expiration \<Rightarrow> block_info \<Rightarrow> bool) \<Rightarrow> block_info \<times> 'm condorcet_state \<Rightarrow> 'm event list
     \<Rightarrow> block_info \<times> 'm condorcet_state \<Rightarrow> bool" for expiry where
  step_execute: "execute (deps :: dao_querier) st env info msg = Ok (st', ms) \<Longrightarrow> u128_powers deps \<Longrightarrow>
      is_expired deps = expiry \<Longrightarrow> block_le b (block env) \<Longrightarrow>
      condorcet_step expiry (b, st) (events deps st info msg ms) (block env, st')"
| step_reply: "reply st msg = Ok (st', ms) \<Longrightarrow> reply_expected st msg \<Longrightarrow> block_le b b' \<Longrightarrow>
      condorcet_step expiry (b, st) [] (b', st')"

inductive_cases condorcet_stepE: "condorcet_step expiry x l y"

definition votes_on :: "u32 \<Rightarrow> 'm event list \<Rightarrow> election" where
  "votes_on pid log = concat (map (\<lambda>e. case e of Cast i a v k \<Rightarrow> if i = pid then [(v, k)] else [] | _ \<Rightarrow> []) log)"

definition voters_of :: "'m event list \<Rightarrow> (u32 \<times> addr) list" where
  "voters_of log = concat (map (\<lambda>e. case e of Cast i a v k \<Rightarrow> [(i, a)] | _ \<Rightarrow> []) log)"

definition dispatched :: "'m event list \<Rightarrow> u32 list" where
  "dispatched log = concat (map (\<lambda>e. case e of Dispatch i m \<Rightarrow> [i] | _ \<Rightarrow> []) log)"

lemma votes_on_simps [simp]:
  "votes_on pid [] = []" "votes_on pid (xs @ ys) = votes_on pid xs @ votes_on pid ys"
  "votes_on pid [Cast i a v k] = (if i = pid then [(v, k)] else [])" "votes_on pid [Dispatch i m] = []"
  by (simp_all add: votes_on_def)

lemma voters_of_simps [simp]:
  "voters_of [] = []" "voters_of (xs @ ys) = voters_of xs @ voters_of ys"
  "voters_of [Cast i a v k] = [(i, a)]" "voters_of [Dispatch i m] = []"
  by (simp_all add: voters_of_def)

lemma dispatched_simps [simp]:
  "dispatched [] = []" "dispatched (xs @ ys) = dispatched xs @ dispatched ys"
  "dispatched [Cast i a v k] = []" "dispatched [Dispatch i m] = [i]"
  by (simp_all add: dispatched_def)

section \<open>The invariant\<close>

definition proposal_ok :: "'m event list \<Rightarrow> u32 \<Rightarrow> 'm proposal \<Rightarrow> tally \<Rightarrow> bool" where
  "proposal_ok log pid p t \<longleftrightarrow>
     tally_of (total_power p) (votes_on pid log) t \<and> length (choices p) = candidates t \<and>
     proposal_id p = pid \<and> (\<forall>w. last_status p \<noteq> Passed w) \<and>
     (pid \<in> set (dispatched log) \<longleftrightarrow> last_status p \<in> {Executed, ExecutionFailed})"

definition condorcet_inv :: "'m event list \<Rightarrow> 'm condorcet_state \<Rightarrow> bool" where
  "condorcet_inv log st \<longleftrightarrow>
     finite (dom (PROPOSAL st)) \<and> dom (TALLY st) = dom (PROPOSAL st) \<and>
     (\<forall>pid p t. PROPOSAL st pid = Some p \<longrightarrow> TALLY st pid = Some t \<longrightarrow> proposal_ok log pid p t) \<and>
     dom (VOTE st) = set (voters_of log) \<and> distinct (voters_of log) \<and>
     (\<forall>(pid, a) \<in> set (voters_of log). pid \<in> dom (PROPOSAL st)) \<and>
     distinct (dispatched log) \<and> set (dispatched log) \<subseteq> dom (PROPOSAL st)"

lemma condorcet_invD:
  assumes "condorcet_inv log st" and "PROPOSAL st pid = Some p" and "TALLY st pid = Some t"
  shows "proposal_ok log pid p t" and "tally_of (total_power p) (votes_on pid log) t"
    and "length (choices p) = candidates t"
  using assms by (auto simp: condorcet_inv_def proposal_ok_def)

lemma condorcet_inv_tally:
  assumes "condorcet_inv log st" and "TALLY st pid = Some t"
  obtains p where "PROPOSAL st pid = Some p"
  using assms unfolding condorcet_inv_def by blast

lemma votes_on_absent:
  assumes "condorcet_inv log st" and "PROPOSAL st pid = None"
  shows "votes_on pid log = []"
proof -
  have "(v, k) \<notin> set (votes_on pid log)" for v k
  proof
    assume "(v, k) \<in> set (votes_on pid log)"
    then obtain a where "(pid, a) \<in> set (voters_of log)"
      by (force simp: votes_on_def voters_of_def split: event.splits if_splits)
    with assms show False by (auto simp: condorcet_inv_def)
  qed
  then show ?thesis by (metis list.set_intros(1) neq_Nil_conv surj_pair)
qed

lemma inv_propose:
  assumes "condorcet_inv log st" and "PROPOSAL st i = None" and "tally_of (total_power p) [] t"
    and "length (choices p) = candidates t" and "proposal_id p = i" and "last_status p \<in> {Open, Rejected}"
  shows "condorcet_inv log (st\<lparr>TALLY := (TALLY st)(i \<mapsto> t), PROPOSAL := (PROPOSAL st)(i \<mapsto> p)\<rparr>)"
proof -
  have "i \<notin> set (dispatched log)" using assms(1,2) by (auto simp: condorcet_inv_def)
  with assms votes_on_absent [OF assms(1,2)] have "proposal_ok log i p t"
    by (auto simp: proposal_ok_def)
  with assms(1) show ?thesis by (auto simp: condorcet_inv_def)
qed

lemma inv_vote:
  assumes "condorcet_inv log st" and "TALLY st pid = Some t" and "VOTE st (pid, who) = None"
    and "valid_ranking (candidates t) v" and "k > 0"
    and "tally_add_vote t v k = (Ok t' :: (_, contract_error) result)"
  shows "condorcet_inv (log @ [Cast pid who v k])
    (st\<lparr>VOTE := (VOTE st)((pid, who) \<mapsto> v), TALLY := (TALLY st)(pid \<mapsto> t')\<rparr>)"
proof -
  obtain p where p: "PROPOSAL st pid = Some p" using condorcet_inv_tally [OF assms(1,2)] .
  note ok = condorcet_invD [OF assms(1) p assms(2)]
  note t' = tally_add_vote_Ok [OF assms(6) ok(2) assms(4,5)]
  have new: "proposal_ok (log @ [Cast pid who v k]) pid p t'"
    using ok(1) t' by (auto simp: proposal_ok_def)
  have old: "proposal_ok (log @ [Cast pid who v k]) i q u"
    if "i \<noteq> pid" "PROPOSAL st i = Some q" "TALLY st i = Some u" for i q u
    using condorcet_invD(1) [OF assms(1) that(2,3)] that(1) by (simp add: proposal_ok_def)
  have "(pid, who) \<notin> set (voters_of log)" using assms(1,3) unfolding condorcet_inv_def by (metis domIff)
  with new old assms(1,2) p show ?thesis by (auto simp: condorcet_inv_def)
qed

definition concluded :: "condorcet_status \<Rightarrow> bool" where
  "concluded s \<longleftrightarrow> s = Executed \<or> s = ExecutionFailed"

lemma inv_status:
  assumes "condorcet_inv log st" and "PROPOSAL st pid = Some p" and "\<forall>w. s \<noteq> Passed w"
    and "l = [] \<and> (concluded s \<longleftrightarrow> concluded (last_status p)) \<or>
         (\<exists>m. l = [Dispatch pid m]) \<and> concluded s \<and> \<not> concluded (last_status p)"
  shows "condorcet_inv (log @ l) (st\<lparr>PROPOSAL := (PROPOSAL st)(pid \<mapsto> p\<lparr>last_status := s\<rparr>)\<rparr>)"
proof -
  from assms(1,2) obtain t where t: "TALLY st pid = Some t"
    unfolding condorcet_inv_def by blast
  note ok = condorcet_invD(1) [OF assms(1,2) t]
  have votes: "votes_on i (log @ l) = votes_on i log" "voters_of (log @ l) = voters_of log" for i
    using assms(4) by auto
  have new: "proposal_ok (log @ l) pid (p\<lparr>last_status := s\<rparr>) t"
    using ok assms(3,4) unfolding proposal_ok_def votes by (auto simp: concluded_def)
  have old: "proposal_ok (log @ l) i q u"
    if "i \<noteq> pid" "PROPOSAL st i = Some q" "TALLY st i = Some u" for i q u
    using condorcet_invD(1) [OF assms(1) that(2,3)] that(1) assms(4) unfolding proposal_ok_def votes by auto
  let ?st = "st\<lparr>PROPOSAL := (PROPOSAL st)(pid \<mapsto> p\<lparr>last_status := s\<rparr>)\<rparr>"
  have all: "\<forall>i q u. PROPOSAL ?st i = Some q \<longrightarrow> TALLY ?st i = Some u \<longrightarrow> proposal_ok (log @ l) i q u"
    using new old t by simp
  have same: "dom (PROPOSAL ?st) = dom (PROPOSAL st)" "TALLY ?st = TALLY st" "VOTE ?st = VOTE st"
    using assms(2) by auto
  have "dispatched l = [] \<or> dispatched l = [pid] \<and> pid \<notin> set (dispatched log)"
    using assms(4) ok by (auto simp: proposal_ok_def concluded_def)
  moreover have "distinct (dispatched log) \<and> set (dispatched log) \<subseteq> dom (PROPOSAL st) \<and> pid \<in> dom (PROPOSAL st)"
    using assms(1,2) by (simp add: condorcet_inv_def domI)
  ultimately have "distinct (dispatched (log @ l)) \<and> set (dispatched (log @ l)) \<subseteq> dom (PROPOSAL st)"
    by auto
  with all assms(1) show ?thesis unfolding condorcet_inv_def votes same by blast
qed

lemma condorcet_execute_keeps_inv:
  assumes "execute deps st env info msg = Ok (st', ms)" and "u128_powers deps" and "condorcet_inv log st"
  shows "condorcet_inv (log @ events deps st info msg ms) st'"
proof (cases msg)
  case (Propose cs)
  have "finite (dom (PROPOSAL st))" using assms(3) by (simp add: condorcet_inv_def)
  with assms(1,2) Propose show ?thesis
    by (auto simp: execute_def events_def elim!: execute_propose_Ok intro: inv_propose [OF assms(3)])
next
  case (Vote pid v)
  with assms(1) have "execute_vote deps st env info pid v = Ok (st', ms)" by (simp add: execute_def)
  then show ?thesis
    by (elim execute_vote_Ok)
       (use Vote inv_vote [OF assms(3)] in \<open>simp add: events_def queried_power_def get_voting_power_def\<close>)
next
  case (Execute pid)
  with assms(1) have "execute_execute deps st env info pid = Ok (st', ms)" by (simp add: execute_def)
  then obtain t dao p w where p: "PROPOSAL st pid = Some p"
    "status deps (block env) p t = (Ok (Passed w) :: (_, contract_error) result)"
    "st' = st\<lparr>PROPOSAL := (PROPOSAL st)(pid \<mapsto> p\<lparr>last_status := Executed\<rparr>)\<rparr>"
    "ms = [dispatch_msg p dao w]" by (elim execute_execute_Ok)
  then have "\<not> concluded (last_status p)" by (auto simp: concluded_def status_def)
  with p Execute show ?thesis
    by (auto simp: events_def concluded_def intro!: inv_status [OF assms(3) p(1)])
next
  case (Close pid)
  with assms(1) have "execute_close deps st env pid = Ok (st', ms)" by (simp add: execute_def)
  then obtain t p where p: "PROPOSAL st pid = Some p"
    "status deps (block env) p t = (Ok Rejected :: (_, contract_error) result)"
    "st' = st\<lparr>PROPOSAL := (PROPOSAL st)(pid \<mapsto> p\<lparr>last_status := Closed\<rparr>)\<rparr>" by (elim execute_close_Ok)
  then have "\<not> concluded (last_status p)" by (auto simp: concluded_def status_def)
  with p Close inv_status [OF assms(3) p(1), of Closed "[]"] show ?thesis
    by (simp add: events_def concluded_def)
next
  case (SetConfig cfg)
  with assms(1) have "execute_set_config st info cfg = Ok (st', ms)" by (simp add: execute_def)
  then show ?thesis
    by (elim execute_set_config_Ok) (use SetConfig assms(3) in \<open>simp add: events_def condorcet_inv_def\<close>)
qed

lemma condorcet_reply_keeps_inv:
  assumes "reply st msg = Ok (st', ms)" and "reply_expected st msg" and "condorcet_inv log st"
  shows "condorcet_inv log st'"
proof -
  from assms(1) obtain i p where p: "tagged_reply_id_new (rep_id msg) = Ok (FailedProposalExecution i)"
    "PROPOSAL st (ucast i) = Some p"
    "st' = st\<lparr>PROPOSAL := (PROPOSAL st)(ucast i \<mapsto> p\<lparr>last_status := ExecutionFailed\<rparr>)\<rparr>" by (elim reply_Ok)
  with assms(2) have "last_status p = Executed" by (simp add: reply_expected_def)
  with p inv_status [OF assms(3) p(2), of ExecutionFailed "[]"] show ?thesis by (simp add: concluded_def)
qed

definition empty_state :: "'m condorcet_state" where
  "empty_state =
     \<lparr>CONTRACT_INFO = None, DAO = None, CONFIG = None, TALLY = Map.empty, PROPOSAL = Map.empty,
      VOTE = Map.empty\<rparr>"

lemma condorcet_instantiate_inv: "instantiate empty_state info msg = Ok (st, ms) \<Longrightarrow> condorcet_inv [] st"
  by (auto simp: instantiate_def result_ok empty_state_def condorcet_inv_def)

lemma condorcet_step_keeps_inv:
  assumes "condorcet_step expiry x l y" and "condorcet_inv log (snd x)"
  shows "condorcet_inv (log @ l) (snd y)"
  using assms by (auto elim!: condorcet_stepE intro: condorcet_execute_keeps_inv condorcet_reply_keeps_inv)

lemma run_keeps_inv:
  "module_run (condorcet_step expiry) x l y \<Longrightarrow> condorcet_inv log (snd x) \<Longrightarrow> condorcet_inv (log @ l) (snd y)"
  by (induction rule: module_run.induct) (auto dest: condorcet_step_keeps_inv)

section \<open>Votes are accepted\<close>

lemma vote_accepted:
  assumes "condorcet_inv log st" and "TALLY st pid = Some t" and "DAO st = Some dao"
    and "query_voting_power deps dao (sender info) (Some (tally_start_height t)) = Ok k"
    and "0 < k" and "k \<le> power_outstanding t"
    and "VOTE st (pid, sender info) = None" and "\<not> is_expired deps (tally_expiration t) (block env)"
    and "valid_ranking (candidates t) v"
  shows "\<exists>t'. execute deps st env info (Vote pid v)
      = Ok (st\<lparr>VOTE := (VOTE st)((pid, sender info) \<mapsto> v), TALLY := (TALLY st)(pid \<mapsto> t')\<rparr>, [])
    \<and> power_outstanding t' = power_outstanding t - k"
proof -
  obtain p where p: "PROPOSAL st pid = Some p" using condorcet_inv_tally [OF assms(1,2)] by blast
  from tally_add_vote_ok [where 'e = contract_error, OF condorcet_invD(2) [OF assms(1) p assms(2)] assms(9,5,6)]
  obtain t' where "tally_add_vote t v k = (Ok t' :: (_, contract_error) result)"
    "power_outstanding t' = power_outstanding t - k" by blast
  moreover have "vote_new v (candidates t) = Ok v" using assms(9) by (simp add: vote_new_Ok)
  ultimately show ?thesis using assms(2-8) by (intro exI [of _ t'])
    (simp add: execute_def execute_vote_def get_voting_power_def expired_def)
qed

end
