(* ===== verification/Condorcet_Claims.thy ===== *)
theory Condorcet_Claims
  imports Condorcet_Props Samples
begin

text \<open>
  What \<open>dao-proposal-condorcet\<close> promises of every run: its tally is the tally of the votes it
  accepted, a decision taken is never revised by later votes, time or messages, and what is
  executed is the choice of the Condorcet winner, once.
\<close>

section \<open>Decisions are final\<close>

lemma status_cong:
  "is_expired cw = is_expired cw' \<Longrightarrow> status cw blk p t = status cw' blk p t"
  by (simp add: status_def status_open_def split: condorcet_status.splits option.splits)

lemma status_concluded: "last_status p \<noteq> Open \<Longrightarrow> status cw blk p t = Ok (last_status p)"
  by (simp add: status_def split: condorcet_status.splits)

text \<open>The decision on an open proposal, from what the tally and the clock say.\<close>

definition decide :: "bool \<Rightarrow> bool \<Rightarrow> winner \<Rightarrow> condorcet_status" where
  "decide over q win =
     (if over \<and> \<not> q then Rejected
      else case win of
        WinnerNever \<Rightarrow> Rejected
      | WinnerNone \<Rightarrow> if over then Rejected else Open
      | WinnerSome w \<Rightarrow> if over \<and> q then Passed w else Open
      | Undisputed w \<Rightarrow> if q then Passed w else Open)"

definition min_period_over :: "'x cw_env_scheme \<Rightarrow> block_info \<Rightarrow> 'm proposal \<Rightarrow> bool" where
  "min_period_over cw b p = (case min_voting_period p of None \<Rightarrow> True | Some mn \<Rightarrow> is_expired cw mn b)"

lemma status_decides:
  assumes "last_status p = Open"
  shows "status cw b p t = (Ok s :: (_, 'e) result) \<longleftrightarrow>
    (if min_period_over cw b p
     then power_outstanding t \<le> total_power p \<and>
       (\<exists>q. does_vote_count_pass (total_power p - power_outstanding t) (total_power p) (quorum p)
             = (Ok q :: (_, 'e) result) \<and>
           s = decide (is_expired cw (tally_expiration t) b) q (winner t))
     else s = Open)"
proof -
  have "status cw b p t = (if min_period_over cw b p
      then and_then (sub128 (total_power p) (power_outstanding t)) (\<lambda>c.
        and_then (does_vote_count_pass c (total_power p) (quorum p)) (\<lambda>q.
        Ok (decide (is_expired cw (tally_expiration t) b) q (winner t))))
      else (Ok Open :: (_, 'e) result))"
    using assms by (simp add: status_def status_open_def decide_def [abs_def] min_period_over_def Let_def
        split: option.split)
  then show ?thesis by (auto simp: result_ok)
qed

lemma decide_time:
  assumes "decide over q w \<noteq> Open" and "over \<Longrightarrow> over'"
  shows "decide over' q w = decide over q w"
  using assms by (cases w) (simp_all add: decide_def split: if_splits)

lemma min_period_over_mono:
  "expiry_monotone cw \<Longrightarrow> block_le b b' \<Longrightarrow> min_period_over cw b p \<Longrightarrow> min_period_over cw b' p"
  by (auto simp: min_period_over_def dest: expiry_monotoneD split: option.splits)

lemma status_time:
  assumes "expiry_monotone cw" and "block_le b b'"
    and "status cw b p t = (Ok s :: (_, 'e) result)" and "s \<noteq> Open"
  shows "status cw b' p t = (Ok s :: (_, 'e) result)"
proof (cases "last_status p = Open")
  case True
  with assms(3,4) have "min_period_over cw b p" by (auto simp: status_decides split: if_splits)
  moreover from this have "min_period_over cw b' p" by (rule min_period_over_mono [OF assms(1,2)])
  moreover have "decide (is_expired cw (tally_expiration t) b') q (winner t) = s"
    if "s = decide (is_expired cw (tally_expiration t) b) q (winner t)" for q
    unfolding that by (rule decide_time) (use that assms(4) expiry_monotoneD [OF assms(1,2)] in auto)
  ultimately show ?thesis using True assms(3) unfolding status_decides [OF True] by fastforce
next
  case False
  then show ?thesis using assms(3) by (simp add: status_concluded)
qed

text \<open>More votes cast never undo a quorum.\<close>

lemma vote_count_more:
  assumes "does_vote_count_pass c tot q = (Ok r :: (_, 'e) result)" and "c \<le> d"
  shows "\<exists>r'. does_vote_count_pass d tot q = (Ok r' :: (_, 'e) result) \<and> (r \<longrightarrow> r')"
proof -
  have more: "c * PRECISION_FACTOR \<le> d * PRECISION_FACTOR" using assms(2) by (rule mult_le_mono1)
  show ?thesis
  proof (cases q)
    case Majority
    have count: "does_vote_count_pass e tot q = (Ok (tot \<noteq> 0 \<and> tot < e * 2) :: (_, 'e) result)" for e
      using Majority by (simp add: does_vote_count_pass_def)
    have "tot < c * 2 \<longrightarrow> tot < d * 2" using assms(2) by linarith
    with assms(1) show ?thesis unfolding count by blast
  next
    case (Percent p)
    consider "tot = 0" "\<not> r" | thr where "tot \<noteq> 0" "r = (thr \<le> c * PRECISION_FACTOR)"
      "multiply_ratio256 (tot * PRECISION_FACTOR) (atomics p) (10 ^ decimal_places) = (Ok thr :: (_, 'e) result)"
      using assms(1) Percent
      by (auto simp: does_vote_count_pass_def compare_vote_count_def result_ok Let_def split: if_splits)
    then show ?thesis
    proof cases
      case 1
      then show ?thesis by (simp add: does_vote_count_pass_def) blast
    next
      case (2 thr)
      then have "does_vote_count_pass d tot q = (Ok (thr \<le> d * PRECISION_FACTOR) :: (_, 'e) result)"
        using Percent by (simp add: does_vote_count_pass_def compare_vote_count_def Let_def)
      with 2(2) more show ?thesis by (metis order_trans)
    qed
  qed
qed

lemma winner_after_vote:
  assumes "tally_of tot es t" and "tally_of tot (es @ [(v, k)]) t'" and "candidates t' = candidates t"
    and "power_outstanding t' = power_outstanding t - k" and "k \<le> power_outstanding t"
  shows "winner t = Undisputed w \<Longrightarrow> winner t' = Undisputed w"
    and "winner t = WinnerNever \<Longrightarrow> winner t' = WinnerNever"
proof -
  let ?n = "candidates t" and ?w = "power_outstanding t"
  have c: "completes ?n ?w [(v, k)]"
    using assms(2,3,5) by (simp add: tally_of_def completes_def)
  have spec: "winner_spec ?n ?w es (winner t)" "winner_spec ?n (?w - k) (es @ [(v, k)]) (winner t')"
    using assms by (simp_all add: tally_of_def)
  show "winner t' = Undisputed w" if "winner t = Undisputed w"
    using spec that always_wins_later [OF _ c, of es w]
    by (intro winner_spec_unique [OF spec(2)]) (simp add: winner_spec_def)
  show "winner t' = WinnerNever" if "winner t = WinnerNever"
    using spec that never_won_later [OF _ c, of es]
    by (intro winner_spec_unique [OF spec(2)]) (simp add: winner_spec_def)
qed

lemma status_vote:
  assumes "status cw b p t = (Ok s :: (_, 'e) result)" and "s \<noteq> Open"
    and "\<not> is_expired cw (tally_expiration t) b" and "tally_expiration t' = tally_expiration t"
    and "tally_of (total_power p) es t" and "tally_of (total_power p) (es @ [(v, k)]) t'"
    and "candidates t' = candidates t" and "power_outstanding t' = power_outstanding t - k"
    and "k \<le> power_outstanding t"
  shows "status cw b p t' = (Ok s :: (_, 'e) result)"
proof (cases "last_status p = Open")
  case False
  then show ?thesis using assms(1) by (simp add: status_concluded)
next
  case True
  let ?c = "total_power p - power_outstanding t" and ?d = "total_power p - power_outstanding t'"
  note w = winner_after_vote [OF assms(5-9)]
  have out: "power_outstanding t \<le> total_power p" "power_outstanding t' \<le> total_power p"
    using assms(5,6) by (simp_all add: tally_of_def)
  have open_for: "min_period_over cw b p" using True assms(1,2) by (auto simp: status_decides split: if_splits)
  with True assms(1,3) obtain q where
    q: "does_vote_count_pass ?c (total_power p) (quorum p) = (Ok q :: (_, 'e) result)"
    and s: "s = decide False q (winner t)" by (auto simp: status_decides)
  obtain q' where q': "does_vote_count_pass ?d (total_power p) (quorum p) = (Ok q' :: (_, 'e) result)"
    and more: "q \<Longrightarrow> q'"
    using vote_count_more [OF q, of ?d] assms(8) by (metis diff_le_self diff_le_mono2)
  have "decide False q' (winner t') = s"
    using s assms(2) w more by (cases "winner t") (auto simp: decide_def split: if_splits)
  with True open_for out q' assms(3,4) show ?thesis by (auto simp: status_decides)
qed

text \<open>What a decided status can still turn into.\<close>

definition settles :: "condorcet_status \<Rightarrow> condorcet_status \<Rightarrow> bool" where
  "settles s s' \<longleftrightarrow> s' = s \<or>
     (case s of
        Passed _ \<Rightarrow> s' = Executed \<or> s' = ExecutionFailed
      | Executed \<Rightarrow> s' = ExecutionFailed
      | Rejected \<Rightarrow> s' = Closed
      | _ \<Rightarrow> False)"

lemma settles_trans: "settles a b \<Longrightarrow> settles b c \<Longrightarrow> settles a c"
  by (auto simp: settles_def split: condorcet_status.splits)

lemma settles_decided: "settles s s' \<Longrightarrow> s \<noteq> Open \<Longrightarrow> s' \<noteq> Open"
  by (auto simp: settles_def split: condorcet_status.splits)

definition decided ::
  "'x cw_env_scheme \<Rightarrow> u32 \<Rightarrow> block_info \<times> 'm condorcet_state \<Rightarrow> condorcet_status \<Rightarrow> bool" where
  "decided cw pid x s \<longleftrightarrow> s \<noteq> Open \<and>
     (\<exists>p t. PROPOSAL (snd x) pid = Some p \<and> TALLY (snd x) pid = Some t \<and>
        status cw (fst x) p t = (Ok s :: (_, contract_error) result))"

text \<open>A change of the stored status, by a handler that found the proposal decided.\<close>

lemma decided_stored:
  assumes "decided cw pid (b, st) s" and "PROPOSAL st i = Some p" and "s' \<noteq> Open"
    and "i = pid \<Longrightarrow> settles s s'"
    and "expiry_monotone cw" and "block_le b b'"
  shows "\<exists>s''. settles s s'' \<and>
    decided cw pid (b', st\<lparr>PROPOSAL := (PROPOSAL st)(i \<mapsto> p\<lparr>last_status := s'\<rparr>)\<rparr>) s''"
proof (cases "i = pid")
  case True
  with assms show ?thesis by (auto simp: decided_def status_concluded intro!: exI [of _ s'])
next
  case False
  with assms show ?thesis
    by (auto simp: decided_def settles_def intro!: exI [of _ s] dest: status_time [OF assms(5,6)])
qed

lemma decided_frame:
  assumes "decided cw pid (b, st) s" and "expiry_monotone cw" and "block_le b b'"
    and "PROPOSAL st' pid = PROPOSAL st pid" and "TALLY st' pid = TALLY st pid"
  shows "decided cw pid (b', st') s"
  using assms by (auto simp: decided_def dest: status_time [OF assms(2,3)])

lemma vote_keeps_decision:
  assumes "execute_vote deps st env info i v = Ok (st', ms)" and "condorcet_inv log st"
    and "is_expired deps = is_expired cw" and "expiry_monotone cw" and "block_le b (block env)"
    and "decided cw pid (b, st) s"
  shows "decided cw pid (block env, st') s"
proof -
  from assms(1) obtain t k t' where v: "TALLY st i = Some t" "k > 0"
    "\<not> is_expired deps (tally_expiration t) (block env)" "valid_ranking (candidates t) v"
    "tally_add_vote t v k = (Ok t' :: (_, contract_error) result)"
    "st' = st\<lparr>VOTE := (VOTE st)((i, sender info) \<mapsto> v), TALLY := (TALLY st)(i \<mapsto> t')\<rparr>"
    by (elim execute_vote_Ok)
  show ?thesis
  proof (cases "i = pid")
    case False
    with v assms show ?thesis by (auto intro!: decided_frame [OF assms(6,4,5)])
  next
    case True
    with assms(6) v(1) obtain p where p: "PROPOSAL st pid = Some p" "s \<noteq> Open"
      "status cw b p t = (Ok s :: (_, contract_error) result)" by (auto simp: decided_def)
    have now: "status cw (block env) p t = (Ok s :: (_, contract_error) result)"
      by (rule status_time [OF assms(4,5) p(3,2)])
    have es: "tally_of (total_power p) (votes_on pid log) t"
      using condorcet_invD(2) [OF assms(2) p(1)] v(1) True by simp
    note t' = tally_add_vote_Ok [OF v(5) es v(4,2)]
    have "status cw (block env) p t' = (Ok s :: (_, contract_error) result)"
      using v(3) assms(3) by (intro status_vote [OF now p(2) _ t'(3) es t'(1,2,5,4)]) simp
    with p v True show ?thesis by (simp add: decided_def)
  qed
qed

lemma execute_keeps_decision:
  assumes "execute deps st env info msg = Ok (st', ms)" and "condorcet_inv log st" and "u128_powers deps"
    and "is_expired deps = is_expired cw" and "expiry_monotone cw" and "block_le b (block env)"
    and "decided cw pid (b, st) s"
  shows "\<exists>s'. settles s s' \<and> decided cw pid (block env, st') s'"
proof (cases msg)
  case (Propose cs)
  with assms(1) have run: "execute_propose deps st env info cs = Ok (st', ms)" by (simp add: execute_def)
  have "finite (dom (PROPOSAL st))" using assms(2) by (simp add: condorcet_inv_def)
  with run assms(3) obtain i t p where "PROPOSAL st i = None"
    "st' = st\<lparr>TALLY := (TALLY st)(i \<mapsto> t), PROPOSAL := (PROPOSAL st)(i \<mapsto> p)\<rparr>" by (elim execute_propose_Ok)
  moreover from this assms(7) have "i \<noteq> pid" by (auto simp: decided_def)
  ultimately have "decided cw pid (block env, st') s" by (intro decided_frame [OF assms(7,5,6)]) auto
  then show ?thesis by (auto simp: settles_def)
next
  case (Vote i v)
  with assms(1) have "execute_vote deps st env info i v = Ok (st', ms)" by (simp add: execute_def)
  from vote_keeps_decision [OF this assms(2,4-7)] show ?thesis by (auto simp: settles_def)
next
  case (Execute i)
  with assms(1) have "execute_execute deps st env info i = Ok (st', ms)" by (simp add: execute_def)
  then obtain t p w where p: "TALLY st i = Some t" "PROPOSAL st i = Some p"
    "status deps (block env) p t = (Ok (Passed w) :: (_, contract_error) result)"
    "st' = st\<lparr>PROPOSAL := (PROPOSAL st)(i \<mapsto> p\<lparr>last_status := Executed\<rparr>)\<rparr>" by (elim execute_execute_Ok)
  have "settles s Executed" if "i = pid"
  proof -
    from assms(7) that p(1,2) have "s \<noteq> Open" "status cw b p t = (Ok s :: (_, contract_error) result)"
      by (auto simp: decided_def)
    from status_time [OF assms(5,6) this(2,1)] p(3) have "s = Passed w"
      by (simp add: status_cong [OF assms(4)])
    then show ?thesis by (simp add: settles_def)
  qed
  with p(4) show ?thesis using decided_stored [OF assms(7) p(2) _ _ assms(5,6), of Executed] by simp
next
  case (Close i)
  with assms(1) have "execute_close deps st env i = Ok (st', ms)" by (simp add: execute_def)
  then obtain t p where p: "TALLY st i = Some t" "PROPOSAL st i = Some p"
    "status deps (block env) p t = (Ok Rejected :: (_, contract_error) result)"
    "st' = st\<lparr>PROPOSAL := (PROPOSAL st)(i \<mapsto> p\<lparr>last_status := Closed\<rparr>)\<rparr>" by (elim execute_close_Ok)
  have "settles s Closed" if "i = pid"
  proof -
    from assms(7) that p(1,2) have "s \<noteq> Open" "status cw b p t = (Ok s :: (_, contract_error) result)"
      by (auto simp: decided_def)
    from status_time [OF assms(5,6) this(2,1)] p(3) have "s = Rejected"
      by (simp add: status_cong [OF assms(4)])
    then show ?thesis by (simp add: settles_def)
  qed
  with p(4) show ?thesis using decided_stored [OF assms(7) p(2) _ _ assms(5,6), of Closed] by simp
next
  case (SetConfig cfg)
  with assms(1) have "execute_set_config st info cfg = Ok (st', ms)" by (simp add: execute_def)
  then have "decided cw pid (block env, st') s"
    by (elim execute_set_config_Ok) (auto intro!: decided_frame [OF assms(7,5,6)])
  then show ?thesis by (auto simp: settles_def)
qed

lemma reply_keeps_decision:
  assumes "reply st msg = Ok (st', ms)" and "reply_expected st msg"
    and "expiry_monotone cw" and "block_le b b'" and "decided cw pid (b, st) s"
  shows "\<exists>s'. settles s s' \<and> decided cw pid (b', st') s'"
proof -
  from assms(1) obtain i p where p: "tagged_reply_id_new (rep_id msg) = Ok (FailedProposalExecution i)"
    "PROPOSAL st (ucast i) = Some p"
    "st' = st\<lparr>PROPOSAL := (PROPOSAL st)(ucast i \<mapsto> p\<lparr>last_status := ExecutionFailed\<rparr>)\<rparr>" by (elim reply_Ok)
  with assms(2) have "last_status p = Executed" by (simp add: reply_expected_def)
  with p(2) assms(5) have "settles s ExecutionFailed" if "ucast i = pid"
    using that by (auto simp: decided_def status_concluded settles_def)
  with p(3) show ?thesis using decided_stored [OF assms(5) p(2) _ _ assms(3,4), of ExecutionFailed] by simp
qed

lemma step_keeps_decision:
  assumes "condorcet_step (is_expired cw) x l y" and "condorcet_inv log (snd x)"
    and "expiry_monotone cw" and "decided cw pid x s"
  shows "\<exists>s'. settles s s' \<and> decided cw pid y s'"
  using assms(1)
proof (cases rule: condorcet_step.cases)
  case (step_execute deps st env info msg st' ms b)
  with assms show ?thesis by (auto intro: execute_keeps_decision)
next
  case (step_reply st msg st' ms b b')
  with assms show ?thesis by (auto intro: reply_keeps_decision)
qed

lemma run_keeps_decision:
  assumes "module_run (condorcet_step (is_expired cw)) x l y" and "condorcet_inv log (snd x)"
    and "expiry_monotone cw" and "decided cw pid x s"
  shows "\<exists>s'. settles s s' \<and> decided cw pid y s'"
  using assms
proof (induction rule: module_run.induct)
  case (run_start st)
  then show ?case by (auto simp: settles_def)
next
  case (run_step st l st' l' st'')
  then obtain s' where s': "settles s s'" "decided cw pid st' s'" by blast
  have "condorcet_inv (log @ l) (snd st')" using run_step by (blast intro: run_keeps_inv)
  from step_keeps_decision [OF run_step.hyps(2) this run_step.prems(2) s'(2)] s'(1) show ?case
    by (blast intro: settles_trans)
qed

section \<open>A sample run\<close>

text \<open>
  Ann, who holds 60 of 100, proposes two choices; a third, no message at all, is added. Her ballot
  decides for the second, and Bob executes it.
\<close>

definition sample_config :: unchecked_config where
  "sample_config =
     \<lparr>uc_quorum = Percent (decimal_percent 20), uc_voting_period = Height 10,
      uc_min_voting_period = None, uc_close_proposals_on_execution_failure = True\<rparr>"

definition condorcet_start :: "string condorcet_state" where
  "condorcet_start =
     empty_state\<lparr>CONTRACT_INFO := Some (CONTRACT_NAME, CONTRACT_VERSION), DAO := Some ''dao'',
       CONFIG := Some \<lparr>cfg_quorum = Percent (decimal_percent 20), cfg_voting_period = Height 10,
         cfg_min_voting_period = None, cfg_close_proposals_on_execution_failure = True\<rparr>\<rparr>"

definition sample_tally :: tally where
  "sample_tally =
     \<lparr>tally_m = \<lparr>cells = [Zero, Zero, Zero], dim = 3\<rparr>, tally_expiration = AtHeight 11,
      tally_start_height = 1, power_outstanding = 100, winner = WinnerNone\<rparr>"

definition voted_tally :: tally where
  "voted_tally =
     \<lparr>tally_m = \<lparr>cells = [Positive 60, Negative 60, Negative 60], dim = 3\<rparr>,
      tally_expiration = AtHeight 11, tally_start_height = 1, power_outstanding = 40,
      winner = Undisputed 1\<rparr>"

definition sample_choices :: "string choice list" where
  "sample_choices = [\<lparr>choice_msgs = [''left'']\<rparr>, \<lparr>choice_msgs = [''right'']\<rparr>]"

definition sample_proposal :: "string proposal" where
  "sample_proposal =
     \<lparr>last_status = Open, proposer = ''ann'', quorum = Percent (decimal_percent 20),
      min_voting_period = None, close_on_execution_failure = True, total_power = 100, proposal_id = 1,
      choices = sample_choices @ [\<lparr>choice_msgs = []\<rparr>]\<rparr>"

definition condorcet_proposed :: "string condorcet_state" where
  "condorcet_proposed =
     condorcet_start\<lparr>TALLY := [1 \<mapsto> sample_tally], PROPOSAL := [1 \<mapsto> sample_proposal]\<rparr>"

definition condorcet_voted :: "string condorcet_state" where
  "condorcet_voted =
     condorcet_proposed\<lparr>VOTE := [(1, ''ann'') \<mapsto> [1, 0, 2]], TALLY := [1 \<mapsto> voted_tally]\<rparr>"

definition condorcet_executed :: "string condorcet_state" where
  "condorcet_executed = condorcet_voted\<lparr>PROPOSAL := [1 \<mapsto> sample_proposal\<lparr>last_status := Executed\<rparr>]\<rparr>"

lemmas eval_tally =
  get.simps increment.simps decrement.simps index_def cell_at_def mul_u32_def sub_u32_def add_u32_def
  cell_increment_def cell_decrement_def invert_def add128_def sub128_def add256_def matrix_stats_def
  stats_column_def stats_row_def tally_winner_def tally_new_def tally_add_vote_def record_defeats_def
  vote_at_def matrix_new_def

lemma upt_three: "[0..<3] = [0, 1, 2 :: nat]"
  by (simp add: upt_rec)

lemma sample_tally_new: "tally_new 3 100 1 (AtHeight 11) = (Ok sample_tally :: (_, contract_error) result)"
  by (simp add: eval_tally sample_tally_def upt_three) (simp add: numeral_3_eq_3)

lemma sample_tally_vote:
  "tally_add_vote sample_tally [1, 0, 2] 60 = (Ok voted_tally :: (_, contract_error) result)"
  by (simp add: eval_tally sample_tally_def voted_tally_def upt_three)

lemmas eval_condorcet =
  execute_def execute_propose_def execute_vote_def execute_execute_def get_voting_power_def
  get_total_power_def update_status_def status_def status_open_def proposal_new_def duration_after_opt_def
  next_proposal_id_def range_before_def entries_def does_vote_count_pass_def compare_vote_count_def
  multiply_ratio256_def PRECISION_FACTOR_def decimal_percent_def decimal_places_def expired_def
  candidates_def set_executed_def

lemma sample_instantiate:
  "instantiate empty_state (sent_by ''dao'') sample_config = Ok (condorcet_start, [])"
  by (simp add: instantiate_def into_checked_def sample_config_def condorcet_start_def validate_quorum_def
      validate_voting_period_def sent_by_def decimal_percent_def decimal_places_def decimal_less_def
      decimal_one_def)

lemma sample_propose:
  "execute sample_querier condorcet_start (sample_env 1) (sent_by ''ann'') (Propose sample_choices)
     = Ok (condorcet_proposed, [])"
proof -
  have "tally_new (Suc (Suc (Suc 0))) 100 1 (AtHeight 11) = (Ok sample_tally :: (_, contract_error) result)"
    using sample_tally_new by (simp add: numeral_3_eq_3)
  then show ?thesis
    by (simp add: eval_condorcet condorcet_start_def empty_state_def sample_defs condorcet_proposed_def
      sample_choices_def sample_proposal_def sub128_def sample_tally_def Let_def word_le_nat_alt)
qed

lemma sample_vote:
  "execute sample_querier condorcet_proposed (sample_env 2) (sent_by ''ann'') (Vote 1 [1, 0, 2])
     = Ok (condorcet_voted, [])"
  using sample_tally_vote
  by (simp add: eval_condorcet condorcet_proposed_def condorcet_start_def empty_state_def sample_defs
      condorcet_voted_def vote_new_def) (simp add: sample_tally_def)

lemma sample_execute:
  "execute sample_querier condorcet_voted (sample_env 3) (sent_by ''bob'') (Execute 1)
     = Ok (condorcet_executed, [dispatch_msg sample_proposal ''dao'' 1])"
  by (simp add: eval_condorcet condorcet_voted_def condorcet_proposed_def condorcet_start_def
      empty_state_def sample_defs voted_tally_def sample_proposal_def sample_choices_def
      condorcet_executed_def dispatch_msg_def sub128_def)

lemma sample_powers: "u128_powers sample_querier"
  by (simp add: u128_powers_def sample_querier_def sample_power_def)

lemma sample_step:
  assumes "execute sample_querier st (sample_env h) info msg = Ok (st', ms)"
    and "events sample_querier st info msg ms = l" and "block_le b (sample_block h)"
  shows "condorcet_step (is_expired sample_querier) (b, st) l (sample_block h, st')"
  using condorcet_step.step_execute [OF assms(1) sample_powers refl, of b] assms(2,3)
  by (simp add: sample_env_def)

abbreviation condorcet_run :: "block_info \<times> string condorcet_state \<Rightarrow> string event list \<Rightarrow>
    block_info \<times> string condorcet_state \<Rightarrow> bool" where
  "condorcet_run \<equiv> module_run (condorcet_step (is_expired sample_querier))"

lemma condorcet_sample_run_voted:
  "condorcet_run (sample_block 1, condorcet_start) [Cast 1 ''ann'' [1, 0, 2] 60] (sample_block 2, condorcet_voted)"
proof -
  have 1: "condorcet_step (is_expired sample_querier) (sample_block 1, condorcet_start) []
      (sample_block 1, condorcet_proposed)"
    by (rule sample_step [OF sample_propose]) (simp_all add: events_def block_le_def)
  have 2: "condorcet_step (is_expired sample_querier) (sample_block 1, condorcet_proposed)
      [Cast 1 ''ann'' [1, 0, 2] 60] (sample_block 2, condorcet_voted)"
    by (rule sample_step [OF sample_vote])
       (simp_all add: events_def block_le_def queried_power_def get_voting_power_def condorcet_proposed_def
        condorcet_start_def sample_defs)
  show ?thesis
    using run_step [of "condorcet_step (is_expired sample_querier)", OF run_one [of "condorcet_step _", OF 1] 2] by simp
qed

lemma condorcet_sample_run_executed:
  "condorcet_run (sample_block 2, condorcet_voted) [Dispatch 1 (dispatch_msg sample_proposal ''dao'' 1)]
     (sample_block 3, condorcet_executed)"
  by (rule run_one, rule sample_step [OF sample_execute]) (simp_all add: events_def block_le_def sample_block_def)

section \<open>Claims\<close>

text \<open>C22: At every point of every run, the tally that the contract stores for a proposal is the tally
  of the votes it accepted: the entry of the matrix for two candidates is the margin of the one over
  the other, the outstanding power is the total less the power cast, and the \<open>winner\<close> field is
  exact: undisputed says that the candidate wins whatever the outstanding power does, a winner that
  it wins now but can still lose, none that nobody wins now but somebody may, and never that no use
  of the outstanding power yields a winner.\<close>

theorem condorcet_tally_refines:
  assumes "instantiate empty_state info cfg = Ok (st0, ms0)"
    and "module_run (condorcet_step expiry) (b0, st0) log (b, st)"
    and "PROPOSAL st pid = Some p" and "TALLY st pid = Some t"
  shows "(\<forall>x < length (choices p). \<forall>y < length (choices p). x \<noteq> y \<longrightarrow>
      (\<exists>c. get (tally_m t) x y = (Ok c :: (_, std_error) result) \<and>
           cell_value c = margin (votes_on pid log) x y))
    \<and> cast_power (votes_on pid log) + power_outstanding t = total_power p
    \<and> winner_spec (length (choices p)) (power_outstanding t) (votes_on pid log) (winner t)"
proof -
  have "condorcet_inv log st" using run_keeps_inv [OF assms(2), of "[]"] condorcet_instantiate_inv [OF assms(1)] by simp
  note ok = condorcet_invD [OF this assms(3,4)]
  have "represents (tally_m t) (length (choices p)) (margin (votes_on pid log))"
    using ok(2,3) by (simp add: tally_of_def)
  then have cell: "\<exists>c. get (tally_m t) x y = (Ok c :: (_, std_error) result) \<and> cell_value c = margin (votes_on pid log) x y"
    if "x < length (choices p)" "y < length (choices p)" "x \<noteq> y" for x y
    by (rule get_represents [OF _ that(3,1,2), where 'e = std_error]) blast
  with ok(2,3) show ?thesis by (simp add: tally_of_def)
qed

theorem condorcet_tally_refines_witness:
  "winner_spec 3 40 [([1, 0, 2], 60)] (Undisputed 1)"
  using condorcet_tally_refines [OF sample_instantiate condorcet_sample_run_voted, of 1 sample_proposal voted_tally]
  by (simp add: condorcet_voted_def condorcet_proposed_def sample_proposal_def sample_choices_def voted_tally_def
      numeral_3_eq_3)

text \<open>C23: A decision is final. Once a proposal counts as passed for a candidate, or as rejected, it
  counts so for ever: whatever votes, proposals, configurations and replies follow and however much time
  passes, a passed proposal can only be executed, for the same candidate, and a rejected one closed.\<close>

theorem condorcet_decision_final:
  assumes "instantiate empty_state info cfg = Ok (st0, ms0)"
    and "module_run (condorcet_step (is_expired cw)) (b0, st0) log x"
    and "decided cw pid x s" and "module_run (condorcet_step (is_expired cw)) x log' y"
    and "expiry_monotone cw"
  shows "\<exists>s'. settles s s' \<and> decided cw pid y s'"
proof -
  have "condorcet_inv log (snd x)" using run_keeps_inv [OF assms(2), of "[]"] condorcet_instantiate_inv [OF assms(1)] by simp
  from run_keeps_decision [OF assms(4) this assms(5,3)] show ?thesis .
qed

theorem condorcet_decision_final_witness:
  "\<exists>s'. settles (Passed 1) s' \<and> decided sample_querier 1 (sample_block 3, condorcet_executed) s'"
proof (rule condorcet_decision_final [OF sample_instantiate condorcet_sample_run_voted _ condorcet_sample_run_executed sample_expiry_monotone])
  show "decided sample_querier 1 (sample_block 2, condorcet_voted) (Passed 1)"
    by (simp add: decided_def eval_condorcet condorcet_voted_def condorcet_proposed_def sample_proposal_def
        voted_tally_def sample_defs sub128_def)
qed

text \<open>C24: Only the choice of the Condorcet winner is executed, and only once. When the contract sends
  the messages of a proposal to the DAO, they are those of the candidate that beats every other
  candidate by the votes cast on the proposal, those votes reach the proposal's quorum, and nothing was
  sent for this proposal before.\<close>

theorem condorcet_executes_winner:
  assumes "instantiate empty_state info cfg = Ok (st0, ms0)"
    and "module_run (condorcet_step expiry) (b0, st0) log (b, st)"
    and "execute deps st env inf1 (Execute pid) = Ok (st', ms)"
  shows "\<exists>p dao w. PROPOSAL st pid = Some p \<and> DAO st = Some dao
    \<and> beats_all (length (choices p)) (votes_on pid log) w
    \<and> does_vote_count_pass (cast_power (votes_on pid log)) (total_power p) (quorum p)
        = (Ok True :: (_, contract_error) result)
    \<and> ms = [dispatch_msg p dao w] \<and> pid \<notin> set (dispatched log)"
proof -
  have inv: "condorcet_inv log st" using run_keeps_inv [OF assms(2), of "[]"] condorcet_instantiate_inv [OF assms(1)] by simp
  from assms(3) have "execute_execute deps st env inf1 pid = Ok (st', ms)" by (simp add: execute_def)
  then obtain t dao p w where p: "TALLY st pid = Some t" "DAO st = Some dao" "PROPOSAL st pid = Some p"
    "status deps (block env) p t = (Ok (Passed w) :: (_, contract_error) result)"
    "ms = [dispatch_msg p dao w]" by (elim execute_execute_Ok)
  note ok = condorcet_invD [OF inv p(3,1)]
  from p(4) ok(1) have o: "last_status p = Open"
    by (auto simp: status_def proposal_ok_def split: condorcet_status.splits)
  from p(4) obtain q where q: "does_vote_count_pass (total_power p - power_outstanding t) (total_power p) (quorum p)
      = (Ok q :: (_, contract_error) result)"
    "Passed w = decide (is_expired deps (tally_expiration t) (block env)) q (winner t)"
    unfolding status_decides [OF o] by (auto split: if_splits)
  then have "q" and win: "winner t = WinnerSome w \<or> winner t = Undisputed w"
    by (auto simp: decide_def split: if_splits winner.splits)
  have "beats_all (candidates t) (votes_on pid log) w"
    using ok(2) win by (auto simp: tally_of_def winner_spec_def dest: always_wins_beats)
  moreover have "total_power p - power_outstanding t = cast_power (votes_on pid log)"
    using ok(2) by (auto simp: tally_of_def)
  moreover have "pid \<notin> set (dispatched log)" using ok(1) o by (simp add: proposal_ok_def)
  ultimately show ?thesis using p q(1) \<open>q\<close> ok(3) by auto
qed

theorem condorcet_executes_winner_witness:
  "\<exists>w. beats_all 3 [([1, 0, 2], 60)] w"
  using condorcet_executes_winner [OF sample_instantiate condorcet_sample_run_voted sample_execute]
  by (auto simp: condorcet_voted_def condorcet_proposed_def sample_proposal_def sample_choices_def numeral_3_eq_3)

text \<open>Voting is never blocked. In every reachable state, a member who has not voted yet on a
  proposal whose voting period runs, and whose power is part of the power still outstanding, can cast
  any ranking of the candidates: the vote is counted and no arithmetic of the tally overflows.\<close>

theorem condorcet_vote_counted:
  assumes "instantiate empty_state info cfg = Ok (st0, ms0)"
    and "module_run (condorcet_step expiry) (b0, st0) log (b, st)"
    and "TALLY st pid = Some t" and "DAO st = Some dao"
    and "query_voting_power deps dao (sender inf1) (Some (tally_start_height t)) = Ok k"
    and "0 < k" and "k \<le> power_outstanding t"
    and "VOTE st (pid, sender inf1) = None" and "\<not> is_expired deps (tally_expiration t) (block env)"
    and "valid_ranking (candidates t) v"
  shows "\<exists>t'. execute deps st env inf1 (Vote pid v)
      = Ok (st\<lparr>VOTE := (VOTE st)((pid, sender inf1) \<mapsto> v), TALLY := (TALLY st)(pid \<mapsto> t')\<rparr>, [])
    \<and> power_outstanding t' = power_outstanding t - k"
proof -
  have "condorcet_inv log st" using run_keeps_inv [OF assms(2), of "[]"] condorcet_instantiate_inv [OF assms(1)] by simp
  from vote_accepted [OF this assms(3-10)] show ?thesis .
qed

theorem condorcet_vote_counted_witness:
  "\<exists>st'. execute sample_querier condorcet_voted (sample_env 4) (sent_by ''bob'') (Vote 1 [2, 1, 0]) = Ok (st', [])"
  using condorcet_vote_counted [OF sample_instantiate condorcet_sample_run_voted, of 1 voted_tally "''dao''" sample_querier
      "sent_by ''bob''" 30 "sample_env 4" "[2, 1, 0]"]
  by (auto simp: condorcet_voted_def condorcet_proposed_def condorcet_start_def sample_defs voted_tally_def
      valid_ranking_def candidates_def)

end
