(* ===== verification/Condorcet_Voting.thy ===== *)
theory Condorcet_Voting
  imports Condorcet_Props
begin

text \<open>
  The ranked-choice module beside a voting module. The locale \<open>voting_source\<close> is what a proposal
  module relies on: powers at a height that is reached stay as they are, and are shares of the
  total. It follows that every vote is counted with the power of the height at which the proposal was
  made, and that no member with power is ever refused.
\<close>

section \<open>The joint system\<close>

text \<open>
  The querier answers from the voting module: a query without a height is answered at the
  current one.
\<close>

definition at_height :: "block_info \<Rightarrow> u64 option \<Rightarrow> u64" where
  "at_height b h = (case h of None \<Rightarrow> height b | Some h \<Rightarrow> h)"

definition answers ::
  "('s \<Rightarrow> addr \<Rightarrow> u64 \<Rightarrow> nat) \<Rightarrow> ('s \<Rightarrow> u64 \<Rightarrow> nat) \<Rightarrow> 's \<Rightarrow> block_info \<Rightarrow> 'x dao_querier_scheme \<Rightarrow> bool" where
  "answers powers totals s b deps \<longleftrightarrow>
     (\<forall>d a h k. query_voting_power deps d a h = Ok k \<longrightarrow> k = powers s a (at_height b h)) \<and>
     (\<forall>d h k. query_total_power deps d h = Ok k \<longrightarrow> k = totals s (at_height b h))"

lemma answersD:
  assumes "answers powers totals s b deps"
  shows "query_voting_power deps d a h = Ok k \<Longrightarrow> k = powers s a (at_height b h)"
    and "query_total_power deps d h = Ok k \<Longrightarrow> k = totals s (at_height b h)"
  using assms unfolding answers_def by blast+

lemma at_height_simps [simp]: "at_height b None = height b" "at_height b (Some h) = h"
  by (simp_all add: at_height_def)

inductive joint_step ::
  "('s \<Rightarrow> addr \<Rightarrow> u64 \<Rightarrow> nat) \<Rightarrow> ('s \<Rightarrow> u64 \<Rightarrow> nat) \<Rightarrow> (block_info \<times> 's \<Rightarrow> 'l list \<Rightarrow> block_info \<times> 's \<Rightarrow> bool)
     \<Rightarrow> (expiration \<Rightarrow> block_info \<Rightarrow> bool) \<Rightarrow> block_info \<times> 's \<times> 'm condorcet_state \<Rightarrow> 'm event list
     \<Rightarrow> block_info \<times> 's \<times> 'm condorcet_state \<Rightarrow> bool" for powers totals vstep expiry where
  joint_members: "vstep (b, s) l (b', s') \<Longrightarrow> joint_step powers totals vstep expiry (b, s, c) [] (b', s', c)"
| joint_execute: "execute (deps :: dao_querier) c env info msg = Ok (c', ms) \<Longrightarrow> u128_powers deps \<Longrightarrow>
      is_expired deps = expiry \<Longrightarrow> block_le b (block env) \<Longrightarrow> answers powers totals s (block env) deps \<Longrightarrow>
      joint_step powers totals vstep expiry (b, s, c) (events deps c info msg ms) (block env, s, c')"
| joint_reply: "reply c msg = Ok (c', ms) \<Longrightarrow> reply_expected c msg \<Longrightarrow> block_le b b' \<Longrightarrow>
      joint_step powers totals vstep expiry (b, s, c) [] (b', s, c')"

section \<open>What a proposal keeps of its start\<close>

lemma tally_add_vote_start:
  "tally_add_vote t v k = (Ok t' :: (_, contract_error) result) \<Longrightarrow> tally_start_height t' = tally_start_height t"
  by (auto simp: tally_add_vote_def result_ok Let_def)

lemma tally_new_start:
  "tally_new n tot h e = (Ok t :: (_, contract_error) result) \<Longrightarrow> tally_start_height t = h"
  by (auto simp: tally_new_def result_ok Let_def)

lemma execute_propose_start:
  assumes "execute_propose deps st env info cs = Ok (st', ms)" and "finite (dom (PROPOSAL st))"
  obtains i t p dao where "PROPOSAL st i = None"
    and "st' = st\<lparr>TALLY := (TALLY st)(i \<mapsto> t), PROPOSAL := (PROPOSAL st)(i \<mapsto> p)\<rparr>"
    and "tally_start_height t = height (block env)" and "query_total_power deps dao None = Ok (total_power p)"
proof -
  from assms(1) obtain dao pow cfg i t q p expires where
    i: "next_proposal_id st = (Ok i :: (_, contract_error) result)"
    and pow: "query_total_power deps dao None = Ok pow"
    and t: "tally_new (Suc (length cs)) pow (height (block env)) expires = (Ok t :: (_, contract_error) result)"
    and q: "proposal_new deps (block env) cfg (sender info) i (cs @ [\<lparr>choice_msgs = []\<rparr>]) pow
        = (Ok q :: (_, contract_error) result)"
    and p: "update_status deps (block env) q t = (Ok p :: (_, contract_error) result)"
    and st': "st' = st\<lparr>TALLY := (TALLY st)(i \<mapsto> t), PROPOSAL := (PROPOSAL st)(i \<mapsto> p)\<rparr>"
    by (auto simp: execute_propose_def result_ok Let_def get_total_power_def split: if_splits)
  have "total_power p = pow" using p q by (auto simp: update_status_def proposal_new_def result_ok)
  with pow st' tally_new_start [OF t] next_proposal_id_fresh [OF i assms(2)] show thesis
    by (intro that [of i p t dao]) auto
qed

section \<open>The invariant\<close>

text \<open>
  Each proposal has the total power of its start height, and each vote in the log the power that its
  voter has at that height.
\<close>

definition weighed ::
  "('s \<Rightarrow> addr \<Rightarrow> u64 \<Rightarrow> nat) \<Rightarrow> ('s \<Rightarrow> u64 \<Rightarrow> nat) \<Rightarrow> 'm event list \<Rightarrow> block_info \<Rightarrow> 's \<Rightarrow> 'm condorcet_state \<Rightarrow> bool" where
  "weighed powers totals log b s c \<longleftrightarrow>
     condorcet_inv log c \<and>
     (\<forall>pid p t. PROPOSAL c pid = Some p \<longrightarrow> TALLY c pid = Some t \<longrightarrow>
        tally_start_height t \<le> height b \<and> total_power p = totals s (tally_start_height t)) \<and>
     (\<forall>pid a v k t. Cast pid a v k \<in> set log \<longrightarrow> TALLY c pid = Some t \<longrightarrow> k = powers s a (tally_start_height t))"

lemma weighedI:
  assumes "condorcet_inv log c"
    and "\<And>pid p t. PROPOSAL c pid = Some p \<Longrightarrow> TALLY c pid = Some t \<Longrightarrow>
      tally_start_height t \<le> height b \<and> total_power p = totals s (tally_start_height t)"
    and "\<And>pid a v k t. Cast pid a v k \<in> set log \<Longrightarrow> TALLY c pid = Some t \<Longrightarrow> k = powers s a (tally_start_height t)"
  shows "weighed powers totals log b s c"
  unfolding weighed_def using assms by blast

lemma weighedD:
  assumes "weighed powers totals log b s c"
  shows "condorcet_inv log c"
    and "PROPOSAL c pid = Some p \<Longrightarrow> TALLY c pid = Some t \<Longrightarrow> total_power p = totals s (tally_start_height t)"
    and "TALLY c pid = Some t \<Longrightarrow> tally_start_height t \<le> height b"
    and "Cast pid a v k \<in> set log \<Longrightarrow> TALLY c pid = Some t \<Longrightarrow> k = powers s a (tally_start_height t)"
proof -
  show inv: "condorcet_inv log c" using assms by (simp add: weighed_def)
  show "total_power p = totals s (tally_start_height t)" if "PROPOSAL c pid = Some p" "TALLY c pid = Some t"
    using assms that unfolding weighed_def by blast
  show "tally_start_height t \<le> height b" if "TALLY c pid = Some t"
    using condorcet_inv_tally [OF inv that] assms that unfolding weighed_def by blast
  show "k = powers s a (tally_start_height t)" if "Cast pid a v k \<in> set log" "TALLY c pid = Some t"
    using assms that unfolding weighed_def by blast
qed

definition voters_on :: "u32 \<Rightarrow> 'm event list \<Rightarrow> addr list" where
  "voters_on pid log = map snd (filter (\<lambda>(i, _). i = pid) (voters_of log))"

lemma distinct_voters_on: "distinct (voters_of log) \<Longrightarrow> distinct (voters_on pid log)"
  by (auto simp: voters_on_def distinct_map distinct_filter inj_on_def)

lemma cast_power_voters:
  assumes "\<And>a v k. Cast pid a v k \<in> set log \<Longrightarrow> k = f a"
  shows "cast_power (votes_on pid log) = (\<Sum>a \<leftarrow> voters_on pid log. f a)"
  using assms
proof (induction log)
  case (Cons e log)
  have "cast_power (votes_on pid log) = (\<Sum>a \<leftarrow> voters_on pid log. f a)"
    by (rule Cons.IH) (use Cons.prems in auto)
  moreover have "k = f a" if "e = Cast pid a v k" for a v k using Cons.prems [of a v k] that by simp
  ultimately show ?case
    by (cases e) (auto simp: votes_on_def voters_on_def voters_of_def cast_power_def)
qed (simp add: votes_on_def voters_on_def voters_of_def cast_power_def)

lemma set_events_Cast:
  "Cast pid a v k \<in> set (events deps c info msg ms) \<longleftrightarrow>
     msg = Vote pid v \<and> a = sender info \<and> k = queried_power deps c a pid"
  by (auto simp: events_def split: execute_msg.splits)

lemma weighed_propose:
  assumes "execute_propose deps c env info cs = Ok (c', ms)"
    and "answers powers totals s (block env) deps" and "block_le b (block env)" and "weighed powers totals log b s c"
    and "condorcet_inv log c'"
  shows "weighed powers totals log (block env) s c'"
proof -
  note old = weighedD [OF assms(4)]
  have "finite (dom (PROPOSAL c))" using old(1) by (simp add: condorcet_inv_def)
  from execute_propose_start [OF assms(1) this] obtain i t p dao where new: "PROPOSAL c i = None"
    "c' = c\<lparr>TALLY := (TALLY c)(i \<mapsto> t), PROPOSAL := (PROPOSAL c)(i \<mapsto> p)\<rparr>"
    "tally_start_height t = height (block env)" "query_total_power deps dao None = Ok (total_power p)" .
  have tot: "total_power p = totals s (height (block env))" using answersD(2) [OF assms(2) new(4)] by simp
  have le: "height b \<le> height (block env)" using assms(3) by (simp add: block_le_def)
  have none: "Cast i a v k \<notin> set log" for a v k
  proof
    assume "Cast i a v k \<in> set log"
    then have "(i, a) \<in> set (voters_of log)" by (force simp: voters_of_def)
    with old(1) new(1) show False by (auto simp: condorcet_inv_def)
  qed
  show ?thesis
  proof (rule weighedI [OF assms(5)])
    fix pid q u assume "PROPOSAL c' pid = Some q" "TALLY c' pid = Some u"
    with new tot le old(2,3) [of pid] show "tally_start_height u \<le> height (block env) \<and> total_power q = totals s (tally_start_height u)"
      by (cases "pid = i") (auto intro: order_trans)
  next
    fix pid a v k u assume "Cast pid a v k \<in> set log" "TALLY c' pid = Some u"
    with new(2) none old(4) [of pid a v k] show "k = powers s a (tally_start_height u)" by (cases "pid = i") auto
  qed
qed

lemma weighed_vote:
  assumes "execute_vote deps c env info pid v = Ok (c', ms)"
    and "answers powers totals s (block env) deps" and "block_le b (block env)" and "weighed powers totals log b s c"
    and "condorcet_inv (log @ [Cast pid (sender info) v (queried_power deps c (sender info) pid)]) c'"
  shows "weighed powers totals (log @ [Cast pid (sender info) v (queried_power deps c (sender info) pid)])
    (block env) s c'"
proof -
  note old = weighedD [OF assms(4)]
  from assms(1) obtain t dao k t' where t: "TALLY c pid = Some t" "DAO c = Some dao"
    "query_voting_power deps dao (sender info) (Some (tally_start_height t)) = Ok k"
    "tally_add_vote t v k = (Ok t' :: (_, contract_error) result)"
    "c' = c\<lparr>VOTE := (VOTE c)((pid, sender info) \<mapsto> v), TALLY := (TALLY c)(pid \<mapsto> t')\<rparr>"
    by (elim execute_vote_Ok)
  have pow: "queried_power deps c (sender info) pid = powers s (sender info) (tally_start_height t)"
    using answersD(1) [OF assms(2) t(3)] t(1-3) by (simp add: queried_power_def get_voting_power_def)
  have le: "height b \<le> height (block env)" using assms(3) by (simp add: block_le_def)
  have start: "\<exists>u'. TALLY c i = Some u' \<and> tally_start_height u = tally_start_height u'" if "TALLY c' i = Some u" for i u
    using t(1,5) tally_add_vote_start [OF t(4)] that by (auto split: if_splits)
  show ?thesis
  proof (rule weighedI [OF assms(5)])
    fix i q u assume "PROPOSAL c' i = Some q" "TALLY c' i = Some u"
    with start [of i u] t(5) le old(2,3) [of i] show "tally_start_height u \<le> height (block env) \<and> total_power q = totals s (tally_start_height u)"
      by (auto intro: order_trans)
  next
    fix i a w k u
    assume "Cast i a w k \<in> set (log @ [Cast pid (sender info) v (queried_power deps c (sender info) pid)])" "TALLY c' i = Some u"
    with start [of i u] t(1) pow old(4) [of i a w k] show "k = powers s a (tally_start_height u)" by auto
  qed
qed

lemma weighed_others:
  assumes "weighed powers totals log b s c" and "block_le b b'" and "condorcet_inv (log @ l) c'" and "TALLY c' = TALLY c"
    and "\<And>pid q. PROPOSAL c' pid = Some q \<Longrightarrow> \<exists>p. PROPOSAL c pid = Some p \<and> total_power q = total_power p"
    and "\<And>pid a v k. Cast pid a v k \<notin> set l"
  shows "weighed powers totals (log @ l) b' s c'"
proof (rule weighedI [OF assms(3)])
  note old = weighedD [OF assms(1)]
  have le: "height b \<le> height b'" using assms(2) by (simp add: block_le_def)
  fix pid q t assume "PROPOSAL c' pid = Some q" "TALLY c' pid = Some t"
  with assms(4) assms(5) [of pid q] old(2,3) [of pid] le
  show "tally_start_height t \<le> height b' \<and> total_power q = totals s (tally_start_height t)"
    by (auto intro: order_trans)
next
  fix pid a v k t assume "Cast pid a v k \<in> set (log @ l)" "TALLY c' pid = Some t"
  with assms(4,6) weighedD(4) [OF assms(1)] show "k = powers s a (tally_start_height t)" by auto
qed

lemma weighed_execute:
  assumes "execute deps c env info msg = Ok (c', ms)" and "u128_powers deps"
    and "answers powers totals s (block env) deps" and "block_le b (block env)" and "weighed powers totals log b s c"
  shows "weighed powers totals (log @ events deps c info msg ms) (block env) s c'"
proof -
  have inv: "condorcet_inv (log @ events deps c info msg ms) c'"
    using assms by (simp add: weighed_def condorcet_execute_keeps_inv)
  show ?thesis
  proof (cases msg)
    case (Propose cs)
    with assms(1) inv show ?thesis
      using weighed_propose [OF _ assms(3-5)] by (simp add: execute_def events_def)
  next
    case (Vote pid v)
    with assms(1) inv show ?thesis
      using weighed_vote [OF _ assms(3-5)] by (simp add: execute_def events_def)
  next
    case (Execute pid)
    with assms(1) have "execute_execute deps c env info pid = Ok (c', ms)" by (simp add: execute_def)
    then show ?thesis
      by (elim execute_execute_Ok) (rule weighed_others [OF assms(5,4) inv], auto simp: Execute events_def split: if_splits)
  next
    case (Close pid)
    with assms(1) have "execute_close deps c env pid = Ok (c', ms)" by (simp add: execute_def)
    then show ?thesis
      by (elim execute_close_Ok) (rule weighed_others [OF assms(5,4) inv], auto simp: Close events_def split: if_splits)
  next
    case (SetConfig cfg)
    with assms(1) have "execute_set_config c info cfg = Ok (c', ms)" by (simp add: execute_def)
    then show ?thesis
      by (elim execute_set_config_Ok) (rule weighed_others [OF assms(5,4) inv], auto simp: SetConfig events_def)
  qed
qed

lemma weighed_reply:
  assumes "reply c msg = Ok (c', ms)" and "reply_expected c msg" and "block_le b b'" and "weighed powers totals log b s c"
  shows "weighed powers totals log b' s c'"
proof -
  have "condorcet_inv log c'" using assms condorcet_reply_keeps_inv by (auto simp: weighed_def)
  then have inv: "condorcet_inv (log @ []) c'" by simp
  from assms(1) have "weighed powers totals (log @ []) b' s c'"
    by (elim reply_Ok) (rule weighed_others [OF assms(4,3) inv], auto split: if_splits)
  then show ?thesis by simp
qed

section \<open>The contract of a voting module\<close>

locale voting_source =
  fixes vstep :: "block_info \<times> 's \<Rightarrow> 'l list \<Rightarrow> block_info \<times> 's \<Rightarrow> bool"
    and vinv :: "block_info \<times> 's \<Rightarrow> bool"
    and powers :: "'s \<Rightarrow> addr \<Rightarrow> u64 \<Rightarrow> nat"
    and totals :: "'s \<Rightarrow> u64 \<Rightarrow> nat"
  assumes source_inv: "vstep x l y \<Longrightarrow> vinv x \<Longrightarrow> vinv y"
    and source_later: "vinv (b, s) \<Longrightarrow> block_le b b' \<Longrightarrow> vinv (b', s)"
    and source_time: "vstep x l y \<Longrightarrow> height (fst x) \<le> height (fst y)"
    and source_past: "vstep x l y \<Longrightarrow> vinv x \<Longrightarrow> h \<le> height (fst x) \<Longrightarrow>
      powers (snd y) a h = powers (snd x) a h \<and> totals (snd y) h = totals (snd x) h"
    and source_share: "vinv x \<Longrightarrow> distinct as \<Longrightarrow> (\<Sum>a \<leftarrow> as. powers (snd x) a h) \<le> totals (snd x) h"
begin

lemma members_keep_weights:
  assumes "vstep (b, s) l (b', s')" and "vinv (b, s)" and "weighed powers totals log b s c"
  shows "weighed powers totals log b' s' c"
proof -
  note old = weighedD [OF assms(3)]
  have past: "powers s' a h = powers s a h \<and> totals s' h = totals s h" if "h \<le> height b" for a h
    using source_past [OF assms(1,2), of h a] that by simp
  have time: "height b \<le> height b'" using source_time [OF assms(1)] by simp
  show ?thesis
  proof (rule weighedI)
    fix pid p t assume "PROPOSAL c pid = Some p" "TALLY c pid = Some t"
    with old(2,3) [of pid] past [of "tally_start_height t"] time
    show "tally_start_height t \<le> height b' \<and> total_power p = totals s' (tally_start_height t)"
      by (auto intro: order_trans)
  next
    fix pid a v k t assume "Cast pid a v k \<in> set log" "TALLY c pid = Some t"
    with old(3,4) past show "k = powers s' a (tally_start_height t)" by simp
  qed (rule old(1))
qed

lemma joint_run_weighed:
  assumes "module_run (joint_step powers totals vstep expiry) x log y"
    and "vinv (fst x, fst (snd x))" and "weighed powers totals [] (fst x) (fst (snd x)) (snd (snd x))"
  shows "vinv (fst y, fst (snd y)) \<and> weighed powers totals log (fst y) (fst (snd y)) (snd (snd y))"
  using assms
proof (induction rule: module_run.induct)
  case (run_step x log y l z)
  then have IH: "vinv (fst y, fst (snd y))" "weighed powers totals log (fst y) (fst (snd y)) (snd (snd y))" by auto
  from run_step.hyps(2) show ?case
  proof (cases rule: joint_step.cases)
    case (joint_members b s l b' s' c)
    with IH members_keep_weights source_inv show ?thesis by auto
  next
    case (joint_execute deps c env info msg c' ms b s)
    with IH weighed_execute source_later show ?thesis by auto
  next
    case (joint_reply c msg c' ms b b' s)
    with IH weighed_reply source_later show ?thesis by auto
  qed
qed simp

lemma outstanding_share:
  assumes "vinv (b, s)" and "weighed powers totals log b s c" and "TALLY c pid = Some t"
    and "VOTE c (pid, a) = None"
  shows "powers s a (tally_start_height t) \<le> power_outstanding t"
proof -
  let ?h = "tally_start_height t" and ?as = "voters_on pid log"
  have inv: "condorcet_inv log c" using assms(2) by (simp add: weighed_def)
  obtain p where p: "PROPOSAL c pid = Some p" using condorcet_inv_tally [OF inv assms(3)] .
  have w: "cast_power (votes_on pid log) = (\<Sum>a \<leftarrow> ?as. powers s a ?h)"
    using weighedD(4) [OF assms(2) _ assms(3)] by (intro cast_power_voters) auto
  have "(pid, a) \<notin> set (voters_of log)" using inv assms(4) unfolding condorcet_inv_def by (metis domIff)
  then have "a \<notin> set ?as" by (auto simp: voters_on_def)
  then have "distinct (a # ?as)"
    using inv by (simp add: condorcet_inv_def distinct_voters_on)
  from source_share [OF assms(1) this, of ?h]
  have "powers s a ?h + cast_power (votes_on pid log) \<le> totals s ?h" using w by simp
  moreover have "total_power p = totals s ?h" by (rule weighedD(2) [OF assms(2) p assms(3)])
  moreover have "cast_power (votes_on pid log) + power_outstanding t = total_power p"
    using condorcet_invD(2) [OF inv p assms(3)] by (simp add: tally_of_def)
  ultimately show ?thesis by simp
qed

end

end
