(* ===== verification/Staked_Voting.thy ===== *)
theory Staked_Voting
  imports Voting_Token_Claims Condorcet_Claims Condorcet_Voting
begin

text \<open>
  \<open>dao-voting-token-staked\<close> as the voting module of \<open>dao-proposal-condorcet\<close>: the staking
  contract keeps the contract of a voting module, so the votes of stakers are counted with their stake
  at the start of the proposal, and none is refused.
\<close>

section \<open>Staked tokens as voting power\<close>

definition stakes_ok ::
  "('b, addr) snapshot_ops \<Rightarrow> ('t, unit) snapshot_ops \<Rightarrow> 'c claims_ops \<Rightarrow> (expiration \<Rightarrow> block_info \<Rightarrow> bool)
     \<Rightarrow> ('b \<Rightarrow> u64 \<Rightarrow> bool) \<Rightarrow> ('t \<Rightarrow> u64 \<Rightarrow> bool) \<Rightarrow> block_info \<times> ('b, 't, 'c) token_state \<Rightarrow> bool" where
  "stakes_ok bo to co expiry bu tu x \<longleftrightarrow>
     stores_ok bo to co expiry bu tu \<and> (\<exists>log. token_inv bo to co bu tu log x)"

interpretation staked: voting_source "token_step bo to co" "stakes_ok bo to co expiry bu tu" "power_at bo" "total_at to"
  for bo to co expiry bu tu
proof
  fix x l y assume step: "token_step bo to co x l y" and inv: "stakes_ok bo to co expiry bu tu x"
  then show "stakes_ok bo to co expiry bu tu y" using token_step_inv by (fastforce simp: stakes_ok_def)
  show "power_at bo (snd y) a h = power_at bo (snd x) a h \<and> total_at to (snd y) h = total_at to (snd x) h"
    if "h \<le> height (fst x)" for a h
    using inv token_step_history [OF step _ _ that] by (auto simp: stakes_ok_def)
next
  fix b b' s assume "stakes_ok bo to co expiry bu tu (b, s)" and le: "block_le b b'"
  then obtain log where "stores_ok bo to co expiry bu tu" "token_inv bo to co bu tu log (b, s)"
    by (auto simp: stakes_ok_def)
  moreover have "same_stakes s s" by (simp add: same_stakes_def)
  ultimately show "stakes_ok bo to co expiry bu tu (b', s)"
    using token_inv_same [OF _ _ le] unfolding stakes_ok_def by blast
next
  fix x l y assume "token_step bo to co x l y"
  then show "height (fst x) \<le> height (fst y)" by (cases rule: token_step.cases) (auto simp: block_le_def)
next
  fix x and as :: "addr list" and h assume "stakes_ok bo to co expiry bu tu x" "distinct as"
  then show "(\<Sum>a \<leftarrow> as. power_at bo (snd x) a h) \<le> total_at to (snd x) h"
    using balanced_part by (auto simp: stakes_ok_def token_inv_def power_at_def total_at_def)
qed

text \<open>The core forwards power queries to the staking contract.\<close>

definition forwards ::
  "('b, 't, 'c, 'x) staking_deps_scheme \<Rightarrow> ('b, 't, 'c) token_state \<Rightarrow> env \<Rightarrow> dao_querier \<Rightarrow> bool" where
  "forwards sdeps s env deps \<longleftrightarrow>
     (\<forall>d a h. query_voting_power deps d a h =
        and_then (query_voting_power_at_height sdeps s env a h) (\<lambda>(p, _). Ok p)) \<and>
     (\<forall>d h. query_total_power deps d h = and_then (query_total_power_at_height sdeps s env h) (\<lambda>(p, _). Ok p))"

lemma forwarded_power:
  assumes "forwards sdeps s env deps" and "addr_validate sdeps a = Ok a"
  shows "query_voting_power deps d a h = Ok (power_at (balances_ops sdeps) s a (at_height (block env) h))"
  using assms by (simp add: forwards_def query_voting_power_at_height_def power_at_def at_height_def Let_def)

lemma forwards_answers:
  assumes "forwards sdeps s env deps" and "\<And>a. addr_validate sdeps a = Ok a"
  shows "answers (power_at (balances_ops sdeps)) (total_at (total_ops sdeps)) s (block env) deps"
  using assms
  by (simp add: answers_def forwards_def query_voting_power_at_height_def query_total_power_at_height_def
      power_at_def total_at_def at_height_def Let_def)

lemma staked_run:
  assumes "stores_ok bo to co expiry' bu tu"
    and "Voting_Token_Staked.instantiate sdeps0 (Voting_Token_Props.empty_state bo to co) info1 msg1 = Ok (s0, r0)"
    and "Condorcet_Contract.instantiate Condorcet_Props.empty_state info2 cfg = Ok (c0, ms0)"
    and "module_run (joint_step (power_at bo) (total_at to) (token_step bo to co) expiry) (b0, s0, c0) log (b, s, c)"
  shows "stakes_ok bo to co expiry' bu tu (b, s)" and "weighed (power_at bo) (total_at to) log b s c"
proof -
  have "stakes_ok bo to co expiry' bu tu (b0, s0)"
    unfolding stakes_ok_def using assms(1) instantiate_token_inv [OF assms(2,1)] by blast
  moreover have "weighed (power_at bo) (total_at to) [] b0 s0 c0"
    using condorcet_instantiate_inv [OF assms(3)] assms(3)
    by (auto intro!: weighedI simp: Condorcet_Contract.instantiate_def Condorcet_Props.empty_state_def result_ok)
  ultimately show "stakes_ok bo to co expiry' bu tu (b, s)" and "weighed (power_at bo) (total_at to) log b s c"
    using staked.joint_run_weighed [OF assms(4), of expiry' bu tu] by auto
qed

section \<open>A sample run\<close>

text \<open>Ann stakes 60 at height 1 and proposes at height 2.\<close>

definition staked_querier :: dao_querier where
  "staked_querier =
     sample_querier\<lparr>query_voting_power := (\<lambda>_ a h. Ok (power_at sample_snapshots staking_staked a (at_height (sample_block 2) h))),
       query_total_power := (\<lambda>_ h. Ok (total_at sample_snapshots staking_staked (at_height (sample_block 2) h)))\<rparr>"

lemma staked_querier_forwards: "forwards sample_staking staking_staked (sample_env 2) staked_querier"
  by (simp add: forwards_def staked_querier_def query_voting_power_at_height_def query_total_power_at_height_def
      power_at_def total_at_def at_height_def Let_def sample_env_def split: option.split)

definition staked_tally :: tally where
  "staked_tally =
     \<lparr>tally_m = \<lparr>cells = [Zero, Zero, Zero], dim = 3\<rparr>, tally_expiration = AtHeight 12,
      tally_start_height = 2, power_outstanding = 60, winner = WinnerNone\<rparr>"

definition staked_proposed :: "string condorcet_state" where
  "staked_proposed =
     condorcet_start\<lparr>TALLY := [1 \<mapsto> staked_tally], PROPOSAL := [1 \<mapsto> sample_proposal\<lparr>total_power := 60\<rparr>]\<rparr>"

lemma staked_tally_new: "tally_new 3 60 2 (AtHeight 12) = (Ok staked_tally :: (_, Condorcet_Contract.contract_error) result)"
  by (simp add: eval_tally staked_tally_def upt_three) (simp add: numeral_3_eq_3)

lemma ann_power: "power_at sample_snapshots staking_staked ''ann'' 2 = 60" "total_at sample_snapshots staking_staked 2 = 60"
  by (simp_all add: power_at_def total_at_def staking_staked_def sample_snapshots_def)

lemma staked_propose:
  "Condorcet_Contract.execute staked_querier condorcet_start (sample_env 2) (sent_by ''ann'') (Propose sample_choices)
     = Ok (staked_proposed, [])"
proof -
  have "tally_new (Suc (Suc (Suc 0))) 60 2 (AtHeight 12) = (Ok staked_tally :: (_, Condorcet_Contract.contract_error) result)"
    using staked_tally_new by (simp add: numeral_3_eq_3)
  then show ?thesis
    by (simp add: eval_condorcet condorcet_start_def Condorcet_Props.empty_state_def sample_defs staked_proposed_def
      sample_choices_def sample_proposal_def sub128_def staked_tally_def staked_querier_def ann_power Let_def
      word_le_nat_alt)
qed

lemma staked_u128: "u128_powers staked_querier"
  by (auto simp: u128_powers_def staked_querier_def power_at_def total_at_def staking_staked_def sample_snapshots_def)

lemma staked_ready:
  "TALLY staked_proposed 1 = Some staked_tally" "Condorcet_Contract.DAO staked_proposed = Some ''dao''"
  "VOTE staked_proposed (1, ''ann'') = None"
  "\<not> is_expired staked_querier (tally_expiration staked_tally) (block (sample_env 2))"
  "valid_ranking (candidates staked_tally) [2, 1, 0]"
  by (auto simp: staked_proposed_def condorcet_start_def Condorcet_Props.empty_state_def staked_tally_def
      staked_querier_def sample_defs valid_ranking_def candidates_def)

abbreviation sample_joint_step ::
  "block_info \<times> sample_state \<times> string condorcet_state \<Rightarrow> string event list
     \<Rightarrow> block_info \<times> sample_state \<times> string condorcet_state \<Rightarrow> bool" where
  "sample_joint_step \<equiv> joint_step (power_at sample_snapshots) (total_at sample_snapshots)
      (token_step sample_snapshots sample_snapshots sample_claims) (is_expired staked_querier)"

lemma staked_run_proposed:
  "module_run sample_joint_step
    (sample_block 1, staking_start, condorcet_start) [] (sample_block 2, staking_staked, staked_proposed)"
proof -
  have 1: "sample_joint_step
      (sample_block 1, staking_start, condorcet_start) [] (sample_block 1, staking_staked, condorcet_start)"
    by (rule joint_members, rule sample_token_step [OF sample_stake]) (simp add: block_le_def)
  have "answers (power_at sample_snapshots) (total_at sample_snapshots) staking_staked (block (sample_env 2)) staked_querier"
    using forwards_answers [OF staked_querier_forwards] by simp
  then have 2: "sample_joint_step
      (sample_block 1, staking_staked, condorcet_start) [] (sample_block 2, staking_staked, staked_proposed)"
    using joint_execute [OF staked_propose staked_u128, of "is_expired staked_querier" "sample_block 1"]
    by (simp add: events_def block_le_def sample_block_def sample_env_def)
  show ?thesis using module_run_append [OF run_one [of sample_joint_step, OF 2] run_one [of sample_joint_step, OF 1]] by simp
qed

section \<open>Claims\<close>

text \<open>C27: With staked tokens as voting power, every vote of a ranked-choice proposal is counted with the
  stake that its voter has at the height at which the proposal was made, whatever is staked or taken
  back later; the proposal's total is the total stake of that height; and the power that the
  proposal still expects covers every staker who has not voted.\<close>

theorem staked_votes_weighed:
  assumes "stores_ok bo to co expiry' bu tu"
    and "Voting_Token_Staked.instantiate sdeps0 (Voting_Token_Props.empty_state bo to co) info1 msg1 = Ok (s0, r0)"
    and "Condorcet_Contract.instantiate Condorcet_Props.empty_state info2 cfg = Ok (c0, ms0)"
    and "module_run (joint_step (power_at bo) (total_at to) (token_step bo to co) expiry) (b0, s0, c0) log (b, s, c)"
    and "PROPOSAL c pid = Some p" and "TALLY c pid = Some t"
  shows "total_power p = total_at to s (tally_start_height t)
    \<and> (\<forall>a v k. Cast pid a v k \<in> set log \<longrightarrow> k = power_at bo s a (tally_start_height t))
    \<and> (\<forall>a. VOTE c (pid, a) = None \<longrightarrow> power_at bo s a (tally_start_height t) \<le> power_outstanding t)"
  using weighedD [OF staked_run(2) [OF assms(1-4)]] assms(5,6)
    staked.outstanding_share [OF staked_run [OF assms(1-4)] assms(6)] by blast

theorem staked_votes_weighed_witness:
  "total_power (sample_proposal\<lparr>total_power := 60\<rparr>) = total_at sample_snapshots staking_staked 2"
  using staked_votes_weighed [OF sample_stores_ok sample_token_instantiate sample_instantiate staked_run_proposed,
      of 1 "sample_proposal\<lparr>total_power := 60\<rparr>" staked_tally]
  by (simp add: staked_proposed_def staked_tally_def)

text \<open>A staker is never refused. Whoever had tokens staked at the height at which a ranked-choice
  proposal was made and has not voted on it can cast any ranking until the proposal expires: the
  queries succeed, and neither the stakes nor the tally can overflow, underflow or panic.\<close>

theorem staked_member_can_vote:
  assumes "stores_ok (balances_ops sdeps) (total_ops sdeps) co expiry' bu tu"
    and "Voting_Token_Staked.instantiate sdeps0
      (Voting_Token_Props.empty_state (balances_ops sdeps) (total_ops sdeps) co) info1 msg1 = Ok (s0, r0)"
    and "Condorcet_Contract.instantiate Condorcet_Props.empty_state info2 cfg = Ok (c0, ms0)"
    and "module_run (joint_step (power_at (balances_ops sdeps)) (total_at (total_ops sdeps))
      (token_step (balances_ops sdeps) (total_ops sdeps) co) expiry) (b0, s0, c0) log (b, s, c)"
    and "TALLY c pid = Some t" and "Condorcet_Contract.DAO c = Some dao"
    and "forwards sdeps s env deps" and "addr_validate sdeps (sender info) = Ok (sender info)"
    and "0 < power_at (balances_ops sdeps) s (sender info) (tally_start_height t)"
    and "VOTE c (pid, sender info) = None" and "\<not> is_expired deps (tally_expiration t) (block env)"
    and "valid_ranking (candidates t) v"
  shows "\<exists>t'. Condorcet_Contract.execute deps c env info (Vote pid v)
      = Ok (c\<lparr>VOTE := (VOTE c)((pid, sender info) \<mapsto> v), TALLY := (TALLY c)(pid \<mapsto> t')\<rparr>, [])
    \<and> power_outstanding t' = power_outstanding t - power_at (balances_ops sdeps) s (sender info) (tally_start_height t)"
proof -
  note run = staked_run [OF assms(1-4)]
  have "query_voting_power deps dao (sender info) (Some (tally_start_height t))
      = Ok (power_at (balances_ops sdeps) s (sender info) (tally_start_height t))"
    using forwarded_power [OF assms(7,8)] by simp
  from vote_accepted [OF weighedD(1) [OF run(2)] assms(5,6) this assms(9)
      staked.outstanding_share [OF run assms(5,10)] assms(10-12)] show ?thesis .
qed

theorem staked_member_can_vote_witness:
  "\<exists>c. Condorcet_Contract.execute staked_querier staked_proposed (sample_env 2) (sent_by ''ann'') (Vote 1 [2, 1, 0]) = Ok (c, [])"
  using staked_member_can_vote [of sample_staking sample_claims, unfolded sample_staking_sel,
      OF sample_stores_ok sample_token_instantiate sample_instantiate staked_run_proposed staked_ready(1,2)
        staked_querier_forwards, of "sent_by ''ann''" "[2, 1, 0]"] staked_ready(3-5) ann_power(1)
  by (auto simp: sent_by_def staked_tally_def)

end
