(* ===== verification/Cw20_Claims.thy ===== *)
theory Cw20_Claims
  imports Cw20_Stake_Props Voting_Cw20_Staked Staked_Voting
begin

text \<open>
  What \<open>cw20-stake\<close> promises of every run, and its shares as the powers of a voting module.
\<close>

section \<open>Shares as voting power\<close>

definition pool_ok ::
  "('b, addr) snapshot_ops \<Rightarrow> ('t, unit) snapshot_ops \<Rightarrow> 'c claims_ops \<Rightarrow> (expiration \<Rightarrow> block_info \<Rightarrow> bool)
     \<Rightarrow> ('b \<Rightarrow> u64 \<Rightarrow> bool) \<Rightarrow> ('t \<Rightarrow> u64 \<Rightarrow> bool) \<Rightarrow> block_info \<times> ('b, 't, 'c, 'o) stake_state \<Rightarrow> bool" where
  "pool_ok bo to co expiry bu tu x \<longleftrightarrow>
     Cw20_Stake_Props.stores_ok bo to co expiry bu tu \<and> (\<exists>log. pool_inv bo to co bu tu log x)"

interpretation cw20: voting_source "stake_step bo to co" "pool_ok bo to co expiry bu tu" "share_at bo" "shares_at to"
  for bo to co expiry bu tu
proof
  fix x l y assume step: "stake_step bo to co x l y" and inv: "pool_ok bo to co expiry bu tu x"
  then show "pool_ok bo to co expiry bu tu y" using stake_step_inv by (fastforce simp: pool_ok_def)
  show "share_at bo (snd y) a h = share_at bo (snd x) a h \<and> shares_at to (snd y) h = shares_at to (snd x) h"
    if "h \<le> height (fst x)" for a h
    using inv stake_step_history [OF step _ _ that] by (auto simp: pool_ok_def)
next
  fix b b' s assume "pool_ok bo to co expiry bu tu (b, s)" and le: "block_le b b'"
  then obtain log where "Cw20_Stake_Props.stores_ok bo to co expiry bu tu" "pool_inv bo to co bu tu log (b, s)"
    by (auto simp: pool_ok_def)
  moreover have "same_pool s s" by (simp add: same_pool_def)
  ultimately show "pool_ok bo to co expiry bu tu (b', s)"
    using pool_inv_same [OF _ _ le] unfolding pool_ok_def by blast
next
  fix x l y assume "stake_step bo to co x l y"
  then show "height (fst x) \<le> height (fst y)" by (rule stake_step_time)
next
  fix x and as :: "addr list" and h assume "pool_ok bo to co expiry bu tu x" "distinct as"
  then show "(\<Sum>a \<leftarrow> as. share_at bo (snd x) a h) \<le> shares_at to (snd x) h"
    using balanced_part by (auto simp: pool_ok_def pool_inv_def share_at_def shares_at_def)
qed

lemma cw20_run:
  assumes "Cw20_Stake_Props.stores_ok bo to co expiry' bu tu"
    and "Cw20_Stake.instantiate sdeps0 (Cw20_Stake_Props.empty_state bo to co own) env0 msg1 = Ok (s0, r0)"
    and "Cw20_Stake.total_ops sdeps0 = to"
    and "Condorcet_Contract.instantiate Condorcet_Props.empty_state info2 cfg = Ok (c0, ms0)"
    and "module_run (joint_step (share_at bo) (shares_at to) (stake_step bo to co) expiry) (block env0, s0, c0) log (b, s, c)"
  shows "pool_ok bo to co expiry' bu tu (b, s)" and "weighed (share_at bo) (shares_at to) log b s c"
proof -
  have "pool_ok bo to co expiry' bu tu (block env0, s0)"
    unfolding pool_ok_def using assms(1) instantiate_pool_inv [OF assms(2,1,3)] by blast
  moreover have "weighed (share_at bo) (shares_at to) [] (block env0) s0 c0"
    using condorcet_instantiate_inv [OF assms(4)] assms(4)
    by (auto intro!: weighedI simp: Condorcet_Contract.instantiate_def Condorcet_Props.empty_state_def result_ok)
  ultimately show "pool_ok bo to co expiry' bu tu (b, s)" and "weighed (share_at bo) (shares_at to) log b s c"
    using cw20.joint_run_weighed [OF assms(5), of expiry' bu tu] by auto
qed

section \<open>A sample run\<close>

text \<open>Ann stakes 60 tokens, somebody donates 30, and Bob stakes 30 more for 20 shares.\<close>

definition sample_ownable :: "string option ownable_ops" where
  "sample_ownable =
     \<lparr>initialize_owner = (\<lambda>_ o'. Ok o'),
      assert_owner = (\<lambda>o' a. if o' = Some a then Ok () else Err ''not the owner''),
      update_ownership = (\<lambda>o' _ _ _. Ok o'), get_ownership = Ok\<rparr>"

type_synonym sample_pool =
  "((addr \<times> u64 \<times> nat) list, (unit \<times> u64 \<times> nat) list, (addr \<times> nat \<times> expiration) list, string option) stake_state"

definition cw20_deps ::
  "((addr \<times> u64 \<times> nat) list, (unit \<times> u64 \<times> nat) list, (addr \<times> nat \<times> expiration) list, string option) stake_deps" where
  "cw20_deps =
     token_querier.extend (token_querier.truncate sample_staking)
       (stake_deps.fields sample_snapshots sample_snapshots sample_claims sample_ownable
         (\<lambda>m. if m = ''stake'' then Ok ReceiveStake else Ok ReceiveFund))"

lemma cw20_deps_sel [simp]:
  "Cw20_Stake.balances_ops cw20_deps = sample_snapshots" "Cw20_Stake.total_ops cw20_deps = sample_snapshots"
  "Cw20_Stake.claims_api cw20_deps = sample_claims" "addr_validate cw20_deps = Ok"
  "query_token_info cw20_deps a = Ok ()" "ownable cw20_deps = sample_ownable"
  "decode_receive cw20_deps m = (if m = ''stake'' then Ok ReceiveStake else Ok ReceiveFund)"
  by (simp_all add: cw20_deps_def sample_staking_def token_querier.defs stake_deps.defs)

lemma cw20_stores_ok:
  "Cw20_Stake_Props.stores_ok sample_snapshots sample_snapshots sample_claims sample_is_expired saved_till saved_till"
  by (simp add: Cw20_Stake_Props.stores_ok_def sample_snapshot_laws sample_claims_laws)

definition pool_start :: sample_pool where
  "pool_start =
     (Cw20_Stake_Props.empty_state sample_snapshots sample_snapshots sample_claims None)
       \<lparr>OWNERSHIP := Some ''dao'', Cw20_Stake.CONFIG := Some \<lparr>token_address = ''token'', unstaking_duration = None\<rparr>,
        Cw20_Stake.STAKED_TOTAL := [((), 1, 0)], BALANCE := Some 0,
        Cw20_Stake.CONTRACT_INFO := Some (Cw20_Stake.CONTRACT_NAME, CONTRACT_VERSION)\<rparr>"

definition pool_staked :: sample_pool where
  "pool_staked = pool_start\<lparr>Cw20_Stake.STAKED_BALANCES := [(''ann'', 1, 60)],
     Cw20_Stake.STAKED_TOTAL := [((), 1, 60), ((), 1, 0)], BALANCE := Some 60\<rparr>"

definition pool_funded :: sample_pool where
  "pool_funded = pool_staked\<lparr>BALANCE := Some 90\<rparr>"

definition pool_shared :: sample_pool where
  "pool_shared = pool_funded\<lparr>Cw20_Stake.STAKED_BALANCES := [(''bob'', 3, 20), (''ann'', 1, 60)],
     Cw20_Stake.STAKED_TOTAL := [((), 3, 80), ((), 1, 60), ((), 1, 0)], BALANCE := Some 120\<rparr>"

definition cw20_msg :: Cw20_Stake.instantiate_msg where
  "cw20_msg = \<lparr>im_owner = Some ''dao'', im_token_address = ''token'', im_unstaking_duration = None\<rparr>"

lemma cw20_instantiate:
  "Cw20_Stake.instantiate cw20_deps (Cw20_Stake_Props.empty_state sample_snapshots sample_snapshots sample_claims None)
     (sample_env 1) cw20_msg = Ok (pool_start, [])"
  by (simp add: Cw20_Stake.instantiate_def cw20_msg_def sample_ownable_def validate_duration_def pool_start_def
      Cw20_Stake_Props.empty_state_def sample_snapshots_def sample_env_def sample_block_def)

lemmas eval_pool =
  Cw20_Stake.execute_def execute_receive_def Cw20_Stake.execute_stake_def execute_fund_def amount_to_stake_def
  full_mul_div_def pool_start_def pool_staked_def pool_funded_def pool_shared_def Cw20_Stake_Props.empty_state_def
  snap_update_def sample_snapshots_def checked_add128_def sent_by_def sample_env_def sample_block_def
  Cw20_Stake.hook_messages_def stake_hook_msgs_def

lemma cw20_executes:
  "Cw20_Stake.execute cw20_deps pool_start (sample_env 1) (sent_by ''token'')
     (Receive \<lparr>rcv_sender = ''ann'', rcv_amount = 60, rcv_msg = ''stake''\<rparr>) = Ok (pool_staked, [])"
  "Cw20_Stake.execute cw20_deps pool_staked (sample_env 2) (sent_by ''token'')
     (Receive \<lparr>rcv_sender = ''eve'', rcv_amount = 30, rcv_msg = ''fund''\<rparr>) = Ok (pool_funded, [])"
  "Cw20_Stake.execute cw20_deps pool_funded (sample_env 3) (sent_by ''token'')
     (Receive \<lparr>rcv_sender = ''bob'', rcv_amount = 30, rcv_msg = ''stake''\<rparr>) = Ok (pool_shared, [])"
  by (simp_all add: eval_pool)

abbreviation pool_step :: "block_info \<times> sample_pool \<Rightarrow> (nat \<times> nat) list \<Rightarrow> block_info \<times> sample_pool \<Rightarrow> bool" where
  "pool_step \<equiv> stake_step sample_snapshots sample_snapshots sample_claims"

lemma pool_steps:
  "pool_step (sample_block 1, pool_start) [(60, 0)] (sample_block 1, pool_staked)"
  "pool_step (sample_block 1, pool_staked) [(30, 0)] (sample_block 2, pool_funded)"
  "pool_step (sample_block 2, pool_funded) [(30, 0)] (sample_block 3, pool_shared)"
  using stake_step.step_execute [OF cw20_executes(1), of sample_snapshots sample_snapshots sample_claims "sample_block 1"]
    stake_step.step_execute [OF cw20_executes(2), of sample_snapshots sample_snapshots sample_claims "sample_block 1"]
    stake_step.step_execute [OF cw20_executes(3), of sample_snapshots sample_snapshots sample_claims "sample_block 2"]
  by (simp_all add: received_def token_of_def pool_staked_def pool_funded_def pool_start_def block_le_def sample_env_def
      sample_block_def sent_by_def)

lemma pool_runs:
  "module_run pool_step (sample_block 1, pool_start) [(60, 0)] (sample_block 1, pool_staked)"
  "module_run pool_step (sample_block 1, pool_start) [(60, 0), (30, 0)] (sample_block 2, pool_funded)"
proof -
  show 1: "module_run pool_step (sample_block 1, pool_start) [(60, 0)] (sample_block 1, pool_staked)"
    by (rule run_one [of pool_step, OF pool_steps(1)])
  show "module_run pool_step (sample_block 1, pool_start) [(60, 0), (30, 0)] (sample_block 2, pool_funded)"
    using module_run_append [OF run_one [of pool_step, OF pool_steps(2)] 1] by simp
qed

lemma pool_vaults:
  "vault_of sample_snapshots pool_staked = (60, 60)" "vault_of sample_snapshots pool_funded = (60, 90)"
  "vault_of sample_snapshots pool_shared = (80, 120)"
  by (simp_all add: vault_of_def pool_total_def pool_staked_def pool_funded_def pool_shared_def pool_start_def
      sample_snapshots_def)

lemma block_sample_env: "block (sample_env h) = sample_block h"
  by (simp add: sample_env_def)

text \<open>The same stake in the voting module: Ann proposes at height 2.\<close>

definition cw20_voting_sample :: cw20_voting_deps where
  "cw20_voting_sample =
     cw_env.extend (cw_env.truncate sample_staking)
       (cw20_voting_deps.fields (\<lambda>_. Ok 1000) (\<lambda>_. Ok \<lparr>token_address = ''token'', unstaking_duration = None\<rparr>)
         (\<lambda>_. query_staked_balance_at_height cw20_deps pool_staked (sample_env 2))
         (\<lambda>_. query_total_staked_at_height cw20_deps pool_staked (sample_env 2)) (\<lambda>_. '''') (\<lambda>_. ''''))"

definition cw20_voting_start :: cw20_voting_state where
  "cw20_voting_start =
     cw20_voting_state.make None None (Some ''token'') (Some ''dao'') (Some ''staking'') None None None"

lemma cw20_voting_sel [simp]:
  "query_staked_balance cw20_voting_sample c = query_staked_balance_at_height cw20_deps pool_staked (sample_env 2)"
  "query_total_staked cw20_voting_sample c = query_total_staked_at_height cw20_deps pool_staked (sample_env 2)"
  "addr_validate cw20_voting_sample a = Ok a" "STAKING_CONTRACT cw20_voting_start = Some ''staking''"
  by (simp_all add: cw20_voting_sample_def cw_env.defs cw20_voting_deps.defs sample_staking_def cw20_voting_start_def
      cw20_voting_state.defs)

lemma pool_powers:
  "share_at sample_snapshots pool_staked a h = power_at sample_snapshots staking_staked a h"
  "shares_at sample_snapshots pool_staked h = total_at sample_snapshots staking_staked h"
  by (simp_all add: share_at_def shares_at_def power_at_def total_at_def pool_staked_def staking_staked_def
      sample_snapshots_def)

abbreviation cw20_joint_step ::
  "block_info \<times> sample_pool \<times> string condorcet_state \<Rightarrow> string event list
     \<Rightarrow> block_info \<times> sample_pool \<times> string condorcet_state \<Rightarrow> bool" where
  "cw20_joint_step \<equiv> joint_step (share_at sample_snapshots) (shares_at sample_snapshots) pool_step (is_expired staked_querier)"

lemma cw20_run_proposed:
  "module_run cw20_joint_step (sample_block 1, pool_start, condorcet_start) [] (sample_block 2, pool_staked, staked_proposed)"
proof -
  have 1: "cw20_joint_step (sample_block 1, pool_start, condorcet_start) [] (sample_block 1, pool_staked, condorcet_start)"
    by (rule joint_members [of pool_step, OF pool_steps(1)])
  have "answers (share_at sample_snapshots) (shares_at sample_snapshots) pool_staked (block (sample_env 2)) staked_querier"
    by (simp add: answers_def staked_querier_def pool_powers block_sample_env)
  then have 2: "cw20_joint_step (sample_block 1, pool_staked, condorcet_start) [] (sample_block 2, pool_staked, staked_proposed)"
    using joint_execute [OF staked_propose staked_u128, of "is_expired staked_querier" "sample_block 1"]
    by (simp add: events_def block_le_def sample_block_def sample_env_def)
  show ?thesis using module_run_append [OF run_one [of cw20_joint_step, OF 2] run_one [of cw20_joint_step, OF 1]] by simp
qed

section \<open>Claims\<close>

text \<open>C28: Solvency. At every point of every run of the staking contract, the configured token, the one
  validated at instantiation, is the same, and the tokens that this token contract reported are those
  sent away, those that the shares are worth and those in claims; reports of other senders count for
  nothing. There are never more shares than tokens behind them, the shares of the members add up to
  the total, and whatever message comes next, it pays out only that token and only to its sender.\<close>

theorem cw20_solvent:
  assumes "Cw20_Stake_Props.stores_ok bo to co expiry bu tu" and "Cw20_Stake.total_ops deps = to"
    and "Cw20_Stake.instantiate deps (Cw20_Stake_Props.empty_state bo to co own) env msg = Ok (st0, ms0)"
    and "module_run (stake_step bo to co) (block env, st0) log (b, st)"
  shows "\<exists>T B token. snap_load to (Cw20_Stake.STAKED_TOTAL st) () = Some T \<and> BALANCE st = Some B \<and> T \<le> B
    \<and> addr_validate deps (im_token_address msg) = Ok token \<and> token_of st = Some token
    \<and> (\<Sum>f \<leftarrow> log. fst f) = (\<Sum>f \<leftarrow> log. snd f) + B + claims_total co (Cw20_Stake.CLAIMS st)
    \<and> balanced bo to (Cw20_Stake.STAKED_BALANCES st) (Cw20_Stake.STAKED_TOTAL st)
    \<and> (\<forall>deps' env' info msg' st' ms m c a n fs.
         Cw20_Stake.execute (deps' :: ('b, 't, 'c, 'o) stake_deps) st env' info msg' = Ok (st', ms) \<longrightarrow> m \<in> set ms \<longrightarrow>
         msg_body m = WasmExecute c (Cw20Transfer a n) fs \<longrightarrow> c = token \<and> a = sender info)"
proof -
  have start: "\<exists>token. addr_validate deps (im_token_address msg) = Ok token \<and> token_of st0 = Some token"
    "Cw20_Stake.V1_CONFIG st0 = None"
    using assms(3) by (auto simp: Cw20_Stake.instantiate_def Cw20_Stake_Props.empty_state_def token_of_def result_ok)
  then obtain token where tok: "addr_validate deps (im_token_address msg) = Ok token" "token_of st = Some token"
    using stake_run_token [OF assms(4)] by auto
  then have pays: "c = token \<and> a = sender info"
    if "Cw20_Stake.execute deps' st env' info msg' = Ok (st', ms)" "m \<in> set ms"
      "msg_body m = WasmExecute c (Cw20Transfer a n) fs"
    for deps' :: "('b, 't, 'c, 'o) stake_deps" and env' info msg' st' ms m c a n fs
    using execute_pays_sender [OF that] by simp
  from stake_run_inv [OF assms(4,1) instantiate_pool_inv [OF assms(3,1,2)]]
  have inv: "pool_inv bo to co bu tu log (b, st)" by simp
  then obtain T B where "pool_total to st = Some T" "BALANCE st = Some B" "T \<le> B"
    "(\<Sum>f \<leftarrow> log. fst f) = (\<Sum>f \<leftarrow> log. snd f) + B + claims_total co (Cw20_Stake.CLAIMS st)"
    by (rule pool_invE)
  moreover have "balanced bo to (Cw20_Stake.STAKED_BALANCES st) (Cw20_Stake.STAKED_TOTAL st)"
    using inv by (simp add: pool_inv_def)
  ultimately show ?thesis
    using tok pays by (intro exI [of _ T] exI [of _ B] exI [of _ token] conjI allI impI) (simp_all add: pool_total_def)
qed

theorem cw20_solvent_witness:
  "(\<Sum>f \<leftarrow> [(60 :: nat, 0 :: nat), (30, 0)]. fst f) = (\<Sum>f \<leftarrow> [(60 :: nat, 0 :: nat), (30, 0)]. snd f) + 90
     + claims_total sample_claims (Cw20_Stake.CLAIMS pool_funded) \<and> token_of pool_funded = Some ''token''"
proof -
  from cw20_solvent [OF cw20_stores_ok cw20_deps_sel(2) cw20_instantiate, unfolded block_sample_env, OF pool_runs(2)]
  obtain B token where "BALANCE pool_funded = Some B" "token_of pool_funded = Some token"
    "(\<Sum>f \<leftarrow> [(60 :: nat, 0 :: nat), (30, 0)]. fst f) = (\<Sum>f \<leftarrow> [(60 :: nat, 0 :: nat), (30, 0)]. snd f) + B
      + claims_total sample_claims (Cw20_Stake.CLAIMS pool_funded)"
    "addr_validate cw20_deps (im_token_address cw20_msg) = Ok token" by (elim exE conjE)
  then show ?thesis by (simp add: pool_funded_def cw20_msg_def)
qed

text \<open>C29: The staking contract implements a vault: whatever messages arrive, its number of shares and
  its tokens change only as a deposit at the current price rounded down, a withdrawal at the current
  price rounded down, or a donation.\<close>

theorem cw20_refines_vault:
  assumes "Cw20_Stake_Props.stores_ok bo to co expiry bu tu" and "Cw20_Stake.total_ops deps = to"
    and "Cw20_Stake.instantiate deps (Cw20_Stake_Props.empty_state bo to co own) env msg = Ok (st0, ms0)"
    and "module_run (stake_step bo to co) (block env, st0) log (b, st)"
    and "stake_step bo to co (b, st) l (b', st')"
  shows "vault_of to st0 = (0, 0) \<and> vault_step\<^sup>*\<^sup>* (0, 0) (vault_of to st)
    \<and> vault_step (vault_of to st) (vault_of to st')"
proof -
  note inv = instantiate_pool_inv [OF assms(3,1,2)]
  have "snapshot_laws to tu" using assms(1) by (simp add: Cw20_Stake_Props.stores_ok_def)
  then have start: "vault_of to st0 = (0, 0)"
    using assms(2,3) snapshot_load [of to tu]
    by (auto simp: Cw20_Stake.instantiate_def Cw20_Stake_Props.empty_state_def result_ok vault_of_def pool_total_def)
  have "vault_step (vault_of to st) (vault_of to st')"
    using stake_step_vault [OF assms(5,1) stake_run_inv [OF assms(4,1) inv]] by simp
  with start stake_run_vault [OF assms(4,1) inv] show ?thesis by simp
qed

theorem cw20_refines_vault_witness:
  "vault_step (vault_of sample_snapshots pool_funded) (vault_of sample_snapshots pool_shared)"
  using cw20_refines_vault [OF cw20_stores_ok cw20_deps_sel(2) cw20_instantiate, unfolded block_sample_env,
      OF pool_runs(2) pool_steps(3)] by blast

text \<open>C30: No dilution. While shares remain, tokens per share never fall: between any two points of a run
  whose states all have shares, the later ratio of tokens to shares is at least the earlier one, so
  nobody's stake loses value by what others stake, take back or donate.\<close>

theorem cw20_no_dilution:
  assumes "Cw20_Stake_Props.stores_ok bo to co expiry bu tu" and "Cw20_Stake.total_ops deps = to"
    and "Cw20_Stake.instantiate deps (Cw20_Stake_Props.empty_state bo to co own) env msg = Ok (st0, ms0)"
    and "module_run (stake_step bo to co) (block env, st0) log (b, st)"
    and "vault_of to st = (T, B)" and "0 < T"
    and "module_run (kept_stake bo to co) (b, st) log' (b', st')" and "vault_of to st' = (T', B')"
  shows "B * T' \<le> B' * T"
  using kept_run_price [OF assms(7,1) stake_run_inv [OF assms(4,1) instantiate_pool_inv [OF assms(3,1,2)]]]
    assms(5,6,8) by simp

theorem cw20_no_dilution_witness: "90 * 80 \<le> 120 * (60 :: nat)"
proof -
  have "kept_stake sample_snapshots sample_snapshots sample_claims (sample_block 2, pool_funded) [(30, 0)]
      (sample_block 3, pool_shared)"
    using pool_steps(3) pool_vaults(3) by (simp add: kept_stake_def)
  from cw20_no_dilution [OF cw20_stores_ok cw20_deps_sel(2) cw20_instantiate, unfolded block_sample_env,
      OF pool_runs(2) pool_vaults(2) _ run_one [of "kept_stake sample_snapshots sample_snapshots sample_claims", OF this]
        pool_vaults(3)]
  show ?thesis by simp
qed

text \<open>Staking gains nothing by itself. Where shares exist and are backed, staking \<open>n\<close> tokens never
  panics and gives at most \<open>n\<close> shares, and taking those shares back at once pays at most \<open>n\<close>
  tokens: rounding goes against whoever moves first.\<close>

theorem cw20_round_trip:
  assumes "0 < T" and "T \<le> B" and "n < 2 ^ 128"
  shows "\<exists>x c. amount_to_stake T B n = (Ok x :: (_, Cw20_Stake.contract_error) result) \<and> x \<le> n
    \<and> amount_to_claim (T + x) (B + n) x = (Ok c :: (_, Cw20_Stake.contract_error) result) \<and> c \<le> n"
proof -
  have "T * n div B \<le> n" by (rule deposited_le [OF assms(2)])
  moreover have "T * n div B * (B + n) div (T + T * n div B) \<le> n" using no_free_tokens [OF assms(1,2)] by blast
  ultimately show ?thesis using assms
    by (intro exI [of _ "T * n div B"] exI [of _ "T * n div B * (B + n) div (T + T * n div B)"])
       (simp add: amount_to_stake_def amount_to_claim_def full_mul_div_def)
qed

theorem cw20_round_trip_witness:
  "\<exists>x c. amount_to_stake 60 90 31 = (Ok x :: (_, Cw20_Stake.contract_error) result) \<and> x \<le> 31
    \<and> amount_to_claim (60 + x) (90 + 31) x = (Ok c :: (_, Cw20_Stake.contract_error) result) \<and> c \<le> 31"
  using cw20_round_trip [of 60 90 31] by simp

text \<open>C31: Shares can be taken back. Where no unstaking period is set, a member can at any time unstake any
  part of its shares, unless the amount and the tokens together reach the limit of 128 bits: no
  step of the computation fails, and the shares' worth of tokens is sent in the same transaction.\<close>

theorem cw20_unstake_available:
  assumes "Cw20_Stake_Props.stores_ok (Cw20_Stake.balances_ops deps) (Cw20_Stake.total_ops deps) co expiry bu tu"
    and "Cw20_Stake.total_ops deps0 = Cw20_Stake.total_ops deps"
    and "Cw20_Stake.instantiate deps0 (Cw20_Stake_Props.empty_state (Cw20_Stake.balances_ops deps)
      (Cw20_Stake.total_ops deps) co own) env0 msg = Ok (st0, ms0)"
    and "module_run (stake_step (Cw20_Stake.balances_ops deps) (Cw20_Stake.total_ops deps) co) (block env0, st0) log (b, st)"
    and "Cw20_Stake.CONFIG st = Some \<lparr>token_address = token, unstaking_duration = None\<rparr>"
    and "vault_of (Cw20_Stake.total_ops deps) st = (T, B)" and "n + B < 2 ^ 128 - 1" and "0 < n"
    and "n \<le> or_zero (snap_load (Cw20_Stake.balances_ops deps) (Cw20_Stake.STAKED_BALANCES st) (sender info))"
  shows "\<exists>st' ms. Cw20_Stake.execute deps st env info (Unstake_Shares n)
      = Ok (st', sub_msg_new (WasmExecute token (Cw20Transfer (sender info) (n * B div T)) []) # ms)"
proof -
  have inv: "pool_inv (Cw20_Stake.balances_ops deps) (Cw20_Stake.total_ops deps) co bu tu log (b, st)"
    using stake_run_inv [OF assms(4,1) instantiate_pool_inv [OF assms(3,1,2)]] by simp
  then have tot: "pool_total (Cw20_Stake.total_ops deps) st = Some T" "BALANCE st = Some B"
    using assms(6) by (auto elim!: pool_invE simp: vault_of_def)
  have "balanced (Cw20_Stake.balances_ops deps) (Cw20_Stake.total_ops deps) (Cw20_Stake.STAKED_BALANCES st) (Cw20_Stake.STAKED_TOTAL st)"
    using inv by (simp add: pool_inv_def)
  from balanced_load [OF this, of "sender info"] have n: "n \<le> T" "0 < T"
    using assms(8,9) tot(1) by (simp_all add: pool_total_def)
  have "n * B div T \<le> B" by (rule withdrawn_le [OF n])
  with n tot assms(5,7,9) show ?thesis
    by (simp add: Cw20_Stake.execute_def Cw20_Stake.execute_unstake_def snap_update_def pool_total_def
        amount_to_claim_def full_mul_div_def checked_sub128_def Cw20_Stake.release_or_claim_def cw20_transfer_def)
qed

theorem cw20_unstake_available_witness:
  "\<exists>st' ms. Cw20_Stake.execute cw20_deps pool_funded (sample_env 3) (sent_by ''ann'') (Unstake_Shares 20)
      = Ok (st', sub_msg_new (WasmExecute ''token'' (Cw20Transfer ''ann'' (20 * 90 div 60)) []) # ms)"
  using cw20_unstake_available [of cw20_deps sample_claims, unfolded cw20_deps_sel, OF cw20_stores_ok cw20_deps_sel(2)
      cw20_instantiate, unfolded block_sample_env, OF pool_runs(2) _ pool_vaults(2), of "''token''" 20 "sent_by ''ann''"]
  by (simp add: pool_funded_def pool_staked_def pool_start_def sample_snapshots_def sent_by_def)

end
