(* ===== verification/Cw20_Dao.thy ===== *)
theory Cw20_Dao
  imports Cw20_Claims Dao_Core_Claims
begin

text \<open>
  A DAO whose members vote with staked cw20 tokens: the ranked-choice module, the core,
  \<open>dao-voting-cw20-staked\<close> and \<open>cw20-stake\<close>. A query that one contract sends to the address
  it has stored for another one is answered by the query function of that contract.
\<close>

section \<open>Who answers a query\<close>

text \<open>The staking contract at the address \<open>c\<close> answers the voting module.\<close>

definition staking_answers ::
  "addr \<Rightarrow> ('b, 't, 'c, 'o, 'x) stake_deps_scheme \<Rightarrow> ('b, 't, 'c, 'o) stake_state \<Rightarrow> env
     \<Rightarrow> 'y cw20_voting_deps_scheme \<Rightarrow> 'y cw20_voting_deps_scheme" where
  "staking_answers c sdeps s env vdeps = vdeps
     \<lparr>query_staked_balance := (\<lambda>x a h. if x = c then query_staked_balance_at_height sdeps s env a h
        else query_staked_balance vdeps x a h),
      query_total_staked := (\<lambda>x h. if x = c then query_total_staked_at_height sdeps s env h
        else query_total_staked vdeps x h)\<rparr>"

text \<open>The voting module at the address \<open>v\<close> answers the core.\<close>

definition voting_answers ::
  "addr \<Rightarrow> 'y cw20_voting_deps_scheme \<Rightarrow> cw20_voting_state \<Rightarrow> 'm core_deps \<Rightarrow> 'm core_deps" where
  "voting_answers v vdeps vs cdeps = cdeps
     \<lparr>module_voting_power := (\<lambda>x a h. if x = v
        then and_then (Voting_Cw20_Staked.query_voting_power_at_height vdeps vs a h) (\<lambda>(p, _). Ok p)
        else module_voting_power cdeps x a h),
      module_total_power := (\<lambda>x h. if x = v
        then and_then (Voting_Cw20_Staked.query_total_power_at_height vdeps vs h) (\<lambda>(p, _). Ok p)
        else module_total_power cdeps x h)\<rparr>"

text \<open>The core at the address \<open>dao\<close> answers the proposal module.\<close>

definition core_answers ::
  "addr \<Rightarrow> 'm core_deps \<Rightarrow> 'm core_state \<Rightarrow> 'x dao_querier_scheme \<Rightarrow> 'x dao_querier_scheme" where
  "core_answers dao cdeps core deps = deps
     \<lparr>query_voting_power := (\<lambda>x a h. if x = dao then Dao_Core.query_voting_power_at_height cdeps core a h
        else query_voting_power deps x a h),
      query_total_power := (\<lambda>x h. if x = dao then Dao_Core.query_total_power_at_height cdeps core h
        else query_total_power deps x h)\<rparr>"

definition dao_network ::
  "addr \<Rightarrow> 'm core_deps \<Rightarrow> 'm core_state \<Rightarrow> addr \<Rightarrow> 'y cw20_voting_deps_scheme \<Rightarrow> cw20_voting_state \<Rightarrow> addr
     \<Rightarrow> ('b, 't, 'c, 'o, 'x) stake_deps_scheme \<Rightarrow> ('b, 't, 'c, 'o) stake_state \<Rightarrow> env
     \<Rightarrow> 'z dao_querier_scheme \<Rightarrow> 'z dao_querier_scheme" where
  "dao_network dao cdeps core v vdeps vs c sdeps s env deps =
     core_answers dao (voting_answers v (staking_answers c sdeps s env vdeps) vs cdeps) core deps"

text \<open>Through all four contracts, the power of an account is its shares.\<close>

lemma network_power:
  assumes "VOTING_MODULE core = Some v" and "STAKING_CONTRACT vs = Some c"
    and "addr_validate vdeps a = Ok a" and "addr_validate sdeps a = Ok a"
  shows "query_voting_power (dao_network dao cdeps core v vdeps vs c sdeps s env deps) dao a h =
    Ok (share_at (Cw20_Stake.balances_ops sdeps) s a (at_height (block env) h))"
  using assms
  by (simp add: dao_network_def core_answers_def voting_answers_def staking_answers_def
      Dao_Core.query_voting_power_at_height_def Voting_Cw20_Staked.query_voting_power_at_height_def
      query_staked_balance_at_height_def share_at_def at_height_def Let_def)

lemma network_expiry [simp]:
  "is_expired (dao_network dao cdeps core v vdeps vs c sdeps s env deps) = is_expired deps"
  by (simp add: dao_network_def core_answers_def)

section \<open>Voting\<close>

text \<open>C32: Four contracts together. The ranked-choice module asks the core for a member's power, the core
  forwards the query to its voting module, and that one asks its staking contract. In every state that
  the staking contract and the ranked-choice module reach together, whoever had shares at the height at
  which a proposal was made and has not voted on it can cast any ranking of the candidates until the
  proposal expires, and the ranking is stored.\<close>

theorem cw20_member_can_vote:
  assumes "Cw20_Stake_Props.stores_ok (Cw20_Stake.balances_ops sdeps) (Cw20_Stake.total_ops sdeps) co expiry' bu tu"
    and "Cw20_Stake.instantiate sdeps0 (Cw20_Stake_Props.empty_state (Cw20_Stake.balances_ops sdeps)
      (Cw20_Stake.total_ops sdeps) co own) env0 msg1 = Ok (s0, r0)"
    and "Cw20_Stake.total_ops sdeps0 = Cw20_Stake.total_ops sdeps"
    and "Condorcet_Contract.instantiate Condorcet_Props.empty_state info2 cfg = Ok (c0, ms0)"
    and "module_run (joint_step (share_at (Cw20_Stake.balances_ops sdeps)) (shares_at (Cw20_Stake.total_ops sdeps))
      (stake_step (Cw20_Stake.balances_ops sdeps) (Cw20_Stake.total_ops sdeps) co) expiry) (block env0, s0, c0) log (b, s, c)"
    and "TALLY c pid = Some t" and "Condorcet_Contract.DAO c = Some dao"
    and "VOTING_MODULE core = Some vm" and "STAKING_CONTRACT vs = Some staking"
    and "addr_validate vdeps (sender info) = Ok (sender info)" and "addr_validate sdeps (sender info) = Ok (sender info)"
    and "0 < share_at (Cw20_Stake.balances_ops sdeps) s (sender info) (tally_start_height t)"
    and "VOTE c (pid, sender info) = None" and "\<not> is_expired deps (tally_expiration t) (block env)"
    and "valid_ranking (candidates t) v"
  shows "\<exists>c'. Condorcet_Contract.execute (dao_network dao cdeps core vm vdeps vs staking sdeps s env deps) c env info
      (Vote pid v) = Ok (c', []) \<and> VOTE c' = (VOTE c)((pid, sender info) \<mapsto> v)"
proof -
  note run = cw20_run [OF assms(1-5)]
  let ?net = "dao_network dao cdeps core vm vdeps vs staking sdeps s env deps"
  have p: "query_voting_power ?net dao (sender info) (Some (tally_start_height t))
      = Ok (share_at (Cw20_Stake.balances_ops sdeps) s (sender info) (tally_start_height t))"
    by (simp add: network_power [OF assms(8-11)])
  have e: "\<not> is_expired ?net (tally_expiration t) (block env)" using assms(14) by simp
  from vote_accepted [OF weighedD(1) [OF run(2)] assms(6,7) p assms(12)
      cw20.outstanding_share [OF run assms(6,13)] assms(13) e assms(15)] show ?thesis by auto
qed

definition voting_core :: "string core_state" where
  "voting_core = core_two\<lparr>VOTING_MODULE := Some ''voting''\<rparr>"

theorem cw20_member_can_vote_witness:
  "\<exists>c. Condorcet_Contract.execute (dao_network ''dao'' sample_core voting_core ''voting'' cw20_voting_sample
      cw20_voting_start ''staking'' cw20_deps pool_staked (sample_env 2) staked_querier) staked_proposed (sample_env 2)
      (sent_by ''ann'') (Vote 1 [2, 1, 0]) = Ok (c, [])"
proof -
  have "0 < share_at sample_snapshots pool_staked ''ann'' (tally_start_height staked_tally)"
    using ann_power(1) by (simp add: pool_powers staked_tally_def)
  then show ?thesis
    using cw20_member_can_vote [of cw20_deps sample_claims, unfolded cw20_deps_sel, OF cw20_stores_ok cw20_instantiate
        cw20_deps_sel(2) Condorcet_Claims.sample_instantiate, unfolded block_sample_env, OF cw20_run_proposed staked_ready(1,2),
        of voting_core "''voting''" cw20_voting_start "''staking''" cw20_voting_sample "sent_by ''ann''"
          staked_querier "sample_env 2" "[2, 1, 0]" sample_core] staked_ready(3-5)
    by (auto simp: sent_by_def voting_core_def)
qed

end
