(* ===== verification/Cw_Wormhole.thy ===== *)
theory Cw_Wormhole
  imports Prelude
begin

text \<open>
  \<open>packages/cw-wormhole\<close>: a map whose values have a history and a future. The value of a key at
  a time is the last one stored at or before it; an update changes the value from its time on.
  The source stores the values in one map from pairs of a key and a time. The lemmas say what every
  later and every earlier reading of the map gives after an update.
\<close>

type_synonym ('k, 'v) wormhole = "'k \<times> u64 \<rightharpoonup> 'v"

section \<open>The operations\<close>

definition times_of :: "('k, 'v) wormhole \<Rightarrow> 'k \<Rightarrow> u64 \<rightharpoonup> 'v" where
  "times_of m k = (\<lambda>t. m (k, t))"

text \<open>\<open>load\<close>: the first entry of the range up to \<open>t\<close>, inclusive, in descending order.\<close>

definition wormhole_load :: "('k, 'v) wormhole \<Rightarrow> 'k \<Rightarrow> u64 \<Rightarrow> 'v option" where
  "wormhole_load m k t =
     (case rev (filter (\<lambda>(t', _). t' \<le> t) (entries (times_of m k))) of
        [] \<Rightarrow> None
      | (_, v) # _ \<Rightarrow> Some v)"

definition value_at :: "'v \<Rightarrow> ('k, 'v) wormhole \<Rightarrow> 'k \<Rightarrow> u64 \<Rightarrow> 'v" where
  "value_at d m k t = (case wormhole_load m k t of None \<Rightarrow> d | Some v \<Rightarrow> v)"

text \<open>One iteration of the loop of \<open>update\<close>, with the preceding value.\<close>

definition update_later ::
  "'k \<Rightarrow> ('v \<Rightarrow> u64 \<Rightarrow> ('v, 'e) result) \<Rightarrow> ('k, 'v) wormhole \<times> 'v \<Rightarrow> u64 \<times> 'v
     \<Rightarrow> (('k, 'v) wormhole \<times> 'v, 'e) result" where
  "update_later k f = (\<lambda>(m, preceding_value) (t, v).
     and_then (f v t) (\<lambda>updated_value.
     Ok (if updated_value \<noteq> preceding_value then m((k, t) \<mapsto> updated_value) else m((k, t) := None),
         updated_value)))"

text \<open>\<open>d\<close> is \<open>Default::default()\<close> of the type of the values.\<close>

definition wormhole_update ::
  "'v \<Rightarrow> ('k, 'v) wormhole \<Rightarrow> 'k \<Rightarrow> u64 \<Rightarrow> ('v \<Rightarrow> u64 \<Rightarrow> ('v, 'e) result)
     \<Rightarrow> (('k, 'v) wormhole \<times> 'v, 'e) result" where
  "wormhole_update d m k t f =
     and_then (f (value_at d m k t) t) (\<lambda>updated.
     let m = m((k, t) \<mapsto> updated) in
     and_then (try_fold (update_later k f) (m, updated) (range_after (times_of m k) (Some t))) (\<lambda>(m, _).
     Ok (m, updated)))"

definition dangerously_update ::
  "'v \<Rightarrow> ('k, 'v) wormhole \<Rightarrow> 'k \<Rightarrow> u64 \<Rightarrow> ('v \<Rightarrow> u64 \<Rightarrow> ('v, 'e) result)
     \<Rightarrow> (('k, 'v) wormhole \<times> 'v, 'e) result" where
  "dangerously_update d m k t f =
     and_then (f (value_at d m k t) t) (\<lambda>updated. Ok (m((k, t) \<mapsto> updated), updated))"

text \<open>For \<open>Uint128\<close> values, where the operators \<open>+\<close> and \<open>-\<close> panic out of range.\<close>

definition wormhole_increment ::
  "('k, nat) wormhole \<Rightarrow> 'k \<Rightarrow> u64 \<Rightarrow> nat \<Rightarrow> (('k, nat) wormhole \<times> nat, 'e) result" where
  "wormhole_increment m k t i = wormhole_update 0 m k t (\<lambda>v _. add128 v i)"

definition wormhole_decrement ::
  "('k, nat) wormhole \<Rightarrow> 'k \<Rightarrow> u64 \<Rightarrow> nat \<Rightarrow> (('k, nat) wormhole \<times> nat, 'e) result" where
  "wormhole_decrement m k t i = wormhole_update 0 m k t (\<lambda>v _. sub128 v i)"

section \<open>Reading\<close>

lemma finite_times [simp]: "finite (dom (times_of m k))"
  by (rule finite_subset [of _ UNIV]) simp_all

lemma set_times: "set (entries (times_of m k)) = {(t, v). m (k, t) = Some v}"
  by (simp add: set_entries times_of_def)

lemma sorted_times: "sorted_wrt (<) (map fst (entries (times_of m k)))"
  by (simp add: sorted_entries strict_sorted_list_of_set)

text \<open>The last stored entry decides; without an entry there is no value.\<close>

lemma last_of_sorted:
  assumes "sorted_wrt (<) (map fst xs)" and "(t, v) \<in> set xs" and "\<forall>(t', _) \<in> set xs. t' \<le> t"
  shows "\<exists>ys. xs = ys @ [(t :: 'a :: linorder, v)]"
  using assms
proof (induction xs rule: rev_induct)
  case (snoc x xs)
  obtain t' v' where [simp]: "x = (t', v')" by (cases x)
  from snoc.prems(1,3) have "t' \<le> t" "\<forall>y \<in> set xs. fst y < t'"
    by (auto simp: sorted_wrt_append)
  with snoc.prems(2) show ?case by force
qed simp

lemma load_last:
  assumes "m (k, a) = Some v" and "a \<le> t" and "\<And>t'. a < t' \<Longrightarrow> t' \<le> t \<Longrightarrow> m (k, t') = None"
  shows "wormhole_load m k t = Some v"
proof -
  let ?xs = "filter (\<lambda>(t', _). t' \<le> t) (entries (times_of m k))"
  have "sorted_wrt (<) (map fst ?xs)"
    using sorted_times [of m k] by (simp add: sorted_wrt_map sorted_wrt_filter)
  moreover have "(a, v) \<in> set ?xs" using assms(1,2) by (simp add: set_times)
  moreover have "t' \<le> a" if "(t', v') \<in> set ?xs" for t' v'
  proof (rule ccontr)
    assume "\<not> t' \<le> a"
    moreover from that have "m (k, t') = Some v'" "t' \<le> t" by (simp_all add: set_times)
    ultimately show False using assms(3) [of t'] by simp
  qed
  then have "\<forall>(t', _) \<in> set ?xs. t' \<le> a" by blast
  ultimately have "\<exists>ys. ?xs = ys @ [(a, v)]" by (rule last_of_sorted)
  then obtain ys where "?xs = ys @ [(a, v)]" by (elim exE)
  then show ?thesis by (simp add: wormhole_load_def)
qed

lemma load_here: "m (k, t) = Some v \<Longrightarrow> wormhole_load m k t = Some v"
  by (rule load_last [where a = t]) auto

lemma load_none: "(\<And>t'. t' \<le> t \<Longrightarrow> m (k, t') = None) \<Longrightarrow> wormhole_load m k t = None"
proof -
  assume "\<And>t'. t' \<le> t \<Longrightarrow> m (k, t') = None"
  then have "filter (\<lambda>(t', _). t' \<le> t) (entries (times_of m k)) = []"
    by (force simp: filter_empty_conv set_times)
  then show ?thesis by (simp add: wormhole_load_def)
qed

lemma last_entry:
  assumes "m (k, b) \<noteq> None" and "b \<le> (t :: u64)"
  shows "\<exists>a v. a \<le> t \<and> m (k, a) = Some v \<and> (\<forall>t'. a < t' \<and> t' \<le> t \<longrightarrow> m (k, t') = None)"
proof -
  let ?A = "{a. a \<le> t \<and> m (k, a) \<noteq> None}"
  have fin: "finite ?A" by (rule finite_subset [of _ UNIV]) simp_all
  have ne: "?A \<noteq> {}" using assms by auto
  have "Max ?A \<in> ?A" using fin ne by (rule Max_in)
  moreover have "m (k, t') = None" if "Max ?A < t'" "t' \<le> t" for t'
  proof (rule ccontr)
    assume "m (k, t') \<noteq> None"
    with that(2) have "t' \<in> ?A" by simp
    with fin have "t' \<le> Max ?A" by (rule Max_ge)
    with that(1) show False by simp
  qed
  ultimately show ?thesis by blast
qed

text \<open>Reading depends on the entries up to the time only, and stays constant between entries.\<close>

lemma load_cong:
  assumes "\<And>t'. t' \<le> t \<Longrightarrow> m (k, t') = m' (k, t')"
  shows "wormhole_load m k t = wormhole_load m' k t"
proof (cases "\<exists>b \<le> t. m (k, b) \<noteq> None")
  case True
  then obtain b where b: "m (k, b) \<noteq> None" "b \<le> t" by blast
  with last_entry [of m k b t] obtain a v where
    a: "a \<le> t" "m (k, a) = Some v" "\<forall>t'. a < t' \<and> t' \<le> t \<longrightarrow> m (k, t') = None" by blast
  have "wormhole_load m k t = Some v" by (rule load_last [of m k a, OF a(2,1)]) (simp add: a(3))
  moreover have "wormhole_load m' k t = Some v"
  proof (rule load_last)
    show "m' (k, a) = Some v" "a \<le> t" using a(1,2) assms [of a] by simp_all
    show "m' (k, t') = None" if "a < t'" "t' \<le> t" for t' using that a(3) assms [of t'] by simp
  qed
  ultimately show ?thesis by simp
next
  case False
  have "wormhole_load m k t = None" by (rule load_none) (use False in blast)
  moreover have "wormhole_load m' k t = None"
    by (rule load_none) (use False assms in \<open>metis\<close>)
  ultimately show ?thesis by simp
qed

lemma load_constant:
  assumes "a \<le> t" and "\<And>t'. a < t' \<Longrightarrow> t' \<le> t \<Longrightarrow> m (k, t') = None"
  shows "wormhole_load m k t = wormhole_load m k a"
proof (cases "\<exists>b \<le> a. m (k, b) \<noteq> None")
  case True
  then obtain b where "m (k, b) \<noteq> None" "b \<le> a" by blast
  with last_entry [of m k b a] obtain c v where
    c: "c \<le> a" "m (k, c) = Some v" "\<forall>t'. c < t' \<and> t' \<le> a \<longrightarrow> m (k, t') = None" by blast
  have "m (k, t') = None" if "c < t'" "t' \<le> t" for t'
    using that c(3) assms(2) by (cases "t' \<le> a") auto
  then have "wormhole_load m k t = Some v" using c(1,2) assms(1) by (intro load_last [of m k c v t]) auto
  moreover have "wormhole_load m k a = Some v" by (rule load_last [of m k c, OF c(2,1)]) (simp add: c(3))
  ultimately show ?thesis by simp
next
  case False
  have "m (k, t') = None" if "t' \<le> t" for t'
    using that False assms(2) by (cases "t' \<le> a") auto
  then have "wormhole_load m k t = None" by (rule load_none)
  moreover have "wormhole_load m k a = None" by (rule load_none) (use False in blast)
  ultimately show ?thesis by simp
qed

lemma load_other: "(\<And>t. m (k, t) = m' (k, t)) \<Longrightarrow> wormhole_load m k t = wormhole_load m' k t"
  by (rule load_cong) simp

lemma value_here: "m (k, t) = Some v \<Longrightarrow> value_at d m k t = v"
  by (simp add: value_at_def load_here)

lemma value_cong:
  assumes "\<And>t'. t' \<le> t \<Longrightarrow> m (k, t') = m' (k, t')"
  shows "value_at d m k t = value_at d m' k t"
  unfolding value_at_def using load_cong [of t m k m', OF assms] by simp

lemma value_constant:
  assumes "a \<le> t" and "\<And>t'. a < t' \<Longrightarrow> t' \<le> t \<Longrightarrow> m (k, t') = None"
  shows "value_at d m k t = value_at d m k a"
  unfolding value_at_def using load_constant [of a t m k, OF assms] by simp

section \<open>Updating\<close>

text \<open>
  The loop of \<open>update\<close> with a closure \<open>g\<close> that does not look at the time. \<open>a\<close> is the
  last time already processed: from \<open>t\<close> to \<open>a\<close> the map holds updated values, after \<open>a\<close>
  it still holds those of \<open>m0\<close>, listed in \<open>xs\<close>.
\<close>

definition updated_upto ::
  "'v \<Rightarrow> ('v \<Rightarrow> ('v, 'e) result) \<Rightarrow> 'k \<Rightarrow> ('k, 'v) wormhole \<Rightarrow> u64 \<Rightarrow> u64 \<Rightarrow> ('k, 'v) wormhole \<Rightarrow> bool" where
  "updated_upto d g k m0 t a m \<longleftrightarrow>
     t \<le> a \<and> (\<forall>t'. a < t' \<longrightarrow> m (k, t') = m0 (k, t')) \<and>
     (\<forall>t'. t \<le> t' \<longrightarrow> t' \<le> a \<longrightarrow> g (value_at d m0 k t') = Ok (value_at d m k t'))"

definition rest_of :: "('k, 'v) wormhole \<Rightarrow> 'k \<Rightarrow> u64 \<Rightarrow> (u64 \<times> 'v) list \<Rightarrow> bool" where
  "rest_of m k a xs \<longleftrightarrow> sorted_wrt (<) (map fst xs) \<and> set xs = {(t', v). a < t' \<and> m (k, t') = Some v}"

lemma rest_of_range: "rest_of m k t (range_after (times_of m k) (Some t))"
proof -
  have "sorted_wrt (<) (map fst (filter (\<lambda>(k, _). t < k) (entries (times_of m k))))"
    using sorted_times [of m k] by (simp add: sorted_wrt_map sorted_wrt_filter)
  then show ?thesis by (auto simp: rest_of_def range_after_def set_times)
qed

lemma rest_of_Nil: "rest_of m k a [] \<Longrightarrow> a < t' \<Longrightarrow> m (k, t') = None"
  by (auto simp: rest_of_def)

lemma rest_of_Cons:
  assumes "rest_of m k a ((x, v) # xs)"
  shows "a < x" and "m (k, x) = Some v" and "a < t' \<Longrightarrow> t' < x \<Longrightarrow> m (k, t') = None"
    and "rest_of m k x xs"
proof -
  from assms have s: "\<forall>y \<in> set xs. x < fst y" "sorted_wrt (<) (map fst xs)"
    and e: "insert (x, v) (set xs) = {(t', v). a < t' \<and> m (k, t') = Some v}"
    by (simp_all add: rest_of_def)
  from e have "(x, v) \<in> {(t', v). a < t' \<and> m (k, t') = Some v}" by blast
  then show x: "a < x" "m (k, x) = Some v" by auto
  show "m (k, t') = None" if "a < t'" "t' < x"
  proof (rule ccontr)
    assume "m (k, t') \<noteq> None"
    with that(1) have "\<exists>w. (t', w) \<in> insert (x, v) (set xs)" unfolding e by auto
    with s(1) that(2) show False by force
  qed
  have "set xs = {(t', v). x < t' \<and> m (k, t') = Some v}"
  proof (rule set_eqI)
    fix y :: "u64 \<times> 'b"
    obtain t' w where [simp]: "y = (t', w)" by (cases y)
    have "y \<in> insert (x, v) (set xs) \<longleftrightarrow> a < t' \<and> m (k, t') = Some w" unfolding e by simp
    moreover have "y \<in> set xs \<Longrightarrow> x < t'" using s(1) by force
    ultimately show "y \<in> set xs \<longleftrightarrow> y \<in> {(t', v). x < t' \<and> m (k, t') = Some v}" using x by auto
  qed
  with s(2) show "rest_of m k x xs" by (simp add: rest_of_def)
qed


lemma updated_step:
  assumes "updated_upto d g k m0 t a m" and "a < x" and "m0 (k, x) = Some v"
    and "\<And>t'. a < t' \<Longrightarrow> t' < x \<Longrightarrow> m0 (k, t') = None" and "g v = Ok u"
  defines "m' \<equiv> if u \<noteq> value_at d m k a then m((k, x) \<mapsto> u) else m((k, x) := None)"
  shows "updated_upto d g k m0 t x m'" and "value_at d m' k x = u"
proof -
  have gap: "m' (k, t') = None" if "a < t'" "t' < x" for t'
    using that assms(1,4) by (auto simp: m'_def updated_upto_def)
  have before: "value_at d m' k t' = value_at d m k t'" if "t' < x" for t'
    by (rule value_cong) (use that in \<open>auto simp: m'_def\<close>)
  show at: "value_at d m' k x = u"
  proof (cases "u = value_at d m k a")
    case True
    then have "m' (k, x) = None" by (simp add: m'_def)
    then have "m' (k, t') = None" if "a < t'" "t' \<le> x" for t'
      using gap [of t'] that by (cases "t' = x") auto
    with assms(2) have "value_at d m' k x = value_at d m' k a" by (intro value_constant) auto
    with True before [OF assms(2)] show ?thesis by simp
  qed (auto simp: m'_def intro: value_here)
  have "g (value_at d m0 k t') = Ok (value_at d m' k t')" if "t \<le> t'" "t' \<le> x" for t'
  proof (cases "t' = x")
    case True
    with assms(5) at value_here [of m0 k x v d, OF assms(3)] show ?thesis by simp
  next
    case False
    show ?thesis
    proof (cases "t' \<le> a")
      case True
      with assms(1) that(1) before [of t'] False that(2) show ?thesis by (auto simp: updated_upto_def)
    next
      case later: False
      have "value_at d m0 k t' = value_at d m0 k a"
        by (rule value_constant) (use later False that assms(4) in auto)
      moreover have "value_at d m' k t' = value_at d m' k a"
        by (rule value_constant) (use later False that gap in auto)
      ultimately show ?thesis using assms(1) before [OF assms(2)] by (auto simp: updated_upto_def)
    qed
  qed
  with assms(1,2) show "updated_upto d g k m0 t x m'" by (auto simp: updated_upto_def m'_def)
qed

lemma update_later_loop:
  assumes "try_fold (update_later k (\<lambda>v _. g v)) (m, p) xs = Ok (m', q)"
    and "rest_of m0 k a xs" and "updated_upto d g k m0 t a m" and "value_at d m k a = p"
  shows "\<forall>t'. t \<le> t' \<longrightarrow> g (value_at d m0 k t') = Ok (value_at d m' k t')"
    and "\<forall>j t'. j \<noteq> k \<or> t' \<le> a \<longrightarrow> m' (j, t') = m (j, t')"
  using assms
proof (induction xs arbitrary: m p a)
  case Nil
  {
    case 1
    then have [simp]: "m' = m" by simp
    show ?case
    proof (intro allI impI)
      fix t' assume t': "t \<le> t'"
      show "g (value_at d m0 k t') = Ok (value_at d m' k t')"
      proof (cases "t' \<le> a")
        case True
        with 1(3) t' show ?thesis by (simp add: updated_upto_def)
      next
        case False
        from rest_of_Nil [OF 1(2)] 1(3) have
          "\<And>t'. a < t' \<Longrightarrow> m0 (k, t') = None" "\<And>t'. a < t' \<Longrightarrow> m (k, t') = None"
          by (auto simp: updated_upto_def)
        then have "value_at d m0 k t' = value_at d m0 k a" "value_at d m k t' = value_at d m k a"
          using False by (auto intro: value_constant)
        with 1(3) show ?thesis by (auto simp: updated_upto_def)
      qed
    qed
  next
    case 2
    then show ?case by simp
  }
next
  case (Cons y xs)
  obtain x v where [simp]: "y = (x, v)" by (cases y)
  {
    case 1
    obtain u where u: "g v = Ok u"
      "try_fold (update_later k (\<lambda>v _. g v))
         (if u \<noteq> p then m((k, x) \<mapsto> u) else m((k, x) := None), u) xs = Ok (m', q)"
      using 1(1) by (auto simp: update_later_def result_ok split: if_splits)
    note r = rest_of_Cons [OF 1(2) [unfolded \<open>y = (x, v)\<close>]]
    note st = updated_step [OF 1(3) r(1,2) r(3) u(1), unfolded 1(4)]
    show ?case by (rule Cons.IH(1) [OF u(2) r(4) st])
  next
    case 2
    obtain u where u: "g v = Ok u"
      "try_fold (update_later k (\<lambda>v _. g v))
         (if u \<noteq> p then m((k, x) \<mapsto> u) else m((k, x) := None), u) xs = Ok (m', q)"
      using 2(1) by (auto simp: update_later_def result_ok split: if_splits)
    note r = rest_of_Cons [OF 2(2) [unfolded \<open>y = (x, v)\<close>]]
    note st = updated_step [OF 2(3) r(1,2) r(3) u(1), unfolded 2(4)]
    have "m' (j, t') = m (j, t')" if "j \<noteq> k \<or> t' \<le> a" for j t'
    proof -
      from that r(1) have "(j, t') \<noteq> (k, x)" "j \<noteq> k \<or> t' \<le> x" by auto
      then have "(if u \<noteq> p then m((k, x) \<mapsto> u) else m((k, x) := None)) (j, t') = m (j, t')" by auto
      moreover have "m' (j, t') = (if u \<noteq> p then m((k, x) \<mapsto> u) else m((k, x) := None)) (j, t')"
        using Cons.IH(2) [OF u(2) r(4) st] \<open>j \<noteq> k \<or> t' \<le> x\<close> by blast
      ultimately show ?thesis by simp
    qed
    then show ?case by blast
  }
qed


text \<open>An update applies the closure to the value at every time from \<open>t\<close> on, and to no other.\<close>

lemma update_exact:
  assumes "wormhole_update d m k t (\<lambda>v _. g v) = Ok (m', u)"
  shows "t \<le> t' \<Longrightarrow> g (value_at d m k t') = Ok (value_at d m' k t')"
    and "u = value_at d m' k t"
    and "t' < t \<Longrightarrow> wormhole_load m' k t' = wormhole_load m k t'"
    and "j \<noteq> k \<Longrightarrow> wormhole_load m' j t' = wormhole_load m j t'"
proof -
  let ?m = "m((k, t) \<mapsto> u)"
  from assms obtain q where g: "g (value_at d m k t) = Ok u"
    and loop: "try_fold (update_later k (\<lambda>v _. g v)) (?m, u) (range_after (times_of ?m k) (Some t)) = Ok (m', q)"
    by (auto simp: wormhole_update_def result_ok Let_def)
  have r: "rest_of m k t (range_after (times_of ?m k) (Some t))"
    using rest_of_range [of ?m k t] by (auto simp: rest_of_def split: if_splits)
  have up: "updated_upto d g k m t t ?m"
    using g value_here [of ?m k t u d] by (auto simp: updated_upto_def)
  note res = update_later_loop [OF loop r up value_here]
  from res show "t \<le> t' \<Longrightarrow> g (value_at d m k t') = Ok (value_at d m' k t')" by simp
  from res have "g (value_at d m k t) = Ok (value_at d m' k t)" by simp
  with g show "u = value_at d m' k t" by simp
  from res have same: "j \<noteq> k \<or> x \<le> t \<Longrightarrow> m' (j, x) = ?m (j, x)" for j x by simp
  show "wormhole_load m' k t' = wormhole_load m k t'" if "t' < t"
    by (rule load_cong) (use that same in auto)
  show "wormhole_load m' j t' = wormhole_load m j t'" if "j \<noteq> k"
    by (rule load_cong) (use that same in auto)
qed

text \<open>It succeeds whenever the closure does on all those values.\<close>

lemma update_later_succeeds:
  assumes "\<forall>(t, v) \<in> set xs. \<exists>u. g v = Ok u"
  shows "\<exists>r. try_fold (update_later k (\<lambda>v _. g v)) s xs = Ok r"
  using assms
proof (induction xs arbitrary: s)
  case (Cons x xs)
  obtain t v where [simp]: "x = (t, v)" by (cases x)
  obtain m p where [simp]: "s = (m, p)" by (cases s)
  from Cons.prems obtain u where "g v = Ok u" by auto
  with Cons show ?case by (simp add: update_later_def)
qed simp

lemma update_succeeds:
  assumes "\<And>t'. t \<le> t' \<Longrightarrow> \<exists>u. g (value_at d m k t') = Ok u"
  shows "\<exists>m' u. wormhole_update d m k t (\<lambda>v _. g v) = Ok (m', u)"
proof -
  from assms [of t] obtain u where u: "g (value_at d m k t) = Ok u" by auto
  let ?m = "m((k, t) \<mapsto> u)" and ?xs = "range_after (times_of (m((k, t) \<mapsto> u)) k) (Some t)"
  have "\<exists>u. g v = Ok u" if "(x, v) \<in> set ?xs" for x v
  proof -
    from that have "t < x" "m (k, x) = Some v" by (auto simp: range_after_def set_times split: if_splits)
    with assms [of x] value_here [of m k x v d] show ?thesis by simp
  qed
  then obtain r where "try_fold (update_later k (\<lambda>v _. g v)) (?m, u) ?xs = Ok r"
    using update_later_succeeds [of ?xs g k "(?m, u)"] by blast
  with u show ?thesis by (cases r) (simp add: wormhole_update_def Let_def)
qed


lemma update_value:
  assumes "wormhole_update d m k t (\<lambda>v _. g v) = Ok (m', u)"
  shows "j \<noteq> k \<or> t' < t \<Longrightarrow> value_at d m' j t' = value_at d m j t'"
  using update_exact(3,4) [OF assms] by (cases "j = k") (auto simp: value_at_def)

lemma increment_value:
  assumes "wormhole_increment m k t i = Ok (m', u)"
  shows "value_at 0 m' j t' = value_at 0 m j t' + (if j = k \<and> t \<le> t' then i else 0)"
    and "t \<le> t' \<Longrightarrow> value_at 0 m k t' + i < 2 ^ 128"
proof -
  note up = assms [unfolded wormhole_increment_def]
  from update_exact(1) [OF up, of t'] update_value [OF up, of j t']
  show "value_at 0 m' j t' = value_at 0 m j t' + (if j = k \<and> t \<le> t' then i else 0)"
    by (auto simp: result_ok not_le)
  from update_exact(1) [OF up, of t'] show "t \<le> t' \<Longrightarrow> value_at 0 m k t' + i < 2 ^ 128"
    by (auto simp: result_ok)
qed

lemma decrement_value:
  assumes "wormhole_decrement m k t i = Ok (m', u)"
  shows "value_at 0 m' j t' + (if j = k \<and> t \<le> t' then i else 0) = value_at 0 m j t'"
    and "t \<le> t' \<Longrightarrow> i \<le> value_at 0 m k t'"
proof -
  note up = assms [unfolded wormhole_decrement_def]
  from update_exact(1) [OF up, of t'] update_value [OF up, of j t']
  show "value_at 0 m' j t' + (if j = k \<and> t \<le> t' then i else 0) = value_at 0 m j t'"
    by (auto simp: result_ok not_le)
  from update_exact(1) [OF up, of t'] show "t \<le> t' \<Longrightarrow> i \<le> value_at 0 m k t'"
    by (auto simp: result_ok)
qed

lemma increment_succeeds:
  "(\<And>t'. t \<le> t' \<Longrightarrow> value_at 0 m k t' + i < 2 ^ 128) \<Longrightarrow> \<exists>m' u. wormhole_increment m k t i = Ok (m', u)"
  unfolding wormhole_increment_def by (rule update_succeeds) (simp add: result_ok)

lemma decrement_succeeds:
  "(\<And>t'. t \<le> t' \<Longrightarrow> i \<le> value_at 0 m k t') \<Longrightarrow> \<exists>m' u. wormhole_decrement m k t i = Ok (m', u)"
  unfolding wormhole_decrement_def by (rule update_succeeds) (simp add: result_ok)

lemma value_empty [simp]: "value_at d Map.empty k t = d"
  by (simp add: value_at_def load_none)


section \<open>Reading concrete maps\<close>

lemma entries_remove:
  assumes "finite (dom m)"
  shows "entries (m(k := None)) = filter (\<lambda>(k', _). k' \<noteq> k) (entries m)"
proof -
  have "finite (dom (m(k := None)))" using assms by simp
  note fin = this assms
  have "entries (m(k := None)) = filter (\<lambda>(k', _). k' \<noteq> k) (entries m)"
  proof (rule map_sorted_distinct_set_unique [where f = fst])
    show "set (entries (m(k := None))) = set (filter (\<lambda>(k', _). k' \<noteq> k) (entries m))"
      using fin by (auto simp: set_entries split: if_splits)
    then show "inj_on fst (set (entries (m(k := None))) \<union> set (filter (\<lambda>(k', _). k' \<noteq> k) (entries m)))"
      using distinct_entries [of "m(k := None)"] by (simp add: distinct_map)
    show "sorted (map fst (entries (m(k := None))))" "distinct (map fst (entries (m(k := None))))"
      using fin by (simp_all add: sorted_entries distinct_entries)
    show "sorted (map fst (filter (\<lambda>(k', _). k' \<noteq> k) (entries m)))"
      using sorted_entries [OF assms] by (metis sorted_filter sorted_sorted_list_of_set)
    show "distinct (map fst (filter (\<lambda>(k', _). k' \<noteq> k) (entries m)))"
      using distinct_entries [of m] by (rule distinct_map_filter)
  qed
  then show ?thesis .
qed

lemma map_fst_insort: "map fst (insort_key fst x ys) = insort (fst x) (map fst ys)"
  by (induction ys) simp_all

lemma entries_update:
  assumes "finite (dom m)"
  shows "entries (m(k \<mapsto> v)) = insort_key fst (k, v) (filter (\<lambda>(k', _). k' \<noteq> k) (entries m))"
proof (rule map_sorted_distinct_set_unique [where f = fst])
  have fin: "finite (dom (m(k \<mapsto> v)))" using assms by simp
  let ?ys = "filter (\<lambda>(k', _). k' \<noteq> k) (entries m)"
  show "set (entries (m(k \<mapsto> v))) = set (insort_key fst (k, v) ?ys)"
    using fin assms by (auto simp: set_entries set_insort_key split: if_splits)
  then show "inj_on fst (set (entries (m(k \<mapsto> v))) \<union> set (insort_key fst (k, v) ?ys))"
    using distinct_entries [of "m(k \<mapsto> v)"] by (simp add: distinct_map)
  show "sorted (map fst (entries (m(k \<mapsto> v))))" unfolding sorted_entries [OF fin] by (rule sorted_sorted_list_of_set)
  show "distinct (map fst (entries (m(k \<mapsto> v))))" by (rule distinct_entries)
  have "sorted (map fst ?ys)" using sorted_entries [OF assms] by (metis sorted_filter sorted_sorted_list_of_set)
  then show "sorted (map fst (insort_key fst (k, v) ?ys))" by (simp add: sorted_insort_key)
  have "distinct (map fst ?ys)" using distinct_entries [of m] by (rule distinct_map_filter)
  moreover have "k \<notin> set (map fst ?ys)" by auto
  ultimately show "distinct (map fst (insort_key fst (k, v) ?ys))"
    unfolding map_fst_insort fst_conv by (simp only: distinct_insort simp_thms)
qed

lemma entries_empty [simp]: "entries Map.empty = []"
  by (simp add: entries_def)

lemma times_of_simps:
  "times_of Map.empty k = Map.empty"
  "times_of (m((j, t) := x)) k = (if j = k then (times_of m k)(t := x) else times_of m k)"
  by (auto simp: times_of_def fun_eq_iff)

lemma finite_u64_map: "finite (dom (m :: u64 \<rightharpoonup> 'v))"
  by (rule finite_subset [of _ UNIV]) simp_all

lemmas wormhole_eval =
  entries_update [OF finite_u64_map] entries_remove [OF finite_u64_map] times_of_simps range_after_def
  wormhole_load_def value_at_def update_later_def wormhole_update_def wormhole_increment_def wormhole_decrement_def
  add128_def sub128_def

section \<open>The property\<close>

text \<open>C37: A successful update of a key from a time on applies the closure to the value that the key has at
  every time from then on, removes no other information, and changes neither earlier values nor other keys;
  an entry that the update makes redundant is dropped without any reading noticing.
\<close>

theorem wormhole_update_exact:
  assumes "wormhole_update d m k t (\<lambda>v _. g v) = Ok (m', u)"
  shows "(\<forall>t'. t \<le> t' \<longrightarrow> g (value_at d m k t') = Ok (value_at d m' k t')) \<and> u = value_at d m' k t \<and>
    (\<forall>t'. t' < t \<longrightarrow> wormhole_load m' k t' = wormhole_load m k t') \<and>
    (\<forall>j t'. j \<noteq> k \<longrightarrow> wormhole_load m' j t' = wormhole_load m j t')"
  using update_exact [OF assms] by blast

theorem wormhole_update_exact_witness:
  "\<exists>m' u. wormhole_update 0 [(''bob'', 10) \<mapsto> 3, (''bob'', 12) \<mapsto> 1] ''bob'' 10 (\<lambda>v _. sub128 v (1 :: nat)) =
      (Ok (m', u) :: (_, std_error) result) \<and>
    value_at 0 m' ''bob'' 11 = 2 \<and> value_at 0 m' ''bob'' 12 = 0 \<and> wormhole_load m' ''bob'' 9 = None"
proof -
  let ?m = "[(''bob'', 10) \<mapsto> 3, (''bob'', 12) \<mapsto> 1] :: (string, nat) wormhole"
  let ?m' = "?m((''bob'', 10) \<mapsto> 2, (''bob'', 12) \<mapsto> 0)"
  have run: "wormhole_update 0 ?m ''bob'' 10 (\<lambda>v _. sub128 v 1) = (Ok (?m', 2) :: (_, std_error) result)"
    by (simp add: wormhole_eval)
  note exact = wormhole_update_exact [OF run]
  have old: "value_at 0 ?m ''bob'' 11 = 3" "value_at 0 ?m ''bob'' 12 = 1" "wormhole_load ?m ''bob'' 9 = None"
    by (simp_all add: wormhole_eval)
  from exact have "sub128 (value_at 0 ?m ''bob'' t) 1 = (Ok (value_at 0 ?m' ''bob'' t) :: (_, std_error) result)"
    if "10 \<le> t" for t using that by blast
  from this [of 11] this [of 12] old have "value_at 0 ?m' ''bob'' 11 = 2" "value_at 0 ?m' ''bob'' 12 = 0"
    by (simp_all add: result_ok)
  moreover from exact have "\<forall>t'. t' < 10 \<longrightarrow> wormhole_load ?m' ''bob'' t' = wormhole_load ?m ''bob'' t'" by blast
  then have "wormhole_load ?m' ''bob'' 9 = wormhole_load ?m ''bob'' 9" by (rule allE [of _ 9]) simp
  ultimately show ?thesis using run old(3) by (intro exI [of _ ?m'] exI [of _ 2] conjI) simp_all
qed

end
