(* ===== verification/Cw_Snapshot_Vector_Map.thy ===== *)
theory Cw_Snapshot_Vector_Map
  imports Staking_Store
begin

text \<open>
  \<open>packages/cw-snapshot-vector-map\<close>: for every key a vector of items, of which the part that
  was active at a height of the past can be read. Items are never deleted; a snapshot map of a
  third-party crate holds, for every key, the identifiers of the active items with their expirations.
\<close>

section \<open>State\<close>

type_synonym item_ref = "u64 \<times> u64 option"

record ('s, 'k, 'v) vector_map =
  items :: "'k \<times> u64 \<rightharpoonup> 'v"
  next_ids :: "'k \<rightharpoonup> u64"
  active_refs :: 's
  last_active_update :: "'k \<rightharpoonup> u64"

record 'v loaded_item =
  loaded_id :: u64
  loaded_value :: 'v
  loaded_expiration :: "u64 option"

type_synonym ('s, 'k, 'x) ref_ops = "('s, 'k, item_ref list, 'x) snap_ops_scheme"

text \<open>The test \<open>expiration.map_or(true, |e| e > height)\<close> of the source.\<close>

definition unexpired :: "u64 \<Rightarrow> item_ref \<Rightarrow> bool" where
  "unexpired h r = (case snd r of None \<Rightarrow> True | Some e \<Rightarrow> e > h)"

definition active_of :: "('s, 'k, 'x) ref_ops \<Rightarrow> ('s, 'k, 'v) vector_map \<Rightarrow> 'k \<Rightarrow> item_ref list" where
  "active_of ops m k = (case snap_load ops (active_refs m) k of None \<Rightarrow> [] | Some xs \<Rightarrow> xs)"

definition next_id_of :: "('s, 'k, 'v) vector_map \<Rightarrow> 'k \<Rightarrow> u64" where
  "next_id_of m k = (case next_ids m k of None \<Rightarrow> 0 | Some n \<Rightarrow> n)"

definition last_update_of :: "('s, 'k, 'v) vector_map \<Rightarrow> 'k \<Rightarrow> u64" where
  "last_update_of m k = (case last_active_update m k of None \<Rightarrow> 0 | Some h \<Rightarrow> h)"

section \<open>Operations\<close>

definition order_error :: string where
  "order_error = ''update must be performed at or after the last update''"

definition validate_order_and_update ::
  "('s, 'k, 'v) vector_map \<Rightarrow> 'k \<Rightarrow> u64 \<Rightarrow> (('s, 'k, 'v) vector_map, std_error) result" where
  "validate_order_and_update m k curr_height =
     (if curr_height < last_update_of m k then Err (GenericErr order_error)
      else if curr_height = last_update_of m k then Ok m
      else Ok (m\<lparr>last_active_update := (last_active_update m)(k \<mapsto> curr_height)\<rparr>))"

definition load_item :: "('s, 'k, 'v) vector_map \<Rightarrow> 'k \<Rightarrow> u64 \<Rightarrow> ('v, std_error) result" where
  "load_item m k i = load (items m (k, i))"

definition may_load_item :: "('s, 'k, 'v) vector_map \<Rightarrow> 'k \<Rightarrow> u64 \<Rightarrow> 'v option" where
  "may_load_item m k i = items m (k, i)"

text \<open>\<open>expire_in.map(|d| curr_height + d)\<close>, with the addition checked.\<close>

definition expires_at :: "u64 \<Rightarrow> u64 option \<Rightarrow> (u64 option, 'e) result" where
  "expires_at curr_height expire_in = transpose_opt (add_u64 curr_height) expire_in"

definition push ::
  "('s, 'k, 'x) ref_ops \<Rightarrow> ('s, 'k, 'v) vector_map \<Rightarrow> 'k \<Rightarrow> 'v \<Rightarrow> u64 \<Rightarrow> u64 option
     \<Rightarrow> (('s, 'k, 'v) vector_map \<times> item_ref \<times> nat, std_error) result" where
  "push ops m k new_item curr_height expire_in =
     and_then (validate_order_and_update m k curr_height) (\<lambda>m.
     let next_id = next_id_of m k;
         m = m\<lparr>items := (items m)((k, next_id) \<mapsto> new_item)\<rparr>;
         refs = filter (unexpired curr_height) (active_of ops m k) in
     and_then (expires_at curr_height expire_in) (\<lambda>expiration.
     let refs = refs @ [(next_id, expiration)];
         m = m\<lparr>active_refs := snap_save ops (active_refs m) k refs curr_height\<rparr> in
     and_then (add_u64 next_id 1) (\<lambda>n.
     Ok (m\<lparr>next_ids := (next_ids m)(k \<mapsto> n)\<rparr>, (next_id, expiration), length refs))))"

definition remove_item ::
  "('s, 'k, 'x) ref_ops \<Rightarrow> ('s, 'k, 'v) vector_map \<Rightarrow> 'k \<Rightarrow> u64 \<Rightarrow> u64
     \<Rightarrow> (('s, 'k, 'v) vector_map \<times> 'v \<times> nat, std_error) result" where
  "remove_item ops m k i curr_height =
     and_then (validate_order_and_update m k curr_height) (\<lambda>m.
     let refs = filter (\<lambda>r. fst r \<noteq> i \<and> unexpired curr_height r) (active_of ops m k);
         m = m\<lparr>active_refs := snap_save ops (active_refs m) k refs curr_height\<rparr> in
     and_then (load_item m k i) (\<lambda>item.
     Ok (m, item, length refs)))"

definition update_item ::
  "('s, 'k, 'x) ref_ops \<Rightarrow> ('s, 'k, 'v) vector_map \<Rightarrow> 'k \<Rightarrow> u64 \<Rightarrow> u64 \<Rightarrow> ('v \<Rightarrow> 'v) \<Rightarrow> u64 option
     \<Rightarrow> (('s, 'k, 'v) vector_map \<times> item_ref \<times> nat, std_error) result" where
  "update_item ops m k i curr_height f expire_in =
     and_then (validate_order_and_update m k curr_height) (\<lambda>m.
     let refs = filter (\<lambda>r. fst r \<noteq> i \<and> unexpired curr_height r) (active_of ops m k);
         next_id = next_id_of m k in
     and_then (load_item m k i) (\<lambda>item.
     let m = m\<lparr>items := (items m)((k, next_id) \<mapsto> f item)\<rparr> in
     and_then (expires_at curr_height expire_in) (\<lambda>expiration.
     let refs = refs @ [(next_id, expiration)];
         m = m\<lparr>active_refs := snap_save ops (active_refs m) k refs curr_height\<rparr> in
     and_then (add_u64 next_id 1) (\<lambda>n.
     Ok (m\<lparr>next_ids := (next_ids m)(k \<mapsto> n)\<rparr>, (next_id, expiration), length refs)))))"

text \<open>\<open>iter_mut().find(\<dots>).map(\<dots>)\<close>: the first active entry of the identifier gets the expiration.\<close>

fun set_expiration :: "u64 \<Rightarrow> u64 \<Rightarrow> u64 option \<Rightarrow> item_ref list \<Rightarrow> item_ref list option" where
  "set_expiration i h e [] = None"
| "set_expiration i h e (r # rs) =
     (if fst r = i \<and> unexpired h r then Some ((fst r, e) # rs)
      else map_option ((#) r) (set_expiration i h e rs))"

definition update_expiration ::
  "('s, 'k, 'x) ref_ops \<Rightarrow> ('s, 'k, 'v) vector_map \<Rightarrow> 'k \<Rightarrow> u64 \<Rightarrow> u64 \<Rightarrow> u64 option
     \<Rightarrow> (('s, 'k, 'v) vector_map \<times> item_ref, std_error) result" where
  "update_expiration ops m k i curr_height expire_in =
     and_then (ok_or (last_active_update m k) (GenericErr ''no active items for key'')) (\<lambda>last.
     if curr_height < last then Err (GenericErr order_error)
     else
     and_then (expires_at curr_height expire_in) (\<lambda>new_expiration.
     and_then (ok_or (set_expiration i curr_height new_expiration (active_of ops m k))
        (GenericErr ''item not found or expired'')) (\<lambda>refs.
     Ok (m\<lparr>active_refs := snap_save ops (active_refs m) k refs last\<rparr>, (i, new_expiration)))))"

text \<open>The page of a list of references: skip, take and load the items.\<close>

definition load_page ::
  "('s, 'k, 'v) vector_map \<Rightarrow> 'k \<Rightarrow> u64 \<Rightarrow> u64 option \<Rightarrow> u64 option \<Rightarrow> item_ref list
     \<Rightarrow> ('v loaded_item list, std_error) result" where
  "load_page m k h lim ofs refs =
     (let ofs = as_usize (case ofs of None \<Rightarrow> 0 | Some o' \<Rightarrow> o');
          lim = as_usize (case lim of None \<Rightarrow> - 1 | Some l \<Rightarrow> l) in
      try_map (\<lambda>(i, e). and_then (load_item m k i) (\<lambda>v.
          Ok \<lparr>loaded_id = i, loaded_value = v, loaded_expiration = e\<rparr>))
        (take lim (drop ofs (filter (unexpired h) refs))))"

definition load_vector ::
  "('s, 'k, 'x) ref_ops \<Rightarrow> ('s, 'k, 'v) vector_map \<Rightarrow> 'k \<Rightarrow> u64 \<Rightarrow> u64 option \<Rightarrow> u64 option
     \<Rightarrow> ('v loaded_item list, std_error) result" where
  "load_vector ops m k h lim ofs =
     load_page m k h lim ofs (case snap_at ops (active_refs m) k h of None \<Rightarrow> [] | Some refs \<Rightarrow> refs)"

definition load_all ::
  "('s, 'k, 'x) ref_ops \<Rightarrow> ('s, 'k, 'v) vector_map \<Rightarrow> 'k \<Rightarrow> u64 \<Rightarrow> ('v loaded_item list, std_error) result" where
  "load_all ops m k h = load_vector ops m k h None None"

definition load_latest ::
  "('s, 'k, 'x) ref_ops \<Rightarrow> ('s, 'k, 'v) vector_map \<Rightarrow> 'k \<Rightarrow> u64 \<Rightarrow> u64 option \<Rightarrow> u64 option
     \<Rightarrow> ('v loaded_item list, std_error) result" where
  "load_latest ops m k current_height lim ofs =
     load_page m k current_height lim ofs (active_of ops m k)"

definition load_all_latest ::
  "('s, 'k, 'x) ref_ops \<Rightarrow> ('s, 'k, 'v) vector_map \<Rightarrow> 'k \<Rightarrow> u64 \<Rightarrow> ('v loaded_item list, std_error) result" where
  "load_all_latest ops m k current_height = load_latest ops m k current_height None None"

section \<open>The documented behaviour of the store\<close>

text \<open>
  As for the staking contracts, but key by key: \<open>till s k h\<close> says that nothing was saved for
  the key at a height above \<open>h\<close>.
\<close>

definition history_laws :: "('s, 'k, 'v, 'x) snap_ops_scheme \<Rightarrow> ('s \<Rightarrow> 'k \<Rightarrow> u64 \<Rightarrow> bool) \<Rightarrow> bool" where
  "history_laws ops till \<longleftrightarrow>
     (\<forall>k h. snap_load ops (snap_new ops) k = None \<and> snap_at ops (snap_new ops) k h = None) \<and>
     (\<forall>k h. till (snap_new ops) k h) \<and>
     (\<forall>s k h h'. till s k h \<longrightarrow> h \<le> h' \<longrightarrow> till s k h') \<and>
     (\<forall>s k v h. till s k h \<longrightarrow> till (snap_save ops s k v h) k h) \<and>
     (\<forall>s k v h k' h'. k' \<noteq> k \<longrightarrow> till s k' h' \<longrightarrow> till (snap_save ops s k v h) k' h') \<and>
     (\<forall>s k v h k'. snap_load ops (snap_save ops s k v h) k' =
        (if k' = k then Some v else snap_load ops s k')) \<and>
     (\<forall>s k v h k' h'. till s k h \<longrightarrow>
        snap_at ops (snap_save ops s k v h) k' h' =
          (if k' = k \<and> h < h' then Some v else snap_at ops s k' h')) \<and>
     (\<forall>s k h h'. till s k h \<longrightarrow> h < h' \<longrightarrow> snap_at ops s k h' = snap_load ops s k)"

lemma history_new:
  assumes "history_laws ops till"
  shows "snap_load ops (snap_new ops) k = None" and "snap_at ops (snap_new ops) k h = None"
    and "till (snap_new ops) k h"
  using assms by (simp_all add: history_laws_def)

lemma history_mono: "history_laws ops till \<Longrightarrow> till s k h \<Longrightarrow> h \<le> h' \<Longrightarrow> till s k h'"
  unfolding history_laws_def by (elim conjE) metis

lemma history_saved:
  "history_laws ops till \<Longrightarrow> till s k h \<Longrightarrow> till (snap_save ops s k v h) k h"
  unfolding history_laws_def by (elim conjE) metis

lemma history_saved_other:
  "history_laws ops till \<Longrightarrow> k' \<noteq> k \<Longrightarrow> till s k' h' \<Longrightarrow> till (snap_save ops s k v h) k' h'"
  unfolding history_laws_def by (elim conjE) metis

lemma history_load:
  "history_laws ops till \<Longrightarrow>
     snap_load ops (snap_save ops s k v h) k' = (if k' = k then Some v else snap_load ops s k')"
  unfolding history_laws_def by (elim conjE) metis

lemma history_at:
  "history_laws ops till \<Longrightarrow> till s k h \<Longrightarrow>
     snap_at ops (snap_save ops s k v h) k' h' = (if k' = k \<and> h < h' then Some v else snap_at ops s k' h')"
  unfolding history_laws_def by (elim conjE) metis

lemma history_current:
  "history_laws ops till \<Longrightarrow> till s k h \<Longrightarrow> h < h' \<Longrightarrow> snap_at ops s k h' = snap_load ops s k"
  unfolding history_laws_def by (elim conjE) metis

section \<open>What the operations do\<close>

definition active_at :: "('s, 'k, 'x) ref_ops \<Rightarrow> ('s, 'k, 'v) vector_map \<Rightarrow> 'k \<Rightarrow> u64 \<Rightarrow> item_ref list" where
  "active_at ops m k h = (case snap_at ops (active_refs m) k h of None \<Rightarrow> [] | Some xs \<Rightarrow> xs)"

text \<open>
  Three of the operations write the list of active references at the current height; two of them
  also store a new item under the next identifier.
\<close>

definition wrote ::
  "('s, 'k, 'x) ref_ops \<Rightarrow> ('s, 'k, 'v) vector_map \<Rightarrow> 'k \<Rightarrow> u64 \<Rightarrow> item_ref list \<Rightarrow> 'v option
     \<Rightarrow> ('s, 'k, 'v) vector_map \<Rightarrow> bool" where
  "wrote ops m k h refs new m' \<longleftrightarrow>
     last_update_of m k \<le> h \<and>
     (\<forall>j. last_update_of m' j = (if j = k then h else last_update_of m j)) \<and>
     active_refs m' = snap_save ops (active_refs m) k refs h \<and>
     (\<forall>j. j \<noteq> k \<longrightarrow> next_id_of m' j = next_id_of m j) \<and>
     (case new of
        None \<Rightarrow> items m' = items m \<and> next_id_of m' k = next_id_of m k
      | Some v \<Rightarrow> items m' = (items m)((k, next_id_of m k) \<mapsto> v) \<and> next_id_of m k < next_id_of m' k)"

lemma validate_order:
  assumes "validate_order_and_update m k h = Ok m'"
  shows "last_update_of m k \<le> h" and "last_update_of m' j = (if j = k then h else last_update_of m j)"
    and "items m' = items m" and "active_refs m' = active_refs m" and "next_ids m' = next_ids m"
proof -
  from assms consider "h = last_update_of m k" "m' = m"
    | "last_update_of m k < h" "m' = m\<lparr>last_active_update := (last_active_update m)(k \<mapsto> h)\<rparr>"
    by (auto simp: validate_order_and_update_def split: if_splits)
  then show "last_update_of m k \<le> h" "last_update_of m' j = (if j = k then h else last_update_of m j)"
    "items m' = items m" "active_refs m' = active_refs m" "next_ids m' = next_ids m"
    by (cases; simp add: last_update_of_def)+
qed

lemma add_one_less: "add_u64 n 1 = Ok n' \<Longrightarrow> n < n'"
  by (drule add_u64_Ok) (simp add: word_less_nat_alt)

lemma push_wrote:
  assumes "push ops m k v h e = Ok (m', r, n)"
  shows "\<exists>x. r = (next_id_of m k, x) \<and> expires_at h e = (Ok x :: (_, std_error) result) \<and>
    n = Suc (length (filter (unexpired h) (active_of ops m k))) \<and>
    wrote ops m k h (filter (unexpired h) (active_of ops m k) @ [(next_id_of m k, x)]) (Some v) m'"
proof -
  from assms obtain m1 x i where m1: "validate_order_and_update m k h = Ok m1"
    and x: "expires_at h e = (Ok x :: (_, std_error) result)" and i: "add_u64 (next_id_of m1 k) 1 = (Ok i :: (_, std_error) result)"
    and m': "m' = m1\<lparr>items := (items m1)((k, next_id_of m1 k) \<mapsto> v),
        active_refs := snap_save ops (active_refs m1) k
          (filter (unexpired h) (active_of ops m1 k) @ [(next_id_of m1 k, x)]) h,
        next_ids := (next_ids m1)(k \<mapsto> i)\<rparr>"
    and r: "r = (next_id_of m1 k, x)" "n = Suc (length (filter (unexpired h) (active_of ops m1 k)))"
    by (auto simp: push_def result_ok Let_def next_id_of_def active_of_def)
  note vo = validate_order [OF m1]
  have "next_id_of m1 = next_id_of m" "active_of ops m1 k = active_of ops m k"
    using vo(4,5) by (auto simp: fun_eq_iff next_id_of_def active_of_def)
  with m' r x vo add_one_less [OF i] show ?thesis
    by (auto simp: wrote_def next_id_of_def last_update_of_def)
qed

lemma update_item_wrote:
  assumes "update_item ops m k i h f e = Ok (m', r, n)"
  shows "\<exists>x v. r = (next_id_of m k, x) \<and> expires_at h e = (Ok x :: (_, std_error) result) \<and>
    items m (k, i) = Some v \<and>
    n = Suc (length (filter (\<lambda>r. fst r \<noteq> i \<and> unexpired h r) (active_of ops m k))) \<and>
    wrote ops m k h (filter (\<lambda>r. fst r \<noteq> i \<and> unexpired h r) (active_of ops m k) @ [(next_id_of m k, x)])
      (Some (f v)) m'"
proof -
  from assms obtain m1 x j v where m1: "validate_order_and_update m k h = Ok m1"
    and x: "expires_at h e = (Ok x :: (_, std_error) result)" and j: "add_u64 (next_id_of m1 k) 1 = (Ok j :: (_, std_error) result)"
    and v: "items m1 (k, i) = Some v"
    and m': "m' = m1\<lparr>items := (items m1)((k, next_id_of m1 k) \<mapsto> f v),
        active_refs := snap_save ops (active_refs m1) k
          (filter (\<lambda>r. fst r \<noteq> i \<and> unexpired h r) (active_of ops m1 k) @ [(next_id_of m1 k, x)]) h,
        next_ids := (next_ids m1)(k \<mapsto> j)\<rparr>"
    and r: "r = (next_id_of m1 k, x)"
      "n = Suc (length (filter (\<lambda>r. fst r \<noteq> i \<and> unexpired h r) (active_of ops m1 k)))"
    by (auto simp: update_item_def load_item_def result_ok Let_def next_id_of_def active_of_def)
  note vo = validate_order [OF m1]
  have "next_id_of m1 = next_id_of m" "active_of ops m1 k = active_of ops m k"
    using vo(4,5) by (auto simp: fun_eq_iff next_id_of_def active_of_def)
  with m' r x v vo add_one_less [OF j] show ?thesis
    by (auto simp: wrote_def next_id_of_def last_update_of_def)
qed

lemma remove_item_wrote:
  assumes "remove_item ops m k i h = Ok (m', v, n)"
  shows "items m (k, i) = Some v \<and>
    wrote ops m k h (filter (\<lambda>r. fst r \<noteq> i \<and> unexpired h r) (active_of ops m k)) None m'"
proof -
  from assms obtain m1 where m1: "validate_order_and_update m k h = Ok m1"
    and v: "items m1 (k, i) = Some v"
    and m': "m' = m1\<lparr>active_refs := snap_save ops (active_refs m1) k
          (filter (\<lambda>r. fst r \<noteq> i \<and> unexpired h r) (active_of ops m1 k)) h\<rparr>"
    by (auto simp: remove_item_def load_item_def result_ok Let_def)
  note vo = validate_order [OF m1]
  have "next_id_of m1 = next_id_of m" "active_of ops m1 k = active_of ops m k"
    using vo(4,5) by (auto simp: fun_eq_iff next_id_of_def active_of_def)
  with m' v vo show ?thesis by (auto simp: wrote_def next_id_of_def last_update_of_def)
qed

text \<open>The fourth rewrites the list at the height of its last change, one expiration apart.\<close>

lemma update_expiration_cases:
  assumes "update_expiration ops m k i h e = Ok (m', r)"
  shows "\<exists>x refs. r = (i, x) \<and> expires_at h e = (Ok x :: (_, std_error) result) \<and> last_update_of m k \<le> h \<and>
    set_expiration i h x (active_of ops m k) = Some refs \<and>
    m' = m\<lparr>active_refs := snap_save ops (active_refs m) k refs (last_update_of m k)\<rparr>"
  using assms
  by (auto simp: update_expiration_def result_ok last_update_of_def split: if_splits)

lemma set_expiration_ids: "set_expiration i h e rs = Some rs' \<Longrightarrow> map fst rs' = map fst rs"
  by (induction rs arbitrary: rs') (auto split: if_splits)

lemma set_expiration_split:
  "set_expiration i h e rs = Some rs' \<Longrightarrow>
     \<exists>us x vs. rs = us @ (i, x) # vs \<and> rs' = us @ (i, e) # vs \<and> unexpired h (i, x)"
proof (induction rs arbitrary: rs')
  case (Cons r rs)
  show ?case
  proof (cases "fst r = i \<and> unexpired h r")
    case True
    with Cons.prems show ?thesis by (cases r) (auto intro: exI [of _ "[]"])
  next
    case False
    with Cons.prems obtain rs1 where "set_expiration i h e rs = Some rs1" "rs' = r # rs1"
      by (auto split: if_splits)
    with Cons.IH obtain us x vs where
      "rs = us @ (i, x) # vs" "rs1 = us @ (i, e) # vs" "unexpired h (i, x)" by blast
    with \<open>rs' = r # rs1\<close> show ?thesis by (intro exI [of _ "r # us"]) auto
  qed
qed simp


section \<open>Well-formed vectors\<close>

definition refs_ok :: "('s, 'k, 'v) vector_map \<Rightarrow> 'k \<Rightarrow> item_ref list \<Rightarrow> bool" where
  "refs_ok m k rs \<longleftrightarrow> distinct (map fst rs) \<and> (\<forall>i \<in> fst ` set rs. items m (k, i) \<noteq> None)"

definition vector_ok ::
  "('s, 'k, 'x) ref_ops \<Rightarrow> ('s \<Rightarrow> 'k \<Rightarrow> u64 \<Rightarrow> bool) \<Rightarrow> ('s, 'k, 'v) vector_map \<Rightarrow> bool" where
  "vector_ok ops till m \<longleftrightarrow>
     (\<forall>k. till (active_refs m) k (last_update_of m k)) \<and>
     (\<forall>k i. items m (k, i) \<noteq> None \<longrightarrow> i < next_id_of m k) \<and>
     (\<forall>k. refs_ok m k (active_of ops m k)) \<and>
     (\<forall>k h. refs_ok m k (active_at ops m k h))"

definition vector_new :: "('s, 'k, 'x) ref_ops \<Rightarrow> ('s, 'k, 'v) vector_map" where
  "vector_new ops =
     \<lparr>items = Map.empty, next_ids = Map.empty, active_refs = snap_new ops, last_active_update = Map.empty\<rparr>"

lemma vector_ok_new: "history_laws ops till \<Longrightarrow> vector_ok ops till (vector_new ops)"
  using history_new [of ops till]
  by (simp add: vector_ok_def vector_new_def refs_ok_def active_of_def active_at_def)

lemma refs_ok_filter: "refs_ok m k rs \<Longrightarrow> refs_ok m k (filter P rs)"
  by (auto simp: refs_ok_def distinct_map_filter)

lemma refs_ok_grow: "refs_ok m k rs \<Longrightarrow> items m \<subseteq>\<^sub>m items m' \<Longrightarrow> refs_ok m' k rs"
  unfolding refs_ok_def map_le_def by force

lemma active_of_saved:
  assumes "history_laws ops till" and "active_refs m' = snap_save ops (active_refs m) k refs h"
  shows "active_of ops m' j = (if j = k then refs else active_of ops m j)"
  using assms by (simp add: active_of_def history_load)

lemma active_at_saved:
  assumes "history_laws ops till" and "active_refs m' = snap_save ops (active_refs m) k refs h"
    and "till (active_refs m) k h"
  shows "active_at ops m' j h' = (if j = k \<and> h < h' then refs else active_at ops m j h')"
  using assms by (simp add: active_at_def history_at)

lemma fresh_id: "vector_ok ops till m \<Longrightarrow> items m (k, next_id_of m k) = None"
  unfolding vector_ok_def by force

lemma wrote_items:
  assumes "vector_ok ops till m" and "wrote ops m k h refs new m'"
  shows "items m \<subseteq>\<^sub>m items m'"
  using assms fresh_id [OF assms(1), of k]
  by (cases new) (auto simp: wrote_def map_le_def split: if_splits)

lemma wrote_ok:
  assumes "history_laws ops till" and "vector_ok ops till m" and "wrote ops m k h refs new m'"
    and "refs_ok m' k refs"
  shows "vector_ok ops till m'"
proof -
  from assms(3) have w: "last_update_of m k \<le> h" "active_refs m' = snap_save ops (active_refs m) k refs h"
    "\<And>j. last_update_of m' j = (if j = k then h else last_update_of m j)"
    by (simp_all add: wrote_def)
  from assms(2) have till: "till (active_refs m) j (last_update_of m j)" for j by (simp add: vector_ok_def)
  have now: "till (active_refs m) k h" using history_mono [OF assms(1) till w(1)] .
  have "till (active_refs m') j (last_update_of m' j)" for j
    using w(2,3) till now history_saved [OF assms(1) now] history_saved_other [OF assms(1)]
    by (cases "j = k") simp_all
  moreover have "i < next_id_of m' j" if i: "items m' (j, i) \<noteq> None" for i j
  proof -
    from assms(2) have old: "items m (j, i) \<noteq> None \<Longrightarrow> i < next_id_of m j" by (auto simp: vector_ok_def)
    show ?thesis
    proof (cases new)
      case None
      with assms(3) have "items m' = items m" "next_id_of m' j = next_id_of m j"
        by (cases "j = k"; simp add: wrote_def)+
      with i old show ?thesis by simp
    next
      case (Some v)
      with assms(3) have n: "items m' = (items m)((k, next_id_of m k) \<mapsto> v)" "next_id_of m k < next_id_of m' k"
        "j \<noteq> k \<Longrightarrow> next_id_of m' j = next_id_of m j" by (simp_all add: wrote_def)
      show ?thesis
      proof (cases "j = k")
        case True
        with i n old show ?thesis by (cases "i = next_id_of m k") auto
      next
        case False
        with i n old show ?thesis by simp
      qed
    qed
  qed
  moreover have grow: "refs_ok m' j rs" if "refs_ok m j rs" for j rs
    using that wrote_items [OF assms(2,3)] by (rule refs_ok_grow)
  have "refs_ok m' j (active_of ops m' j)" "refs_ok m' j (active_at ops m' j h')" for j h'
    using assms(2,4) grow active_of_saved [OF assms(1) w(2)] active_at_saved [OF assms(1) w(2) now]
    by (simp_all add: vector_ok_def)
  ultimately show ?thesis by (simp add: vector_ok_def)
qed

text \<open>Appending the fresh identifier to a part of the active list is well formed.\<close>

lemma refs_ok_append:
  assumes "vector_ok ops till m" and "wrote ops m k h refs (Some v) m'" and "refs_ok m k rs"
  shows "refs_ok m' k (rs @ [(next_id_of m k, x)])"
proof -
  have "refs_ok m' k rs" using assms(3) wrote_items [OF assms(1,2)] by (rule refs_ok_grow)
  moreover have "next_id_of m k \<notin> fst ` set rs"
    using assms(3) fresh_id [OF assms(1), of k] by (auto simp: refs_ok_def)
  moreover have "items m' (k, next_id_of m k) \<noteq> None" using assms(2) by (simp add: wrote_def)
  ultimately show ?thesis by (auto simp: refs_ok_def)
qed

lemma push_ok:
  assumes "history_laws ops till" and "vector_ok ops till m" and "push ops m k v h e = Ok (m', r, n)"
  shows "vector_ok ops till m'"
proof -
  from push_wrote [OF assms(3)] obtain x where
    w: "wrote ops m k h (filter (unexpired h) (active_of ops m k) @ [(next_id_of m k, x)]) (Some v) m'" by blast
  from assms(2) have "refs_ok m k (filter (unexpired h) (active_of ops m k))"
    by (simp add: vector_ok_def refs_ok_filter)
  from wrote_ok [OF assms(1,2) w refs_ok_append [OF assms(2) w this]] show ?thesis .
qed

lemma update_item_ok:
  assumes "history_laws ops till" and "vector_ok ops till m" and "update_item ops m k i h f e = Ok (m', r, n)"
  shows "vector_ok ops till m'"
proof -
  from update_item_wrote [OF assms(3)] obtain x v where
    w: "wrote ops m k h (filter (\<lambda>r. fst r \<noteq> i \<and> unexpired h r) (active_of ops m k) @ [(next_id_of m k, x)])
          (Some (f v)) m'" by blast
  from assms(2) have "refs_ok m k (filter (\<lambda>r. fst r \<noteq> i \<and> unexpired h r) (active_of ops m k))"
    by (simp add: vector_ok_def refs_ok_filter)
  from wrote_ok [OF assms(1,2) w refs_ok_append [OF assms(2) w this]] show ?thesis .
qed

lemma remove_item_ok:
  assumes "history_laws ops till" and "vector_ok ops till m" and "remove_item ops m k i h = Ok (m', v, n)"
  shows "vector_ok ops till m'"
proof -
  from remove_item_wrote [OF assms(3)] have
    w: "wrote ops m k h (filter (\<lambda>r. fst r \<noteq> i \<and> unexpired h r) (active_of ops m k)) None m'" by blast
  from assms(2) have "refs_ok m k (filter (\<lambda>r. fst r \<noteq> i \<and> unexpired h r) (active_of ops m k))"
    by (simp add: vector_ok_def refs_ok_filter)
  from wrote_ok [OF assms(1,2) w refs_ok_grow [OF this wrote_items [OF assms(2) w]]] show ?thesis .
qed

lemma update_expiration_ok:
  assumes "history_laws ops till" and "vector_ok ops till m" and "update_expiration ops m k i h e = Ok (m', r)"
  shows "vector_ok ops till m'"
proof -
  from update_expiration_cases [OF assms(3)] obtain x refs where
    set: "set_expiration i h x (active_of ops m k) = Some refs"
    and m': "m' = m\<lparr>active_refs := snap_save ops (active_refs m) k refs (last_update_of m k)\<rparr>" by blast
  have same: "last_update_of m' j = last_update_of m j" "items m' = items m" "next_id_of m' j = next_id_of m j" for j
    by (simp_all add: m' last_update_of_def next_id_of_def)
  from assms(2) have till: "till (active_refs m) j (last_update_of m j)" for j by (simp add: vector_ok_def)
  have ids: "fst ` set refs = fst ` set (active_of ops m k)" "map fst refs = map fst (active_of ops m k)"
    using set_expiration_ids [OF set] by (metis image_set, simp)
  have refs: "refs_ok m' k refs" using assms(2) ids same(2) by (auto simp: vector_ok_def refs_ok_def)
  have save: "active_refs m' = snap_save ops (active_refs m) k refs (last_update_of m k)" by (simp add: m')
  have "till (active_refs m') j (last_update_of m j)" for j
    using save till history_saved [OF assms(1) till] history_saved_other [OF assms(1)]
    by (cases "j = k") simp_all
  moreover have "refs_ok m' j rs = refs_ok m j rs" for j rs by (simp add: refs_ok_def same)
  ultimately show ?thesis
    using assms(2) refs active_of_saved [OF assms(1) save] active_at_saved [OF assms(1) save till]
    by (simp add: vector_ok_def same)
qed


section \<open>History\<close>

text \<open>What a reading at a height shows: identifiers and items, in order.\<close>

definition seen ::
  "('s, 'k, 'x) ref_ops \<Rightarrow> ('s, 'k, 'v) vector_map \<Rightarrow> 'k \<Rightarrow> u64 \<Rightarrow> ((u64 \<times> 'v) list, std_error) result" where
  "seen ops m k h =
     and_then (load_all ops m k h) (\<lambda>ls. Ok (map (\<lambda>l. (loaded_id l, loaded_value l)) ls))"

lemma as_usize_max: "as_usize (- 1) = 2 ^ 32 - 1"
  by (simp add: as_usize_def unsigned_minus_1_eq_mask mask_eq_exp_minus_1)

lemma seen_alt:
  "seen ops m k h =
     try_map (\<lambda>i. and_then (load_item m k i) (\<lambda>v. Ok (i, v)))
       (take (2 ^ 32 - 1) (map fst (filter (unexpired h) (active_at ops m k h))))"
proof -
  have "and_then (try_map (\<lambda>(i, e). and_then (load_item m k i) (\<lambda>v.
            Ok \<lparr>loaded_id = i, loaded_value = v, loaded_expiration = e\<rparr>)) rs)
          (\<lambda>ls. Ok (map (\<lambda>l. (loaded_id l, loaded_value l)) ls)) =
        try_map (\<lambda>i. and_then (load_item m k i) (\<lambda>v. Ok (i, v))) (map fst rs)" for rs
  proof (induction rs)
    case (Cons r rs)
    obtain i e where [simp]: "r = (i, e)" by (cases r)
    from Cons show ?case by (cases "load_item m k i") (simp_all add: and_then_assoc Cons [symmetric])
  qed simp
  then show ?thesis
    by (simp add: seen_def load_all_def load_vector_def load_page_def active_at_def Let_def as_usize_max
        as_usize_def [of 0] take_map)
qed

lemma try_map_cong: "(\<And>x. x \<in> set xs \<Longrightarrow> f x = g x) \<Longrightarrow> try_map f xs = try_map g xs"
  by (induction xs) simp_all

lemma seen_same:
  assumes "vector_ok ops till m" and "items m \<subseteq>\<^sub>m items m'"
    and "map fst (filter (unexpired h) (active_at ops m' k h)) = map fst (filter (unexpired h) (active_at ops m k h))"
  shows "seen ops m' k h = seen ops m k h"
proof -
  have "items m' (k, i) = items m (k, i)" if "i \<in> fst ` set (active_at ops m k h)" for i
    using that assms(1,2) by (force simp: vector_ok_def refs_ok_def map_le_def dom_def)
  then have "load_item m' k i = load_item m k i" if "i \<in> fst ` set (active_at ops m k h)" for i
    using that by (simp add: load_item_def)
  then show ?thesis unfolding seen_alt assms(3)
    by (intro try_map_cong) (force dest!: in_set_takeD)
qed

text \<open>Writing at a height leaves every reading up to that height as it was.\<close>

lemma wrote_history:
  assumes "history_laws ops till" and "vector_ok ops till m" and "wrote ops m k h refs new m'" and "h' \<le> h"
  shows "seen ops m' j h' = seen ops m j h'"
proof (rule seen_same [OF assms(2) wrote_items [OF assms(2,3)]])
  from assms(3) have w: "last_update_of m k \<le> h" "active_refs m' = snap_save ops (active_refs m) k refs h"
    by (simp_all add: wrote_def)
  from assms(2) have "till (active_refs m) k (last_update_of m k)" by (simp add: vector_ok_def)
  from active_at_saved [OF assms(1) w(2) history_mono [OF assms(1) this w(1)]] assms(4)
  show "map fst (filter (unexpired h') (active_at ops m' j h')) = map fst (filter (unexpired h') (active_at ops m j h'))"
    by (simp add: linorder_not_less [symmetric])
qed

lemma unexpired_anti: "unexpired h r \<Longrightarrow> h' \<le> h \<Longrightarrow> unexpired h' r"
  by (auto simp: unexpired_def split: option.splits)

lemma expires_later:
  assumes "expires_at h e = (Ok x :: (_, 'e) result)" and "e \<noteq> Some 0"
  shows "unexpired h (i, x)"
  using assms
  by (auto simp: expires_at_def unexpired_def result_ok word_less_nat_alt dest!: add_u64_Ok
      split: option.splits) (metis neq0_conv unat_eq_zero)

lemma update_expiration_history:
  assumes "history_laws ops till" and "vector_ok ops till m" and "update_expiration ops m k i h e = Ok (m', r)"
    and "e \<noteq> Some 0" and "h' \<le> h"
  shows "seen ops m' j h' = seen ops m j h'"
proof -
  from update_expiration_cases [OF assms(3)] obtain x refs where
    x: "expires_at h e = (Ok x :: (_, std_error) result)"
    and set: "set_expiration i h x (active_of ops m k) = Some refs"
    and m': "m' = m\<lparr>active_refs := snap_save ops (active_refs m) k refs (last_update_of m k)\<rparr>" by blast
  from assms(2) have till: "till (active_refs m) k (last_update_of m k)" by (simp add: vector_ok_def)
  have save: "active_refs m' = snap_save ops (active_refs m) k refs (last_update_of m k)" by (simp add: m')
  have "items m \<subseteq>\<^sub>m items m'" by (simp add: m')
  then show ?thesis
  proof (rule seen_same [OF assms(2)])
    show "map fst (filter (unexpired h') (active_at ops m' j h')) = map fst (filter (unexpired h') (active_at ops m j h'))"
    proof (cases "j = k \<and> last_update_of m k < h'")
      case True
      then have "active_at ops m j h' = active_of ops m k"
        using history_current [OF assms(1) till] by (simp add: active_at_def active_of_def)
      moreover have "active_at ops m' j h' = refs"
        using True active_at_saved [OF assms(1) save till] by simp
      moreover from set_expiration_split [OF set] obtain us y vs where
        "active_of ops m k = us @ (i, y) # vs" "refs = us @ (i, x) # vs" "unexpired h (i, y)" by blast
      ultimately show ?thesis
        using unexpired_anti [OF _ assms(5)] expires_later [OF x assms(4)] by simp
    next
      case False
      then show ?thesis using active_at_saved [OF assms(1) save till] by auto
    qed
  qed
qed


section \<open>The property\<close>

text \<open>
  An operation of the package at a height, and a sequence of them at heights from \<open>h\<close> on. A new
  expiration lies in the future; callers that pass a positive number of blocks ensure it.
\<close>

inductive vector_step ::
  "('s, 'k, 'x) ref_ops \<Rightarrow> u64 \<Rightarrow> ('s, 'k, 'v) vector_map \<Rightarrow> ('s, 'k, 'v) vector_map \<Rightarrow> bool"
  for ops :: "('s, 'k, 'x) ref_ops" and h :: u64 where
  step_push: "push ops m k v h e = Ok (m', r, n) \<Longrightarrow> vector_step ops h m m'"
| step_remove: "remove_item ops m k i h = Ok (m', v, n) \<Longrightarrow> vector_step ops h m m'"
| step_update: "update_item ops m k i h f e = Ok (m', r, n) \<Longrightarrow> vector_step ops h m m'"
| step_expiration: "update_expiration ops m k i h e = Ok (m', r) \<Longrightarrow> e \<noteq> Some 0 \<Longrightarrow> vector_step ops h m m'"

inductive vector_run ::
  "('s, 'k, 'x) ref_ops \<Rightarrow> u64 \<Rightarrow> ('s, 'k, 'v) vector_map \<Rightarrow> ('s, 'k, 'v) vector_map \<Rightarrow> bool"
  for ops :: "('s, 'k, 'x) ref_ops" and h :: u64 where
  vector_refl: "vector_run ops h m m"
| vector_trans: "vector_run ops h m m1 \<Longrightarrow> h \<le> h' \<Longrightarrow> vector_step ops h' m1 m2 \<Longrightarrow> vector_run ops h m m2"

lemma step_keeps:
  assumes "history_laws ops till" and "vector_ok ops till m" and "vector_step ops h m m'" and "h' \<le> h"
  shows "vector_ok ops till m' \<and> seen ops m' k h' = seen ops m k h'"
  using assms(3)
proof cases
  case (step_push j v e r n)
  with push_ok [OF assms(1,2) step_push] push_wrote [OF step_push] wrote_history [OF assms(1,2) _ assms(4)]
  show ?thesis by blast
next
  case (step_remove j i v n)
  with remove_item_ok [OF assms(1,2) step_remove] remove_item_wrote [OF step_remove]
    wrote_history [OF assms(1,2) _ assms(4)] show ?thesis by blast
next
  case (step_update j i f e r n)
  with update_item_ok [OF assms(1,2) step_update] update_item_wrote [OF step_update]
    wrote_history [OF assms(1,2) _ assms(4)] show ?thesis by blast
next
  case (step_expiration j i e r)
  with update_expiration_ok [OF assms(1,2) step_expiration(1)]
    update_expiration_history [OF assms(1,2) step_expiration assms(4)] show ?thesis by blast
qed

lemma run_keeps:
  assumes "history_laws ops till" and "vector_run ops h m m'" and "vector_ok ops till m" and "h' \<le> h"
  shows "vector_ok ops till m' \<and> seen ops m' k h' = seen ops m k h'"
  using assms(2,3)
proof induction
  case (vector_refl m)
  then show ?case by simp
next
  case (vector_trans m m1 h1 m2)
  then have "vector_ok ops till m1" "seen ops m1 k h' = seen ops m k h'" by simp_all
  moreover have "h' \<le> h1" using assms(4) vector_trans.hyps(2) by simp
  ultimately show ?case using step_keeps [OF assms(1) _ vector_trans.hyps(3)] by metis
qed

text \<open>
  A snapshot store that keeps every save, newest first, removals included.
\<close>

definition log_load :: "('k \<times> u64 \<times> 'v option) list \<Rightarrow> 'k \<Rightarrow> 'v option" where
  "log_load s k = (case find (\<lambda>(k', _, _). k' = k) s of None \<Rightarrow> None | Some (_, _, v) \<Rightarrow> v)"

definition log_at :: "('k \<times> u64 \<times> 'v option) list \<Rightarrow> 'k \<Rightarrow> u64 \<Rightarrow> 'v option" where
  "log_at s k h = (case find (\<lambda>(k', h', _). k' = k \<and> h' < h) s of None \<Rightarrow> None | Some (_, _, v) \<Rightarrow> v)"

definition log_ops :: "(('k :: linorder \<times> u64 \<times> 'v option) list, 'k, 'v) snap_ops" where
  "log_ops =
     \<lparr>snap_new = [], snap_load = log_load, snap_save = (\<lambda>s k v h. (k, h, Some v) # s), snap_at = log_at,
      snap_range = (\<lambda>s. map (\<lambda>k. (k, the (log_load s k)))
        (filter (\<lambda>k. log_load s k \<noteq> None) (sort (remdups (map fst s)))))\<rparr>"

definition log_till :: "('k \<times> u64 \<times> 'v option) list \<Rightarrow> 'k \<Rightarrow> u64 \<Rightarrow> bool" where
  "log_till s k h \<longleftrightarrow> (\<forall>(k', h', v) \<in> set s. k' = k \<longrightarrow> h' \<le> h)"

lemma find_cong_on: "(\<And>x. x \<in> set xs \<Longrightarrow> P x = Q x) \<Longrightarrow> find P xs = find Q xs"
  by (induction xs) auto

lemma log_laws: "history_laws log_ops log_till"
proof -
  have current: "log_at s k h' = log_load s k" if "log_till s k h" "h < h'" for s :: "('a \<times> u64 \<times> 'b option) list" and k h h'
  proof -
    have "find (\<lambda>(k', h'', _). k' = k \<and> h'' < h') s = find (\<lambda>(k', _, _). k' = k) s"
      using that by (intro find_cong_on) (auto simp: log_till_def)
    then show ?thesis by (simp add: log_at_def log_load_def)
  qed
  have "log_till s k h'" if "log_till s k h" "h \<le> h'" for s :: "('a \<times> u64 \<times> 'b option) list" and k h h'
    using that by (force simp: log_till_def)
  moreover have "log_till ((k, h, v) # s) k h" if "log_till s k h" for s :: "('a \<times> u64 \<times> 'b option) list" and k h v
    using that by (auto simp: log_till_def)
  moreover have "log_till ((k, h, v) # s) k' h'" if "log_till s k' h'" "k' \<noteq> k"
    for s :: "('a \<times> u64 \<times> 'b option) list" and k k' h h' v using that by (auto simp: log_till_def)
  ultimately show ?thesis
    using current by (auto simp: history_laws_def log_ops_def log_load_def log_at_def log_till_def)
qed

text \<open>C38: What was active at a height of the past stays readable as it was: no sequence of later pushes,
  removals, updates and renewals, of any keys, changes the items that a reading at an earlier height
  shows, although the package rewrites a list saved in the past when an expiration changes.
\<close>

theorem vector_history_kept:
  assumes "history_laws ops till" and "vector_ok ops till m" and "vector_run ops h m m'" and "h' \<le> h"
  shows "seen ops m' k h' = seen ops m k h'"
  using run_keeps [OF assms(1,3,2,4)] by blast


definition renewed_vector :: "u64 \<Rightarrow> u64 option \<Rightarrow> ((string \<times> u64 \<times> item_ref list option) list, string, string) vector_map" where
  "renewed_vector n e =
     \<lparr>items = [(''ann'', 0) \<mapsto> ''half''], next_ids = [''ann'' \<mapsto> 1],
      active_refs = (if n = 1 then [] else [(''ann'', 5, Some [(0, e)])]) @ [(''ann'', 5, Some [(0, Some 15)])],
      last_active_update = [''ann'' \<mapsto> 5]\<rparr>"

theorem vector_history_kept_witness:
  "seen log_ops (renewed_vector 2 (Some 17)) ''ann'' 6 = seen log_ops (renewed_vector 1 None) ''ann'' 6 \<and>
   seen log_ops (renewed_vector 1 None) ''ann'' 6 = Ok [(0, ''half'')]"
proof
  have add: "add_u64 (5 :: u64) 10 = (Ok 15 :: (_, std_error) result)" "add_u64 (7 :: u64) 10 = (Ok 17 :: (_, std_error) result)"
    "add_u64 (0 :: u64) 1 = (Ok 1 :: (_, std_error) result)" by (simp_all add: add_u64_def)
  have "push log_ops (vector_new log_ops) ''ann'' ''half'' 5 (Some 10) = Ok (renewed_vector 1 None, (0, Some 15), 1)"
    by (simp add: push_def validate_order_and_update_def last_update_of_def vector_new_def next_id_of_def
        active_of_def log_ops_def log_load_def expires_at_def add renewed_vector_def Let_def)
  with vector_ok_new [OF log_laws] have ok: "vector_ok log_ops log_till (renewed_vector 1 None)"
    by (rule push_ok [OF log_laws])
  have "update_expiration log_ops (renewed_vector 1 None) ''ann'' 0 7 (Some 10) = Ok (renewed_vector 2 (Some 17), (0, Some 17))"
    by (simp add: update_expiration_def renewed_vector_def expires_at_def add active_of_def log_ops_def log_load_def unexpired_def)
  moreover have "(10 :: u64) \<noteq> 0" using unat_eq_zero [of "10 :: u64"] by auto
  ultimately have "vector_run log_ops 6 (renewed_vector 1 None) (renewed_vector 2 (Some 17))"
    by (intro vector_trans [OF vector_refl, of _ 7] step_expiration) auto
  from vector_history_kept [OF log_laws ok this]
  show "seen log_ops (renewed_vector 2 (Some 17)) ''ann'' 6 = seen log_ops (renewed_vector 1 None) ''ann'' 6" by simp
  show "seen log_ops (renewed_vector 1 None) ''ann'' 6 = Ok [(0, ''half'')]"
    by (simp add: seen_alt active_at_def renewed_vector_def log_ops_def log_at_def unexpired_def load_item_def)
qed

end
