(* ===== verification/Vote_Delegation.thy ===== *)
theory Vote_Delegation
  imports Dao_Core Dao_Delegation Cw_Wormhole Cw_Snapshot_Vector_Map
begin

text \<open>
  The delegation module \<open>dao-vote-delegation\<close>: members delegate parts of their voting power to
  registered delegates, for a time. Every handler, hook, query and the migration of
  \<open>contract.rs\<close>, \<open>helpers.rs\<close> and \<open>hooks.rs\<close>, over the storage of \<open>state.rs\<close>.
  Event attributes are left out of responses; the contract sends no messages.
\<close>

section \<open>Decimals\<close>

definition decimal_checked_add :: "decimal \<Rightarrow> decimal \<Rightarrow> (decimal, std_error) result" where
  "decimal_checked_add a b = and_then (checked_add128 (atomics a) (atomics b)) (\<lambda>n. Ok (Decimal n))"

definition decimal_checked_sub :: "decimal \<Rightarrow> decimal \<Rightarrow> (decimal, std_error) result" where
  "decimal_checked_sub a b = and_then (checked_sub128 (atomics a) (atomics b)) (\<lambda>n. Ok (Decimal n))"

definition decimal_checked_mul :: "decimal \<Rightarrow> decimal \<Rightarrow> (decimal, std_error) result" where
  "decimal_checked_mul a b =
     (let n = atomics a * atomics b div 10 ^ decimal_places in
      if n < 2 ^ 128 then Ok (Decimal n) else Err OverflowErr)"

definition valid_percent :: "decimal \<Rightarrow> bool" where
  "valid_percent p \<longleftrightarrow> \<not> (atomics p \<le> 0 \<or> decimal_less decimal_one p)"

section \<open>State, messages and errors\<close>

record delegation =
  delegation_delegate :: addr
  delegation_percent :: decimal

record delegation_config =
  delegation_validity_blocks :: "u64 option"
  max_delegations :: u64

text \<open>\<open>'d\<close>, \<open>'c\<close> and \<open>'a\<close> are the snapshot stores of delegates, of the cap and of active delegations.\<close>

record ('d, 'c, 'a) delegation_state =
  CONTRACT_INFO :: "(string \<times> string) option"
  CONFIG :: "delegation_config option"
  VP_CAP_PERCENT :: 'c
  DAO :: "addr option"
  PROPOSAL_HOOK_CALLERS :: "addr \<rightharpoonup> unit"
  VOTING_POWER_HOOK_CALLERS :: "addr \<rightharpoonup> unit"
  DELEGATES :: 'd
  UNVOTED_DELEGATED_VP :: "addr \<times> addr \<times> u64 \<rightharpoonup> nat"
  DELEGATED_VP :: "(addr, nat) wormhole"
  DELEGATIONS :: "('a, addr, delegation) vector_map"
  DELEGATION_ENTRIES :: "addr \<times> addr \<rightharpoonup> item_ref"
  PERCENT_DELEGATED :: "addr \<rightharpoonup> decimal"

record instantiate_msg =
  im_dao :: "string option"
  im_vp_hook_callers :: "string list option"
  im_no_sync_proposal_modules :: "bool option"
  im_vp_cap_percent :: "decimal option"
  im_delegation_validity_blocks :: "u64 option"
  im_max_delegations :: "u64 option"

text \<open>A change of membership, as \<open>cw4\<close> reports it.\<close>

record member_diff =
  diff_key :: string
  diff_old :: "u64 option"
  diff_new :: "u64 option"

datatype execute_msg =
    Register
  | Unregister
  | Delegate string decimal
  | Undelegate string
  | UpdateVotingPowerHookCallers "string list option" "string list option"
  | SyncProposalModules "string option" "nat option"
  | UpdateDelegationConfig "decimal update option" "u64 update option" "u64 option"
  | StakeChangeHook stake_changed_hook_msg
  | NftStakeChangeHook nft_stake_changed_hook_msg
  | MemberChangedHook "member_diff list"
  | DelegationVoteHook vote_hook_msg

text \<open>The two percentages of \<open>CannotDelegateMoreThan100Percent\<close> are kept before their formatting.\<close>

datatype contract_error =
    Std std_error
  | Overflow
  | Payment string
  | SemVer string
  | DelegationModuleNotSetup
  | Unauthorized
  | UnauthorizedHookCaller
  | InvalidDelegationValidityBlocks u64 u64
  | DelegateAlreadyRegistered
  | DelegateNotRegistered
  | DelegatesCannotDelegate
  | CannotRegisterWithDelegations
  | NoVotingPower
  | DelegationDoesNotExist
  | CannotDelegateMoreThan100Percent decimal decimal
  | InvalidVotingPowerPercent
  | MaxDelegationsReached u64 nat
  | MigrationErrorIncorrectContract string string
  | MigrationErrorInvalidVersion string string

text \<open>
  Parameters: the snapshot stores, the query for the proposal modules of the DAO, \<open>nonpayable\<close> of
  \<open>cw_utils\<close>, and \<open>semver\<close>, whose parsed versions stand by their text.
\<close>

record ('s, 'k, 'v) removable_ops = "('s, 'k, 'v) snap_ops" +
  snap_remove :: "'s \<Rightarrow> 'k \<Rightarrow> u64 \<Rightarrow> 's"

record ('d, 'c, 'a) delegation_deps = dao_querier +
  delegates_ops :: "('d, addr, unit) removable_ops"
  cap_ops :: "('c, unit, decimal option) snap_ops"
  active_ops :: "('a, addr, item_ref list) snap_ops"
  query_proposal_modules_of :: "addr \<Rightarrow> string option \<Rightarrow> nat option \<Rightarrow> (proposal_module list, std_error) result"
  nonpayable :: "message_info \<Rightarrow> (unit, string) result"
  semver_parse :: "string \<Rightarrow> (string, string) result"
  semver_le :: "string \<Rightarrow> string \<Rightarrow> bool"

type_synonym ('d, 'c, 'a) outcome = "(('d, 'c, 'a) delegation_state, contract_error) result"

section \<open>Helpers (helpers.rs)\<close>

definition unregister_delegate ::
  "('d, 'c, 'a, 'x) delegation_deps_scheme \<Rightarrow> ('d, 'c, 'a) delegation_state \<Rightarrow> addr \<Rightarrow> u64
     \<Rightarrow> ('d, 'c, 'a) delegation_state" where
  "unregister_delegate deps st del h = st\<lparr>DELEGATES := snap_remove (delegates_ops deps) (DELEGATES st) del h\<rparr>"

definition is_delegate_registered ::
  "('d, 'c, 'a, 'x) delegation_deps_scheme \<Rightarrow> ('d, 'c, 'a) delegation_state \<Rightarrow> addr \<Rightarrow> u64 option \<Rightarrow> bool" where
  "is_delegate_registered deps st del h =
     ((case h of
         Some h \<Rightarrow> snap_at (delegates_ops deps) (DELEGATES st) del h
       | None \<Rightarrow> snap_load (delegates_ops deps) (DELEGATES st) del) \<noteq> None)"

definition get_voting_power_of ::
  "('d, 'c, 'a, 'x) delegation_deps_scheme \<Rightarrow> ('d, 'c, 'a) delegation_state \<Rightarrow> addr \<Rightarrow> u64
     \<Rightarrow> (nat, std_error) result" where
  "get_voting_power_of deps st a h =
     and_then (load (DAO st)) (\<lambda>dao. get_voting_power deps a dao (Some h))"

definition get_udvp ::
  "('d, 'c, 'a) delegation_state \<Rightarrow> addr \<Rightarrow> addr \<Rightarrow> u64 \<Rightarrow> u64 \<Rightarrow> nat" where
  "get_udvp st del proposal_module proposal_id proposal_height =
     (case UNVOTED_DELEGATED_VP st (del, proposal_module, proposal_id) of
        Some vp \<Rightarrow> vp
      | None \<Rightarrow> value_at 0 (DELEGATED_VP st) del proposal_height)"

definition ensure_setup :: "('d, 'c, 'a) delegation_state \<Rightarrow> (unit, contract_error) result" where
  "ensure_setup st =
     (if dom (VOTING_POWER_HOOK_CALLERS st) = {} \<or> dom (PROPOSAL_HOOK_CALLERS st) = {}
      then Err DelegationModuleNotSetup else Ok ())"

definition ensure_max_delegations_not_reached :: "u64 \<Rightarrow> nat \<Rightarrow> nat \<Rightarrow> (unit, contract_error) result" where
  "ensure_max_delegations_not_reached mx old new =
     (if new > as_usize mx then Err (MaxDelegationsReached mx old) else Ok ())"

text \<open>\<open>env.block.height + 1\<close>, with the addition checked.\<close>

definition next_height :: "env \<Rightarrow> (u64, 'e) result" where
  "next_height env = add_u64 (height (block env)) 1"

definition add_delegated_vp ::
  "(addr, nat) wormhole \<Rightarrow> env \<Rightarrow> addr \<Rightarrow> nat \<Rightarrow> u64 option \<Rightarrow> ((addr, nat) wormhole, 'e) result" where
  "add_delegated_vp w env del vp expiration =
     and_then (next_height env) (\<lambda>h.
     and_then (wormhole_increment w del h vp) (\<lambda>(w, _).
     case expiration of
       None \<Rightarrow> Ok w
     | Some e \<Rightarrow> and_then (wormhole_decrement w del e vp) (\<lambda>(w, _). Ok w)))"

definition remove_delegated_vp_if_not_expired ::
  "(addr, nat) wormhole \<Rightarrow> env \<Rightarrow> addr \<Rightarrow> nat \<Rightarrow> u64 option \<Rightarrow> ((addr, nat) wormhole, 'e) result" where
  "remove_delegated_vp_if_not_expired w env del vp original_expiration =
     (if (case original_expiration of None \<Rightarrow> False | Some e \<Rightarrow> e \<le> height (block env)) then Ok w
      else
      and_then (case original_expiration of
          None \<Rightarrow> Ok w
        | Some e \<Rightarrow> and_then (wormhole_increment w del e vp) (\<lambda>(w, _). Ok w)) (\<lambda>w.
      and_then (next_height env) (\<lambda>h.
      and_then (wormhole_decrement w del h vp) (\<lambda>(w, _). Ok w))))"

definition update_delegated_vp_expiration ::
  "(addr, nat) wormhole \<Rightarrow> env \<Rightarrow> addr \<Rightarrow> nat \<Rightarrow> u64 option \<Rightarrow> u64 option
     \<Rightarrow> ((addr, nat) wormhole, std_error) result" where
  "update_delegated_vp_expiration w env del vp original_expiration new_expiration =
     and_then (case original_expiration of
         None \<Rightarrow> Ok w
       | Some e \<Rightarrow>
           if e \<le> height (block env)
           then Err (GenericErr ''original expiration is in the past, cannot rewrite history'')
           else and_then (wormhole_increment w del e vp) (\<lambda>(w, _). Ok w)) (\<lambda>w.
     case new_expiration of
       None \<Rightarrow> Ok w
     | Some e \<Rightarrow>
         if e \<le> height (block env)
         then Err (GenericErr ''new expiration is in the past, cannot rewrite history'')
         else and_then (wormhole_decrement w del e vp) (\<lambda>(w, _). Ok w))"

definition validate_delegation ::
  "('d, 'c, 'a, 'x) delegation_deps_scheme \<Rightarrow> ('d, 'c, 'a) delegation_state \<Rightarrow> env \<Rightarrow> addr \<Rightarrow> addr \<Rightarrow> decimal
     \<Rightarrow> (nat, contract_error) result" where
  "validate_delegation deps st env delegator del new_percent =
     (if \<not> valid_percent new_percent then Err InvalidVotingPowerPercent
      else if is_delegate_registered deps st delegator None then Err DelegatesCannotDelegate
      else if \<not> is_delegate_registered deps st del None then Err DelegateNotRegistered
      else
      and_then (next_height env) (\<lambda>h.
      and_then (map_err Std (get_voting_power_of deps st delegator h)) (\<lambda>vp.
      if vp = 0 then Err NoVotingPower else Ok vp)))"

definition handle_redelegation ::
  "('d, 'c, 'a, 'x) delegation_deps_scheme \<Rightarrow> ('d, 'c, 'a) delegation_state \<Rightarrow> env \<Rightarrow> addr \<Rightarrow> addr \<Rightarrow> decimal
     \<Rightarrow> delegation_config \<Rightarrow> decimal \<Rightarrow> nat \<Rightarrow> item_ref
     \<Rightarrow> (('d, 'c, 'a) delegation_state \<times> decimal \<times> item_ref \<times> bool, contract_error) result" where
  "handle_redelegation deps st env delegator del new_percent config current_percent_delegated vp existing =
     (case existing of (existing_id, existing_expiration) \<Rightarrow>
      let h = height (block env);
          expired = (case existing_expiration of None \<Rightarrow> False | Some e \<Rightarrow> e \<le> h) in
      and_then (map_err Std (load_item (DELEGATIONS st) delegator existing_id)) (\<lambda>d.
      let existing_percent = delegation_percent d in
      if \<not> expired \<and> existing_percent = new_percent then
        if existing_expiration = None \<and> delegation_validity_blocks config = None
        then Ok (st, current_percent_delegated, (existing_id, existing_expiration), False)
        else
        and_then (map_err Std (update_expiration (active_ops deps) (DELEGATIONS st) delegator existing_id h
            (delegation_validity_blocks config))) (\<lambda>(ds, _, new_expiration).
        and_then (map_err Std (update_delegated_vp_expiration (DELEGATED_VP st) env del vp
            existing_expiration new_expiration)) (\<lambda>w.
        Ok (st\<lparr>DELEGATIONS := ds, DELEGATED_VP := w\<rparr>, current_percent_delegated,
            (existing_id, new_expiration), False)))
      else
        and_then (map_err (\<lambda>_. Overflow) (decimal_checked_sub current_percent_delegated existing_percent)) (\<lambda>less.
        and_then (map_err (\<lambda>_. Overflow) (decimal_checked_add less new_percent)) (\<lambda>new_total.
        and_then (if expired then Ok (DELEGATED_VP st)
          else and_then (calculate_delegated_vp vp existing_percent) (\<lambda>old_vp.
            remove_delegated_vp_if_not_expired (DELEGATED_VP st) env del old_vp existing_expiration)) (\<lambda>w.
        and_then (map_err Std (update_item (active_ops deps) (DELEGATIONS st) delegator existing_id h
            (\<lambda>d. d\<lparr>delegation_percent := new_percent\<rparr>) (delegation_validity_blocks config)))
          (\<lambda>(ds, entry, total_count).
        and_then (ensure_max_delegations_not_reached (max_delegations config) total_count total_count) (\<lambda>_.
        Ok (st\<lparr>DELEGATED_VP := w, DELEGATIONS := ds\<rparr>, new_total, entry, True))))))))"

definition handle_new_delegation ::
  "('d, 'c, 'a, 'x) delegation_deps_scheme \<Rightarrow> ('d, 'c, 'a) delegation_state \<Rightarrow> env \<Rightarrow> addr \<Rightarrow> addr \<Rightarrow> decimal
     \<Rightarrow> delegation_config \<Rightarrow> decimal
     \<Rightarrow> (('d, 'c, 'a) delegation_state \<times> decimal \<times> item_ref \<times> bool, contract_error) result" where
  "handle_new_delegation deps st env delegator del new_percent config current_percent_delegated =
     and_then (map_err (\<lambda>_. Overflow) (decimal_checked_add current_percent_delegated new_percent)) (\<lambda>new_total.
     and_then (map_err Std (push (active_ops deps) (DELEGATIONS st) delegator
         \<lparr>delegation_delegate = del, delegation_percent = new_percent\<rparr> (height (block env))
         (delegation_validity_blocks config))) (\<lambda>(ds, entry, total_count).
     and_then (ensure_max_delegations_not_reached (max_delegations config) (total_count - 1) total_count) (\<lambda>_.
     Ok (st\<lparr>DELEGATIONS := ds\<rparr>, new_total, entry, True))))"

definition validate_and_update_delegated_vp ::
  "('d, 'c, 'a) delegation_state \<Rightarrow> env \<Rightarrow> addr \<Rightarrow> addr \<Rightarrow> decimal \<Rightarrow> decimal \<Rightarrow> nat \<Rightarrow> u64 option
     \<Rightarrow> ('d, 'c, 'a) outcome" where
  "validate_and_update_delegated_vp st env delegator del current_total_percent new_total_percent delegated_vp
       expiration =
     (if decimal_less decimal_one new_total_percent then
        and_then (map_err (\<lambda>_. Overflow)
            (decimal_checked_mul current_total_percent (decimal_percent 10000))) (\<lambda>current.
        and_then (map_err (\<lambda>_. Overflow)
            (decimal_checked_mul new_total_percent (decimal_percent 10000))) (\<lambda>attempt.
        Err (CannotDelegateMoreThan100Percent current attempt)))
      else
        and_then (add_delegated_vp (DELEGATED_VP st) env del delegated_vp expiration) (\<lambda>w.
        Ok (st\<lparr>PERCENT_DELEGATED := (PERCENT_DELEGATED st)(delegator \<mapsto> new_total_percent),
               DELEGATED_VP := w\<rparr>)))"

section \<open>Handlers (contract.rs)\<close>

definition CONTRACT_NAME :: string where
  "CONTRACT_NAME = ''crates.io:dao-vote-delegation''"

definition DEFAULT_LIMIT :: nat where
  "DEFAULT_LIMIT = 10"

definition DEFAULT_MAX_DELEGATIONS :: u64 where
  "DEFAULT_MAX_DELEGATIONS = 50"

definition MIN_DELEGATION_VALIDITY_BLOCKS :: u64 where
  "MIN_DELEGATION_VALIDITY_BLOCKS = 2"

definition execute_register ::
  "('d, 'c, 'a, 'x) delegation_deps_scheme \<Rightarrow> ('d, 'c, 'a) delegation_state \<Rightarrow> env \<Rightarrow> addr \<Rightarrow> ('d, 'c, 'a) outcome" where
  "execute_register deps st env del =
     and_then (ensure_setup st) (\<lambda>_.
     if is_delegate_registered deps st del None then Err DelegateAlreadyRegistered
     else
     and_then (next_height env) (\<lambda>h.
     and_then (map_err Std (get_voting_power_of deps st del h)) (\<lambda>vp.
     if vp = 0 then Err NoVotingPower
     else if (\<exists>k \<in> dom (DELEGATION_ENTRIES st). fst k = del) then Err CannotRegisterWithDelegations
     else Ok (st\<lparr>DELEGATES := snap_save (delegates_ops deps) (DELEGATES st) del () (height (block env))\<rparr>))))"

definition execute_unregister ::
  "('d, 'c, 'a, 'x) delegation_deps_scheme \<Rightarrow> ('d, 'c, 'a) delegation_state \<Rightarrow> env \<Rightarrow> addr \<Rightarrow> ('d, 'c, 'a) outcome" where
  "execute_unregister deps st env del =
     and_then (ensure_setup st) (\<lambda>_.
     if \<not> is_delegate_registered deps st del None then Err DelegateNotRegistered
     else Ok (unregister_delegate deps st del (height (block env))))"

definition percent_delegated_of :: "('d, 'c, 'a) delegation_state \<Rightarrow> addr \<Rightarrow> decimal" where
  "percent_delegated_of st a = (case PERCENT_DELEGATED st a of None \<Rightarrow> Decimal 0 | Some p \<Rightarrow> p)"

definition execute_delegate ::
  "('d, 'c, 'a, 'x) delegation_deps_scheme \<Rightarrow> ('d, 'c, 'a) delegation_state \<Rightarrow> env \<Rightarrow> addr \<Rightarrow> string \<Rightarrow> decimal
     \<Rightarrow> ('d, 'c, 'a) outcome" where
  "execute_delegate deps st env delegator del new_percent =
     and_then (ensure_setup st) (\<lambda>_.
     and_then (map_err Std (addr_validate deps del)) (\<lambda>del.
     and_then (validate_delegation deps st env delegator del new_percent) (\<lambda>vp.
     and_then (map_err Std (load (CONFIG st))) (\<lambda>config.
     let current = percent_delegated_of st delegator in
     and_then (case DELEGATION_ENTRIES st (delegator, del) of
         Some existing \<Rightarrow> handle_redelegation deps st env delegator del new_percent config current vp existing
       | None \<Rightarrow> handle_new_delegation deps st env delegator del new_percent config current)
       (\<lambda>(st, new_total_percent, new_entry, delegated_vp_changed).
     let st = st\<lparr>DELEGATION_ENTRIES := (DELEGATION_ENTRIES st)((delegator, del) \<mapsto> new_entry)\<rparr> in
     and_then (calculate_delegated_vp vp new_percent) (\<lambda>new_delegated_vp.
     if delegated_vp_changed then
       and_then (expires_at (height (block env)) (delegation_validity_blocks config)) (\<lambda>expiration.
       validate_and_update_delegated_vp st env delegator del current new_total_percent new_delegated_vp expiration)
     else Ok st))))))"

definition execute_undelegate ::
  "('d, 'c, 'a, 'x) delegation_deps_scheme \<Rightarrow> ('d, 'c, 'a) delegation_state \<Rightarrow> env \<Rightarrow> addr \<Rightarrow> string
     \<Rightarrow> ('d, 'c, 'a) outcome" where
  "execute_undelegate deps st env delegator del =
     and_then (ensure_setup st) (\<lambda>_.
     and_then (map_err Std (addr_validate deps del)) (\<lambda>del.
     and_then (ok_or (DELEGATION_ENTRIES st (delegator, del)) DelegationDoesNotExist)
       (\<lambda>(existing_id, existing_expiration).
     and_then (map_err Std (remove_item (active_ops deps) (DELEGATIONS st) delegator existing_id
         (height (block env)))) (\<lambda>(ds, d, _).
     and_then (map_err Std (decimal_checked_sub (percent_delegated_of st delegator) (delegation_percent d)))
       (\<lambda>new_percent.
     and_then (next_height env) (\<lambda>h.
     and_then (map_err Std (get_voting_power_of deps st delegator h)) (\<lambda>vp.
     and_then (calculate_delegated_vp vp (delegation_percent d)) (\<lambda>delegated_vp.
     and_then (remove_delegated_vp_if_not_expired (DELEGATED_VP st) env del delegated_vp existing_expiration)
       (\<lambda>w.
     Ok (st\<lparr>DELEGATIONS := ds,
            DELEGATION_ENTRIES := (DELEGATION_ENTRIES st)((delegator, del) := None),
            PERCENT_DELEGATED := (PERCENT_DELEGATED st)(delegator \<mapsto> new_percent),
            DELEGATED_VP := w\<rparr>))))))))))"

text \<open>Loops that validate addresses and store or remove them one by one.\<close>

definition add_callers ::
  "('d, 'c, 'a, 'x) delegation_deps_scheme \<Rightarrow> (addr \<rightharpoonup> unit) \<Rightarrow> string list \<Rightarrow> (addr \<rightharpoonup> unit, contract_error) result" where
  "add_callers deps m as =
     try_fold (\<lambda>m a. and_then (map_err Std (addr_validate deps a)) (\<lambda>a. Ok (m(a \<mapsto> ())))) m as"

definition remove_callers ::
  "('d, 'c, 'a, 'x) delegation_deps_scheme \<Rightarrow> (addr \<rightharpoonup> unit) \<Rightarrow> string list \<Rightarrow> (addr \<rightharpoonup> unit, contract_error) result" where
  "remove_callers deps m as =
     try_fold (\<lambda>m a. and_then (map_err Std (addr_validate deps a)) (\<lambda>a. Ok (m(a := None)))) m as"

definition execute_update_voting_power_hook_callers ::
  "('d, 'c, 'a, 'x) delegation_deps_scheme \<Rightarrow> ('d, 'c, 'a) delegation_state \<Rightarrow> addr
     \<Rightarrow> string list option \<Rightarrow> string list option \<Rightarrow> ('d, 'c, 'a) outcome" where
  "execute_update_voting_power_hook_callers deps st who add rem =
     and_then (map_err Std (load (DAO st))) (\<lambda>dao.
     if who \<noteq> dao then Err Unauthorized
     else
     and_then (case add of None \<Rightarrow> Ok (VOTING_POWER_HOOK_CALLERS st)
       | Some as \<Rightarrow> add_callers deps (VOTING_POWER_HOOK_CALLERS st) as) (\<lambda>m.
     and_then (case rem of None \<Rightarrow> Ok m | Some as \<Rightarrow> remove_callers deps m as) (\<lambda>m.
     Ok (st\<lparr>VOTING_POWER_HOOK_CALLERS := m\<rparr>))))"

definition sync_module :: "(addr \<rightharpoonup> unit) \<Rightarrow> proposal_module \<Rightarrow> (addr \<rightharpoonup> unit)" where
  "sync_module m p =
     (if module_status p = Enabled then m(address p \<mapsto> ()) else m(address p := None))"

definition execute_sync_proposal_modules ::
  "('d, 'c, 'a, 'x) delegation_deps_scheme \<Rightarrow> ('d, 'c, 'a) delegation_state \<Rightarrow> string option \<Rightarrow> nat option
     \<Rightarrow> ('d, 'c, 'a) outcome" where
  "execute_sync_proposal_modules deps st start_after lim =
     and_then (map_err Std (load (DAO st))) (\<lambda>dao.
     and_then (map_err Std (query_proposal_modules_of deps dao start_after lim)) (\<lambda>proposal_modules.
     Ok (st\<lparr>PROPOSAL_HOOK_CALLERS := foldl sync_module (PROPOSAL_HOOK_CALLERS st) proposal_modules\<rparr>)))"

definition check_cap :: "decimal option \<Rightarrow> (unit, contract_error) result" where
  "check_cap cap =
     (case cap of None \<Rightarrow> Ok ()
      | Some p \<Rightarrow> if valid_percent p then Ok () else Err InvalidVotingPowerPercent)"

definition check_validity_blocks :: "u64 option \<Rightarrow> (unit, contract_error) result" where
  "check_validity_blocks v =
     (case v of None \<Rightarrow> Ok ()
      | Some n \<Rightarrow>
          if n < MIN_DELEGATION_VALIDITY_BLOCKS
          then Err (InvalidDelegationValidityBlocks n MIN_DELEGATION_VALIDITY_BLOCKS)
          else Ok ())"

definition execute_update_config ::
  "('d, 'c, 'a, 'x) delegation_deps_scheme \<Rightarrow> ('d, 'c, 'a) delegation_state \<Rightarrow> env \<Rightarrow> addr
     \<Rightarrow> decimal update option \<Rightarrow> u64 update option \<Rightarrow> u64 option \<Rightarrow> ('d, 'c, 'a) outcome" where
  "execute_update_config deps st env who vp_cap_percent validity mx =
     and_then (map_err Std (load (DAO st))) (\<lambda>dao.
     if who \<noteq> dao then Err Unauthorized
     else
     and_then (maybe_update_result_with_value vp_cap_percent (\<lambda>v.
         and_then (check_cap v) (\<lambda>_.
         Ok (snap_save (cap_ops deps) (VP_CAP_PERCENT st) () v (height (block env))))) (VP_CAP_PERCENT st)) (\<lambda>cap.
     and_then (map_err Std (load (CONFIG st))) (\<lambda>config.
     and_then (maybe_update_result_with_value validity (\<lambda>v.
         and_then (check_validity_blocks v) (\<lambda>_.
         Ok (config\<lparr>delegation_validity_blocks := v\<rparr>))) config) (\<lambda>config.
     let config = (case mx of None \<Rightarrow> config | Some n \<Rightarrow> config\<lparr>max_delegations := n\<rparr>) in
     Ok (st\<lparr>VP_CAP_PERCENT := cap, CONFIG := Some config\<rparr>)))))"

definition instantiate ::
  "('d, 'c, 'a, 'x) delegation_deps_scheme \<Rightarrow> ('d, 'c, 'a) delegation_state \<Rightarrow> env \<Rightarrow> message_info \<Rightarrow> instantiate_msg
     \<Rightarrow> ('d, 'c, 'a) outcome" where
  "instantiate deps st env info msg =
     and_then (map_err Payment (nonpayable deps info)) (\<lambda>_.
     and_then (map_err Std (transpose_opt (addr_validate deps) (im_dao msg))) (\<lambda>d.
     let dao = (case d of None \<Rightarrow> sender info | Some d \<Rightarrow> d) in
     and_then (check_cap (im_vp_cap_percent msg)) (\<lambda>_.
     and_then (check_validity_blocks (im_delegation_validity_blocks msg)) (\<lambda>_.
     and_then (case im_vp_hook_callers msg of None \<Rightarrow> Ok (VOTING_POWER_HOOK_CALLERS st)
       | Some as \<Rightarrow> add_callers deps (VOTING_POWER_HOOK_CALLERS st) as) (\<lambda>callers.
     let st = st\<lparr>CONTRACT_INFO := Some (CONTRACT_NAME, CONTRACT_VERSION), DAO := Some dao,
            CONFIG := Some \<lparr>delegation_validity_blocks = im_delegation_validity_blocks msg,
              max_delegations = (case im_max_delegations msg of None \<Rightarrow> DEFAULT_MAX_DELEGATIONS | Some n \<Rightarrow> n)\<rparr>,
            VP_CAP_PERCENT := snap_save (cap_ops deps) (VP_CAP_PERCENT st) () (im_vp_cap_percent msg)
              (height (block env)),
            VOTING_POWER_HOOK_CALLERS := callers\<rparr> in
     if \<not> (case im_no_sync_proposal_modules msg of None \<Rightarrow> False | Some b \<Rightarrow> b)
     then execute_sync_proposal_modules deps st None None
     else Ok st)))))"

section \<open>Hooks (hooks.rs)\<close>

definition handle_delegate_voting_power_changed_hook ::
  "('d, 'c, 'a, 'x) delegation_deps_scheme \<Rightarrow> ('d, 'c, 'a) delegation_state \<Rightarrow> env \<Rightarrow> addr \<Rightarrow> nat
     \<Rightarrow> ('d, 'c, 'a) outcome" where
  "handle_delegate_voting_power_changed_hook deps st env del new_vp =
     Ok (if new_vp = 0 then unregister_delegate deps st del (height (block env)) else st)"

text \<open>The body of the loop over a delegator's delegations.\<close>

definition update_delegation_vp ::
  "env \<Rightarrow> nat \<Rightarrow> nat \<Rightarrow> (addr, nat) wormhole \<Rightarrow> delegation loaded_item
     \<Rightarrow> ((addr, nat) wormhole, contract_error) result" where
  "update_delegation_vp env old_vp new_vp w l =
     and_then (case loaded_expiration l of
         None \<Rightarrow> Ok False
       | Some e \<Rightarrow> and_then (next_height env) (\<lambda>h. Ok (e \<le> h))) (\<lambda>skip.
     if skip then Ok w
     else
     and_then (calculate_delegated_vp old_vp (delegation_percent (loaded_value l))) (\<lambda>current_delegated_vp.
     and_then (calculate_delegated_vp new_vp (delegation_percent (loaded_value l))) (\<lambda>new_delegated_vp.
     if new_delegated_vp < current_delegated_vp then
       remove_delegated_vp_if_not_expired w env (delegation_delegate (loaded_value l))
         (current_delegated_vp - new_delegated_vp) (loaded_expiration l)
     else if new_delegated_vp = current_delegated_vp then Ok w
     else add_delegated_vp w env (delegation_delegate (loaded_value l))
       (new_delegated_vp - current_delegated_vp) (loaded_expiration l))))"

definition handle_delegator_voting_power_changed_hook ::
  "('d, 'c, 'a, 'x) delegation_deps_scheme \<Rightarrow> ('d, 'c, 'a) delegation_state \<Rightarrow> env \<Rightarrow> addr \<Rightarrow> nat \<Rightarrow> nat \<Rightarrow> bool
     \<Rightarrow> ('d, 'c, 'a) outcome" where
  "handle_delegator_voting_power_changed_hook deps st env delegator new_vp vp_delta increased =
     and_then (map_err Std (load_all_latest (active_ops deps) (DELEGATIONS st) delegator (height (block env))))
       (\<lambda>delegations.
     and_then (map_err (\<lambda>_. Overflow)
       (if increased then checked_sub128 new_vp vp_delta else checked_add128 new_vp vp_delta)) (\<lambda>old_vp.
     and_then (try_fold (update_delegation_vp env old_vp new_vp) (DELEGATED_VP st) delegations) (\<lambda>w.
     Ok (st\<lparr>DELEGATED_VP := w\<rparr>))))"

definition handle_voting_power_changed_hook ::
  "('d, 'c, 'a, 'x) delegation_deps_scheme \<Rightarrow> ('d, 'c, 'a) delegation_state \<Rightarrow> env \<Rightarrow> addr \<Rightarrow> nat \<Rightarrow> bool
     \<Rightarrow> ('d, 'c, 'a) outcome" where
  "handle_voting_power_changed_hook deps st env a vp_delta increased =
     and_then (next_height env) (\<lambda>h.
     and_then (map_err Std (get_voting_power_of deps st a h)) (\<lambda>new_vp.
     if is_delegate_registered deps st a None
     then handle_delegate_voting_power_changed_hook deps st env a new_vp
     else handle_delegator_voting_power_changed_hook deps st env a new_vp vp_delta increased))"

definition execute_stake_changed ::
  "('d, 'c, 'a, 'x) delegation_deps_scheme \<Rightarrow> ('d, 'c, 'a) delegation_state \<Rightarrow> env \<Rightarrow> addr \<Rightarrow> stake_changed_hook_msg
     \<Rightarrow> ('d, 'c, 'a) outcome" where
  "execute_stake_changed deps st env who msg =
     (if VOTING_POWER_HOOK_CALLERS st who = None then Err UnauthorizedHookCaller
      else case msg of
        Stake a amount \<Rightarrow> handle_voting_power_changed_hook deps st env a amount True
      | Unstake a amount \<Rightarrow> handle_voting_power_changed_hook deps st env a amount False)"

definition member_changed ::
  "('d, 'c, 'a, 'x) delegation_deps_scheme \<Rightarrow> env \<Rightarrow> ('d, 'c, 'a) delegation_state \<Rightarrow> member_diff
     \<Rightarrow> ('d, 'c, 'a) outcome" where
  "member_changed deps env st member =
     and_then (map_err Std (addr_validate deps (diff_key member))) (\<lambda>a.
     let old = (case diff_old member of None \<Rightarrow> 0 | Some n \<Rightarrow> n);
         new = (case diff_new member of None \<Rightarrow> 0 | Some n \<Rightarrow> n) in
     if new > old then handle_voting_power_changed_hook deps st env a (unat (new - old)) True
     else handle_voting_power_changed_hook deps st env a (unat (old - new)) False)"

definition execute_membership_changed ::
  "('d, 'c, 'a, 'x) delegation_deps_scheme \<Rightarrow> ('d, 'c, 'a) delegation_state \<Rightarrow> env \<Rightarrow> addr \<Rightarrow> member_diff list
     \<Rightarrow> ('d, 'c, 'a) outcome" where
  "execute_membership_changed deps st env who diffs =
     (if VOTING_POWER_HOOK_CALLERS st who = None then Err UnauthorizedHookCaller
      else try_fold (member_changed deps env) st diffs)"

definition execute_nft_stake_changed ::
  "('d, 'c, 'a, 'x) delegation_deps_scheme \<Rightarrow> ('d, 'c, 'a) delegation_state \<Rightarrow> env \<Rightarrow> addr
     \<Rightarrow> nft_stake_changed_hook_msg \<Rightarrow> ('d, 'c, 'a) outcome" where
  "execute_nft_stake_changed deps st env who msg =
     (if VOTING_POWER_HOOK_CALLERS st who = None then Err UnauthorizedHookCaller
      else case msg of
        NftStake a _ \<Rightarrow> handle_voting_power_changed_hook deps st env a 1 True
      | NftUnstake a token_ids \<Rightarrow> handle_voting_power_changed_hook deps st env a (length token_ids) False)"

text \<open>The body of the loop over the delegations of a voter.\<close>

definition lower_udvp ::
  "addr \<Rightarrow> u64 \<Rightarrow> u64 \<Rightarrow> nat \<Rightarrow> ('d, 'c, 'a) delegation_state \<Rightarrow> delegation loaded_item \<Rightarrow> ('d, 'c, 'a) outcome" where
  "lower_udvp proposal_module proposal_id h pow st l =
     (let del = delegation_delegate (loaded_value l);
          udvp = get_udvp st del proposal_module proposal_id h in
      and_then (calculate_delegated_vp pow (delegation_percent (loaded_value l))) (\<lambda>delegated_vp.
      and_then (map_err (\<lambda>_. Overflow) (checked_sub128 udvp delegated_vp)) (\<lambda>new_udvp.
      Ok (st\<lparr>UNVOTED_DELEGATED_VP :=
               (UNVOTED_DELEGATED_VP st)((del, proposal_module, proposal_id) \<mapsto> new_udvp)\<rparr>))))"

definition execute_vote_hook ::
  "('d, 'c, 'a, 'x) delegation_deps_scheme \<Rightarrow> ('d, 'c, 'a) delegation_state \<Rightarrow> addr \<Rightarrow> vote_hook_msg
     \<Rightarrow> ('d, 'c, 'a) outcome" where
  "execute_vote_hook deps st proposal_module vote_hook =
     (if PROPOSAL_HOOK_CALLERS st proposal_module = None then Err UnauthorizedHookCaller
      else case vote_hook of
        NewVote proposal_id voter _ pow _ h is_first_vote \<Rightarrow>
          if \<not> is_first_vote then Ok st
          else
          and_then (map_err Std (addr_validate deps voter)) (\<lambda>delegator.
          and_then (map_err Std (load_all (active_ops deps) (DELEGATIONS st) delegator h)) (\<lambda>delegations.
          try_fold (lower_udvp proposal_module proposal_id h pow) st delegations)))"

section \<open>Dispatch and migration (contract.rs)\<close>

definition execute ::
  "('d, 'c, 'a, 'x) delegation_deps_scheme \<Rightarrow> ('d, 'c, 'a) delegation_state \<Rightarrow> env \<Rightarrow> message_info \<Rightarrow> execute_msg
     \<Rightarrow> ('d, 'c, 'a) outcome" where
  "execute deps st env info msg =
     and_then (map_err Payment (nonpayable deps info)) (\<lambda>_.
     case msg of
       Register \<Rightarrow> execute_register deps st env (sender info)
     | Unregister \<Rightarrow> execute_unregister deps st env (sender info)
     | Delegate del pct \<Rightarrow> execute_delegate deps st env (sender info) del pct
     | Undelegate del \<Rightarrow> execute_undelegate deps st env (sender info) del
     | UpdateVotingPowerHookCallers add rem \<Rightarrow>
         execute_update_voting_power_hook_callers deps st (sender info) add rem
     | SyncProposalModules start_after lim \<Rightarrow> execute_sync_proposal_modules deps st start_after lim
     | UpdateDelegationConfig cap validity mx \<Rightarrow>
         execute_update_config deps st env (sender info) cap validity mx
     | StakeChangeHook m \<Rightarrow> execute_stake_changed deps st env (sender info) m
     | NftStakeChangeHook m \<Rightarrow> execute_nft_stake_changed deps st env (sender info) m
     | MemberChangedHook diffs \<Rightarrow> execute_membership_changed deps st env (sender info) diffs
     | DelegationVoteHook v \<Rightarrow> execute_vote_hook deps st (sender info) v)"

definition migrate ::
  "('d, 'c, 'a, 'x) delegation_deps_scheme \<Rightarrow> ('d, 'c, 'a) delegation_state \<Rightarrow> ('d, 'c, 'a) outcome" where
  "migrate deps st =
     and_then (map_err Std (load (CONTRACT_INFO st))) (\<lambda>(contract, version).
     if contract \<noteq> CONTRACT_NAME then Err (MigrationErrorIncorrectContract CONTRACT_NAME contract)
     else
     and_then (map_err SemVer (semver_parse deps CONTRACT_VERSION)) (\<lambda>new_version.
     and_then (map_err SemVer (semver_parse deps version)) (\<lambda>current_version.
     if semver_le deps new_version current_version
     then Err (MigrationErrorInvalidVersion new_version current_version)
     else Ok (st\<lparr>CONTRACT_INFO := Some (CONTRACT_NAME, CONTRACT_VERSION)\<rparr>))))"

section \<open>Queries (contract.rs)\<close>

definition query_info :: "('d, 'c, 'a) delegation_state \<Rightarrow> (string \<times> string, std_error) result" where
  "query_info st = load (CONTRACT_INFO st)"

definition height_or_now :: "env \<Rightarrow> u64 option \<Rightarrow> u64" where
  "height_or_now env h = (case h of None \<Rightarrow> height (block env) | Some h \<Rightarrow> h)"

text \<open>Registered, delegated power and height.\<close>

definition query_registration ::
  "('d, 'c, 'a, 'x) delegation_deps_scheme \<Rightarrow> ('d, 'c, 'a) delegation_state \<Rightarrow> env \<Rightarrow> string \<Rightarrow> u64 option
     \<Rightarrow> (bool \<times> nat \<times> u64, std_error) result" where
  "query_registration deps st env del h =
     (let h = height_or_now env h in
      and_then (addr_validate deps del) (\<lambda>del.
      Ok (is_delegate_registered deps st del (Some h), value_at 0 (DELEGATED_VP st) del h, h)))"

definition query_delegates ::
  "('d, 'c, 'a, 'x) delegation_deps_scheme \<Rightarrow> ('d, 'c, 'a) delegation_state \<Rightarrow> env \<Rightarrow> string option \<Rightarrow> nat option
     \<Rightarrow> ((addr \<times> nat) list, std_error) result" where
  "query_delegates deps st env start_after lim =
     (let lim = (case lim of None \<Rightarrow> DEFAULT_LIMIT | Some l \<Rightarrow> l) in
      and_then (transpose_opt (addr_validate deps) start_after) (\<lambda>start.
      Ok (map (\<lambda>(del, _). (del, value_at 0 (DELEGATED_VP st) del (height (block env))))
        (take lim (filter (\<lambda>(del, _). case start of None \<Rightarrow> True | Some a \<Rightarrow> a < del)
          (snap_range (delegates_ops deps) (DELEGATES st)))))))"

definition query_delegations_of ::
  "('d, 'c, 'a, 'x) delegation_deps_scheme \<Rightarrow> ('d, 'c, 'a) delegation_state \<Rightarrow> env \<Rightarrow> string \<Rightarrow> u64 option
     \<Rightarrow> u64 option \<Rightarrow> u64 option \<Rightarrow> (delegation_response list \<times> u64, std_error) result" where
  "query_delegations_of deps st env delegator h ofs lim =
     (let h = height_or_now env h in
      and_then (addr_validate deps delegator) (\<lambda>delegator.
      and_then (load_vector (active_ops deps) (DELEGATIONS st) delegator h lim ofs) (\<lambda>ds.
      Ok (map (\<lambda>l. \<lparr>delegate = delegation_delegate (loaded_value l),
                      percent = delegation_percent (loaded_value l),
                      active = is_delegate_registered deps st (delegation_delegate (loaded_value l)) (Some h),
                      expiration_height = loaded_expiration l\<rparr>) ds, h))))"

text \<open>The cap in force at a height: unset, or set to no cap, is no cap.\<close>

definition cap_at ::
  "('d, 'c, 'a, 'x) delegation_deps_scheme \<Rightarrow> ('d, 'c, 'a) delegation_state \<Rightarrow> u64 \<Rightarrow> decimal option" where
  "cap_at deps st h =
     (case snap_at (cap_ops deps) (VP_CAP_PERCENT st) () h of None \<Rightarrow> None | Some cap \<Rightarrow> cap)"

definition query_unvoted_delegated_vp ::
  "('d, 'c, 'a, 'x) delegation_deps_scheme \<Rightarrow> ('d, 'c, 'a) delegation_state \<Rightarrow> string \<Rightarrow> string \<Rightarrow> u64 \<Rightarrow> u64
     \<Rightarrow> (unvoted_delegated_voting_power_response, std_error) result" where
  "query_unvoted_delegated_vp deps st del proposal_module proposal_id h =
     and_then (addr_validate deps del) (\<lambda>del.
     if \<not> is_delegate_registered deps st del (Some h) then Ok udvp_default
     else
     and_then (addr_validate deps proposal_module) (\<lambda>proposal_module.
     let total' = get_udvp st del proposal_module proposal_id h in
     and_then (case cap_at deps st h of
         None \<Rightarrow> Ok total'
       | Some p \<Rightarrow>
           if decimal_less p decimal_one then
             and_then (load (DAO st)) (\<lambda>dao.
             and_then (get_total_power deps dao (Some h)) (\<lambda>total_power.
             and_then (calculate_delegated_vp total_power p) (\<lambda>cap. Ok (min total' cap))))
           else Ok total') (\<lambda>effective.
     Ok \<lparr>udvp_total = total', udvp_effective = effective\<rparr>)))"

definition query_effective_unvoted_delegated_vote_power_reduction ::
  "('d, 'c, 'a, 'x) delegation_deps_scheme \<Rightarrow> ('d, 'c, 'a) delegation_state \<Rightarrow> string \<Rightarrow> u64 \<Rightarrow> u64 \<Rightarrow> string \<Rightarrow> nat
     \<Rightarrow> (nat, std_error) result" where
  "query_effective_unvoted_delegated_vote_power_reduction deps st proposal_module proposal_id proposal_height
       del delegated_vp =
     and_then (query_unvoted_delegated_vp deps st del proposal_module proposal_id proposal_height) (\<lambda>udvp.
     and_then (checked_sub128 (udvp_total udvp) delegated_vp) (\<lambda>rest.
     let new_effective_udvp = min rest (udvp_effective udvp) in
     Ok (udvp_effective udvp - new_effective_udvp)))"

definition query_proposal_modules ::
  "('d, 'c, 'a, 'x) delegation_deps_scheme \<Rightarrow> ('d, 'c, 'a) delegation_state \<Rightarrow> string option \<Rightarrow> nat option
     \<Rightarrow> (addr list, std_error) result" where
  "query_proposal_modules deps st start_after lim =
     and_then (transpose_opt (addr_validate deps) start_after) (\<lambda>start.
     Ok (paginate_map_keys (PROPOSAL_HOOK_CALLERS st) start lim Ascending))"

definition query_voting_power_hook_callers ::
  "('d, 'c, 'a, 'x) delegation_deps_scheme \<Rightarrow> ('d, 'c, 'a) delegation_state \<Rightarrow> string option \<Rightarrow> nat option
     \<Rightarrow> (addr list, std_error) result" where
  "query_voting_power_hook_callers deps st start_after lim =
     and_then (transpose_opt (addr_validate deps) start_after) (\<lambda>start.
     Ok (paginate_map_keys (VOTING_POWER_HOOK_CALLERS st) start lim Ascending))"

definition query_config :: "('d, 'c, 'a) delegation_state \<Rightarrow> (delegation_config, std_error) result" where
  "query_config st = load (CONFIG st)"

definition query_voting_power_cap ::
  "('d, 'c, 'a, 'x) delegation_deps_scheme \<Rightarrow> ('d, 'c, 'a) delegation_state \<Rightarrow> env \<Rightarrow> u64 option
     \<Rightarrow> decimal option \<times> u64" where
  "query_voting_power_cap deps st env h =
     (let h = height_or_now env h in (cap_at deps st h, h))"

end
