(* ===== verification/Vote_Delegation_Props.thy ===== *)
theory Vote_Delegation_Props
  imports Vote_Delegation
begin

text \<open>
  What holds of the delegation module in every state it reaches. \<open>records_ok\<close> ties the four
  records of a delegation together: the entry of a pair, the item, the list of active references and
  the percentage of the delegator. \<open>powers_exact\<close> says that the power delegated to each delegate at
  every later height is what the delegations in force then give.
\<close>

section \<open>Delegated power over time\<close>

lemma next_height_le:
  assumes "next_height env = (Ok n :: (_, 'e) result)"
  shows "n \<le> t \<longleftrightarrow> height (block env) < t"
proof -
  from assms have "unat n = unat (height (block env)) + unat (1 :: u64)"
    unfolding next_height_def by (rule add_u64_Ok)
  then show ?thesis by (simp add: word_less_nat_alt word_le_nat_alt Suc_le_eq)
qed

lemma unexpired_pair: "unexpired h (i, x) = (case x of None \<Rightarrow> True | Some e \<Rightarrow> h < e)"
  by (simp add: unexpired_def)

lemma add_delegated_value:
  assumes "add_delegated_vp w env d n x = (Ok w' :: (_, 'e) result)" and "height (block env) < t"
  shows "value_at 0 w' j t = value_at 0 w j t + (if j = d \<and> unexpired t (i, x) then n else 0)"
proof -
  from assms(1) obtain h w1 u where h: "next_height env = (Ok h :: (_, 'e) result)"
    and inc: "wormhole_increment w d h n = (Ok (w1, u) :: (_, 'e) result)"
    and rest: "(case x of None \<Rightarrow> Ok w1 | Some e \<Rightarrow> and_then (wormhole_decrement w1 d e n) (\<lambda>(w, _). Ok w)) = (Ok w' :: (_, 'e) result)"
    by (auto simp: add_delegated_vp_def result_ok)
  have "value_at 0 w1 j t = value_at 0 w j t + (if j = d then n else 0)"
    using increment_value(1) [OF inc] assms(2) by (simp add: next_height_le [OF h])
  then show ?thesis
  proof (cases x)
    case (Some e)
    with rest obtain v where dec: "wormhole_decrement w1 d e n = (Ok (w', v) :: (_, 'e) result)"
      by (auto simp: result_ok)
    from decrement_value(1) [OF dec, of j t] \<open>value_at 0 w1 j t = _\<close> Some show ?thesis
      by (auto simp: unexpired_pair split: if_splits)
  qed (use rest in \<open>auto simp: unexpired_pair\<close>)
qed

lemma remove_delegated_value:
  assumes "remove_delegated_vp_if_not_expired w env d n x = (Ok w' :: (_, 'e) result)" and "unexpired (height (block env)) (i, x)"
    and "height (block env) < t"
  shows "value_at 0 w' j t + (if j = d \<and> unexpired t (i, x) then n else 0) = value_at 0 w j t"
proof -
  from assms(1,2) obtain h w1 u where h: "next_height env = (Ok h :: (_, 'e) result)"
    and first: "(case x of None \<Rightarrow> Ok w | Some e \<Rightarrow> and_then (wormhole_increment w d e n) (\<lambda>(w, _). Ok w)) = (Ok w1 :: (_, 'e) result)"
    and dec: "wormhole_decrement w1 d h n = (Ok (w', u) :: (_, 'e) result)"
    by (auto simp: remove_delegated_vp_if_not_expired_def result_ok unexpired_pair split: option.splits if_splits)
  have w1: "value_at 0 w' j t + (if j = d then n else 0) = value_at 0 w1 j t"
    using decrement_value(1) [OF dec, of j t] assms(3) by (simp add: next_height_le [OF h])
  show ?thesis
  proof (cases x)
    case (Some e)
    with first obtain v where inc: "wormhole_increment w d e n = (Ok (w1, v) :: (_, 'e) result)"
      by (auto simp: result_ok)
    from increment_value(1) [OF inc, of j t] w1 Some show ?thesis
      by (auto simp: unexpired_pair split: if_splits)
  qed (use first w1 in \<open>auto simp: unexpired_pair\<close>)
qed

lemma update_delegated_value:
  assumes "update_delegated_vp_expiration w env d n x y = Ok w'"
  shows "value_at 0 w' j t + (if j = d \<and> unexpired t (i, x) then n else 0) =
    value_at 0 w j t + (if j = d \<and> unexpired t (i, y) then n else 0)"
proof -
  from assms obtain w1 where
    first: "x = None \<and> w1 = w \<or> (\<exists>e v. x = Some e \<and> wormhole_increment w d e n = (Ok (w1, v) :: (_, std_error) result))"
    and second: "y = None \<and> w' = w1 \<or> (\<exists>e v. y = Some e \<and> wormhole_decrement w1 d e n = (Ok (w', v) :: (_, std_error) result))"
    by (cases x; cases y) (auto simp: update_delegated_vp_expiration_def result_ok split: if_splits)
  have "value_at 0 w1 j t = value_at 0 w j t + (if j = d \<and> \<not> unexpired t (i, x) then n else 0)"
    using first by (auto simp: increment_value(1) unexpired_pair)
  moreover have "value_at 0 w' j t + (if j = d \<and> \<not> unexpired t (i, y) then n else 0) = value_at 0 w1 j t"
    using second
    by (auto simp: unexpired_pair not_less dest!: decrement_value(1) [where j = j and t' = t] split: if_splits)
  ultimately show ?thesis by (auto split: if_splits)
qed

lemma calculate_delegated_Ok:
  "calculate_delegated_vp v p = Ok n \<Longrightarrow> n = v * atomics p div 10 ^ decimal_places"
  by (auto simp: calculate_delegated_vp_def mul_floor_def decimal_is_zero_def split: if_splits)

lemma calculate_delegated_le:
  assumes "atomics p \<le> atomics decimal_one"
  shows "v * atomics p div 10 ^ decimal_places \<le> v"
proof -
  from assms have "v * atomics p \<le> v * 10 ^ decimal_places" by (simp add: decimal_one_def)
  then have "v * atomics p div 10 ^ decimal_places \<le> v * 10 ^ decimal_places div 10 ^ decimal_places"
    by (rule div_le_mono)
  then show ?thesis by simp
qed

lemma calculate_delegated_succeeds:
  assumes "atomics p \<le> atomics decimal_one" and "v < 2 ^ 128"
  shows "calculate_delegated_vp v p = Ok (v * atomics p div 10 ^ decimal_places)"
  using calculate_delegated_le [OF assms(1), of v] assms(2)
  by (auto simp: calculate_delegated_vp_def mul_floor_def decimal_is_zero_def)

section \<open>The records of a delegation\<close>

definition item_percent :: "('d, 'c, 'a) delegation_state \<Rightarrow> addr \<Rightarrow> u64 \<Rightarrow> nat" where
  "item_percent st a i =
     (case items (DELEGATIONS st) (a, i) of None \<Rightarrow> 0 | Some d \<Rightarrow> atomics (delegation_percent d))"

definition entry_percent :: "('d, 'c, 'a) delegation_state \<Rightarrow> addr \<Rightarrow> addr \<Rightarrow> nat" where
  "entry_percent st a d =
     (case DELEGATION_ENTRIES st (a, d) of None \<Rightarrow> 0 | Some (i, e) \<Rightarrow> item_percent st a i)"

definition delegates_of :: "('d, 'c, 'a) delegation_state \<Rightarrow> addr \<Rightarrow> addr set" where
  "delegates_of st a = {d. DELEGATION_ENTRIES st (a, d) \<noteq> None}"

definition delegators_of :: "('d, 'c, 'a) delegation_state \<Rightarrow> addr \<Rightarrow> addr set" where
  "delegators_of st d = {a. DELEGATION_ENTRIES st (a, d) \<noteq> None}"

text \<open>Every entry has its item, which names the delegate and a percentage above zero and at most one.\<close>

definition entries_ok :: "('d, 'c, 'a) delegation_state \<Rightarrow> bool" where
  "entries_ok st \<longleftrightarrow>
     finite (dom (DELEGATION_ENTRIES st)) \<and>
     (\<forall>a d i e. DELEGATION_ENTRIES st (a, d) = Some (i, e) \<longrightarrow>
        (\<exists>p. items (DELEGATIONS st) (a, i) = Some \<lparr>delegation_delegate = d, delegation_percent = p\<rparr> \<and>
             valid_percent p))"

text \<open>At height \<open>h\<close> and later, the active references in force are the entries in force.\<close>

definition active_ok ::
  "('a, addr, item_ref list) snap_ops \<Rightarrow> u64 \<Rightarrow> ('d, 'c, 'a) delegation_state \<Rightarrow> bool" where
  "active_ok ao h st \<longleftrightarrow>
     (\<forall>a. length (active_of ao (DELEGATIONS st) a) < 2 ^ 32 \<and> last_update_of (DELEGATIONS st) a \<le> h) \<and>
     (\<forall>a r. unexpired h r \<longrightarrow>
        (r \<in> set (active_of ao (DELEGATIONS st) a) \<longleftrightarrow> (\<exists>d. DELEGATION_ENTRIES st (a, d) = Some r)))"

definition percents_ok :: "('d, 'c, 'a) delegation_state \<Rightarrow> bool" where
  "percents_ok st \<longleftrightarrow>
     (\<forall>a. atomics (percent_delegated_of st a) = (\<Sum>d \<in> delegates_of st a. entry_percent st a d) \<and>
          atomics (percent_delegated_of st a) \<le> atomics decimal_one)"

definition registered :: "('d, addr, unit) removable_ops \<Rightarrow> ('d, 'c, 'a) delegation_state \<Rightarrow> addr \<Rightarrow> bool" where
  "registered dop st a \<longleftrightarrow> snap_load dop (DELEGATES st) a \<noteq> None"

definition delegates_idle :: "('d, addr, unit) removable_ops \<Rightarrow> ('d, 'c, 'a) delegation_state \<Rightarrow> bool" where
  "delegates_idle dop st \<longleftrightarrow> (\<forall>a. registered dop st a \<longrightarrow> delegates_of st a = {})"

definition records_ok ::
  "('d, addr, unit) removable_ops \<Rightarrow> ('a, addr, item_ref list) snap_ops \<Rightarrow> ('a \<Rightarrow> addr \<Rightarrow> u64 \<Rightarrow> bool)
     \<Rightarrow> u64 \<Rightarrow> ('d, 'c, 'a) delegation_state \<Rightarrow> bool" where
  "records_ok dop ao till h st \<longleftrightarrow>
     vector_ok ao till (DELEGATIONS st) \<and> entries_ok st \<and> active_ok ao h st \<and> percents_ok st \<and>
     delegates_idle dop st"

text \<open>What a delegator gives a delegate at a time, and all that a delegate is given.\<close>

definition given :: "(addr \<Rightarrow> nat) \<Rightarrow> ('d, 'c, 'a) delegation_state \<Rightarrow> addr \<Rightarrow> addr \<Rightarrow> u64 \<Rightarrow> nat" where
  "given vp st a d t =
     (case DELEGATION_ENTRIES st (a, d) of
        None \<Rightarrow> 0
      | Some (i, e) \<Rightarrow>
          if unexpired t (i, e) then vp a * item_percent st a i div 10 ^ decimal_places else 0)"

definition powers_exact :: "(addr \<Rightarrow> nat) \<Rightarrow> u64 \<Rightarrow> ('d, 'c, 'a) delegation_state \<Rightarrow> bool" where
  "powers_exact vp h st \<longleftrightarrow>
     (\<forall>d t. h < t \<longrightarrow>
        value_at 0 (DELEGATED_VP st) d t = (\<Sum>a \<in> delegators_of st d. given vp st a d t))"

lemma sum_one_changed:
  fixes f g :: "'k \<Rightarrow> nat"
  assumes "finite A" and "finite B" and "\<And>x. x \<notin> A \<Longrightarrow> f x = 0" and "\<And>x. x \<notin> B \<Longrightarrow> g x = 0"
    and "\<And>x. x \<noteq> d \<Longrightarrow> g x = f x"
  shows "sum g B + f d = sum f A + g d"
proof -
  let ?S = "insert d (A \<union> B)"
  have "sum f A = sum f ?S" using assms(1-3) by (intro sum.mono_neutral_left) auto
  moreover have "sum g B = sum g ?S" using assms(1,2,4) by (intro sum.mono_neutral_left) auto
  moreover have "sum f ?S = f d + sum f (?S - {d})" "sum g ?S = g d + sum g (?S - {d})"
    using assms(1,2) by (simp_all add: sum.remove [where x = d])
  moreover have "sum g (?S - {d}) = sum f (?S - {d})" using assms(5) by (intro sum.cong) auto
  ultimately show ?thesis by simp
qed

lemma finite_delegates:
  assumes "entries_ok st"
  shows "finite (delegates_of st a)" and "finite (delegators_of st d)"
proof -
  have "delegates_of st a \<subseteq> snd ` dom (DELEGATION_ENTRIES st)"
    "delegators_of st d \<subseteq> fst ` dom (DELEGATION_ENTRIES st)"
    by (force simp: delegates_of_def delegators_of_def)+
  with assms show "finite (delegates_of st a)" "finite (delegators_of st d)"
    by (auto simp: entries_ok_def intro: finite_subset)
qed

text \<open>
  Every operation changes the entry of one pair at most and leaves the items of all others:
  \<open>touched a d st st'\<close>.
\<close>

definition touched :: "addr \<Rightarrow> addr \<Rightarrow> ('d, 'c, 'a) delegation_state \<Rightarrow> ('d, 'c, 'a) delegation_state \<Rightarrow> bool" where
  "touched a d st st' \<longleftrightarrow>
     items (DELEGATIONS st) \<subseteq>\<^sub>m items (DELEGATIONS st') \<and>
     (\<forall>k. k \<noteq> (a, d) \<longrightarrow> DELEGATION_ENTRIES st' k = DELEGATION_ENTRIES st k)"

lemma entry_item:
  assumes "entries_ok st" and "DELEGATION_ENTRIES st (a, d) = Some (i, e)"
  obtains p where "items (DELEGATIONS st) (a, i) = Some \<lparr>delegation_delegate = d, delegation_percent = p\<rparr>"
    and "valid_percent p" and "item_percent st a i = atomics p" and "entry_percent st a d = atomics p"
  using assms that unfolding entries_ok_def by (force simp: item_percent_def entry_percent_def)

lemma touched_item:
  assumes "touched a d st st'" and "items (DELEGATIONS st) (b, i) = Some x"
  shows "items (DELEGATIONS st') (b, i) = Some x"
  using assms by (force simp: touched_def map_le_def dom_def)

lemma touched_other:
  assumes "entries_ok st" and "touched a d st st'" and "(b, c) \<noteq> (a, d)"
  shows "entry_percent st' b c = entry_percent st b c" and "given vp st' b c t = given vp st b c t"
proof -
  from assms(2,3) have e: "DELEGATION_ENTRIES st' (b, c) = DELEGATION_ENTRIES st (b, c)"
    by (simp add: touched_def)
  have "item_percent st' b i = item_percent st b i" if "DELEGATION_ENTRIES st (b, c) = Some (i, x)" for i x
    using entry_item [OF assms(1) that] touched_item [OF assms(2)] by (metis (no_types, lifting) item_percent_def)
  then show "entry_percent st' b c = entry_percent st b c" "given vp st' b c t = given vp st b c t"
    by (auto simp: entry_percent_def given_def e split: option.splits)
qed

lemma no_entry:
  "c \<notin> delegates_of s b \<Longrightarrow> entry_percent s b c = 0" "b \<notin> delegators_of s c \<Longrightarrow> given vp s b c t = 0"
  by (cases "DELEGATION_ENTRIES s (b, c)"; simp add: entry_percent_def given_def delegates_of_def delegators_of_def)+

lemma percent_sum_changed:
  assumes "entries_ok st" and "entries_ok st'" and "touched a d st st'"
  shows "(\<Sum>c \<in> delegates_of st' b. entry_percent st' b c) + (if b = a then entry_percent st a d else 0) =
    (\<Sum>c \<in> delegates_of st b. entry_percent st b c) + (if b = a then entry_percent st' a d else 0)"
proof -
  have "(\<Sum>c \<in> delegates_of st' b. entry_percent st' b c) + entry_percent st b d =
    (\<Sum>c \<in> delegates_of st b. entry_percent st b c) + entry_percent st' b d"
    using finite_delegates(1) [OF assms(1)] finite_delegates(1) [OF assms(2)]
    by (rule sum_one_changed) (auto simp: no_entry touched_other(1) [OF assms(1,3)])
  moreover have "entry_percent st' b d = entry_percent st b d" if "b \<noteq> a"
    using touched_other(1) [OF assms(1,3)] that by simp
  ultimately show ?thesis by auto
qed

lemma given_sum_changed:
  assumes "entries_ok st" and "entries_ok st'" and "touched a d st st'"
  shows "(\<Sum>b \<in> delegators_of st' c. given vp st' b c t) + (if c = d then given vp st a d t else 0) =
    (\<Sum>b \<in> delegators_of st c. given vp st b c t) + (if c = d then given vp st' a d t else 0)"
proof -
  have "(\<Sum>b \<in> delegators_of st' c. given vp st' b c t) + given vp st a c t =
    (\<Sum>b \<in> delegators_of st c. given vp st b c t) + given vp st' a c t"
    using finite_delegates(2) [OF assms(1)] finite_delegates(2) [OF assms(2)]
    by (rule sum_one_changed) (auto simp: no_entry touched_other(2) [OF assms(1,3)])
  moreover have "given vp st' a c t = given vp st a c t" if "c \<noteq> d"
    using touched_other(2) [OF assms(1,3)] that by simp
  ultimately show ?thesis by auto
qed


lemma powers_exact_later: "powers_exact vp h st \<Longrightarrow> h \<le> h' \<Longrightarrow> powers_exact vp h' st"
  unfolding powers_exact_def by (meson order_le_less_trans)

lemma active_ok_later: "active_ok ao h st \<Longrightarrow> h \<le> h' \<Longrightarrow> active_ok ao h' st"
  unfolding active_ok_def using unexpired_anti [of h' _ h] by (meson order_trans)

lemma records_ok_later: "records_ok dop ao till h st \<Longrightarrow> h \<le> h' \<Longrightarrow> records_ok dop ao till h' st"
  unfolding records_ok_def using active_ok_later by blast

text \<open>Two entries of a delegator never share an item.\<close>

lemma entries_distinct:
  assumes "entries_ok st" and "DELEGATION_ENTRIES st (a, d) = Some (i, e)"
    and "DELEGATION_ENTRIES st (a, d') = Some (i, e')"
  shows "d' = d"
  using entry_item [OF assms(1,2)] entry_item [OF assms(1,3)]
  by (metis delegation.ext_inject option.inject)

lemma percents_changed:
  assumes "entries_ok st" and "entries_ok st'" and "touched a d st st'" and "percents_ok st"
    and "PERCENT_DELEGATED st' = (PERCENT_DELEGATED st)(a \<mapsto> np)"
    and "atomics np + entry_percent st a d = atomics (percent_delegated_of st a) + entry_percent st' a d"
    and "atomics np \<le> atomics decimal_one"
  shows "percents_ok st'"
proof -
  have p: "percent_delegated_of st' b = (if b = a then np else percent_delegated_of st b)" for b
    using assms(5) by (simp add: percent_delegated_of_def)
  have "atomics (percent_delegated_of st' b) = (\<Sum>c \<in> delegates_of st' b. entry_percent st' b c)" for b
    using percent_sum_changed [OF assms(1-3), of b] assms(4,6) p [of b]
    by (auto simp: percents_ok_def split: if_splits)
  moreover have "atomics (percent_delegated_of st' b) \<le> atomics decimal_one" for b
    using p [of b] assms(4,7) unfolding percents_ok_def by (cases "b = a") metis+
  ultimately show ?thesis unfolding percents_ok_def by blast
qed

lemma powers_changed:
  assumes "entries_ok st" and "entries_ok st'" and "touched a d st st'" and "powers_exact vp h st"
    and "\<And>j t. h < t \<Longrightarrow>
      value_at 0 (DELEGATED_VP st') j t + (if j = d then given vp st a d t else 0) =
      value_at 0 (DELEGATED_VP st) j t + (if j = d then given vp st' a d t else 0)"
  shows "powers_exact vp h st'"
  unfolding powers_exact_def
proof (intro allI impI)
  fix j t assume t: "h < t"
  with assms(4) have "value_at 0 (DELEGATED_VP st) j t = (\<Sum>b \<in> delegators_of st j. given vp st b j t)"
    by (simp add: powers_exact_def)
  with given_sum_changed [OF assms(1-3), of vp j t] assms(5) [OF t, of j]
  show "value_at 0 (DELEGATED_VP st') j t = (\<Sum>b \<in> delegators_of st' j. given vp st' b j t)" by simp
qed

lemma idle_changed:
  assumes "delegates_idle dop st" and "touched a d st st'" and "\<not> registered dop st a"
    and "DELEGATES st' = DELEGATES st"
  shows "delegates_idle dop st'"
  unfolding delegates_idle_def
proof (intro allI impI)
  fix b assume b: "registered dop st' b"
  with assms(3,4) have "b \<noteq> a" "registered dop st b" by (auto simp: registered_def)
  with assms(1,2) show "delegates_of st' b = {}"
    by (simp add: delegates_idle_def delegates_of_def touched_def)
qed

section \<open>A delegation is created or replaced\<close>

definition kept :: "addr \<Rightarrow> addr \<Rightarrow> ('d, 'c, 'a) delegation_state \<Rightarrow> item_ref \<Rightarrow> bool" where
  "kept a d st r = (case DELEGATION_ENTRIES st (a, d) of None \<Rightarrow> True | Some (i, _) \<Rightarrow> fst r \<noteq> i)"

definition delegated ::
  "('a, addr, item_ref list) snap_ops \<Rightarrow> u64 \<Rightarrow> addr \<Rightarrow> addr \<Rightarrow> decimal \<Rightarrow> nat \<Rightarrow> u64 option
     \<Rightarrow> ('d, 'c, 'a) delegation_state \<Rightarrow> ('d, 'c, 'a) delegation_state \<Rightarrow> bool" where
  "delegated ao h a d p v y st st' \<longleftrightarrow>
     (let n = next_id_of (DELEGATIONS st) a;
          refs = filter (\<lambda>r. kept a d st r \<and> unexpired h r) (active_of ao (DELEGATIONS st) a) @ [(n, y)] in
      wrote ao (DELEGATIONS st) a h refs (Some \<lparr>delegation_delegate = d, delegation_percent = p\<rparr>) (DELEGATIONS st') \<and>
      length refs < 2 ^ 32 \<and>
      DELEGATION_ENTRIES st' = (DELEGATION_ENTRIES st)((a, d) \<mapsto> (n, y)) \<and>
      (\<exists>np. PERCENT_DELEGATED st' = (PERCENT_DELEGATED st)(a \<mapsto> np) \<and>
         atomics np + entry_percent st a d = atomics (percent_delegated_of st a) + atomics p \<and>
         atomics np \<le> atomics decimal_one) \<and>
      DELEGATES st' = DELEGATES st \<and>
      (\<forall>j t. h < t \<longrightarrow>
         value_at 0 (DELEGATED_VP st') j t + (if j = d then given (\<lambda>_. v) st a d t else 0) =
         value_at 0 (DELEGATED_VP st) j t +
           (if j = d \<and> unexpired t (n, y) then v * atomics p div 10 ^ decimal_places else 0)))"

lemma delegated_entries:
  assumes "vector_ok ao till (DELEGATIONS st)" and "entries_ok st" and "delegated ao h a d p v y st st'"
    and "valid_percent p"
  shows "touched a d st st'" and "entries_ok st'" and "entry_percent st' a d = atomics p"
    and "given vp st' a d t =
      (if unexpired t (next_id_of (DELEGATIONS st) a, y) then vp a * atomics p div 10 ^ decimal_places else 0)"
proof -
  let ?n = "next_id_of (DELEGATIONS st) a"
  from assms(3) obtain refs where
    w: "wrote ao (DELEGATIONS st) a h refs (Some \<lparr>delegation_delegate = d, delegation_percent = p\<rparr>) (DELEGATIONS st')"
    and e: "DELEGATION_ENTRIES st' = (DELEGATION_ENTRIES st)((a, d) \<mapsto> (?n, y))"
    unfolding delegated_def Let_def by blast
  show t: "touched a d st st'" using wrote_items [OF assms(1) w] e by (simp add: touched_def)
  have n: "items (DELEGATIONS st') (a, ?n) = Some \<lparr>delegation_delegate = d, delegation_percent = p\<rparr>"
    using w by (simp add: wrote_def)
  have "\<exists>q. items (DELEGATIONS st') (b, i) = Some \<lparr>delegation_delegate = c, delegation_percent = q\<rparr> \<and> valid_percent q"
    if "DELEGATION_ENTRIES st' (b, c) = Some (i, x)" for b c i x
  proof (cases "(b, c) = (a, d)")
    case True
    with that e n assms(4) show ?thesis by auto
  next
    case False
    with that e have "DELEGATION_ENTRIES st (b, c) = Some (i, x)" by auto
    from entry_item [OF assms(2) this] touched_item [OF t] show ?thesis by metis
  qed
  with assms(2) e show "entries_ok st'" by (auto simp: entries_ok_def)
  show "entry_percent st' a d = atomics p"
    "given vp st' a d t = (if unexpired t (?n, y) then vp a * atomics p div 10 ^ decimal_places else 0)"
    using e n by (simp_all add: entry_percent_def given_def item_percent_def)
qed

lemma delegated_active:
  assumes "history_laws ao till" and "entries_ok st" and "active_ok ao h st"
    and "delegated ao h a d p v y st st'"
  shows "active_ok ao h st'"
proof -
  let ?n = "next_id_of (DELEGATIONS st) a"
  let ?refs = "filter (\<lambda>r. kept a d st r \<and> unexpired h r) (active_of ao (DELEGATIONS st) a) @ [(?n, y)]"
  from assms(4) have w: "wrote ao (DELEGATIONS st) a h ?refs (Some \<lparr>delegation_delegate = d, delegation_percent = p\<rparr>) (DELEGATIONS st')"
    and len: "length ?refs < 2 ^ 32"
    and e: "DELEGATION_ENTRIES st' = (DELEGATION_ENTRIES st)((a, d) \<mapsto> (?n, y))"
    unfolding delegated_def Let_def by blast+
  have act: "active_of ao (DELEGATIONS st') b = (if b = a then ?refs else active_of ao (DELEGATIONS st) b)" for b
    using w by (intro active_of_saved [OF assms(1)]) (simp add: wrote_def)
  have last: "last_update_of (DELEGATIONS st') b \<le> h" for b
    using w assms(3) by (simp add: wrote_def active_ok_def)
  have link: "r \<in> set (active_of ao (DELEGATIONS st) b) \<longleftrightarrow> (\<exists>c. DELEGATION_ENTRIES st (b, c) = Some r)"
    if "unexpired h r" for b r using assms(3) that unfolding active_ok_def by blast
  have "r \<in> set ?refs \<longleftrightarrow> (\<exists>c. DELEGATION_ENTRIES st' (a, c) = Some r)" if u: "unexpired h r" for r
  proof
    assume r: "r \<in> set ?refs"
    show "\<exists>c. DELEGATION_ENTRIES st' (a, c) = Some r"
    proof (cases "r = (?n, y)")
      case True
      with e show ?thesis by auto
    next
      case False
      with r have "kept a d st r" "r \<in> set (active_of ao (DELEGATIONS st) a)" by auto
      with link [OF u] obtain c where c: "DELEGATION_ENTRIES st (a, c) = Some r" by blast
      with \<open>kept a d st r\<close> have "c \<noteq> d" by (cases r) (auto simp: kept_def)
      with c e show ?thesis by auto
    qed
  next
    assume "\<exists>c. DELEGATION_ENTRIES st' (a, c) = Some r"
    then obtain c where c: "DELEGATION_ENTRIES st' (a, c) = Some r" by blast
    show "r \<in> set ?refs"
    proof (cases "c = d")
      case True
      with c e show ?thesis by auto
    next
      case False
      with c e have old: "DELEGATION_ENTRIES st (a, c) = Some r" by simp
      moreover have "kept a d st r"
        using entries_distinct [OF assms(2)] old False
        by (cases r) (auto simp: kept_def split: option.splits)
      ultimately show ?thesis using link [OF u] u by auto
    qed
  qed
  moreover have "DELEGATION_ENTRIES st' (b, c) = DELEGATION_ENTRIES st (b, c)" if "b \<noteq> a" for b c
    using that e by simp
  ultimately show ?thesis unfolding active_ok_def act
    using assms(3) len last link by (auto simp: active_ok_def)
qed

lemma delegated_records:
  assumes "history_laws ao till" and "records_ok dop ao till h st" and "delegated ao h a d p v y st st'"
    and "valid_percent p" and "\<not> registered dop st a"
  shows "records_ok dop ao till h st'"
proof -
  from assms(2) have r: "vector_ok ao till (DELEGATIONS st)" "entries_ok st" "active_ok ao h st" "percents_ok st"
    "delegates_idle dop st" by (simp_all add: records_ok_def)
  note de = delegated_entries [OF r(1,2) assms(3,4)]
  let ?n = "next_id_of (DELEGATIONS st) a"
  let ?refs = "filter (\<lambda>r. kept a d st r \<and> unexpired h r) (active_of ao (DELEGATIONS st) a)"
  from assms(3) obtain np where
    w: "wrote ao (DELEGATIONS st) a h (?refs @ [(?n, y)])
      (Some \<lparr>delegation_delegate = d, delegation_percent = p\<rparr>) (DELEGATIONS st')"
    and np: "PERCENT_DELEGATED st' = (PERCENT_DELEGATED st)(a \<mapsto> np)"
      "atomics np + entry_percent st a d = atomics (percent_delegated_of st a) + atomics p"
      "atomics np \<le> atomics decimal_one"
    and same: "DELEGATES st' = DELEGATES st"
    unfolding delegated_def Let_def by blast
  from r(1) have "refs_ok (DELEGATIONS st) a ?refs" by (simp add: vector_ok_def refs_ok_filter)
  from wrote_ok [OF assms(1) r(1) w refs_ok_append [OF r(1) w this]]
  have "vector_ok ao till (DELEGATIONS st')" .
  moreover have "percents_ok st'"
    using np(2) by (intro percents_changed [OF r(2) de(2,1) r(4) np(1) _ np(3)]) (simp add: de(3))
  moreover have "delegates_idle dop st'" by (rule idle_changed [OF r(5) de(1) assms(5) same])
  ultimately show ?thesis
    using de(2) delegated_active [OF assms(1) r(2,3) assms(3)] by (simp add: records_ok_def)
qed

lemma delegated_powers:
  assumes "vector_ok ao till (DELEGATIONS st)" and "entries_ok st" and "powers_exact vp h st"
    and "delegated ao h a d p (vp a) y st st'" and "valid_percent p"
  shows "powers_exact vp h st'"
proof (rule powers_changed [OF assms(2) _ _ assms(3)])
  note de = delegated_entries [OF assms(1,2,4,5)]
  show "entries_ok st'" "touched a d st st'" by (rule de)+
  fix j t assume "h < t"
  moreover have "given (\<lambda>_. vp a) st a d t = given vp st a d t" by (simp add: given_def)
  moreover from assms(4) have "\<forall>j t. h < t \<longrightarrow>
      value_at 0 (DELEGATED_VP st') j t + (if j = d then given (\<lambda>_. vp a) st a d t else 0) =
      value_at 0 (DELEGATED_VP st) j t + (if j = d then given vp st' a d t else 0)"
    unfolding delegated_def Let_def de(4) by (elim conjE) (simp cong: if_cong split: if_splits)
  ultimately show "value_at 0 (DELEGATED_VP st') j t + (if j = d then given vp st a d t else 0) =
      value_at 0 (DELEGATED_VP st) j t + (if j = d then given vp st' a d t else 0)"
    by metis
qed


section \<open>A delegation is revoked\<close>

definition undelegated ::
  "('a, addr, item_ref list) snap_ops \<Rightarrow> u64 \<Rightarrow> addr \<Rightarrow> addr \<Rightarrow> nat
     \<Rightarrow> ('d, 'c, 'a) delegation_state \<Rightarrow> ('d, 'c, 'a) delegation_state \<Rightarrow> bool" where
  "undelegated ao h a d v st st' \<longleftrightarrow>
     wrote ao (DELEGATIONS st) a h (filter (\<lambda>r. kept a d st r \<and> unexpired h r) (active_of ao (DELEGATIONS st) a))
       None (DELEGATIONS st') \<and>
     DELEGATION_ENTRIES st (a, d) \<noteq> None \<and>
     DELEGATION_ENTRIES st' = (DELEGATION_ENTRIES st)((a, d) := None) \<and>
     (\<exists>np. PERCENT_DELEGATED st' = (PERCENT_DELEGATED st)(a \<mapsto> np) \<and>
        atomics np + entry_percent st a d = atomics (percent_delegated_of st a)) \<and>
     DELEGATES st' = DELEGATES st \<and>
     (\<forall>j t. h < t \<longrightarrow>
        value_at 0 (DELEGATED_VP st') j t + (if j = d then given (\<lambda>_. v) st a d t else 0) =
        value_at 0 (DELEGATED_VP st) j t)"

lemma undelegated_entries:
  assumes "vector_ok ao till (DELEGATIONS st)" and "entries_ok st" and "undelegated ao h a d v st st'"
  shows "touched a d st st'" and "entries_ok st'" and "entry_percent st' a d = 0" and "given vp st' a d t = 0"
proof -
  from assms(3) have w: "items (DELEGATIONS st') = items (DELEGATIONS st)"
    and e: "DELEGATION_ENTRIES st' = (DELEGATION_ENTRIES st)((a, d) := None)"
    by (simp_all add: undelegated_def wrote_def)
  then show "touched a d st st'" "entry_percent st' a d = 0" "given vp st' a d t = 0"
    by (simp_all add: touched_def entry_percent_def given_def)
  from assms(2) show "entries_ok st'" unfolding entries_ok_def w e by (auto split: if_splits)
qed

lemma undelegated_active:
  assumes "history_laws ao till" and "entries_ok st" and "active_ok ao h st" and "undelegated ao h a d v st st'"
  shows "active_ok ao h st'"
proof -
  let ?refs = "filter (\<lambda>r. kept a d st r \<and> unexpired h r) (active_of ao (DELEGATIONS st) a)"
  from assms(4) have w: "wrote ao (DELEGATIONS st) a h ?refs None (DELEGATIONS st')"
    and e: "DELEGATION_ENTRIES st' = (DELEGATION_ENTRIES st)((a, d) := None)"
    by (simp_all add: undelegated_def)
  have act: "active_of ao (DELEGATIONS st') b = (if b = a then ?refs else active_of ao (DELEGATIONS st) b)" for b
    using w by (intro active_of_saved [OF assms(1)]) (simp add: wrote_def)
  have last: "last_update_of (DELEGATIONS st') b \<le> h" for b
    using w assms(3) by (simp add: wrote_def active_ok_def)
  have link: "r \<in> set (active_of ao (DELEGATIONS st) b) \<longleftrightarrow> (\<exists>c. DELEGATION_ENTRIES st (b, c) = Some r)"
    if "unexpired h r" for b r using assms(3) that unfolding active_ok_def by blast
  have "r \<in> set ?refs \<longleftrightarrow> (\<exists>c. DELEGATION_ENTRIES st' (a, c) = Some r)" if u: "unexpired h r" for r
  proof -
    have "kept a d st r \<longleftrightarrow> c \<noteq> d" if "DELEGATION_ENTRIES st (a, c) = Some r" for c
      using that entries_distinct [OF assms(2)] by (cases r) (auto simp: kept_def split: option.splits)
    with link [OF u, of a] u show ?thesis unfolding e by auto
  qed
  moreover have "DELEGATION_ENTRIES st' (b, c) = DELEGATION_ENTRIES st (b, c)" if "b \<noteq> a" for b c
    using that e by simp
  moreover have "length ?refs < 2 ^ 32"
  proof -
    have "length (active_of ao (DELEGATIONS st) a) < 2 ^ 32" using assms(3) unfolding active_ok_def by blast
    then show ?thesis using length_filter_le order_le_less_trans by blast
  qed
  ultimately show ?thesis unfolding active_ok_def act
    using assms(3) last link by (auto simp: active_ok_def)
qed

lemma undelegated_records:
  assumes "history_laws ao till" and "records_ok dop ao till h st" and "undelegated ao h a d v st st'"
  shows "records_ok dop ao till h st'"
proof -
  from assms(2) have r: "vector_ok ao till (DELEGATIONS st)" "entries_ok st" "active_ok ao h st" "percents_ok st"
    "delegates_idle dop st" by (simp_all add: records_ok_def)
  note de = undelegated_entries [OF r(1,2) assms(3)]
  let ?refs = "filter (\<lambda>r. kept a d st r \<and> unexpired h r) (active_of ao (DELEGATIONS st) a)"
  from assms(3) obtain np where
    w: "wrote ao (DELEGATIONS st) a h ?refs None (DELEGATIONS st')"
    and np: "PERCENT_DELEGATED st' = (PERCENT_DELEGATED st)(a \<mapsto> np)"
      "atomics np + entry_percent st a d = atomics (percent_delegated_of st a)"
    and same: "DELEGATES st' = DELEGATES st" and some: "DELEGATION_ENTRIES st (a, d) \<noteq> None"
    unfolding undelegated_def by blast
  from r(1) have "refs_ok (DELEGATIONS st) a ?refs" by (simp add: vector_ok_def refs_ok_filter)
  from wrote_ok [OF assms(1) r(1) w refs_ok_grow [OF this wrote_items [OF r(1) w]]]
  have "vector_ok ao till (DELEGATIONS st')" .
  moreover have "percents_ok st'"
  proof (rule percents_changed [OF r(2) de(2,1) r(4) np(1)])
    show "atomics np + entry_percent st a d = atomics (percent_delegated_of st a) + entry_percent st' a d"
      using np(2) de(3) by simp
    have "atomics (percent_delegated_of st a) \<le> atomics decimal_one" using r(4) unfolding percents_ok_def by blast
    with np(2) show "atomics np \<le> atomics decimal_one" by simp
  qed
  moreover have "\<not> registered dop st a" using r(5) some by (auto simp: delegates_idle_def delegates_of_def)
  then have "delegates_idle dop st'" by (rule idle_changed [OF r(5) de(1) _ same])
  ultimately show ?thesis
    using de(2) undelegated_active [OF assms(1) r(2,3) assms(3)] by (simp add: records_ok_def)
qed

lemma undelegated_powers:
  assumes "vector_ok ao till (DELEGATIONS st)" and "entries_ok st" and "powers_exact vp h st"
    and "undelegated ao h a d (vp a) st st'"
  shows "powers_exact vp h st'"
proof (rule powers_changed [OF assms(2) _ _ assms(3)])
  note de = undelegated_entries [OF assms(1,2,4)]
  show "entries_ok st'" "touched a d st st'" by (rule de)+
  fix j t assume "h < t"
  moreover have "given (\<lambda>_. vp a) st a d t = given vp st a d t" by (simp add: given_def)
  ultimately show "value_at 0 (DELEGATED_VP st') j t + (if j = d then given vp st a d t else 0) =
      value_at 0 (DELEGATED_VP st) j t + (if j = d then given vp st' a d t else 0)"
    using assms(4) unfolding undelegated_def de(4) by (metis add.right_neutral)
qed

section \<open>A delegation is renewed\<close>

definition renewed ::
  "('a, addr, item_ref list) snap_ops \<Rightarrow> u64 \<Rightarrow> addr \<Rightarrow> addr \<Rightarrow> nat \<Rightarrow> u64 \<Rightarrow> u64 option \<Rightarrow> u64 option
     \<Rightarrow> ('d, 'c, 'a) delegation_state \<Rightarrow> ('d, 'c, 'a) delegation_state \<Rightarrow> bool" where
  "renewed ao h a d v i x y st st' \<longleftrightarrow>
     DELEGATION_ENTRIES st (a, d) = Some (i, x) \<and> unexpired h (i, x) \<and>
     (\<exists>e. update_expiration ao (DELEGATIONS st) a i h e = Ok (DELEGATIONS st', (i, y))) \<and>
     DELEGATION_ENTRIES st' = (DELEGATION_ENTRIES st)((a, d) \<mapsto> (i, y)) \<and>
     PERCENT_DELEGATED st' = PERCENT_DELEGATED st \<and>
     DELEGATES st' = DELEGATES st \<and>
     (\<forall>j t.
        value_at 0 (DELEGATED_VP st') j t + (if j = d \<and> unexpired t (i, x) then v else 0) =
        value_at 0 (DELEGATED_VP st) j t + (if j = d \<and> unexpired t (i, y) then v else 0))"

lemma renewed_items:
  assumes "renewed ao h a d v i x y st st'"
  shows "items (DELEGATIONS st') = items (DELEGATIONS st)"
    and "last_update_of (DELEGATIONS st') = last_update_of (DELEGATIONS st)"
  using assms
  by (auto simp: renewed_def last_update_of_def fun_eq_iff dest!: update_expiration_cases)

lemma renewed_entries:
  assumes "entries_ok st" and "renewed ao h a d v i x y st st'"
  shows "touched a d st st'" and "entries_ok st'" and "entry_percent st' a d = entry_percent st a d"
    and "given vp st' a d t =
      (if unexpired t (i, y) then vp a * entry_percent st a d div 10 ^ decimal_places else 0)"
    and "given vp st a d t =
      (if unexpired t (i, x) then vp a * entry_percent st a d div 10 ^ decimal_places else 0)"
proof -
  note it = renewed_items [OF assms(2)]
  from assms(2) have e: "DELEGATION_ENTRIES st' = (DELEGATION_ENTRIES st)((a, d) \<mapsto> (i, y))"
    and old: "DELEGATION_ENTRIES st (a, d) = Some (i, x)" by (simp_all add: renewed_def)
  show "touched a d st st'" by (simp add: touched_def it e)
  show "entries_ok st'" using assms(1) old unfolding entries_ok_def it e by (auto split: if_splits)
  show "entry_percent st' a d = entry_percent st a d"
    "given vp st' a d t = (if unexpired t (i, y) then vp a * entry_percent st a d div 10 ^ decimal_places else 0)"
    "given vp st a d t = (if unexpired t (i, x) then vp a * entry_percent st a d div 10 ^ decimal_places else 0)"
    by (simp_all add: entry_percent_def given_def item_percent_def e it old)
qed

lemma renewed_active:
  assumes "history_laws ao till" and "vector_ok ao till (DELEGATIONS st)" and "entries_ok st"
    and "active_ok ao h st" and "renewed ao h a d v i x y st st'"
  shows "active_ok ao h st'"
proof -
  from assms(5) obtain f where e: "DELEGATION_ENTRIES st' = (DELEGATION_ENTRIES st)((a, d) \<mapsto> (i, y))"
    and old: "DELEGATION_ENTRIES st (a, d) = Some (i, x)"
    and up: "update_expiration ao (DELEGATIONS st) a i h f = Ok (DELEGATIONS st', (i, y))"
    unfolding renewed_def by blast
  from update_expiration_cases [OF up] obtain refs where
    set: "set_expiration i h y (active_of ao (DELEGATIONS st) a) = Some refs"
    and m': "active_refs (DELEGATIONS st') = snap_save ao (active_refs (DELEGATIONS st)) a refs (last_update_of (DELEGATIONS st) a)"
    by auto
  from set_expiration_split [OF set] obtain us z vs where
    sp: "active_of ao (DELEGATIONS st) a = us @ (i, z) # vs" "refs = us @ (i, y) # vs" by blast
  have act: "active_of ao (DELEGATIONS st') b = (if b = a then refs else active_of ao (DELEGATIONS st) b)" for b
    by (rule active_of_saved [OF assms(1) m'])
  have "distinct (map fst (us @ (i, z) # vs))"
    using assms(2) unfolding vector_ok_def refs_ok_def sp(1) [symmetric] by blast
  then have only: "fst r \<noteq> i" if "r \<in> set us \<union> set vs" for r using that by force
  have link: "r \<in> set (active_of ao (DELEGATIONS st) b) \<longleftrightarrow> (\<exists>c. DELEGATION_ENTRIES st (b, c) = Some r)"
    if "unexpired h r" for b r using assms(4) that unfolding active_ok_def by blast
  have "r \<in> set refs \<longleftrightarrow> (\<exists>c. DELEGATION_ENTRIES st' (a, c) = Some r)" if u: "unexpired h r" for r
  proof (cases "r = (i, y)")
    case True
    with sp e show ?thesis by auto
  next
    case False
    have "(\<exists>c. DELEGATION_ENTRIES st' (a, c) = Some r) \<longleftrightarrow> (\<exists>c. c \<noteq> d \<and> DELEGATION_ENTRIES st (a, c) = Some r)"
      using False e by auto
    also have "\<dots> \<longleftrightarrow> fst r \<noteq> i \<and> (\<exists>c. DELEGATION_ENTRIES st (a, c) = Some r)"
    proof -
      have "c \<noteq> d \<longleftrightarrow> fst r \<noteq> i" if "DELEGATION_ENTRIES st (a, c) = Some r" for c
        using entries_distinct [OF assms(3) old, of c "snd r"] that old by (cases "c = d") auto
      then show ?thesis by blast
    qed
    also have "\<dots> \<longleftrightarrow> r \<in> set refs"
      using link [OF u, of a] sp False only [of r] by (cases r) auto
    finally show ?thesis ..
  qed
  moreover have "DELEGATION_ENTRIES st' (b, c) = DELEGATION_ENTRIES st (b, c)" if "b \<noteq> a" for b c
    using that e by simp
  moreover have "length refs = length (active_of ao (DELEGATIONS st) a)" using sp by simp
  ultimately show ?thesis unfolding active_ok_def act
    using assms(4) link renewed_items(2) [OF assms(5)] by (auto simp: active_ok_def)
qed

lemma renewed_records:
  assumes "history_laws ao till" and "records_ok dop ao till h st" and "renewed ao h a d v i x y st st'"
  shows "records_ok dop ao till h st'"
proof -
  from assms(2) have r: "vector_ok ao till (DELEGATIONS st)" "entries_ok st" "active_ok ao h st" "percents_ok st"
    "delegates_idle dop st" by (simp_all add: records_ok_def)
  note de = renewed_entries [OF r(2) assms(3)]
  from assms(3) obtain f where same: "DELEGATES st' = DELEGATES st" and some: "DELEGATION_ENTRIES st (a, d) = Some (i, x)"
    and up: "update_expiration ao (DELEGATIONS st) a i h f = Ok (DELEGATIONS st', (i, y))"
    and p: "PERCENT_DELEGATED st' = PERCENT_DELEGATED st"
    unfolding renewed_def by blast
  have "(\<Sum>c \<in> delegates_of st' b. entry_percent st' b c) = (\<Sum>c \<in> delegates_of st b. entry_percent st b c)" for b
    using percent_sum_changed [OF r(2) de(2,1), of b] de(3) by (simp split: if_splits)
  moreover have "percent_delegated_of st' b = percent_delegated_of st b" for b
    by (simp add: percent_delegated_of_def p)
  ultimately have "percents_ok st'" using r(4) unfolding percents_ok_def by metis
  moreover have "\<not> registered dop st a" using r(5) some by (auto simp: delegates_idle_def delegates_of_def)
  then have "delegates_idle dop st'" by (rule idle_changed [OF r(5) de(1) _ same])
  ultimately show ?thesis
    using de(2) renewed_active [OF assms(1) r(1-3) assms(3)] update_expiration_ok [OF assms(1) r(1) up]
    by (simp add: records_ok_def)
qed

text \<open>Here the full power of the delegator is moved: the account stays exact when all of it is delegated.\<close>

lemma renewed_powers:
  assumes "entries_ok st" and "powers_exact vp h st" and "renewed ao h a d (vp a) i x y st st'"
    and "vp a * entry_percent st a d div 10 ^ decimal_places = vp a"
  shows "powers_exact vp h st'"
proof (rule powers_changed [OF assms(1) _ _ assms(2)])
  note de = renewed_entries [OF assms(1,3)]
  show "entries_ok st'" "touched a d st st'" by (rule de)+
  fix j t
  from assms(3) have "value_at 0 (DELEGATED_VP st') j t + (if j = d \<and> unexpired t (i, x) then vp a else 0) =
      value_at 0 (DELEGATED_VP st) j t + (if j = d \<and> unexpired t (i, y) then vp a else 0)"
    unfolding renewed_def by (elim conjE) (erule allE)+
  then show "value_at 0 (DELEGATED_VP st') j t + (if j = d then given vp st a d t else 0) =
      value_at 0 (DELEGATED_VP st) j t + (if j = d then given vp st' a d t else 0)"
    unfolding de(4,5) assms(4) by (cases "j = d") simp_all
qed

end
