(* ===== verification/Vote_Delegation_Run.thy ===== *)
theory Vote_Delegation_Run
  imports Vote_Delegation_Props
begin

text \<open>
  The messages of the delegation module: what a successful handler did, and the runs of the module
  beside a voting module that reports every change of voting power through its hooks.
\<close>

section \<open>Records that stay\<close>

text \<open>The facts depend on three of the records only.\<close>

definition same_records :: "('d, 'c, 'a) delegation_state \<Rightarrow> ('d, 'c, 'a) delegation_state \<Rightarrow> bool" where
  "same_records st st' \<longleftrightarrow>
     DELEGATIONS st' = DELEGATIONS st \<and> DELEGATION_ENTRIES st' = DELEGATION_ENTRIES st \<and>
     PERCENT_DELEGATED st' = PERCENT_DELEGATED st"

lemma same_records_cong:
  assumes "same_records st st'"
  shows "item_percent st' = item_percent st" and "entry_percent st' = entry_percent st"
    and "given vp st' = given vp st" and "delegators_of st' = delegators_of st" and "delegates_of st' = delegates_of st"
    and "percent_delegated_of st' = percent_delegated_of st"
proof -
  show it: "item_percent st' = item_percent st" using assms by (simp add: same_records_def item_percent_def fun_eq_iff)
  show "entry_percent st' = entry_percent st" "given vp st' = given vp st"
    using assms unfolding entry_percent_def given_def it by (simp_all add: same_records_def)
  show "delegators_of st' = delegators_of st" "delegates_of st' = delegates_of st"
    "percent_delegated_of st' = percent_delegated_of st"
    using assms by (simp_all add: same_records_def delegators_of_def delegates_of_def percent_delegated_of_def fun_eq_iff)
qed

lemma same_records_ok:
  assumes "same_records st st'"
  shows "entries_ok st' = entries_ok st" and "active_ok ao h st' = active_ok ao h st" and "percents_ok st' = percents_ok st"
    and "DELEGATIONS st' = DELEGATIONS st"
  using assms unfolding percents_ok_def same_records_cong [OF assms]
  by (simp_all add: same_records_def entries_ok_def active_ok_def)

lemma same_records_powers:
  assumes "same_records st st'" and "DELEGATED_VP st' = DELEGATED_VP st"
  shows "powers_exact vp h st' = powers_exact vp h st"
  unfolding powers_exact_def same_records_cong [OF assms(1)] assms(2) ..

section \<open>Delegating\<close>

lemma expired_gives_nothing:
  assumes "DELEGATION_ENTRIES st (a, d) = Some (i, x)" and "\<not> unexpired h (i, x)" and "h < t"
  shows "given vp st a d t = 0"
proof -
  have "\<not> unexpired t (i, x)" using assms(2,3) unexpired_anti [of t "(i, x)" h] by (meson less_imp_le)
  with assms(1) show ?thesis by (simp add: given_def)
qed

lemma validate_delegation_Ok:
  assumes "validate_delegation deps st env a d p = Ok v"
  shows "valid_percent p" and "\<not> registered (delegates_ops deps) st a"
    and "\<exists>h. next_height env = (Ok h :: (_, contract_error) result) \<and> get_voting_power_of deps st a h = Ok v"
  using assms
  by (auto simp: validate_delegation_def is_delegate_registered_def registered_def result_ok split: if_splits)

text \<open>The last part of \<open>execute_delegate\<close>, after a new item was stored.\<close>

lemma validated_delegated:
  assumes "validate_and_update_delegated_vp
      (st1\<lparr>DELEGATION_ENTRIES := (DELEGATION_ENTRIES st)((a, d) \<mapsto> (next_id_of (DELEGATIONS st) a, y))\<rparr>)
      env a d c np n y = Ok st'"
    and "wrote ao (DELEGATIONS st) a (height (block env))
      (filter (\<lambda>r. kept a d st r \<and> unexpired (height (block env)) r) (active_of ao (DELEGATIONS st) a) @
         [(next_id_of (DELEGATIONS st) a, y)])
      (Some \<lparr>delegation_delegate = d, delegation_percent = p\<rparr>) (DELEGATIONS st1)"
    and "Suc (length (filter (\<lambda>r. kept a d st r \<and> unexpired (height (block env)) r)
      (active_of ao (DELEGATIONS st) a))) < 2 ^ 32"
    and "PERCENT_DELEGATED st1 = PERCENT_DELEGATED st" and "DELEGATES st1 = DELEGATES st"
    and "n = v * atomics p div 10 ^ decimal_places"
    and "atomics np + entry_percent st a d = atomics (percent_delegated_of st a) + atomics p"
    and "\<And>j t. height (block env) < t \<Longrightarrow>
      value_at 0 (DELEGATED_VP st1) j t + (if j = d then given (\<lambda>_. v) st a d t else 0) =
      value_at 0 (DELEGATED_VP st) j t"
  shows "delegated ao (height (block env)) a d p v y st st'"
proof -
  let ?st = "st1\<lparr>DELEGATION_ENTRIES := (DELEGATION_ENTRIES st)((a, d) \<mapsto> (next_id_of (DELEGATIONS st) a, y))\<rparr>"
  from assms(1) obtain w where np: "atomics np \<le> atomics decimal_one"
    and w: "add_delegated_vp (DELEGATED_VP st1) env d n y = (Ok w :: (_, contract_error) result)"
    and st': "st' = ?st\<lparr>PERCENT_DELEGATED := (PERCENT_DELEGATED st1)(a \<mapsto> np), DELEGATED_VP := w\<rparr>"
    by (auto simp: validate_and_update_delegated_vp_def decimal_less_def result_ok not_less split: if_splits)
  have "value_at 0 w j t + (if j = d then given (\<lambda>_. v) st a d t else 0) =
      value_at 0 (DELEGATED_VP st) j t +
        (if j = d \<and> unexpired t (next_id_of (DELEGATIONS st) a, y) then n else 0)" if "height (block env) < t" for j t
    using add_delegated_value [OF w that, of j "next_id_of (DELEGATIONS st) a"] assms(8) [OF that, of j] by simp
  moreover have "\<exists>q. PERCENT_DELEGATED st' = (PERCENT_DELEGATED st)(a \<mapsto> q) \<and>
      atomics q + entry_percent st a d = atomics (percent_delegated_of st a) + atomics p \<and>
      atomics q \<le> atomics decimal_one"
    using st' assms(4,7) np by (intro exI [of _ np]) simp
  ultimately show ?thesis using assms(2,3,5,6) st' by (simp add: delegated_def Let_def)
qed

lemma max_delegations_Ok:
  assumes "ensure_max_delegations_not_reached mx old new = Ok u"
  shows "new < 2 ^ 32"
proof -
  from assms have "new \<le> as_usize mx" by (auto simp: ensure_max_delegations_not_reached_def split: if_splits)
  also have "\<dots> < 2 ^ 32" by (simp add: as_usize_def)
  finally show ?thesis .
qed

lemma new_delegation_delegated:
  assumes "DELEGATION_ENTRIES st (a, d) = None"
    and "handle_new_delegation deps st env a d p config (percent_delegated_of st a) = Ok (st1, np, entry, ch)"
    and "calculate_delegated_vp v p = (Ok n :: (_, contract_error) result)"
    and "expires_at (height (block env)) (delegation_validity_blocks config) = (Ok y :: (_, contract_error) result)"
    and "validate_and_update_delegated_vp (st1\<lparr>DELEGATION_ENTRIES := (DELEGATION_ENTRIES st1)((a, d) \<mapsto> entry)\<rparr>)
      env a d (percent_delegated_of st a) np n y = Ok st'"
  shows "delegated (active_ops deps) (height (block env)) a d p v y st st'"
proof -
  from assms(2) obtain ds cnt where np: "decimal_checked_add (percent_delegated_of st a) p = Ok np"
    and push: "push (active_ops deps) (DELEGATIONS st) a \<lparr>delegation_delegate = d, delegation_percent = p\<rparr>
      (height (block env)) (delegation_validity_blocks config) = Ok (ds, entry, cnt)"
    and mx: "ensure_max_delegations_not_reached (max_delegations config) (cnt - 1) cnt = Ok ()"
    and st1: "st1 = st\<lparr>DELEGATIONS := ds\<rparr>"
    by (auto simp: handle_new_delegation_def result_ok)
  from push_wrote [OF push] assms(4) have entry: "entry = (next_id_of (DELEGATIONS st) a, y)"
    and cnt: "cnt = Suc (length (filter (unexpired (height (block env))) (active_of (active_ops deps) (DELEGATIONS st) a)))"
    and w: "wrote (active_ops deps) (DELEGATIONS st) a (height (block env))
      (filter (unexpired (height (block env))) (active_of (active_ops deps) (DELEGATIONS st) a) @
        [(next_id_of (DELEGATIONS st) a, y)]) (Some \<lparr>delegation_delegate = d, delegation_percent = p\<rparr>) ds"
    by (auto simp: expires_at_def result_ok add_u64_def split: option.splits if_splits)
  have kept: "kept a d st r" for r using assms(1) by (simp add: kept_def)
  have none: "given vp st a d t = 0" "entry_percent st a d = 0" for vp t
    using assms(1) by (simp_all add: given_def entry_percent_def)
  show ?thesis
  proof (rule validated_delegated [where n = n])
    show "validate_and_update_delegated_vp
        (st1\<lparr>DELEGATION_ENTRIES := (DELEGATION_ENTRIES st)((a, d) \<mapsto> (next_id_of (DELEGATIONS st) a, y))\<rparr>)
        env a d (percent_delegated_of st a) np n y = Ok st'"
      using assms(5) by (simp add: st1 entry)
    show "atomics np + entry_percent st a d = atomics (percent_delegated_of st a) + atomics p"
      using np none by (auto simp: decimal_checked_add_def result_ok)
  qed (use w st1 kept none max_delegations_Ok [OF mx] cnt calculate_delegated_Ok [OF assms(3)] in simp_all)
qed

lemma not_expired:
  "(case x of None \<Rightarrow> False | Some e \<Rightarrow> e \<le> h) \<longleftrightarrow> \<not> unexpired h (i, x)"
  by (auto simp: unexpired_pair split: option.splits)

text \<open>Replacing an expired delegation, or one with another percentage.\<close>

lemma redelegation_delegated:
  assumes "entries_ok st" and "DELEGATION_ENTRIES st (a, d) = Some (i, x)"
    and "unexpired (height (block env)) (i, x) \<Longrightarrow> entry_percent st a d \<noteq> atomics p"
    and "handle_redelegation deps st env a d p config (percent_delegated_of st a) v (i, x) = Ok (st1, np, entry, ch)"
    and "calculate_delegated_vp v p = (Ok n :: (_, contract_error) result)"
    and "expires_at (height (block env)) (delegation_validity_blocks config) = (Ok y :: (_, contract_error) result)"
    and "validate_and_update_delegated_vp (st1\<lparr>DELEGATION_ENTRIES := (DELEGATION_ENTRIES st1)((a, d) \<mapsto> entry)\<rparr>)
      env a d (percent_delegated_of st a) np n y = Ok st'"
  shows "delegated (active_ops deps) (height (block env)) a d p v y st st'"
proof -
  let ?h = "height (block env)" and ?ao = "active_ops deps"
  from entry_item [OF assms(1,2)] obtain q where
    q: "items (DELEGATIONS st) (a, i) = Some \<lparr>delegation_delegate = d, delegation_percent = q\<rparr>"
    "entry_percent st a d = atomics q" "item_percent st a i = atomics q" by metis
  have differ: "\<not> (unexpired ?h (i, x) \<and> q = p)" using assms(3) q(2) by auto
  from assms(4) differ obtain less w ds cnt where
    less: "decimal_checked_sub (percent_delegated_of st a) q = Ok less" "decimal_checked_add less p = Ok np"
    and w: "(if \<not> unexpired ?h (i, x) then Ok (DELEGATED_VP st)
        else and_then (calculate_delegated_vp v q) (\<lambda>old_vp.
          remove_delegated_vp_if_not_expired (DELEGATED_VP st) env d old_vp x)) = (Ok w :: (_, contract_error) result)"
    and up: "update_item ?ao (DELEGATIONS st) a i ?h (\<lambda>d. d\<lparr>delegation_percent := p\<rparr>)
        (delegation_validity_blocks config) = Ok (ds, entry, cnt)"
    and mx: "ensure_max_delegations_not_reached (max_delegations config) cnt cnt = Ok ()"
    and st1: "st1 = st\<lparr>DELEGATED_VP := w, DELEGATIONS := ds\<rparr>"
    by (auto simp: handle_redelegation_def not_expired [where i = i] load_item_def q result_ok Let_def
        split: if_splits)
  from update_item_wrote [OF up] assms(6) q(1) have entry: "entry = (next_id_of (DELEGATIONS st) a, y)"
    and cnt: "cnt = Suc (length (filter (\<lambda>r. fst r \<noteq> i \<and> unexpired ?h r) (active_of ?ao (DELEGATIONS st) a)))"
    and wr: "wrote ?ao (DELEGATIONS st) a ?h
      (filter (\<lambda>r. fst r \<noteq> i \<and> unexpired ?h r) (active_of ?ao (DELEGATIONS st) a) @
        [(next_id_of (DELEGATIONS st) a, y)]) (Some \<lparr>delegation_delegate = d, delegation_percent = p\<rparr>) ds"
    by (auto simp: expires_at_def result_ok add_u64_def split: option.splits if_splits)
  have kept: "kept a d st r \<longleftrightarrow> fst r \<noteq> i" for r using assms(2) by (simp add: kept_def)
  have given: "given (\<lambda>_. v) st a d t =
      (if unexpired t (i, x) then v * atomics q div 10 ^ decimal_places else 0)" for t
    using assms(2) q(3) by (simp add: given_def)
  have val: "value_at 0 w j t + (if j = d then given (\<lambda>_. v) st a d t else 0) = value_at 0 (DELEGATED_VP st) j t"
    if t: "?h < t" for j t
  proof (cases "unexpired ?h (i, x)")
    case True
    with w obtain m where m: "calculate_delegated_vp v q = (Ok m :: (_, contract_error) result)"
      "remove_delegated_vp_if_not_expired (DELEGATED_VP st) env d m x = (Ok w :: (_, contract_error) result)"
      by (auto simp: result_ok)
    from remove_delegated_value [OF m(2) True t, of j] calculate_delegated_Ok [OF m(1)] show ?thesis
      by (cases "j = d"; cases "unexpired t (i, x)") (simp_all add: given)
  next
    case False
    with w expired_gives_nothing [OF assms(2) False t] show ?thesis by simp
  qed
  show ?thesis
  proof (rule validated_delegated [where n = n])
    show "validate_and_update_delegated_vp
        (st1\<lparr>DELEGATION_ENTRIES := (DELEGATION_ENTRIES st)((a, d) \<mapsto> (next_id_of (DELEGATIONS st) a, y))\<rparr>)
        env a d (percent_delegated_of st a) np n y = Ok st'"
      using assms(7) by (simp add: st1 entry)
    show "atomics np + entry_percent st a d = atomics (percent_delegated_of st a) + atomics p"
      using less q(2) by (auto simp: decimal_checked_add_def decimal_checked_sub_def result_ok)
  qed (use wr st1 kept val max_delegations_Ok [OF mx] cnt calculate_delegated_Ok [OF assms(5)] in simp_all)
qed

text \<open>Delegating the same percentage again before the delegation expires.\<close>

lemma redelegation_renewed:
  assumes "entries_ok st" and "DELEGATION_ENTRIES st (a, d) = Some (i, x)"
    and "unexpired (height (block env)) (i, x)" and "entry_percent st a d = atomics p"
    and "handle_redelegation deps st env a d p config (percent_delegated_of st a) v (i, x) = Ok (st1, np, entry, ch)"
  shows "\<not> ch" and "st1\<lparr>DELEGATION_ENTRIES := (DELEGATION_ENTRIES st1)((a, d) \<mapsto> entry)\<rparr> = st \<or>
    (\<exists>y. renewed (active_ops deps) (height (block env)) a d v i x y st
       (st1\<lparr>DELEGATION_ENTRIES := (DELEGATION_ENTRIES st1)((a, d) \<mapsto> entry)\<rparr>) \<and>
       (x \<noteq> None \<or> delegation_validity_blocks config \<noteq> None))"
proof -
  let ?h = "height (block env)" and ?ao = "active_ops deps"
  from entry_item [OF assms(1,2)] obtain q where
    q: "items (DELEGATIONS st) (a, i) = Some \<lparr>delegation_delegate = d, delegation_percent = q\<rparr>"
    "entry_percent st a d = atomics q" by metis
  have same: "q = p" using assms(4) q(2) by (cases q; cases p) simp
  have alt: "(st1 = st \<and> entry = (i, x) \<and> \<not> ch) \<or>
    (\<exists>ds w y. (x \<noteq> None \<or> delegation_validity_blocks config \<noteq> None) \<and>
      update_expiration ?ao (DELEGATIONS st) a i ?h (delegation_validity_blocks config) = Ok (ds, (i, y)) \<and>
      update_delegated_vp_expiration (DELEGATED_VP st) env d v x y = Ok w \<and>
      st1 = st\<lparr>DELEGATIONS := ds, DELEGATED_VP := w\<rparr> \<and> entry = (i, y) \<and> \<not> ch)"
    using assms(3,5) same
    by (auto simp: handle_redelegation_def not_expired [where i = i] load_item_def q result_ok Let_def
        dest: update_expiration_cases split: if_splits)
  have "\<not> ch \<and> (st1\<lparr>DELEGATION_ENTRIES := (DELEGATION_ENTRIES st1)((a, d) \<mapsto> entry)\<rparr> = st \<or>
    (\<exists>y. renewed ?ao ?h a d v i x y st
       (st1\<lparr>DELEGATION_ENTRIES := (DELEGATION_ENTRIES st1)((a, d) \<mapsto> entry)\<rparr>) \<and>
       (x \<noteq> None \<or> delegation_validity_blocks config \<noteq> None)))"
  proof (rule disjE [OF alt])
    assume "st1 = st \<and> entry = (i, x) \<and> \<not> ch"
    moreover from assms(2) have "(DELEGATION_ENTRIES st)((a, d) \<mapsto> (i, x)) = DELEGATION_ENTRIES st" by (intro ext) simp
    ultimately show ?thesis by simp
  next
    assume "\<exists>ds w y. (x \<noteq> None \<or> delegation_validity_blocks config \<noteq> None) \<and>
      update_expiration ?ao (DELEGATIONS st) a i ?h (delegation_validity_blocks config) = Ok (ds, (i, y)) \<and>
      update_delegated_vp_expiration (DELEGATED_VP st) env d v x y = Ok w \<and>
      st1 = st\<lparr>DELEGATIONS := ds, DELEGATED_VP := w\<rparr> \<and> entry = (i, y) \<and> \<not> ch"
    then obtain ds w y where up: "update_expiration ?ao (DELEGATIONS st) a i ?h (delegation_validity_blocks config) = Ok (ds, (i, y))"
      "update_delegated_vp_expiration (DELEGATED_VP st) env d v x y = Ok w"
      and st1: "st1 = st\<lparr>DELEGATIONS := ds, DELEGATED_VP := w\<rparr>" "entry = (i, y)" "\<not> ch"
      and some: "x \<noteq> None \<or> delegation_validity_blocks config \<noteq> None" by blast
    have "renewed ?ao ?h a d v i x y st
        (st\<lparr>DELEGATIONS := ds, DELEGATED_VP := w, DELEGATION_ENTRIES := (DELEGATION_ENTRIES st)((a, d) \<mapsto> (i, y))\<rparr>)"
      using assms(2,3) up(1) update_delegated_value [OF up(2)] by (auto simp: renewed_def)
    with st1 some show ?thesis by auto
  qed
  then show "\<not> ch" "st1\<lparr>DELEGATION_ENTRIES := (DELEGATION_ENTRIES st1)((a, d) \<mapsto> entry)\<rparr> = st \<or>
    (\<exists>y. renewed ?ao ?h a d v i x y st
       (st1\<lparr>DELEGATION_ENTRIES := (DELEGATION_ENTRIES st1)((a, d) \<mapsto> entry)\<rparr>) \<and>
       (x \<noteq> None \<or> delegation_validity_blocks config \<noteq> None))" by blast+
qed


lemma execute_delegate_effect:
  assumes "entries_ok st" and "execute_delegate deps st env a del p = Ok st'"
  shows "\<exists>d v h. addr_validate deps del = Ok d \<and> next_height env = (Ok h :: (_, contract_error) result) \<and>
    get_voting_power_of deps st a h = Ok v \<and> valid_percent p \<and> \<not> registered (delegates_ops deps) st a \<and>
    (st' = st \<or> (\<exists>y. delegated (active_ops deps) (height (block env)) a d p v y st st') \<or>
     (\<exists>i x y. renewed (active_ops deps) (height (block env)) a d v i x y st st' \<and> entry_percent st a d = atomics p \<and>
       (x \<noteq> None \<or> (\<exists>config. CONFIG st = Some config \<and> delegation_validity_blocks config \<noteq> None))))"
proof -
  let ?h = "height (block env)" and ?ao = "active_ops deps"
  from assms(2) obtain d v config st1 np entry ch n where d: "addr_validate deps del = Ok d"
    and v: "validate_delegation deps st env a d p = Ok v" and config: "CONFIG st = Some config"
    and handled: "(case DELEGATION_ENTRIES st (a, d) of
         Some existing \<Rightarrow> handle_redelegation deps st env a d p config (percent_delegated_of st a) v existing
       | None \<Rightarrow> handle_new_delegation deps st env a d p config (percent_delegated_of st a)) = Ok (st1, np, entry, ch)"
    and n: "calculate_delegated_vp v p = (Ok n :: (_, contract_error) result)"
    and rest: "(if ch then
       and_then (expires_at ?h (delegation_validity_blocks config)) (\<lambda>expiration.
       validate_and_update_delegated_vp (st1\<lparr>DELEGATION_ENTRIES := (DELEGATION_ENTRIES st1)((a, d) \<mapsto> entry)\<rparr>)
         env a d (percent_delegated_of st a) np n expiration)
     else Ok (st1\<lparr>DELEGATION_ENTRIES := (DELEGATION_ENTRIES st1)((a, d) \<mapsto> entry)\<rparr>)) = Ok st'"
    by (auto simp: execute_delegate_def result_ok Let_def)
  have "st' = st \<or> (\<exists>y. delegated ?ao ?h a d p v y st st') \<or>
     (\<exists>i x y. renewed ?ao ?h a d v i x y st st' \<and> entry_percent st a d = atomics p \<and>
       (x \<noteq> None \<or> (\<exists>config. CONFIG st = Some config \<and> delegation_validity_blocks config \<noteq> None)))"
  proof (cases "DELEGATION_ENTRIES st (a, d)")
    case None
    with handled have new: "handle_new_delegation deps st env a d p config (percent_delegated_of st a) = Ok (st1, np, entry, ch)"
      by simp
    then have "ch" by (auto simp: handle_new_delegation_def result_ok)
    with rest obtain y where "expires_at ?h (delegation_validity_blocks config) = (Ok y :: (_, contract_error) result)"
      "validate_and_update_delegated_vp (st1\<lparr>DELEGATION_ENTRIES := (DELEGATION_ENTRIES st1)((a, d) \<mapsto> entry)\<rparr>)
         env a d (percent_delegated_of st a) np n y = Ok st'" by (auto simp: result_ok)
    from new_delegation_delegated [OF None new n this] show ?thesis by blast
  next
    case (Some r)
    obtain i x where [simp]: "r = (i, x)" by (cases r)
    from Some handled have red:
      "handle_redelegation deps st env a d p config (percent_delegated_of st a) v (i, x) = Ok (st1, np, entry, ch)" by simp
    show ?thesis
    proof (cases "unexpired ?h (i, x) \<and> entry_percent st a d = atomics p")
      case True
      from redelegation_renewed [OF assms(1) Some [simplified] _ _ red] True rest config show ?thesis by auto
    next
      case False
      from entry_item [OF assms(1) Some [simplified]] obtain q where
        "items (DELEGATIONS st) (a, i) = Some \<lparr>delegation_delegate = d, delegation_percent = q\<rparr>"
        "entry_percent st a d = atomics q" by metis
      with red False have "ch"
        by (auto simp: handle_redelegation_def not_expired [where i = i] load_item_def result_ok Let_def split: if_splits)
      with rest obtain y where "expires_at ?h (delegation_validity_blocks config) = (Ok y :: (_, contract_error) result)"
        "validate_and_update_delegated_vp (st1\<lparr>DELEGATION_ENTRIES := (DELEGATION_ENTRIES st1)((a, d) \<mapsto> entry)\<rparr>)
           env a d (percent_delegated_of st a) np n y = Ok st'" by (auto simp: result_ok)
      from redelegation_delegated [OF assms(1) Some [simplified] _ red n this] False show ?thesis by blast
    qed
  qed
  with d validate_delegation_Ok [OF v] show ?thesis by blast
qed

section \<open>Revoking\<close>

lemma execute_undelegate_effect:
  assumes "entries_ok st" and "execute_undelegate deps st env a del = Ok st'"
  shows "\<exists>d v h. addr_validate deps del = Ok d \<and> next_height env = (Ok h :: (_, contract_error) result) \<and>
    get_voting_power_of deps st a h = Ok v \<and> undelegated (active_ops deps) (height (block env)) a d v st st'"
proof -
  let ?h = "height (block env)" and ?ao = "active_ops deps"
  from assms(2) obtain d i x ds dl cnt np h v n w where d: "addr_validate deps del = Ok d"
    and old: "DELEGATION_ENTRIES st (a, d) = Some (i, x)"
    and rm: "remove_item ?ao (DELEGATIONS st) a i ?h = Ok (ds, dl, cnt)"
    and np: "decimal_checked_sub (percent_delegated_of st a) (delegation_percent dl) = Ok np"
    and h: "next_height env = (Ok h :: (_, contract_error) result)" and v: "get_voting_power_of deps st a h = Ok v"
    and n: "calculate_delegated_vp v (delegation_percent dl) = (Ok n :: (_, contract_error) result)"
    and w: "remove_delegated_vp_if_not_expired (DELEGATED_VP st) env d n x = (Ok w :: (_, contract_error) result)"
    and st': "st' = st\<lparr>DELEGATIONS := ds, DELEGATION_ENTRIES := (DELEGATION_ENTRIES st)((a, d) := None),
      PERCENT_DELEGATED := (PERCENT_DELEGATED st)(a \<mapsto> np), DELEGATED_VP := w\<rparr>"
    by (auto simp: execute_undelegate_def result_ok)
  from remove_item_wrote [OF rm] have it: "items (DELEGATIONS st) (a, i) = Some dl"
    and wr: "wrote ?ao (DELEGATIONS st) a ?h (filter (\<lambda>r. fst r \<noteq> i \<and> unexpired ?h r) (active_of ?ao (DELEGATIONS st) a))
      None ds" by auto
  have q: "entry_percent st a d = atomics (delegation_percent dl)" "item_percent st a i = atomics (delegation_percent dl)"
    using old it by (simp_all add: entry_percent_def item_percent_def)
  have kept: "kept a d st r \<longleftrightarrow> fst r \<noteq> i" for r using old by (simp add: kept_def)
  have val: "value_at 0 w j t + (if j = d then given (\<lambda>_. v) st a d t else 0) = value_at 0 (DELEGATED_VP st) j t"
    if t: "?h < t" for j t
  proof (cases "unexpired ?h (i, x)")
    case True
    from remove_delegated_value [OF w True t, of j] calculate_delegated_Ok [OF n] old q(2) show ?thesis
      by (cases "j = d"; cases "unexpired t (i, x)") (simp_all add: given_def)
  next
    case False
    then have "w = DELEGATED_VP st"
      using w by (auto simp: remove_delegated_vp_if_not_expired_def not_expired [where i = i])
    with expired_gives_nothing [OF old False t] show ?thesis by simp
  qed
  have "\<exists>np. PERCENT_DELEGATED st' = (PERCENT_DELEGATED st)(a \<mapsto> np) \<and>
      atomics np + entry_percent st a d = atomics (percent_delegated_of st a)"
    using np q(1) st' by (intro exI [of _ np]) (auto simp: decimal_checked_sub_def result_ok)
  then have "undelegated ?ao ?h a d v st st'"
    using wr old kept val st' by (simp add: undelegated_def)
  with d h v show ?thesis by blast
qed

section \<open>Changes of voting power\<close>

definition share :: "nat \<Rightarrow> delegation loaded_item \<Rightarrow> addr \<Rightarrow> u64 \<Rightarrow> nat" where
  "share v l j t =
     (if j = delegation_delegate (loaded_value l) \<and> unexpired t (loaded_id l, loaded_expiration l)
      then v * atomics (delegation_percent (loaded_value l)) div 10 ^ decimal_places else 0)"

lemma update_delegation_value:
  assumes "update_delegation_vp env old new w l = Ok w'"
    and "unexpired (height (block env)) (loaded_id l, loaded_expiration l)" and "height (block env) < t"
  shows "value_at 0 w' j t + share old l j t = value_at 0 w j t + share new l j t"
proof -
  let ?d = "delegation_delegate (loaded_value l)" and ?p = "delegation_percent (loaded_value l)"
  let ?x = "loaded_expiration l" and ?i = "loaded_id l"
  from assms(1) obtain skip where
    skip: "(case ?x of None \<Rightarrow> Ok False | Some e \<Rightarrow> and_then (next_height env) (\<lambda>h. Ok (e \<le> h))) = (Ok skip :: (_, contract_error) result)"
    and body: "(if skip then Ok w else
      and_then (calculate_delegated_vp old ?p) (\<lambda>c. and_then (calculate_delegated_vp new ?p) (\<lambda>n.
      if n < c then remove_delegated_vp_if_not_expired w env ?d (c - n) ?x
      else if n = c then Ok w else add_delegated_vp w env ?d (n - c) ?x))) = (Ok w' :: (_, contract_error) result)"
    by (auto simp: update_delegation_vp_def result_ok)
  show ?thesis
  proof (cases skip)
    case True
    from skip True obtain e h where e: "?x = Some e" "next_height env = (Ok h :: (_, contract_error) result)" "e \<le> h"
      by (auto simp: result_ok split: option.splits)
    with next_height_le [OF e(2), of t] assms(3) have "\<not> t < e" by auto
    with e(1) True body show ?thesis by (simp add: share_def unexpired_pair)
  next
    case False
    with body obtain c n where c: "calculate_delegated_vp old ?p = (Ok c :: (_, contract_error) result)"
      "calculate_delegated_vp new ?p = (Ok n :: (_, contract_error) result)"
      and step: "(if n < c then remove_delegated_vp_if_not_expired w env ?d (c - n) ?x
      else if n = c then Ok w else add_delegated_vp w env ?d (n - c) ?x) = (Ok w' :: (_, contract_error) result)"
      by (auto simp: result_ok)
    have sh: "share old l j t = (if j = ?d \<and> unexpired t (?i, ?x) then c else 0)"
      "share new l j t = (if j = ?d \<and> unexpired t (?i, ?x) then n else 0)"
      using calculate_delegated_Ok [OF c(1)] calculate_delegated_Ok [OF c(2)] by (simp_all add: share_def)
    consider "n < c" | "n = c" | "c < n" by linarith
    then show ?thesis
    proof cases
      case 1
      with step have "remove_delegated_vp_if_not_expired w env ?d (c - n) ?x = (Ok w' :: (_, contract_error) result)" by simp
      from remove_delegated_value [OF this assms(2,3), of j] 1 show ?thesis by (auto simp: sh split: if_splits)
    next
      case 2
      with step sh show ?thesis by simp
    next
      case 3
      with step have "add_delegated_vp w env ?d (n - c) ?x = (Ok w' :: (_, contract_error) result)" by simp
      from add_delegated_value [OF this assms(3), of j ?i] 3 show ?thesis by (auto simp: sh split: if_splits)
    qed
  qed
qed

lemma update_delegations_value:
  assumes "try_fold (update_delegation_vp env old new) w ls = Ok w'" and "height (block env) < t"
    and "\<forall>l \<in> set ls. unexpired (height (block env)) (loaded_id l, loaded_expiration l)"
  shows "value_at 0 w' j t + (\<Sum>l \<leftarrow> ls. share old l j t) = value_at 0 w j t + (\<Sum>l \<leftarrow> ls. share new l j t)"
  using assms
proof (induction ls arbitrary: w)
  case (Cons l ls)
  then obtain w1 where w1: "update_delegation_vp env old new w l = Ok w1"
    "try_fold (update_delegation_vp env old new) w1 ls = Ok w'" by (auto simp: result_ok)
  from Cons.IH [OF w1(2) Cons.prems(2)] Cons.prems(3) update_delegation_value [OF w1(1) _ Cons.prems(2), of j]
  show ?case by simp
qed simp


lemma try_map_Ok_map:
  "try_map f xs = Ok ys \<Longrightarrow> (\<And>x y. x \<in> set xs \<Longrightarrow> f x = Ok y \<Longrightarrow> y = g x) \<Longrightarrow> ys = map g xs"
  by (induction xs arbitrary: ys) (auto simp: and_then_Ok)

text \<open>The delegations that the hook loads are the entries of the delegator in force.\<close>

definition loaded :: "('d, 'c, 'a) delegation_state \<Rightarrow> addr \<Rightarrow> item_ref \<Rightarrow> delegation loaded_item" where
  "loaded st a r = \<lparr>loaded_id = fst r, loaded_value = the (items (DELEGATIONS st) (a, fst r)), loaded_expiration = snd r\<rparr>"

lemma loaded_latest:
  assumes "active_ok ao h st" and "load_all_latest ao (DELEGATIONS st) a h = Ok ls"
  shows "ls = map (loaded st a) (filter (unexpired h) (active_of ao (DELEGATIONS st) a))"
proof -
  let ?rs = "filter (unexpired h) (active_of ao (DELEGATIONS st) a)"
  have "length (active_of ao (DELEGATIONS st) a) < 2 ^ 32" using assms(1) unfolding active_ok_def by blast
  with length_filter_le have "length ?rs < 2 ^ 32" by (rule order_le_less_trans)
  then have "take (as_usize (- 1)) ?rs = ?rs" by (simp add: as_usize_max)
  with assms(2) have "try_map (\<lambda>(i, e). and_then (load_item (DELEGATIONS st) a i) (\<lambda>v.
      Ok \<lparr>loaded_id = i, loaded_value = v, loaded_expiration = e\<rparr>)) ?rs = Ok ls"
    by (simp add: load_all_latest_def load_latest_def load_page_def Let_def as_usize_def [of 0])
  then show ?thesis by (rule try_map_Ok_map) (auto simp: loaded_def load_item_def result_ok)
qed

lemma shares_given:
  assumes "vector_ok ao till (DELEGATIONS st)" and "entries_ok st" and "active_ok ao h st"
    and "load_all_latest ao (DELEGATIONS st) a h = Ok ls" and "h < t"
  shows "(\<Sum>l \<leftarrow> ls. share v l j t) = given (\<lambda>_. v) st a j t"
proof -
  let ?rs = "filter (unexpired h) (active_of ao (DELEGATIONS st) a)"
  let ?f = "\<lambda>r. if DELEGATION_ENTRIES st (a, j) = Some r then given (\<lambda>_. v) st a j t else 0"
  have link: "r \<in> set (active_of ao (DELEGATIONS st) a) \<longleftrightarrow> (\<exists>c. DELEGATION_ENTRIES st (a, c) = Some r)"
    if "unexpired h r" for r using assms(3) that unfolding active_ok_def by blast
  have "share v (loaded st a r) j t = ?f r" if r: "r \<in> set ?rs" for r
  proof -
    obtain i e where [simp]: "r = (i, e)" by (cases r)
    from r link obtain c where c: "DELEGATION_ENTRIES st (a, c) = Some (i, e)" by auto
    from entry_item [OF assms(2) c] obtain p where
      p: "items (DELEGATIONS st) (a, i) = Some \<lparr>delegation_delegate = c, delegation_percent = p\<rparr>"
      "item_percent st a i = atomics p" by metis
    show ?thesis
    proof (cases "j = c")
      case True
      with c p show ?thesis by (simp add: share_def loaded_def given_def)
    next
      case False
      with c entries_distinct [OF assms(2) c] have "DELEGATION_ENTRIES st (a, j) \<noteq> Some (i, e)" by blast
      with False p show ?thesis by (simp add: share_def loaded_def)
    qed
  qed
  then have "(\<Sum>l \<leftarrow> ls. share v l j t) = (\<Sum>r \<leftarrow> ?rs. ?f r)"
    unfolding loaded_latest [OF assms(3,4)] by (auto simp: o_def intro!: arg_cong [of _ _ sum_list])
  also have "\<dots> = (\<Sum>r \<in> set ?rs. ?f r)"
  proof (rule sum_list_distinct_conv_sum_set)
    have "distinct (map fst (active_of ao (DELEGATIONS st) a))"
      using assms(1) unfolding vector_ok_def refs_ok_def by blast
    then show "distinct ?rs" by (simp add: distinct_map)
  qed
  also have "\<dots> = given (\<lambda>_. v) st a j t"
  proof (cases "DELEGATION_ENTRIES st (a, j)")
    case None
    then show ?thesis by (simp add: given_def)
  next
    case (Some r)
    show ?thesis
    proof (cases "r \<in> set ?rs")
      case True
      with Some show ?thesis by simp
    next
      case False
      with link [of r] Some have "\<not> unexpired h r" by auto
      then have "\<not> unexpired t r" using assms(5) unexpired_anti [of t r h] by (meson less_imp_le)
      with Some have "given (\<lambda>_. v) st a j t = 0" by (cases r) (simp add: given_def)
      then show ?thesis by (simp split: if_splits)
    qed
  qed
  finally show ?thesis .
qed

text \<open>Setting the power of one account changes what it gives, and nothing else.\<close>

lemma given_power: "given vp st a d t = given (\<lambda>_. vp a) st a d t"
  by (simp add: given_def)

lemma power_set_exact:
  assumes "entries_ok st" and "powers_exact vp h st"
    and "\<And>j t. h < t \<Longrightarrow> value_at 0 w j t + given (\<lambda>_. vp a) st a j t =
      value_at 0 (DELEGATED_VP st) j t + given (\<lambda>_. n) st a j t"
  shows "powers_exact (vp(a := n)) h (st\<lparr>DELEGATED_VP := w\<rparr>)"
  unfolding powers_exact_def
proof (intro allI impI)
  fix j t assume t: "h < t"
  let ?st = "st\<lparr>DELEGATED_VP := w\<rparr>" and ?vp = "vp(a := n)"
  have "same_records st ?st" by (simp add: same_records_def)
  note g = same_records_cong [OF this]
  have "(\<Sum>b \<in> delegators_of st j. given ?vp st b j t) + given vp st a j t =
      (\<Sum>b \<in> delegators_of st j. given vp st b j t) + given ?vp st a j t"
    using finite_delegates(2) [OF assms(1)] finite_delegates(2) [OF assms(1)]
    by (rule sum_one_changed) (auto simp: no_entry, simp add: given_def split: option.split)
  moreover have "given ?vp st a j t = given (\<lambda>_. n) st a j t" "given vp st a j t = given (\<lambda>_. vp a) st a j t"
    by (simp_all add: given_def split: option.split)
  moreover from assms(2) t have "value_at 0 (DELEGATED_VP st) j t = (\<Sum>b \<in> delegators_of st j. given vp st b j t)"
    by (simp add: powers_exact_def)
  ultimately show "value_at 0 (DELEGATED_VP ?st) j t = (\<Sum>b \<in> delegators_of ?st j. given ?vp ?st b j t)"
    using assms(3) [OF t, of j] by (simp add: g)
qed


text \<open>The documented behaviour of the store of delegates, as far as current values go.\<close>

definition removal_laws :: "('s, 'k, 'v) removable_ops \<Rightarrow> bool" where
  "removal_laws ops \<longleftrightarrow>
     (\<forall>k. snap_load ops (snap_new ops) k = None) \<and>
     (\<forall>s k v h k'. snap_load ops (snap_save ops s k v h) k' = (if k' = k then Some v else snap_load ops s k')) \<and>
     (\<forall>s k h k'. snap_load ops (snap_remove ops s k h) k' = (if k' = k then None else snap_load ops s k'))"

lemma removal_saved:
  "removal_laws ops \<Longrightarrow> snap_load ops (snap_save ops s k v h) k' = (if k' = k then Some v else snap_load ops s k')"
  by (simp add: removal_laws_def)

lemma unregister_idle:
  assumes "removal_laws (delegates_ops deps)" and "delegates_idle (delegates_ops deps) st"
  shows "delegates_idle (delegates_ops deps) (unregister_delegate deps st d h)"
  using assms by (simp add: delegates_idle_def registered_def delegates_of_def unregister_delegate_def removal_laws_def)

lemma same_records_update [simp]:
  "same_records st (st\<lparr>DELEGATED_VP := w\<rparr>)" "same_records st (unregister_delegate deps st d h)"
  "same_records st (st\<lparr>UNVOTED_DELEGATED_VP := u\<rparr>)" "same_records st (st\<lparr>PROPOSAL_HOOK_CALLERS := m\<rparr>)"
  "same_records st (st\<lparr>VOTING_POWER_HOOK_CALLERS := m\<rparr>)"
  "same_records st (st\<lparr>VP_CAP_PERCENT := c, CONFIG := g\<rparr>)" "same_records st (st\<lparr>DELEGATES := ds\<rparr>)"
  by (simp_all add: same_records_def unregister_delegate_def)

lemma same_records_ok_idle:
  assumes "records_ok dop ao till h st" and "same_records st st'" and "delegates_idle dop st'"
  shows "records_ok dop ao till h st'"
  using assms same_records_ok [OF assms(2)] by (simp add: records_ok_def)

lemma power_hook_records:
  assumes "removal_laws (delegates_ops deps)" and "records_ok (delegates_ops deps) (active_ops deps) till h st"
    and "handle_voting_power_changed_hook deps st env a delta inc = Ok st'"
  shows "records_ok (delegates_ops deps) (active_ops deps) till h st'"
proof -
  from assms(2) have idle: "delegates_idle (delegates_ops deps) st" by (simp add: records_ok_def)
  from assms(3) consider (same) "st' = st" | (gone) "st' = unregister_delegate deps st a (height (block env))"
    | (power) w where "st' = st\<lparr>DELEGATED_VP := w\<rparr>"
    by (auto simp: handle_voting_power_changed_hook_def handle_delegate_voting_power_changed_hook_def
        handle_delegator_voting_power_changed_hook_def result_ok split: if_splits)
  then show ?thesis
  proof cases
    case same
    with assms(2) show ?thesis by simp
  next
    case gone
    with same_records_ok_idle [OF assms(2)] unregister_idle [OF assms(1) idle] show ?thesis by simp
  next
    case power
    have "delegates_idle (delegates_ops deps) st'"
      using idle power by (simp add: delegates_idle_def registered_def delegates_of_def)
    with same_records_ok_idle [OF assms(2)] power show ?thesis by simp
  qed
qed

lemma power_hook_powers:
  assumes "records_ok (delegates_ops deps) (active_ops deps) till (height (block env)) st"
    and "powers_exact vp (height (block env)) st"
    and "handle_voting_power_changed_hook deps st env a delta inc = Ok st'"
    and "\<And>h. next_height env = (Ok h :: (_, contract_error) result) \<Longrightarrow> get_voting_power_of deps st a h = Ok n"
    and "if inc then n = vp a + delta else vp a = n + delta"
  shows "powers_exact (vp(a := n)) (height (block env)) st'"
proof -
  let ?h = "height (block env)"
  from assms(1) have r: "vector_ok (active_ops deps) till (DELEGATIONS st)" "entries_ok st"
    "active_ok (active_ops deps) ?h st" "delegates_idle (delegates_ops deps) st" by (simp_all add: records_ok_def)
  from assms(3,4) have hook: "(if is_delegate_registered deps st a None
     then handle_delegate_voting_power_changed_hook deps st env a n
     else handle_delegator_voting_power_changed_hook deps st env a n delta inc) = Ok st'"
    by (auto simp: handle_voting_power_changed_hook_def result_ok)
  show ?thesis
  proof (cases "is_delegate_registered deps st a None")
    case True
    with r(4) have none: "delegates_of st a = {}"
      by (simp add: is_delegate_registered_def delegates_idle_def registered_def)
    then have "given vp' st a j t = 0" for vp' j t
      by (cases "DELEGATION_ENTRIES st (a, j)") (auto simp: given_def delegates_of_def)
    with power_set_exact [OF r(2) assms(2), of "DELEGATED_VP st" a n]
    have "powers_exact (vp(a := n)) ?h (st\<lparr>DELEGATED_VP := DELEGATED_VP st\<rparr>)" by simp
    then have "powers_exact (vp(a := n)) ?h st" by simp
    moreover from True hook have "same_records st st'" "DELEGATED_VP st' = DELEGATED_VP st"
      by (auto simp: handle_delegate_voting_power_changed_hook_def unregister_delegate_def same_records_def)
    ultimately show ?thesis using same_records_powers by blast
  next
    case False
    with hook obtain ls old w where ls: "load_all_latest (active_ops deps) (DELEGATIONS st) a ?h = Ok ls"
      and old: "(if inc then checked_sub128 n delta else checked_add128 n delta) = Ok old"
      and w: "try_fold (update_delegation_vp env old n) (DELEGATED_VP st) ls = Ok w"
      and st': "st' = st\<lparr>DELEGATED_VP := w\<rparr>"
      by (auto simp: handle_delegator_voting_power_changed_hook_def result_ok)
    have [simp]: "old = vp a" using old assms(5) by (auto simp: result_ok split: if_splits)
    have un: "\<forall>l \<in> set ls. unexpired ?h (loaded_id l, loaded_expiration l)"
      unfolding loaded_latest [OF r(3) ls] by (auto simp: loaded_def)
    show ?thesis unfolding st'
    proof (rule power_set_exact [OF r(2) assms(2)])
      fix j t assume t: "?h < t"
      from update_delegations_value [OF w t un, of j]
      show "value_at 0 w j t + given (\<lambda>_. vp a) st a j t = value_at 0 (DELEGATED_VP st) j t + given (\<lambda>_. n) st a j t"
        by (simp add: shares_given [OF r(1-3) ls t])
    qed
  qed
qed


section \<open>Runs\<close>

definition delegation_new :: "('d, 'c, 'a, 'x) delegation_deps_scheme \<Rightarrow> ('d, 'c, 'a) delegation_state" where
  "delegation_new deps =
     \<lparr>CONTRACT_INFO = None, CONFIG = None, VP_CAP_PERCENT = snap_new (cap_ops deps), DAO = None,
      PROPOSAL_HOOK_CALLERS = Map.empty, VOTING_POWER_HOOK_CALLERS = Map.empty,
      DELEGATES = snap_new (delegates_ops deps), UNVOTED_DELEGATED_VP = Map.empty, DELEGATED_VP = Map.empty,
      DELEGATIONS = vector_new (active_ops deps), DELEGATION_ENTRIES = Map.empty, PERCENT_DELEGATED = Map.empty\<rparr>"

text \<open>
  What a message says about voting power: a hook reports the change that the voting module has just
  made, any other message comes without a change.
\<close>

definition weight :: "u64 option \<Rightarrow> nat" where
  "weight w = unat (case w of None \<Rightarrow> 0 | Some n \<Rightarrow> n)"

definition member_powers ::
  "('x cw_env_scheme) \<Rightarrow> member_diff list \<Rightarrow> (addr \<Rightarrow> nat) \<Rightarrow> (addr \<Rightarrow> nat) \<Rightarrow> bool" where
  "member_powers deps ds vp vp' \<longleftrightarrow>
     (\<exists>as. map (\<lambda>d. addr_validate deps (diff_key d)) ds = map Ok as \<and> distinct as \<and>
       (\<forall>(a, d) \<in> set (zip as ds). vp a = weight (diff_old d) \<and> vp' a = weight (diff_new d)) \<and>
       (\<forall>a. a \<notin> set as \<longrightarrow> vp' a = vp a))"

definition power_change ::
  "('x cw_env_scheme) \<Rightarrow> execute_msg \<Rightarrow> (addr \<Rightarrow> nat) \<Rightarrow> (addr \<Rightarrow> nat) \<Rightarrow> bool" where
  "power_change deps msg vp vp' \<longleftrightarrow>
     (case msg of
        StakeChangeHook (Stake a n) \<Rightarrow> vp' = vp(a := vp a + n)
      | StakeChangeHook (Unstake a n) \<Rightarrow> n \<le> vp a \<and> vp' = vp(a := vp a - n)
      | NftStakeChangeHook (NftStake a _) \<Rightarrow> vp' = vp(a := vp a + 1)
      | NftStakeChangeHook (NftUnstake a ids) \<Rightarrow> length ids \<le> vp a \<and> vp' = vp(a := vp a - length ids)
      | MemberChangedHook ds \<Rightarrow> member_powers deps ds vp vp'
      | _ \<Rightarrow> vp' = vp)"

text \<open>
  \<open>delegation_run deps ok h st vp\<close>: the module was instantiated and has answered messages of
  blocks up to height \<open>h\<close>, all of them allowed by \<open>ok\<close>; members now have the powers \<open>vp\<close> from
  the next block on, and this is what the queries of the handlers said.
\<close>

type_synonym ('d, 'c, 'a) admits = "('d, 'c, 'a) delegation_state \<Rightarrow> env \<Rightarrow> message_info \<Rightarrow> execute_msg \<Rightarrow> bool"

inductive delegation_run ::
  "('d, 'c, 'a, 'x) delegation_deps_scheme \<Rightarrow> ('d, 'c, 'a) admits
     \<Rightarrow> u64 \<Rightarrow> ('d, 'c, 'a) delegation_state \<Rightarrow> (addr \<Rightarrow> nat) \<Rightarrow> bool"
  for deps :: "('d, 'c, 'a, 'x) delegation_deps_scheme" and ok :: "('d, 'c, 'a) admits" where
  run_start: "instantiate deps (delegation_new deps) env info msg = Ok st \<Longrightarrow>
    delegation_run deps ok (height (block env)) st vp"
| run_step: "delegation_run deps ok h st vp \<Longrightarrow> h \<le> height (block env) \<Longrightarrow> ok st env info msg \<Longrightarrow>
    power_change deps msg vp vp' \<Longrightarrow>
    (\<forall>dao a. q dao a (Some (height (block env) + 1)) = Ok (vp' a)) \<Longrightarrow>
    execute (deps\<lparr>query_voting_power := q\<rparr>) st env info msg = Ok st' \<Longrightarrow>
    delegation_run deps ok (height (block env)) st' vp'"

lemma reported_power:
  assumes "\<forall>dao a. q dao a (Some (height (block env) + 1)) = Ok (vp a)"
    and "next_height env = (Ok h :: (_, contract_error) result)"
    and "get_voting_power_of (deps\<lparr>query_voting_power := q\<rparr>) st a h = Ok v"
  shows "v = vp a"
  using assms by (auto simp: next_height_def add_u64_def get_voting_power_of_def get_voting_power_def result_ok split: if_splits)

lemma new_records:
  assumes "removal_laws (delegates_ops deps)" and "history_laws (active_ops deps) till"
    and "instantiate deps (delegation_new deps) env info msg = Ok st"
  shows "records_ok (delegates_ops deps) (active_ops deps) till h st" and "powers_exact vp h st"
proof -
  let ?new = "delegation_new deps"
  have "DELEGATIONS ?new = vector_new (active_ops deps)" by (simp add: delegation_new_def)
  then have "vector_ok (active_ops deps) till (DELEGATIONS ?new)" using vector_ok_new [OF assms(2)] by simp
  moreover have "active_of (active_ops deps) (DELEGATIONS ?new) a = []" "last_update_of (DELEGATIONS ?new) a = 0" for a
    using history_new [OF assms(2)] by (simp_all add: delegation_new_def vector_new_def active_of_def last_update_of_def)
  then have "active_ok (active_ops deps) h ?new" by (simp add: active_ok_def) (simp add: delegation_new_def)
  moreover have "entries_ok ?new" "percents_ok ?new"
    by (simp_all add: entries_ok_def percents_ok_def delegation_new_def delegates_of_def percent_delegated_of_def)
  moreover have "delegates_idle (delegates_ops deps) ?new"
    by (simp add: delegates_idle_def delegates_of_def delegation_new_def)
  ultimately have new: "records_ok (delegates_ops deps) (active_ops deps) till h ?new" by (simp add: records_ok_def)
  have powers: "powers_exact vp h ?new"
    by (simp add: powers_exact_def delegation_new_def delegators_of_def)
  from assms(3) have same: "same_records ?new st" "DELEGATED_VP st = DELEGATED_VP ?new" "DELEGATES st = DELEGATES ?new"
    by (auto simp: instantiate_def execute_sync_proposal_modules_def result_ok Let_def same_records_def split: if_splits)
  have "delegates_idle (delegates_ops deps) st"
    using \<open>delegates_idle _ ?new\<close> same by (simp add: delegates_idle_def registered_def same_records_cong)
  with same_records_ok_idle [OF new same(1)] show "records_ok (delegates_ops deps) (active_ops deps) till h st" .
  from powers same_records_powers [OF same(1,2)] show "powers_exact vp h st" by simp
qed


text \<open>Messages that leave the delegations, the delegates and the delegated power alone.\<close>

definition untouched :: "('d, 'c, 'a) delegation_state \<Rightarrow> ('d, 'c, 'a) delegation_state \<Rightarrow> bool" where
  "untouched st st' \<longleftrightarrow> same_records st st' \<and> DELEGATES st' = DELEGATES st \<and> DELEGATED_VP st' = DELEGATED_VP st"

lemma untouched_ok:
  assumes "untouched st st'"
  shows "records_ok dop ao till h st \<Longrightarrow> records_ok dop ao till h st'"
    and "powers_exact vp h st' = powers_exact vp h st"
proof -
  from assms have s: "same_records st st'" "DELEGATES st' = DELEGATES st" "DELEGATED_VP st' = DELEGATED_VP st"
    by (simp_all add: untouched_def)
  show "records_ok dop ao till h st'" if r: "records_ok dop ao till h st"
  proof (rule same_records_ok_idle [OF r s(1)])
    show "delegates_idle dop st'"
      using r s(2) by (simp add: records_ok_def delegates_idle_def registered_def same_records_cong [OF s(1)])
  qed
  show "powers_exact vp h st' = powers_exact vp h st" by (rule same_records_powers [OF s(1,3)])
qed

lemma vote_hook_untouched:
  assumes "execute_vote_hook deps st pm v = Ok st'"
  shows "untouched st st'"
proof -
  obtain pid voter vt pow ind h first where v: "v = NewVote pid voter vt pow ind h first" by (cases v)
  have refl: "untouched st st" by (simp add: untouched_def same_records_def)
  have step: "untouched st s'" if "untouched st s" "lower_udvp pm pid h pow s l = Ok s'" for s l s'
    using that by (auto simp: untouched_def same_records_def lower_udvp_def result_ok Let_def)
  show ?thesis
  proof (cases first)
    case False
    with assms refl show ?thesis by (simp add: execute_vote_hook_def v split: if_splits)
  next
    case True
    with assms obtain ls where "try_fold (lower_udvp pm pid h pow) st ls = Ok st'"
      by (auto simp: execute_vote_hook_def v and_then_Ok map_err_Ok split: if_splits)
    from try_fold_invariant [where P = "untouched st", OF this refl] step show ?thesis by blast
  qed
qed

lemma admin_untouched:
  "execute_update_voting_power_hook_callers deps st who add rem = Ok st' \<Longrightarrow> untouched st st'"
  "execute_sync_proposal_modules deps st start lim = Ok st' \<Longrightarrow> untouched st st'"
  "execute_update_config deps st env who cap validity mx = Ok st' \<Longrightarrow> untouched st st'"
  by (auto simp: execute_update_voting_power_hook_callers_def execute_sync_proposal_modules_def
      execute_update_config_def untouched_def same_records_def result_ok Let_def split: if_splits)

lemma register_records:
  assumes "removal_laws (delegates_ops deps)" and "records_ok (delegates_ops deps) ao till h st"
    and "execute_register deps st env d = Ok st' \<or> execute_unregister deps st env d = Ok st'"
  shows "records_ok (delegates_ops deps) ao till h st'" and "powers_exact vp h st' = powers_exact vp h st"
proof -
  have idle: "delegates_idle (delegates_ops deps) st" using assms(2) by (simp add: records_ok_def)
  have "same_records st st' \<and> DELEGATED_VP st' = DELEGATED_VP st \<and> delegates_idle (delegates_ops deps) st'"
    using assms(3)
  proof
    assume reg: "execute_register deps st env d = Ok st'"
    then have st': "st' = st\<lparr>DELEGATES := snap_save (delegates_ops deps) (DELEGATES st) d () (height (block env))\<rparr>"
      and none: "\<forall>k \<in> dom (DELEGATION_ENTRIES st). fst k \<noteq> d"
      by (auto simp: execute_register_def result_ok split: if_splits)
    have "delegates_of st d = {}" using none by (force simp: delegates_of_def)
    moreover have "registered (delegates_ops deps) st' b \<longleftrightarrow> b = d \<or> registered (delegates_ops deps) st b" for b
      by (simp add: st' registered_def removal_saved [OF assms(1)])
    moreover have "delegates_of st' b = delegates_of st b" for b by (simp add: st' delegates_of_def)
    ultimately have "delegates_idle (delegates_ops deps) st'" using idle by (auto simp: delegates_idle_def)
    with st' show ?thesis by simp
  next
    assume "execute_unregister deps st env d = Ok st'"
    then have "st' = unregister_delegate deps st d (height (block env))"
      by (auto simp: execute_unregister_def result_ok split: if_splits)
    with unregister_idle [OF assms(1) idle] show ?thesis by (simp add: unregister_delegate_def same_records_def)
  qed
  then show "records_ok (delegates_ops deps) ao till h st'" "powers_exact vp h st' = powers_exact vp h st"
    using same_records_ok_idle [OF assms(2)] same_records_powers by blast+
qed

lemma member_hook_records:
  assumes "removal_laws (delegates_ops deps)" and "records_ok (delegates_ops deps) (active_ops deps) till h st"
    and "try_fold (member_changed deps env) st ds = Ok st'"
  shows "records_ok (delegates_ops deps) (active_ops deps) till h st'"
  using assms(3,2)
proof (rule try_fold_invariant [where P = "records_ok (delegates_ops deps) (active_ops deps) till h"])
  fix s d s' assume "records_ok (delegates_ops deps) (active_ops deps) till h s" "member_changed deps env s d = Ok s'"
  then show "records_ok (delegates_ops deps) (active_ops deps) till h s'"
    using power_hook_records [OF assms(1)] by (auto simp: member_changed_def result_ok Let_def split: if_splits)
qed

text \<open>Every message keeps the records.\<close>

lemma execute_records:
  assumes "removal_laws (delegates_ops deps)" and "history_laws (active_ops deps) till"
    and "records_ok (delegates_ops deps) (active_ops deps) till (height (block env)) st"
    and "execute deps st env info msg = Ok st'"
  shows "records_ok (delegates_ops deps) (active_ops deps) till (height (block env)) st'"
proof (cases msg)
  case Register
  with assms(4) register_records(1) [OF assms(1,3)] show ?thesis by (auto simp: execute_def result_ok)
next
  case Unregister
  with assms(4) register_records(1) [OF assms(1,3)] show ?thesis by (auto simp: execute_def result_ok)
next
  case (Delegate del p)
  with assms(4) have ex: "execute_delegate deps st env (sender info) del p = Ok st'"
    by (auto simp: execute_def result_ok)
  have "entries_ok st" using assms(3) by (simp add: records_ok_def)
  from execute_delegate_effect [OF this ex] show ?thesis
    using assms(3) delegated_records [OF assms(2,3)] renewed_records [OF assms(2,3)] by blast
next
  case (Undelegate del)
  with assms(4) have ex: "execute_undelegate deps st env (sender info) del = Ok st'"
    by (auto simp: execute_def result_ok)
  have "entries_ok st" using assms(3) by (simp add: records_ok_def)
  from execute_undelegate_effect [OF this ex] show ?thesis using undelegated_records [OF assms(2,3)] by blast
next
  case (UpdateVotingPowerHookCallers add rem)
  with assms(3,4) admin_untouched(1) untouched_ok(1) show ?thesis by (fastforce simp: execute_def result_ok)
next
  case (SyncProposalModules start lim)
  with assms(3,4) admin_untouched(2) untouched_ok(1) show ?thesis by (fastforce simp: execute_def result_ok)
next
  case (UpdateDelegationConfig cap validity mx)
  with assms(3,4) admin_untouched(3) untouched_ok(1) show ?thesis by (fastforce simp: execute_def result_ok)
next
  case (StakeChangeHook m)
  with assms(4) power_hook_records [OF assms(1,3)] show ?thesis
    by (auto simp: execute_def execute_stake_changed_def result_ok split: if_splits stake_changed_hook_msg.splits)
next
  case (NftStakeChangeHook m)
  with assms(4) power_hook_records [OF assms(1,3)] show ?thesis
    by (auto simp: execute_def execute_nft_stake_changed_def result_ok split: if_splits nft_stake_changed_hook_msg.splits)
next
  case (MemberChangedHook ds)
  with assms(4) member_hook_records [OF assms(1,3)] show ?thesis
    by (auto simp: execute_def execute_membership_changed_def result_ok split: if_splits)
next
  case (DelegationVoteHook v)
  with assms(3,4) vote_hook_untouched untouched_ok(1) show ?thesis by (fastforce simp: execute_def result_ok)
qed


lemma member_changed_powers:
  assumes "records_ok (delegates_ops deps) (active_ops deps) till (height (block env)) st"
    and "powers_exact vp (height (block env)) st" and "member_changed deps env st d = Ok st'"
    and "addr_validate deps (diff_key d) = Ok a" and "vp a = weight (diff_old d)"
    and "\<And>h. next_height env = (Ok h :: (_, contract_error) result) \<Longrightarrow>
      get_voting_power_of deps st a h = Ok (weight (diff_new d))"
  shows "powers_exact (vp(a := weight (diff_new d))) (height (block env)) st'"
proof -
  let ?old = "case diff_old d of None \<Rightarrow> 0 | Some n \<Rightarrow> n" and ?new = "case diff_new d of None \<Rightarrow> 0 | Some n \<Rightarrow> n"
  show ?thesis
  proof (cases "?old < ?new")
    case True
    then have "weight (diff_new d) = vp a + unat (?new - ?old)"
      by (simp add: weight_def assms(5) unat_sub less_imp_le word_less_nat_alt)
    with assms(3,4) True show ?thesis
      by (intro power_hook_powers [OF assms(1,2) _ assms(6), where delta = "unat (?new - ?old)" and inc = True])
        (auto simp: member_changed_def Let_def)
  next
    case False
    then have "vp a = weight (diff_new d) + unat (?old - ?new)"
      by (simp add: weight_def assms(5) unat_sub not_less word_le_nat_alt)
    with assms(3,4) False show ?thesis
      by (intro power_hook_powers [OF assms(1,2) _ assms(6), where delta = "unat (?old - ?new)" and inc = False])
        (auto simp: member_changed_def Let_def)
  qed
qed

lemma power_hook_dao: "handle_voting_power_changed_hook deps st env a delta inc = Ok st' \<Longrightarrow> DAO st' = DAO st"
  by (auto simp: handle_voting_power_changed_hook_def handle_delegate_voting_power_changed_hook_def
      handle_delegator_voting_power_changed_hook_def unregister_delegate_def result_ok split: if_splits)

lemma member_hook_powers:
  assumes "removal_laws (delegates_ops deps)"
    and "records_ok (delegates_ops deps) (active_ops deps) till (height (block env)) st"
    and "powers_exact vp (height (block env)) st" and "try_fold (member_changed deps env) st ds = Ok st'"
    and "map (\<lambda>d. addr_validate deps (diff_key d)) ds = map Ok as" and "distinct as"
    and "\<forall>(a, d) \<in> set (zip as ds). vp a = weight (diff_old d) \<and> vp' a = weight (diff_new d)"
    and "\<And>h a. next_height env = (Ok h :: (_, contract_error) result) \<Longrightarrow> get_voting_power_of deps st a h = Ok (vp' a)"
  shows "powers_exact (\<lambda>b. if b \<in> set as then vp' b else vp b) (height (block env)) st'"
  using assms(2-8)
proof (induction ds arbitrary: as vp st)
  case Nil
  then show ?case by simp
next
  case (Cons d ds)
  from Cons.prems(4) obtain a rest where as: "as = a # rest" "addr_validate deps (diff_key d) = Ok a"
    "map (\<lambda>d. addr_validate deps (diff_key d)) ds = map Ok rest" by (cases as) auto
  from Cons.prems(3) obtain st1 where st1: "member_changed deps env st d = Ok st1"
    "try_fold (member_changed deps env) st1 ds = Ok st'" by (auto simp: and_then_Ok)
  from Cons.prems(6) as(1) have a: "vp a = weight (diff_old d)" "vp' a = weight (diff_new d)" by auto
  have "powers_exact (vp(a := weight (diff_new d))) (height (block env)) st1"
    by (rule member_changed_powers [OF Cons.prems(1,2) st1(1) as(2) a(1)]) (use Cons.prems(7) a(2) in auto)
  then have exact: "powers_exact (vp(a := vp' a)) (height (block env)) st1" by (simp add: a(2))
  have recs: "records_ok (delegates_ops deps) (active_ops deps) till (height (block env)) st1"
    using member_hook_records [OF assms(1) Cons.prems(1), of env "[d]" st1] st1(1) by simp
  have "DAO st1 = DAO st"
    using st1(1) power_hook_dao by (fastforce simp: member_changed_def Let_def and_then_Ok split: if_splits)
  then have rep: "get_voting_power_of deps st1 b h = Ok (vp' b)"
    if "next_height env = (Ok h :: (_, contract_error) result)" for b h
    using Cons.prems(7) [OF that] by (simp add: get_voting_power_of_def)
  have "\<forall>(b, d) \<in> set (zip rest ds). (vp(a := vp' a)) b = weight (diff_old d) \<and> vp' b = weight (diff_new d)"
    using Cons.prems(5,6) as(1) by (fastforce dest: set_zip_leftD)
  moreover have "distinct rest" using Cons.prems(5) as(1) by simp
  ultimately have "powers_exact (\<lambda>b. if b \<in> set rest then vp' b else (vp(a := vp' a)) b) (height (block env)) st'"
    using Cons.IH [OF recs exact st1(2) as(3)] rep by blast
  moreover have "(\<lambda>b. if b \<in> set rest then vp' b else (vp(a := vp' a)) b) = (\<lambda>b. if b \<in> set as then vp' b else vp b)"
    by (auto simp: fun_eq_iff as(1))
  ultimately show ?case by simp
qed

text \<open>
  Delegating the same percentage again, below one hundred percent, before the delegation expires, where
  the old or the new delegation has an expiration.
\<close>

definition partial_renewal ::
  "('x cw_env_scheme) \<Rightarrow> ('d, 'c, 'a) delegation_state \<Rightarrow> env \<Rightarrow> message_info \<Rightarrow> execute_msg \<Rightarrow> bool" where
  "partial_renewal deps st env info msg =
     (case msg of
        Delegate del p \<Rightarrow>
          (case addr_validate deps del of
             Ok d \<Rightarrow>
               (case DELEGATION_ENTRIES st (sender info, d) of
                  Some (i, x) \<Rightarrow>
                    unexpired (height (block env)) (i, x) \<and> item_percent st (sender info) i = atomics p \<and>
                    p \<noteq> decimal_one \<and>
                    (x \<noteq> None \<or> (case CONFIG st of None \<Rightarrow> False | Some c \<Rightarrow> delegation_validity_blocks c \<noteq> None))
                | None \<Rightarrow> False)
           | _ \<Rightarrow> False)
      | _ \<Rightarrow> False)"

lemma delegate_powers:
  assumes "history_laws (active_ops deps) till"
    and "records_ok (delegates_ops deps) (active_ops deps) till (height (block env)) st"
    and "powers_exact vp (height (block env)) st" and "\<not> partial_renewal deps st env info (Delegate del p)"
    and "execute_delegate deps st env (sender info) del p = Ok st'"
    and "\<And>h v. next_height env = (Ok h :: (_, contract_error) result) \<Longrightarrow>
      get_voting_power_of deps st (sender info) h = Ok v \<Longrightarrow> v = vp (sender info)"
  shows "powers_exact vp (height (block env)) st'"
proof -
  let ?a = "sender info" and ?h = "height (block env)"
  from assms(2) have r: "vector_ok (active_ops deps) till (DELEGATIONS st)" "entries_ok st" by (simp_all add: records_ok_def)
  from execute_delegate_effect [OF r(2) assms(5)] obtain d v h where d: "addr_validate deps del = Ok d"
    and h: "next_height env = (Ok h :: (_, contract_error) result)" "get_voting_power_of deps st ?a h = Ok v"
    and p: "valid_percent p"
    and alt: "st' = st \<or> (\<exists>y. delegated (active_ops deps) ?h ?a d p v y st st') \<or>
     (\<exists>i x y. renewed (active_ops deps) ?h ?a d v i x y st st' \<and> entry_percent st ?a d = atomics p \<and>
       (x \<noteq> None \<or> (\<exists>config. CONFIG st = Some config \<and> delegation_validity_blocks config \<noteq> None)))" by blast
  have v: "v = vp ?a" by (rule assms(6) [OF h])
  show ?thesis
  proof (rule disjE [OF alt])
    assume "st' = st"
    with assms(3) show ?thesis by simp
  next
    assume "(\<exists>y. delegated (active_ops deps) ?h ?a d p v y st st') \<or>
     (\<exists>i x y. renewed (active_ops deps) ?h ?a d v i x y st st' \<and> entry_percent st ?a d = atomics p \<and>
       (x \<noteq> None \<or> (\<exists>config. CONFIG st = Some config \<and> delegation_validity_blocks config \<noteq> None)))"
    then show ?thesis
    proof
      assume "\<exists>y. delegated (active_ops deps) ?h ?a d p v y st st'"
      with delegated_powers [OF r assms(3) _ p] v show ?thesis by blast
    next
      assume "\<exists>i x y. renewed (active_ops deps) ?h ?a d v i x y st st' \<and> entry_percent st ?a d = atomics p \<and>
       (x \<noteq> None \<or> (\<exists>config. CONFIG st = Some config \<and> delegation_validity_blocks config \<noteq> None))"
      then obtain i x y where n: "renewed (active_ops deps) ?h ?a d v i x y st st'" "entry_percent st ?a d = atomics p"
        "x \<noteq> None \<or> (\<exists>config. CONFIG st = Some config \<and> delegation_validity_blocks config \<noteq> None)" by blast
      from n(1) have e: "DELEGATION_ENTRIES st (?a, d) = Some (i, x)" "unexpired ?h (i, x)" by (simp_all add: renewed_def)
      with n(2,3) d assms(4) have "p = decimal_one"
        by (auto simp: partial_renewal_def entry_percent_def)
      with n(2) have "vp ?a * entry_percent st ?a d div 10 ^ decimal_places = vp ?a" by (simp add: decimal_one_def)
      with renewed_powers [OF r(2) assms(3)] n(1) v show ?thesis by blast
    qed
  qed
qed


text \<open>Every message but such a renewal keeps the account of delegated power.\<close>

lemma execute_powers:
  assumes "removal_laws (delegates_ops deps)" and "history_laws (active_ops deps) till"
    and "records_ok (delegates_ops deps) (active_ops deps) till (height (block env)) st"
    and "powers_exact vp (height (block env)) st" and "\<not> partial_renewal deps st env info msg"
    and "execute deps st env info msg = Ok st'" and "power_change deps msg vp vp'"
    and rep: "\<And>h a v. next_height env = (Ok h :: (_, contract_error) result) \<Longrightarrow>
      get_voting_power_of deps st a h = Ok v \<Longrightarrow> v = vp' a"
    and dao: "\<And>h a. next_height env = (Ok h :: (_, contract_error) result) \<Longrightarrow>
      DAO st \<noteq> None \<Longrightarrow> \<exists>v. get_voting_power_of deps st a h = Ok v"
  shows "powers_exact vp' (height (block env)) st'"
proof -
  have hook: "powers_exact (vp(a := vp' a)) (height (block env)) st'"
    if "handle_voting_power_changed_hook deps st env a delta inc = Ok st'"
      "if inc then vp' a = vp a + delta else vp a = vp' a + delta" for a delta inc
  proof (rule power_hook_powers [OF assms(3,4) that(1) _ that(2)])
    from that(1) have "DAO st \<noteq> None"
      by (auto simp: handle_voting_power_changed_hook_def get_voting_power_of_def result_ok)
    with rep dao show "get_voting_power_of deps st a h = Ok (vp' a)"
      if "next_height env = (Ok h :: (_, contract_error) result)" for h using that by blast
  qed
  have entries: "entries_ok st" "vector_ok (active_ops deps) till (DELEGATIONS st)"
    using assms(3) by (simp_all add: records_ok_def)
  show ?thesis
  proof (cases msg)
    case Register
    with assms(4,6,7) register_records(2) [OF assms(1,3)] show ?thesis by (auto simp: execute_def power_change_def result_ok)
  next
    case Unregister
    with assms(4,6,7) register_records(2) [OF assms(1,3)] show ?thesis by (auto simp: execute_def power_change_def result_ok)
  next
    case (Delegate del p)
    with assms(6,7) have ex: "execute_delegate deps st env (sender info) del p = Ok st'" "vp' = vp"
      by (auto simp: execute_def power_change_def result_ok)
    with delegate_powers [OF assms(2-4) _ ex(1)] assms(5) rep Delegate show ?thesis by blast
  next
    case (Undelegate del)
    with assms(6,7) have ex: "execute_undelegate deps st env (sender info) del = Ok st'" "vp' = vp"
      by (auto simp: execute_def power_change_def result_ok)
    from execute_undelegate_effect [OF entries(1) ex(1)] rep ex(2) undelegated_powers [OF entries(2,1) assms(4)]
    show ?thesis by blast
  next
    case (UpdateVotingPowerHookCallers add rem)
    with assms(4,6,7) admin_untouched(1) untouched_ok(2) show ?thesis
      by (fastforce simp: execute_def power_change_def result_ok)
  next
    case (SyncProposalModules start lim)
    with assms(4,6,7) admin_untouched(2) untouched_ok(2) show ?thesis
      by (fastforce simp: execute_def power_change_def result_ok)
  next
    case (UpdateDelegationConfig cap validity mx)
    with assms(4,6,7) admin_untouched(3) untouched_ok(2) show ?thesis
      by (fastforce simp: execute_def power_change_def result_ok)
  next
    case (StakeChangeHook m)
    with assms(6,7) hook show ?thesis
      by (cases m) (fastforce simp: execute_def execute_stake_changed_def power_change_def result_ok split: if_splits)+
  next
    case (NftStakeChangeHook m)
    with assms(6,7) hook show ?thesis
      by (cases m) (fastforce simp: execute_def execute_nft_stake_changed_def power_change_def result_ok split: if_splits)+
  next
    case (MemberChangedHook ds)
    with assms(6) have fold: "try_fold (member_changed deps env) st ds = Ok st'"
      by (auto simp: execute_def execute_membership_changed_def result_ok split: if_splits)
    from MemberChangedHook assms(7) obtain as where as: "map (\<lambda>d. addr_validate deps (diff_key d)) ds = map Ok as" "distinct as"
      "\<forall>(a, d) \<in> set (zip as ds). vp a = weight (diff_old d) \<and> vp' a = weight (diff_new d)"
      "\<forall>a. a \<notin> set as \<longrightarrow> vp' a = vp a" by (auto simp: power_change_def member_powers_def)
    show ?thesis
    proof (cases ds)
      case Nil
      with fold as assms(4) have "vp' = vp" "st' = st" by (auto simp: fun_eq_iff)
      with assms(4) show ?thesis by simp
    next
      case (Cons d ds')
      with fold have "DAO st \<noteq> None"
        by (auto simp: member_changed_def handle_voting_power_changed_hook_def get_voting_power_of_def Let_def result_ok
            split: if_splits)
      with rep dao have "get_voting_power_of deps st a h = Ok (vp' a)"
        if "next_height env = (Ok h :: (_, contract_error) result)" for h a using that by blast
      from member_hook_powers [OF assms(1,3,4) fold as(1-3) this]
      have "powers_exact (\<lambda>b. if b \<in> set as then vp' b else vp b) (height (block env)) st'" .
      moreover have "(\<lambda>b. if b \<in> set as then vp' b else vp b) = vp'" using as(4) by (auto simp: fun_eq_iff)
      ultimately show ?thesis by simp
    qed
  next
    case (DelegationVoteHook v)
    with assms(4,6,7) vote_hook_untouched untouched_ok(2) show ?thesis
      by (fastforce simp: execute_def power_change_def result_ok)
  qed
qed

lemma run_records:
  assumes "delegation_run deps ok h st vp" and "removal_laws (delegates_ops deps)"
    and "history_laws (active_ops deps) till"
  shows "records_ok (delegates_ops deps) (active_ops deps) till h st"
  using assms(1)
proof induction
  case (run_start env info msg st vp)
  then show ?case by (rule new_records(1) [OF assms(2,3)])
next
  case (run_step h st vp env info msg vp' q st')
  have "records_ok (delegates_ops deps) (active_ops deps) till (height (block env)) st"
    using run_step.IH run_step.hyps(2) by (rule records_ok_later)
  with execute_records [of "deps\<lparr>query_voting_power := q\<rparr>", OF _ _ _ run_step.hyps(6)] assms(2,3) show ?case by simp
qed

definition no_partial_renewal :: "('x cw_env_scheme) \<Rightarrow> ('d, 'c, 'a) admits" where
  "no_partial_renewal deps st env info msg \<longleftrightarrow> \<not> partial_renewal deps st env info msg"

lemma run_powers:
  assumes "delegation_run deps (no_partial_renewal deps) h st vp" and "removal_laws (delegates_ops deps)"
    and "history_laws (active_ops deps) till"
  shows "powers_exact vp h st"
  using assms(1)
proof induction
  case (run_start env info msg st vp)
  then show ?case by (rule new_records(2) [OF assms(2,3)])
next
  case (run_step h st vp env info msg vp' q st')
  let ?deps = "deps\<lparr>query_voting_power := q\<rparr>"
  have recs: "records_ok (delegates_ops ?deps) (active_ops ?deps) till (height (block env)) st"
    using records_ok_later [OF run_records [OF run_step.hyps(1) assms(2,3)] run_step.hyps(2)] by simp
  have exact: "powers_exact vp (height (block env)) st" by (rule powers_exact_later [OF run_step.IH run_step.hyps(2)])
  have no: "\<not> partial_renewal ?deps st env info msg" "power_change ?deps msg vp vp'"
    using run_step.hyps(3,4)
    by (simp_all add: no_partial_renewal_def partial_renewal_def power_change_def member_powers_def split: execute_msg.splits)
  show ?case
  proof (rule execute_powers [of ?deps, OF _ _ recs exact no(1) run_step.hyps(6) no(2)])
    show "removal_laws (delegates_ops ?deps)" "history_laws (active_ops ?deps) till" using assms(2,3) by simp_all
    fix h a assume h: "next_height env = (Ok h :: (_, contract_error) result)"
    show "v = vp' a" if "get_voting_power_of ?deps st a h = Ok v" for v
      by (rule reported_power [OF run_step.hyps(5) h that])
    show "\<exists>v. get_voting_power_of ?deps st a h = Ok v" if "DAO st \<noteq> None"
      using that h run_step.hyps(5)
      by (auto simp: get_voting_power_of_def get_voting_power_def next_height_def add_u64_def split: if_splits)
  qed
qed


section \<open>Every list of delegations names a delegate once\<close>

definition named :: "('a, addr, delegation) vector_map \<Rightarrow> addr \<Rightarrow> item_ref list \<Rightarrow> bool" where
  "named m a rs \<longleftrightarrow> distinct (map (\<lambda>r. map_option delegation_delegate (items m (a, fst r))) rs)"

definition lists_named :: "('a, addr, item_ref list) snap_ops \<Rightarrow> ('a, addr, delegation) vector_map \<Rightarrow> bool" where
  "lists_named ao m \<longleftrightarrow> (\<forall>a. named m a (active_of ao m a) \<and> (\<forall>h. named m a (active_at ao m a h)))"

lemma named_grow:
  assumes "refs_ok m a rs" and "items m \<subseteq>\<^sub>m items m'"
  shows "named m' a rs = named m a rs"
proof -
  have "items m' (a, fst r) = items m (a, fst r)" if "r \<in> set rs" for r
    using that assms by (force simp: refs_ok_def map_le_def dom_def)
  then have "map (\<lambda>r. map_option delegation_delegate (items m' (a, fst r))) rs =
    map (\<lambda>r. map_option delegation_delegate (items m (a, fst r))) rs" by simp
  then show ?thesis unfolding named_def by (rule arg_cong)
qed

lemma saved_named:
  assumes "history_laws ao till" and "vector_ok ao till m" and "lists_named ao m"
    and "active_refs m' = snap_save ao (active_refs m) k refs h" and "last_update_of m k \<le> h"
    and "items m \<subseteq>\<^sub>m items m'" and "named m' k refs"
  shows "lists_named ao m'"
proof -
  from assms(2) have "till (active_refs m) k (last_update_of m k)" by (simp add: vector_ok_def)
  from active_at_saved [OF assms(1,4) history_mono [OF assms(1) this assms(5)]]
  have at: "active_at ao m' a t = (if a = k \<and> h < t then refs else active_at ao m a t)" for a t .
  have "named m' a (active_of ao m a)" "named m' a (active_at ao m a t)" for a t
    using assms(2,3) by (simp_all add: named_grow [OF _ assms(6)] vector_ok_def lists_named_def)
  with assms(7) show ?thesis
    unfolding lists_named_def at active_of_saved [OF assms(1,4)] by simp
qed

lemma named_filter: "named m a rs \<Longrightarrow> named m a (filter P rs)"
  by (auto simp: named_def distinct_map_filter)

lemma delegated_named:
  assumes "history_laws ao till" and "records_ok dop ao till h st" and "lists_named ao (DELEGATIONS st)"
    and "delegated ao h a d p v y st st'"
  shows "lists_named ao (DELEGATIONS st')"
proof -
  let ?m = "DELEGATIONS st" and ?m' = "DELEGATIONS st'" and ?n = "next_id_of (DELEGATIONS st) a"
  let ?rs = "filter (\<lambda>r. kept a d st r \<and> unexpired h r) (active_of ao ?m a)"
  from assms(2) have r: "vector_ok ao till ?m" "entries_ok st" "active_ok ao h st" by (simp_all add: records_ok_def)
  from assms(4) have w: "wrote ao ?m a h (?rs @ [(?n, y)]) (Some \<lparr>delegation_delegate = d, delegation_percent = p\<rparr>) ?m'"
    unfolding delegated_def Let_def by blast
  note le = wrote_items [OF r(1) w]
  have refs: "refs_ok ?m a ?rs" using r(1) by (simp add: vector_ok_def refs_ok_filter)
  have "named ?m' a ?rs" unfolding named_grow [OF refs le] using assms(3) by (simp add: lists_named_def named_filter)
  moreover have "map_option delegation_delegate (items ?m' (a, fst x)) \<noteq> Some d" if "x \<in> set ?rs" for x
  proof -
    from that have "x \<in> set (active_of ao ?m a)" "unexpired h x" "kept a d st x" by auto
    moreover from this r(3) obtain c where c: "DELEGATION_ENTRIES st (a, c) = Some x" unfolding active_ok_def by blast
    ultimately have "c \<noteq> d" by (cases x) (auto simp: kept_def)
    obtain i e where [simp]: "x = (i, e)" by (cases x)
    from entry_item [OF r(2), of a c i e] c obtain q where
      "items ?m (a, i) = Some \<lparr>delegation_delegate = c, delegation_percent = q\<rparr>" by (metis \<open>x = (i, e)\<close>)
    with le \<open>c \<noteq> d\<close> show ?thesis by (force simp: map_le_def dom_def)
  qed
  moreover have "items ?m' (a, ?n) = Some \<lparr>delegation_delegate = d, delegation_percent = p\<rparr>" using w by (simp add: wrote_def)
  moreover from calculation(2) have "Some d \<notin> (\<lambda>r. map_option delegation_delegate (items ?m' (a, fst r))) ` set ?rs"
    by (metis (no_types, lifting) imageE)
  ultimately have "named ?m' a (?rs @ [(?n, y)])" unfolding named_def by simp
  with saved_named [OF assms(1) r(1) assms(3) _ _ le] w show ?thesis by (simp add: wrote_def)
qed

lemma undelegated_named:
  assumes "history_laws ao till" and "vector_ok ao till (DELEGATIONS st)" and "lists_named ao (DELEGATIONS st)"
    and "undelegated ao h a d v st st'"
  shows "lists_named ao (DELEGATIONS st')"
proof -
  from assms(4) have w: "last_update_of (DELEGATIONS st) a \<le> h" "items (DELEGATIONS st') = items (DELEGATIONS st)"
    "active_refs (DELEGATIONS st') = snap_save ao (active_refs (DELEGATIONS st)) a
       (filter (\<lambda>r. kept a d st r \<and> unexpired h r) (active_of ao (DELEGATIONS st) a)) h"
    by (simp_all add: undelegated_def wrote_def)
  have "named (DELEGATIONS st) a (filter (\<lambda>r. kept a d st r \<and> unexpired h r) (active_of ao (DELEGATIONS st) a))"
    using assms(3) by (intro named_filter) (simp add: lists_named_def)
  then have "named (DELEGATIONS st') a (filter (\<lambda>r. kept a d st r \<and> unexpired h r) (active_of ao (DELEGATIONS st) a))"
    unfolding named_def w(2) .
  with saved_named [OF assms(1-3) w(3,1)] w(2) show ?thesis by simp
qed

lemma renewed_named:
  assumes "history_laws ao till" and "vector_ok ao till (DELEGATIONS st)" and "lists_named ao (DELEGATIONS st)"
    and "renewed ao h a d v i x y st st'"
  shows "lists_named ao (DELEGATIONS st')"
proof -
  from assms(4) obtain f where "update_expiration ao (DELEGATIONS st) a i h f = Ok (DELEGATIONS st', (i, y))"
    unfolding renewed_def by blast
  from update_expiration_cases [OF this] obtain refs where
    set: "set_expiration i h y (active_of ao (DELEGATIONS st) a) = Some refs"
    and m': "active_refs (DELEGATIONS st') = snap_save ao (active_refs (DELEGATIONS st)) a refs (last_update_of (DELEGATIONS st) a)"
    by auto
  note it = renewed_items(1) [OF assms(4)]
  have "map (\<lambda>r. map_option delegation_delegate (items (DELEGATIONS st) (a, fst r))) refs =
      map (\<lambda>i. map_option delegation_delegate (items (DELEGATIONS st) (a, i))) (map fst (active_of ao (DELEGATIONS st) a))"
    unfolding set_expiration_ids [OF set, symmetric] by simp
  then have "named (DELEGATIONS st') a refs"
    using assms(3) unfolding named_def it lists_named_def by (simp add: o_def)
  with saved_named [OF assms(1-3) m' order_refl] it show ?thesis by simp
qed

lemma execute_named:
  assumes "history_laws (active_ops deps) till"
    and "records_ok (delegates_ops deps) (active_ops deps) till (height (block env)) st"
    and "lists_named (active_ops deps) (DELEGATIONS st)" and "execute deps st env info msg = Ok st'"
  shows "lists_named (active_ops deps) (DELEGATIONS st')"
proof -
  have r: "entries_ok st" "vector_ok (active_ops deps) till (DELEGATIONS st)" using assms(2) by (simp_all add: records_ok_def)
  have hook: "DELEGATIONS s' = DELEGATIONS s" if "handle_voting_power_changed_hook deps s env a delta inc = Ok s'" for s a delta inc s'
    using that by (auto simp: handle_voting_power_changed_hook_def handle_delegate_voting_power_changed_hook_def
        handle_delegator_voting_power_changed_hook_def unregister_delegate_def result_ok split: if_splits)
  have member: "DELEGATIONS s' = DELEGATIONS s" if "member_changed deps env s d = Ok s'" for s d s'
    using that hook by (auto simp: member_changed_def Let_def result_ok split: if_splits)
  show ?thesis
  proof (cases msg)
    case (Delegate del p)
    with assms(4) have ex: "execute_delegate deps st env (sender info) del p = Ok st'" by (auto simp: execute_def result_ok)
    from execute_delegate_effect [OF r(1) ex] show ?thesis
      using assms(3) delegated_named [OF assms(1-3)] renewed_named [OF assms(1) r(2) assms(3)] by blast
  next
    case (Undelegate del)
    with assms(4) have ex: "execute_undelegate deps st env (sender info) del = Ok st'" by (auto simp: execute_def result_ok)
    from execute_undelegate_effect [OF r(1) ex] show ?thesis using undelegated_named [OF assms(1) r(2) assms(3)] by blast
  next
    case (MemberChangedHook ds)
    with assms(4) have "try_fold (member_changed deps env) st ds = Ok st'"
      by (auto simp: execute_def execute_membership_changed_def result_ok split: if_splits)
    then have "DELEGATIONS st' = DELEGATIONS st"
      by (rule try_fold_invariant [where P = "\<lambda>s. DELEGATIONS s = DELEGATIONS st"]) (auto dest: member)
    with assms(3) show ?thesis by simp
  next
    case (DelegationVoteHook v)
    with assms(4) vote_hook_untouched have "untouched st st'" by (fastforce simp: execute_def result_ok)
    with assms(3) show ?thesis by (simp add: untouched_def same_records_def)
  next
    case (StakeChangeHook m)
    with assms(4) hook [of st _ _ _ st'] have "DELEGATIONS st' = DELEGATIONS st"
      by (auto simp: execute_def execute_stake_changed_def result_ok split: if_splits stake_changed_hook_msg.splits)
    with assms(3) show ?thesis by simp
  next
    case (NftStakeChangeHook m)
    with assms(4) hook [of st _ _ _ st'] have "DELEGATIONS st' = DELEGATIONS st"
      by (auto simp: execute_def execute_nft_stake_changed_def result_ok split: if_splits nft_stake_changed_hook_msg.splits)
    with assms(3) show ?thesis by simp
  qed (use assms(3,4) in \<open>auto simp: execute_def execute_register_def execute_unregister_def unregister_delegate_def
    execute_update_voting_power_hook_callers_def execute_sync_proposal_modules_def execute_update_config_def
    result_ok Let_def split: if_splits\<close>)
qed

lemma run_named:
  assumes "delegation_run deps ok h st vp" and "removal_laws (delegates_ops deps)"
    and "history_laws (active_ops deps) till"
  shows "lists_named (active_ops deps) (DELEGATIONS st)"
  using assms(1)
proof induction
  case (run_start env info msg st vp)
  then have "DELEGATIONS st = vector_new (active_ops deps)"
    by (auto simp: instantiate_def execute_sync_proposal_modules_def delegation_new_def result_ok Let_def split: if_splits)
  then show ?case using history_new [OF assms(3)]
    by (simp add: lists_named_def named_def vector_new_def active_of_def active_at_def)
next
  case (run_step h st vp env info msg vp' q st')
  have "records_ok (delegates_ops deps) (active_ops deps) till (height (block env)) st"
    by (rule records_ok_later [OF run_records [OF run_step.hyps(1) assms(2,3)] run_step.hyps(2)])
  with execute_named [of "deps\<lparr>query_voting_power := q\<rparr>", OF _ _ _ run_step.hyps(6)] assms(3) run_step.IH
  show ?case by simp
qed

lemma handlers_dao:
  "handle_redelegation deps st env a d p config c v e = Ok (st', r) \<Longrightarrow> DAO st' = DAO st"
  "handle_new_delegation deps st env a d p config c = Ok (st', r) \<Longrightarrow> DAO st' = DAO st"
  "validate_and_update_delegated_vp st env a d c np n y = Ok st' \<Longrightarrow> DAO st' = DAO st"
  by (auto simp: handle_redelegation_def handle_new_delegation_def validate_and_update_delegated_vp_def
      result_ok Let_def split: if_splits prod.splits)

lemma delegate_dao:
  assumes "execute_delegate deps st env a del p = Ok st'"
  shows "DAO st' = DAO st"
proof -
  from assms obtain d v config st1 np entry ch n where
    handled: "(case DELEGATION_ENTRIES st (a, d) of
         Some existing \<Rightarrow> handle_redelegation deps st env a d p config (percent_delegated_of st a) v existing
       | None \<Rightarrow> handle_new_delegation deps st env a d p config (percent_delegated_of st a)) = Ok (st1, np, entry, ch)"
    and rest: "(if ch then
       and_then (expires_at (height (block env)) (delegation_validity_blocks config)) (\<lambda>expiration.
       validate_and_update_delegated_vp (st1\<lparr>DELEGATION_ENTRIES := (DELEGATION_ENTRIES st1)((a, d) \<mapsto> entry)\<rparr>)
         env a d (percent_delegated_of st a) np n expiration)
     else Ok (st1\<lparr>DELEGATION_ENTRIES := (DELEGATION_ENTRIES st1)((a, d) \<mapsto> entry)\<rparr>)) = Ok st'"
    by (auto simp: execute_delegate_def result_ok Let_def)
  have "DAO st1 = DAO st" using handled by (auto dest: handlers_dao split: option.splits)
  moreover have "DAO st' = DAO st1" using rest by (auto simp: and_then_Ok dest: handlers_dao(3) split: if_splits)
  ultimately show ?thesis by simp
qed

lemma run_dao:
  assumes "delegation_run deps ok h st vp"
  shows "DAO st \<noteq> None"
  using assms
proof induction
  case (run_start env info msg st vp)
  then show ?case
    by (auto simp: instantiate_def execute_sync_proposal_modules_def result_ok Let_def split: if_splits)
next
  case (run_step h st vp env info msg vp' q st')
  let ?deps = "deps\<lparr>query_voting_power := q\<rparr>"
  have member: "DAO s' = DAO s" if "member_changed ?deps env s d = Ok s'" for s d s'
    using that power_hook_dao by (fastforce simp: member_changed_def Let_def and_then_Ok split: if_splits)
  have low: "DAO s' = DAO s" if "lower_udvp pm pid h pow s l = Ok s'" for pm pid h pow s l s'
    using that by (auto simp: lower_udvp_def Let_def result_ok)
  have "DAO st' = DAO st"
  proof (cases msg)
    case (MemberChangedHook ds)
    with run_step.hyps(6) have "try_fold (member_changed ?deps env) st ds = Ok st'"
      by (auto simp: execute_def execute_membership_changed_def result_ok split: if_splits)
    then show ?thesis by (rule try_fold_invariant [where P = "\<lambda>s. DAO s = DAO st"]) (auto dest: member)
  next
    case (DelegationVoteHook v)
    obtain pid voter vt pow ind h first where v: "v = NewVote pid voter vt pow ind h first" by (cases v)
    show ?thesis
    proof (cases first)
      case True
      with run_step.hyps(6) DelegationVoteHook obtain ls where "try_fold (lower_udvp (sender info) pid h pow) st ls = Ok st'"
        by (auto simp: execute_def execute_vote_hook_def v and_then_Ok map_err_Ok split: if_splits)
      then show ?thesis by (rule try_fold_invariant [where P = "\<lambda>s. DAO s = DAO st"]) (auto dest: low)
    qed (use run_step.hyps(6) DelegationVoteHook in \<open>auto simp: execute_def execute_vote_hook_def v result_ok split: if_splits\<close>)
  next
    case (StakeChangeHook m)
    with run_step.hyps(6) power_hook_dao [of ?deps st env _ _ _ st'] show ?thesis
      by (auto simp: execute_def execute_stake_changed_def result_ok split: if_splits stake_changed_hook_msg.splits)
  next
    case (NftStakeChangeHook m)
    with run_step.hyps(6) power_hook_dao [of ?deps st env _ _ _ st'] show ?thesis
      by (auto simp: execute_def execute_nft_stake_changed_def result_ok split: if_splits nft_stake_changed_hook_msg.splits)
  next
    case (Delegate del p)
    with run_step.hyps(6) show ?thesis by (auto simp: execute_def result_ok dest: delegate_dao)
  qed (use run_step.hyps(6) in \<open>auto simp: execute_def execute_register_def execute_unregister_def unregister_delegate_def
    execute_undelegate_def execute_update_voting_power_hook_callers_def execute_sync_proposal_modules_def
    execute_update_config_def result_ok Let_def split: if_splits\<close>)
  with run_step.IH show ?case by simp
qed

end
