(* ===== verification/Vote_Delegation_Claims.thy ===== *)
theory Vote_Delegation_Claims
  imports Vote_Delegation_Run Samples
begin

text \<open>
  The properties of the delegation module, with a concrete run: Ann delegates half of her power of 60
  to Bob for one hundred blocks, and renews the delegation before it expires.
\<close>

section \<open>A run\<close>

definition log_removable :: "(('k :: linorder \<times> u64 \<times> 'v option) list, 'k, 'v) removable_ops" where
  "log_removable =
     \<lparr>snap_new = [], snap_load = log_load, snap_save = (\<lambda>s k v h. (k, h, Some v) # s), snap_at = log_at,
      snap_range = snap_range log_ops, snap_remove = (\<lambda>s k h. (k, h, None) # s)\<rparr>"

lemma log_removal_laws: "removal_laws log_removable"
  by (auto simp: removal_laws_def log_removable_def log_load_def)

type_synonym sample_deps =
  "((addr \<times> u64 \<times> unit option) list, (unit \<times> u64 \<times> decimal option option) list,
    (addr \<times> u64 \<times> item_ref list option) list) delegation_deps"

type_synonym sample_delegations =
  "((addr \<times> u64 \<times> unit option) list, (unit \<times> u64 \<times> decimal option option) list,
    (addr \<times> u64 \<times> item_ref list option) list) delegation_state"

definition sample_delegation :: sample_deps where
  "sample_delegation =
     \<lparr>is_expired = sample_is_expired, duration_after = sample_after, expiration_add = sample_add,
      expiration_debug = (\<lambda>_. ''expiration''), addr_validate = (\<lambda>a. Ok a),
      query_voting_module = (\<lambda>_. Ok ''voting''), query_is_active = (\<lambda>_. Ok True),
      query_voting_power = (\<lambda>_ a _. Ok (sample_power a)), query_total_power = (\<lambda>_ _. Ok 100),
      query_delegations = (\<lambda>_ _ _. Ok []), query_udvp = (\<lambda>_ _ _ _ _. Ok udvp_default),
      query_udvp_reduction = (\<lambda>_ _ _ _ _ _. Ok 0),
      delegates_ops = log_removable, cap_ops = log_ops, active_ops = log_ops,
      query_proposal_modules_of = (\<lambda>_ _ _. Ok [\<lparr>address = ''prop'', prefix = ''A'', module_status = Enabled\<rparr>]),
      nonpayable = (\<lambda>info. if funds info = [] then Ok () else Err ''payment''),
      semver_parse = Ok, semver_le = (\<lambda>a b. a = b)\<rparr>"

lemma sample_delegation_sel [simp]:
  "delegates_ops sample_delegation = log_removable" "cap_ops sample_delegation = log_ops"
  "active_ops sample_delegation = log_ops" "addr_validate sample_delegation = Ok"
  "query_voting_power sample_delegation = (\<lambda>_ a _. Ok (sample_power a))"
  by (simp_all add: sample_delegation_def)

definition sample_module_msg :: instantiate_msg where
  "sample_module_msg =
     \<lparr>im_dao = None, im_vp_hook_callers = Some [''staking''], im_no_sync_proposal_modules = None,
      im_vp_cap_percent = None, im_delegation_validity_blocks = Some 100, im_max_delegations = None\<rparr>"

definition deleg_start :: sample_delegations where
  "deleg_start =
     (delegation_new sample_delegation)
       \<lparr>CONTRACT_INFO := Some (CONTRACT_NAME, CONTRACT_VERSION),
        CONFIG := Some \<lparr>delegation_validity_blocks = Some 100, max_delegations = 50\<rparr>,
        VP_CAP_PERCENT := [((), 1, Some None)], DAO := Some ''dao'',
        PROPOSAL_HOOK_CALLERS := [''prop'' \<mapsto> ()], VOTING_POWER_HOOK_CALLERS := [''staking'' \<mapsto> ()]\<rparr>"

definition deleg_bob :: sample_delegations where
  "deleg_bob = deleg_start\<lparr>DELEGATES := [(''bob'', 1, Some ())]\<rparr>"

definition half :: decimal where
  "half = Decimal 500000000000000000"

definition ann_items :: "addr \<times> u64 \<rightharpoonup> delegation" where
  "ann_items = [(''ann'', 0) \<mapsto> \<lparr>delegation_delegate = ''bob'', delegation_percent = half\<rparr>]"

definition deleg_half :: sample_delegations where
  "deleg_half =
     deleg_bob\<lparr>DELEGATIONS :=
         \<lparr>items = ann_items, next_ids = [''ann'' \<mapsto> 1], active_refs = [(''ann'', 2, Some [(0, Some 102)])],
          last_active_update = [''ann'' \<mapsto> 2]\<rparr>,
       DELEGATION_ENTRIES := [(''ann'', ''bob'') \<mapsto> (0, Some 102)],
       PERCENT_DELEGATED := [''ann'' \<mapsto> half],
       DELEGATED_VP := [(''bob'', 3) \<mapsto> 30, (''bob'', 102) \<mapsto> 0]\<rparr>"

definition deleg_renewed :: sample_delegations where
  "deleg_renewed =
     deleg_half\<lparr>DELEGATIONS :=
         \<lparr>items = ann_items, next_ids = [''ann'' \<mapsto> 1],
          active_refs = [(''ann'', 2, Some [(0, Some 150)]), (''ann'', 2, Some [(0, Some 102)])],
          last_active_update = [''ann'' \<mapsto> 2]\<rparr>,
       DELEGATION_ENTRIES := [(''ann'', ''bob'') \<mapsto> (0, Some 150)],
       DELEGATED_VP := [(''bob'', 3) \<mapsto> 30, (''bob'', 102) \<mapsto> 60, (''bob'', 150) \<mapsto> 0]\<rparr>"

lemma half_is_half: "half = decimal_percent 50"
  by (simp add: half_def decimal_percent_def decimal_places_def)

lemma sample_sums:
  "add_u64 (1 :: u64) 1 = (Ok 2 :: (_, 'e) result)" "add_u64 (2 :: u64) 1 = (Ok 3 :: (_, 'e) result)"
  "add_u64 (50 :: u64) 1 = (Ok 51 :: (_, 'e) result)" "add_u64 (2 :: u64) 100 = (Ok 102 :: (_, 'e) result)"
  "add_u64 (50 :: u64) 100 = (Ok 150 :: (_, 'e) result)" "add_u64 (0 :: u64) 1 = (Ok 1 :: (_, 'e) result)"
  by (simp_all add: add_u64_def)

lemma sample_deleg_start:
  "instantiate sample_delegation (delegation_new sample_delegation) (sample_env 1) (sent_by ''dao'') sample_module_msg
     = Ok deleg_start"
  by (simp add: instantiate_def sample_module_msg_def sent_by_def sample_delegation_def check_cap_def check_validity_blocks_def
      MIN_DELEGATION_VALIDITY_BLOCKS_def add_callers_def execute_sync_proposal_modules_def sync_module_def
      deleg_start_def delegation_new_def log_ops_def sample_env_def sample_block_def DEFAULT_MAX_DELEGATIONS_def Let_def)

lemma sample_deleg_bob:
  "execute sample_delegation deleg_start (sample_env 1) (sent_by ''bob'') Register = Ok deleg_bob"
  by (simp add: execute_def sample_delegation_def sent_by_def execute_register_def ensure_setup_def deleg_start_def
      delegation_new_def is_delegate_registered_def log_removable_def log_load_def next_height_def sample_env_def
      sample_block_def sample_sums get_voting_power_of_def get_voting_power_def sample_power_def deleg_bob_def)

lemma sample_deleg_half:
  "execute sample_delegation deleg_bob (sample_env 2) (sent_by ''ann'') (Delegate ''bob'' half) = Ok deleg_half"
  by (simp add: execute_def sample_delegation_def sent_by_def execute_delegate_def ensure_setup_def deleg_bob_def deleg_start_def
      delegation_new_def validate_delegation_def valid_percent_def decimal_less_def decimal_one_def decimal_places_def
      is_delegate_registered_def log_removable_def log_load_def next_height_def sample_env_def
      sample_block_def sample_sums get_voting_power_of_def get_voting_power_def sample_power_def percent_delegated_of_def
      handle_new_delegation_def decimal_checked_add_def checked_add128_def push_def validate_order_and_update_def
      last_update_of_def vector_new_def next_id_of_def active_of_def log_ops_def expires_at_def Let_def
      ensure_max_delegations_not_reached_def as_usize_def calculate_delegated_vp_def decimal_is_zero_def mul_floor_def
      validate_and_update_delegated_vp_def add_delegated_vp_def wormhole_eval deleg_half_def ann_items_def half_def)

lemma sample_deleg_renewed:
  "execute sample_delegation deleg_half (sample_env 50) (sent_by ''ann'') (Delegate ''bob'' half) = Ok deleg_renewed"
  by (simp add: execute_def sample_delegation_def sent_by_def execute_delegate_def ensure_setup_def deleg_half_def
      deleg_bob_def deleg_start_def delegation_new_def validate_delegation_def valid_percent_def decimal_less_def
      decimal_one_def decimal_places_def is_delegate_registered_def log_removable_def log_load_def next_height_def
      sample_env_def sample_block_def sample_sums get_voting_power_of_def get_voting_power_def sample_power_def
      percent_delegated_of_def handle_redelegation_def load_item_def ann_items_def update_expiration_def active_of_def
      log_ops_def expires_at_def unexpired_def Let_def update_delegated_vp_expiration_def calculate_delegated_vp_def
      decimal_is_zero_def mul_floor_def wormhole_eval deleg_renewed_def half_def)

text \<open>The powers of the members stay the same in this run.\<close>

abbreviation anything :: "('d, 'c, 'a) admits" where
  "anything \<equiv> (\<lambda>_ _ _ _. True)"

lemma sample_query: "sample_delegation\<lparr>query_voting_power := \<lambda>_ a _. Ok (sample_power a)\<rparr> = sample_delegation"
  by (simp add: sample_delegation_def)

lemma sample_run_step:
  assumes "delegation_run sample_delegation ok h st sample_power" and "h \<le> k"
    and "execute sample_delegation st (sample_env k) info msg = Ok st'" and "ok st (sample_env k) info msg"
    and "power_change sample_delegation msg sample_power sample_power"
  shows "delegation_run sample_delegation ok k st' sample_power"
  using run_step [OF assms(1) _ assms(4,5), of "\<lambda>_ a _. Ok (sample_power a)" st'] assms(2,3)
  by (simp add: sample_query sample_env_def sample_block_def)

lemma sample_run_half:
  assumes "\<And>st env info msg. \<not> partial_renewal sample_delegation st env info msg \<Longrightarrow> ok st env info msg"
  shows "delegation_run sample_delegation ok 2 deleg_half sample_power"
proof -
  have "delegation_run sample_delegation ok 1 deleg_start sample_power"
    using run_start [OF sample_deleg_start, of ok sample_power] by (simp add: sample_env_def sample_block_def)
  moreover have "\<not> partial_renewal sample_delegation deleg_start (sample_env 1) (sent_by ''bob'') Register"
    by (simp add: partial_renewal_def)
  ultimately have "delegation_run sample_delegation ok 1 deleg_bob sample_power"
    using assms by (intro sample_run_step [OF _ _ sample_deleg_bob]) (auto simp: power_change_def)
  moreover have "\<not> partial_renewal sample_delegation deleg_bob (sample_env 2) (sent_by ''ann'') (Delegate ''bob'' half)"
    by (simp add: partial_renewal_def deleg_bob_def deleg_start_def delegation_new_def)
  ultimately show ?thesis
    using assms by (intro sample_run_step [OF _ _ sample_deleg_half]) (auto simp: power_change_def)
qed

lemma sample_run_renewed: "delegation_run sample_delegation anything 50 deleg_renewed sample_power"
  by (rule sample_run_step [OF sample_run_half _ sample_deleg_renewed]) (simp_all add: power_change_def)


section \<open>Delegated power\<close>

text \<open>C33: The delegation module accounts exactly. After any run of instantiation, registrations, delegations,
  revocations, configuration changes and hooks for every change of voting power, the power that the module
  reports for a delegate at any later height is the sum, over the members who have delegated to it, of the
  delegated percentage of each member's current power, rounded down, for the delegations that are still in
  force at that height. Renewals of a partial delegation before it expires are excluded: see below.
\<close>

theorem delegated_power_exact:
  assumes "delegation_run deps (no_partial_renewal deps) h st vp" and "removal_laws (delegates_ops deps)"
    and "history_laws (active_ops deps) till" and "addr_validate deps del = Ok d" and "h < t"
  shows "query_registration deps st env del (Some t) =
    Ok (is_delegate_registered deps st d (Some t), \<Sum>a \<in> delegators_of st d. given vp st a d t, t)"
  using run_powers [OF assms(1-3)] assms(4,5)
  by (simp add: powers_exact_def query_registration_def height_or_now_def Let_def)

lemma sample_given:
  "delegators_of deleg_half ''bob'' = {''ann''}" "delegators_of deleg_renewed ''bob'' = {''ann''}"
  "given sample_power deleg_half ''ann'' ''bob'' 50 = 30" "given sample_power deleg_renewed ''ann'' ''bob'' 120 = 30"
proof -
  have "{a. [(''ann'', ''bob'') \<mapsto> r] (a, ''bob'') \<noteq> None} = {''ann''}" for r :: item_ref
    by auto
  then show "delegators_of deleg_half ''bob'' = {''ann''}" "delegators_of deleg_renewed ''bob'' = {''ann''}"
    by (simp_all add: delegators_of_def deleg_half_def deleg_renewed_def)
  show "given sample_power deleg_half ''ann'' ''bob'' 50 = 30" "given sample_power deleg_renewed ''ann'' ''bob'' 120 = 30"
    by (simp_all add: given_def deleg_half_def deleg_renewed_def item_percent_def ann_items_def sample_power_def half_def
        unexpired_def decimal_places_def)
qed

theorem delegated_power_exact_witness:
  "query_registration sample_delegation deleg_half (sample_env 2) ''bob'' (Some 50) = Ok (True, 30, 50)"
proof -
  have run: "delegation_run sample_delegation (no_partial_renewal sample_delegation) 2 deleg_half sample_power"
    by (rule sample_run_half) (simp add: no_partial_renewal_def)
  have laws: "removal_laws (delegates_ops sample_delegation)" "history_laws (active_ops sample_delegation) log_till"
    by (simp_all add: log_removal_laws log_laws)
  have "is_delegate_registered sample_delegation deleg_half ''bob'' (Some 50)"
    by (simp add: is_delegate_registered_def deleg_half_def deleg_bob_def log_removable_def log_at_def)
  with delegated_power_exact [OF run laws, of "''bob''" "''bob''" 50 "sample_env 2"] show ?thesis
    by (simp add: sample_given)
qed

text \<open>Delegating the same percentage again before the delegation expires changes nothing or renews it.\<close>

lemma execute_delegate_renews:
  assumes "entries_ok st" and "execute_delegate deps st env a del p = Ok st'" and "addr_validate deps del = Ok d"
    and "DELEGATION_ENTRIES st (a, d) = Some (i, x)" and "unexpired (height (block env)) (i, x)"
    and "entry_percent st a d = atomics p"
  shows "\<exists>v h. next_height env = (Ok h :: (_, contract_error) result) \<and> get_voting_power_of deps st a h = Ok v \<and>
    valid_percent p \<and> (st' = st \<or> (\<exists>y. renewed (active_ops deps) (height (block env)) a d v i x y st st'))"
proof -
  from assms(2-4) obtain v config st1 np entry ch n where
    v: "validate_delegation deps st env a d p = Ok v"
    and handled: "handle_redelegation deps st env a d p config (percent_delegated_of st a) v (i, x) = Ok (st1, np, entry, ch)"
    and rest: "(if ch then
       and_then (expires_at (height (block env)) (delegation_validity_blocks config)) (\<lambda>expiration.
       validate_and_update_delegated_vp (st1\<lparr>DELEGATION_ENTRIES := (DELEGATION_ENTRIES st1)((a, d) \<mapsto> entry)\<rparr>)
         env a d (percent_delegated_of st a) np n expiration)
     else Ok (st1\<lparr>DELEGATION_ENTRIES := (DELEGATION_ENTRIES st1)((a, d) \<mapsto> entry)\<rparr>)) = Ok st'"
    by (auto simp: execute_delegate_def result_ok Let_def)
  from redelegation_renewed [OF assms(1,4-6) handled] rest validate_delegation_Ok [OF v] show ?thesis by auto
qed

text \<open>What a renewal moves from the old expiration to the new one is the whole power of the delegator.\<close>

lemma renewed_excess:
  assumes "entries_ok st" and "powers_exact vp h st" and "renewed ao k a d (vp a) i x y st st'" and "h < t"
    and "entry_percent st a d \<le> atomics decimal_one"
  shows "value_at 0 (DELEGATED_VP st') d t +
      (if unexpired t (i, x) then vp a - vp a * entry_percent st a d div 10 ^ decimal_places else 0) =
    (\<Sum>b \<in> delegators_of st' d. given vp st' b d t) +
      (if unexpired t (i, y) then vp a - vp a * entry_percent st a d div 10 ^ decimal_places else 0)"
proof -
  let ?s = "vp a * entry_percent st a d div 10 ^ decimal_places"
  note de = renewed_entries [OF assms(1,3)]
  have "?s \<le> vp a" using calculate_delegated_le [of "Decimal (entry_percent st a d)" "vp a"] assms(5) by simp
  moreover from assms(3) have "value_at 0 (DELEGATED_VP st') d t + (if d = d \<and> unexpired t (i, x) then vp a else 0) =
      value_at 0 (DELEGATED_VP st) d t + (if d = d \<and> unexpired t (i, y) then vp a else 0)"
    unfolding renewed_def by (elim conjE) (erule allE)+
  moreover have "value_at 0 (DELEGATED_VP st) d t = (\<Sum>b \<in> delegators_of st d. given vp st b d t)"
    using assms(2,4) by (simp add: powers_exact_def)
  moreover have "(\<Sum>b \<in> delegators_of st' d. given vp st' b d t) + (if unexpired t (i, x) then ?s else 0) =
      (\<Sum>b \<in> delegators_of st d. given vp st b d t) + (if unexpired t (i, y) then ?s else 0)"
    using given_sum_changed [OF assms(1) de(2,1), where c = d and vp = vp and t = t] unfolding de(4,5) by simp
  ultimately show ?thesis by (auto split: if_splits)
qed

text \<open>C34: What a renewal does to the account. In any state of a run without earlier partial renewals, let a member
  delegate the same percentage again before the delegation expires. The module then moves the expiration of the
  member's whole power instead of the delegated part. At every later height, the power that it reports for the
  delegate differs from the sum of the delegations in force exactly by the part that the member has not
  delegated: it is counted in addition where only the renewed delegation is in force, and missing where only
  the old one would have been. So the account stays exact only if the expiration does not move, or if the
  delegated part is the whole power.
\<close>

theorem renewal_inflates_power:
  assumes "delegation_run deps (no_partial_renewal deps) h st vp" and "removal_laws (delegates_ops deps)"
    and "history_laws (active_ops deps) till" and "h \<le> height (block env)"
    and "\<forall>dao b. q dao b (Some (height (block env) + 1)) = Ok (vp b)" and "addr_validate deps del = Ok d"
    and "DELEGATION_ENTRIES st (sender info, d) = Some (i, x)" and "unexpired (height (block env)) (i, x)"
    and "item_percent st (sender info) i = atomics p"
    and "execute (deps\<lparr>query_voting_power := q\<rparr>) st env info (Delegate del p) = Ok st'"
    and "rest = vp (sender info) - vp (sender info) * atomics p div 10 ^ decimal_places"
  shows "\<exists>y. DELEGATION_ENTRIES st' (sender info, d) = Some (i, y) \<and>
    (\<forall>t env'. height (block env) < t \<longrightarrow>
      (\<exists>n. query_registration deps st' env' del (Some t) = Ok (is_delegate_registered deps st' d (Some t), n, t) \<and>
        n + (if unexpired t (i, x) then rest else 0) =
          (\<Sum>a \<in> delegators_of st' d. given vp st' a d t) + (if unexpired t (i, y) then rest else 0)))"
proof -
  let ?a = "sender info" and ?h = "height (block env)" and ?deps = "deps\<lparr>query_voting_power := q\<rparr>"
  have ok: "entries_ok st" using run_records [OF assms(1-3)] by (simp add: records_ok_def)
  have exact: "powers_exact vp ?h st" by (rule powers_exact_later [OF run_powers [OF assms(1-3)] assms(4)])
  have percent: "entry_percent st ?a d = atomics p" using assms(7,9) by (simp add: entry_percent_def)
  have "execute_delegate ?deps st env ?a del p = Ok st'" using assms(10) by (auto simp: execute_def result_ok)
  from execute_delegate_renews [OF ok this _ assms(7,8) percent] assms(6) obtain v k where
    power: "next_height env = (Ok k :: (_, contract_error) result)" "get_voting_power_of ?deps st ?a k = Ok v"
    and valid: "valid_percent p"
    and alt: "st' = st \<or> (\<exists>y. renewed (active_ops deps) ?h ?a d v i x y st st')" by auto
  have v: "v = vp ?a" by (rule reported_power [OF assms(5) power])
  have le: "entry_percent st ?a d \<le> atomics decimal_one"
    using valid percent by (simp add: valid_percent_def decimal_less_def not_less)
  have "\<exists>y. DELEGATION_ENTRIES st' (?a, d) = Some (i, y) \<and>
    (\<forall>t > ?h. value_at 0 (DELEGATED_VP st') d t + (if unexpired t (i, x) then rest else 0) =
      (\<Sum>b \<in> delegators_of st' d. given vp st' b d t) + (if unexpired t (i, y) then rest else 0))"
    using alt
  proof
    assume "st' = st"
    with exact assms(7) show ?thesis by (intro exI [of _ x]) (simp add: powers_exact_def)
  next
    assume "\<exists>y. renewed (active_ops deps) ?h ?a d v i x y st st'"
    then obtain y where y: "renewed (active_ops deps) ?h ?a d (vp ?a) i x y st st'" using v by blast
    then have "DELEGATION_ENTRIES st' (?a, d) = Some (i, y)" by (simp add: renewed_def)
    with renewed_excess [OF ok exact y _ le] show ?thesis unfolding percent assms(11) by blast
  qed
  with assms(6) show ?thesis by (auto simp: query_registration_def height_or_now_def Let_def)
qed

theorem renewal_inflates_power_witness:
  "query_registration sample_delegation deleg_renewed (sample_env 50) ''bob'' (Some 120) =
     Ok (is_delegate_registered sample_delegation deleg_renewed ''bob'' (Some 120), 60, 120) \<and>
   (\<Sum>a \<in> delegators_of deleg_renewed ''bob''. given sample_power deleg_renewed a ''bob'' 120) = 30"
proof -
  have run: "delegation_run sample_delegation (no_partial_renewal sample_delegation) 2 deleg_half sample_power"
    by (rule sample_run_half) (simp add: no_partial_renewal_def)
  have "\<exists>y. DELEGATION_ENTRIES deleg_renewed (sender (sent_by ''ann''), ''bob'') = Some (0, y) \<and>
    (\<forall>t env'. height (block (sample_env 50)) < t \<longrightarrow>
      (\<exists>n. query_registration sample_delegation deleg_renewed env' ''bob'' (Some t) =
          Ok (is_delegate_registered sample_delegation deleg_renewed ''bob'' (Some t), n, t) \<and>
        n + (if unexpired t (0, Some 102) then 30 else 0) =
          (\<Sum>a \<in> delegators_of deleg_renewed ''bob''. given sample_power deleg_renewed a ''bob'' t) +
          (if unexpired t (0, y) then 30 else 0)))"
  proof (rule renewal_inflates_power [OF run, where till = log_till and q = "\<lambda>_ a _. Ok (sample_power a)" and p = half])
    show "execute (sample_delegation\<lparr>query_voting_power := \<lambda>_ a _. Ok (sample_power a)\<rparr>) deleg_half (sample_env 50)
        (sent_by ''ann'') (Delegate ''bob'' half) = Ok deleg_renewed"
      unfolding sample_query by (rule sample_deleg_renewed)
  qed (simp_all add: log_removal_laws log_laws sample_env_def sample_block_def sent_by_def deleg_half_def
      item_percent_def ann_items_def half_def unexpired_def sample_power_def decimal_places_def)
  moreover have "DELEGATION_ENTRIES deleg_renewed (sender (sent_by ''ann''), ''bob'') = Some (0, Some 150)"
    by (simp add: deleg_renewed_def sent_by_def)
  ultimately obtain n where "query_registration sample_delegation deleg_renewed (sample_env 50) ''bob'' (Some 120) =
      Ok (is_delegate_registered sample_delegation deleg_renewed ''bob'' (Some 120), n, 120)"
    "n + (if unexpired 120 (0, Some 102) then 30 else 0) =
      (\<Sum>a \<in> delegators_of deleg_renewed ''bob''. given sample_power deleg_renewed a ''bob'' 120) +
      (if unexpired 120 (0, Some 150) then 30 else 0)"
    by - (elim exE conjE, drule spec [of _ 120], drule spec [of _ "sample_env 50"],
        auto simp: sample_env_def sample_block_def)
  then show ?thesis by (simp add: sample_given unexpired_def)
qed

section \<open>The records\<close>

text \<open>C35: After any run whatsoever, renewals included, the percentage that the module keeps for a member is the sum
  of the percentages of the member's delegations and never exceeds one hundred percent; each of them is above
  zero, and a registered delegate has no delegations of its own.
\<close>

theorem delegations_bounded:
  assumes "delegation_run deps ok h st vp" and "removal_laws (delegates_ops deps)"
    and "history_laws (active_ops deps) till"
  shows "atomics (percent_delegated_of st a) = (\<Sum>d \<in> delegates_of st a. entry_percent st a d) \<and>
    atomics (percent_delegated_of st a) \<le> atomics decimal_one \<and>
    (\<forall>d \<in> delegates_of st a. 0 < entry_percent st a d) \<and>
    (is_delegate_registered deps st a None \<longrightarrow> delegates_of st a = {})"
proof -
  have r: "entries_ok st" "percents_ok st" "delegates_idle (delegates_ops deps) st"
    using run_records [OF assms] by (simp_all add: records_ok_def)
  have "0 < entry_percent st a d" if d: "d \<in> delegates_of st a" for d
  proof -
    from d obtain i e where e: "DELEGATION_ENTRIES st (a, d) = Some (i, e)" by (auto simp: delegates_of_def)
    from entry_item [OF r(1) e] show ?thesis by (metis bot_nat_0.not_eq_extremum le_zero_eq valid_percent_def)
  qed
  moreover have "is_delegate_registered deps st a None \<longrightarrow> delegates_of st a = {}"
    using r(3) by (simp add: delegates_idle_def registered_def is_delegate_registered_def)
  ultimately show ?thesis using r(2) unfolding percents_ok_def by blast
qed

theorem delegations_bounded_witness:
  "atomics (percent_delegated_of deleg_renewed ''ann'') = (\<Sum>d \<in> delegates_of deleg_renewed ''ann''. entry_percent deleg_renewed ''ann'' d) \<and>
   delegates_of deleg_renewed ''bob'' = {}"
proof -
  have laws: "removal_laws (delegates_ops sample_delegation)" "history_laws (active_ops sample_delegation) log_till"
    by (simp_all add: log_removal_laws log_laws)
  have "is_delegate_registered sample_delegation deleg_renewed ''bob'' None"
    by (simp add: is_delegate_registered_def deleg_renewed_def deleg_half_def deleg_bob_def log_removable_def log_load_def)
  with delegations_bounded [OF sample_run_renewed laws, of "''ann''"] delegations_bounded [OF sample_run_renewed laws, of "''bob''"]
  show ?thesis by blast
qed


section \<open>Revoking\<close>

lemma given_le:
  assumes "entries_ok st"
  shows "given vp st a d t \<le> vp a"
proof (cases "DELEGATION_ENTRIES st (a, d)")
  case (Some r)
  obtain i e where [simp]: "r = (i, e)" by (cases r)
  from entry_item [OF assms, of a d i e] Some obtain p where "valid_percent p" "item_percent st a i = atomics p"
    by (metis \<open>r = (i, e)\<close>)
  with calculate_delegated_le [of p "vp a"] Some show ?thesis
    by (simp add: given_def valid_percent_def decimal_less_def not_less)
qed (simp add: given_def)

text \<open>The total delegated to a delegate, without one delegator and with any share of that one's power, fits.\<close>

lemma others_fit:
  assumes "entries_ok st" and "a \<in> delegators_of st d" and "(\<Sum>b \<in> delegators_of st d. vp b) < 2 ^ 128" and "n \<le> vp a"
  shows "(\<Sum>b \<in> delegators_of st d - {a}. given vp st b d t) + n < 2 ^ 128"
proof -
  have fin: "finite (delegators_of st d)" by (rule finite_delegates(2) [OF assms(1)])
  have "(\<Sum>b \<in> delegators_of st d - {a}. given vp st b d t) + n \<le> (\<Sum>b \<in> delegators_of st d - {a}. vp b) + vp a"
    using given_le [OF assms(1)] assms(4) by (intro add_mono sum_mono) auto
  also have "\<dots> = (\<Sum>b \<in> delegators_of st d. vp b)" using fin assms(2) by (simp add: sum.remove [of _ a])
  finally show ?thesis using assms(3) by simp
qed

lemma raised_at_expiration:
  assumes "\<And>t. h < t \<Longrightarrow> value_at 0 w d t = f t + (if unexpired t (i, x) then n else 0)"
    and "unexpired h (i, x)" and "\<And>t. f t + n < 2 ^ 128"
  shows "\<exists>w1. (case x of None \<Rightarrow> Ok w | Some e \<Rightarrow> and_then (wormhole_increment w d e n) (\<lambda>(w, _). Ok w)) =
      (Ok w1 :: (_, contract_error) result) \<and> (\<forall>t. h < t \<longrightarrow> n \<le> value_at 0 w1 d t)"
proof (cases x)
  case None
  then have "h < t \<Longrightarrow> n \<le> value_at 0 w d t" for t using assms(1) [of t] by (simp add: unexpired_pair)
  then show ?thesis by (simp add: None)
next
  case (Some e)
  have "value_at 0 w d t + n < 2 ^ 128" if t: "e \<le> t" for t
  proof -
    have "h < t" "\<not> unexpired t (i, x)" using assms(2) Some t by (simp_all add: unexpired_pair not_less)
    then show ?thesis using assms(1) [of t] assms(3) [of t] by simp
  qed
  then have "\<exists>w1 u. wormhole_increment w d e n = (Ok (w1, u) :: (_, contract_error) result)"
    by (rule increment_succeeds)
  then obtain w1 u where inc: "wormhole_increment w d e n = (Ok (w1, u) :: (_, contract_error) result)" by (elim exE)
  have "n \<le> value_at 0 w1 d t" if t: "h < t" for t
    using assms(1) [OF t] Some by (cases "e \<le> t") (simp_all add: increment_value(1) [OF inc] unexpired_pair not_le)
  then show ?thesis by (simp add: Some inc)
qed

lemma remove_delegated_succeeds:
  assumes "entries_ok st" and "powers_exact vp (height (block env)) st"
    and "DELEGATION_ENTRIES st (a, d) = Some (i, x)" and "n = vp a * item_percent st a i div 10 ^ decimal_places"
    and "(\<Sum>b \<in> delegators_of st d. vp b) < 2 ^ 128"
    and "next_height env = (Ok h :: (_, contract_error) result)"
  shows "\<exists>w. remove_delegated_vp_if_not_expired (DELEGATED_VP st) env d n x = (Ok w :: (_, contract_error) result)"
proof (cases "unexpired (height (block env)) (i, x)")
  case False
  then show ?thesis by (simp add: remove_delegated_vp_if_not_expired_def not_expired [where i = i])
next
  case True
  let ?w = "DELEGATED_VP st" and ?D = "delegators_of st d"
  let ?others = "\<lambda>t. \<Sum>b \<in> ?D - {a}. given vp st b d t"
  have a: "a \<in> ?D" using assms(3) by (simp add: delegators_of_def)
  have g: "given vp st a d t = (if unexpired t (i, x) then n else 0)" for t using assms(3,4) by (simp add: given_def)
  have n: "n \<le> vp a" using given_le [OF assms(1), of vp a d "height (block env)"] True by (simp add: g)
  have split: "value_at 0 ?w d t = ?others t + (if unexpired t (i, x) then n else 0)" if "height (block env) < t" for t
  proof -
    have "value_at 0 ?w d t = (\<Sum>b \<in> ?D. given vp st b d t)" using assms(2) that unfolding powers_exact_def by blast
    also have "\<dots> = given vp st a d t + ?others t" by (rule sum.remove [OF finite_delegates(2) [OF assms(1)] a])
    finally show ?thesis by (simp only: g add.commute)
  qed
  have fit: "?others t + n < 2 ^ 128" for t by (rule others_fit [OF assms(1) a assms(5) n])
  obtain w1 where first: "(case x of None \<Rightarrow> Ok ?w | Some e \<Rightarrow> and_then (wormhole_increment ?w d e n) (\<lambda>(w, _). Ok w)) =
      (Ok w1 :: (_, contract_error) result)" and low: "\<forall>t. height (block env) < t \<longrightarrow> n \<le> value_at 0 w1 d t"
    using raised_at_expiration [of "height (block env)" ?w d ?others i x n, OF split True fit] by blast
  have "\<exists>w u. wormhole_decrement w1 d h n = (Ok (w, u) :: (_, contract_error) result)"
    by (rule decrement_succeeds) (use low next_height_le [OF assms(6)] in blast)
  then obtain w u where "wormhole_decrement w1 d h n = (Ok (w, u) :: (_, contract_error) result)" by (elim exE)
  with first True assms(6) show ?thesis
    by (simp add: remove_delegated_vp_if_not_expired_def not_expired [where i = i])
qed

text \<open>Removing an item that exists never fails once the time is not before the last change.\<close>

lemma remove_item_succeeds:
  assumes "items m (k, i) = Some r" and "last_update_of m k \<le> h"
  shows "\<exists>m' cnt. remove_item ao m k i h = Ok (m', r, cnt)"
proof (cases "h = last_update_of m k")
  case True
  with assms show ?thesis
    by (simp add: remove_item_def validate_order_and_update_def load_item_def Let_def)
next
  case False
  with assms show ?thesis
    by (simp add: remove_item_def validate_order_and_update_def load_item_def Let_def not_less [symmetric])
qed

text \<open>C36: A member can take a delegation back. In every state of a run without partial renewals, revoking an
  existing delegation succeeds and removes its entry: no account underflows and no percentage is missing. The
  conditions are that the module is set up (it still has voting power hook callers), that the message carries no
  funds and names a valid address, that the height of the next block fits 64 bits, that the power query answers
  at that height, and that the powers of the delegate's delegators together fit 128 bits.
\<close>

theorem undelegate_available:
  assumes "delegation_run deps (no_partial_renewal deps) h st vp" and "removal_laws (delegates_ops deps)"
    and "history_laws (active_ops deps) till" and "h \<le> height (block env)"
    and "\<And>dao b. q dao b (Some (height (block env) + 1)) = Ok (vp b)"
    and "next_height env = (Ok n :: (_, contract_error) result)" and "nonpayable deps info = Ok ()"
    and "ensure_setup st = Ok ()" and "addr_validate deps del = Ok d" and "d \<in> delegates_of st (sender info)"
    and "(\<Sum>b \<in> delegators_of st d. vp b) < 2 ^ 128"
  shows "\<exists>st'. execute (deps\<lparr>query_voting_power := q\<rparr>) st env info (Undelegate del) = Ok st' \<and>
    DELEGATION_ENTRIES st' = (DELEGATION_ENTRIES st)((sender info, d) := None)"
proof -
  let ?a = "sender info" and ?h = "height (block env)" and ?m = "DELEGATIONS st"
  have rec: "records_ok (delegates_ops deps) (active_ops deps) till ?h st"
    by (rule records_ok_later [OF run_records [OF assms(1-3)] assms(4)])
  then have r: "entries_ok st" "active_ok (active_ops deps) ?h st" "percents_ok st" by (simp_all add: records_ok_def)
  have exact: "powers_exact vp ?h st" by (rule powers_exact_later [OF run_powers [OF assms(1-3)] assms(4)])
  from assms(10) obtain i x where e: "DELEGATION_ENTRIES st (?a, d) = Some (i, x)" by (auto simp: delegates_of_def)
  from entry_item [OF r(1) e] obtain p where
    p: "items ?m (?a, i) = Some \<lparr>delegation_delegate = d, delegation_percent = p\<rparr>" "valid_percent p"
    "item_percent st ?a i = atomics p" "entry_percent st ?a d = atomics p" by metis
  have "last_update_of ?m ?a \<le> ?h" using r(2) unfolding active_ok_def by blast
  from remove_item_succeeds [OF p(1) this, of "active_ops deps"]
  obtain ds cnt where rm: "remove_item (active_ops deps) ?m ?a i ?h =
      Ok (ds, \<lparr>delegation_delegate = d, delegation_percent = p\<rparr>, cnt)" by (elim exE)
  have "atomics p \<le> (\<Sum>c \<in> delegates_of st ?a. entry_percent st ?a c)"
    using member_le_sum [of d "delegates_of st ?a" "entry_percent st ?a"] assms(10) finite_delegates(1) [OF r(1)] p(4) by simp
  then have sub: "decimal_checked_sub (percent_delegated_of st ?a) p = Ok (Decimal (atomics (percent_delegated_of st ?a) - atomics p))"
    using r(3) unfolding percents_ok_def by (metis (no_types, lifting) and_then.simps(1) checked_sub128_def decimal_checked_sub_def)
  from run_dao [OF assms(1)] obtain dao where "DAO st = Some dao" by blast
  moreover have "n = ?h + 1" using assms(6) by (auto simp: next_height_def add_u64_def split: if_splits)
  ultimately have power: "get_voting_power_of (deps\<lparr>query_voting_power := q\<rparr>) st ?a n = Ok (vp ?a)"
    using assms(5) by (simp add: get_voting_power_of_def get_voting_power_def)
  have "vp ?a \<le> (\<Sum>b \<in> delegators_of st d. vp b)"
    using member_le_sum [of ?a "delegators_of st d" vp] e finite_delegates(2) [OF r(1)] by (simp add: delegators_of_def)
  with assms(11) have "vp ?a < 2 ^ 128" by simp
  with p(2) have calc: "calculate_delegated_vp (vp ?a) p = (Ok (vp ?a * atomics p div 10 ^ decimal_places) :: (_, contract_error) result)"
    by (intro calculate_delegated_succeeds) (simp_all add: valid_percent_def decimal_less_def not_less)
  from remove_delegated_succeeds [OF r(1) exact e _ assms(11,6)] p(3) obtain w where
    "remove_delegated_vp_if_not_expired (DELEGATED_VP st) env d (vp ?a * atomics p div 10 ^ decimal_places) x =
      (Ok w :: (_, contract_error) result)" by auto
  with assms(6-9) e rm sub power calc show ?thesis
    by (simp add: execute_def execute_undelegate_def)
qed

theorem undelegate_available_witness:
  "\<exists>st'. execute (sample_delegation\<lparr>query_voting_power := \<lambda>_ a _. Ok (sample_power a)\<rparr>) deleg_half (sample_env 50)
      (sent_by ''ann'') (Undelegate ''bob'') = Ok st' \<and>
    DELEGATION_ENTRIES st' = (DELEGATION_ENTRIES deleg_half)((sender (sent_by ''ann''), ''bob'') := None)"
proof (rule undelegate_available [where till = log_till and h = 2 and n = 51 and vp = sample_power])
  show "delegation_run sample_delegation (no_partial_renewal sample_delegation) 2 deleg_half sample_power"
    by (rule sample_run_half) (simp add: no_partial_renewal_def)
  show "''bob'' \<in> delegates_of deleg_half (sender (sent_by ''ann''))"
    by (simp add: delegates_of_def deleg_half_def sent_by_def)
  show "(\<Sum>b \<in> delegators_of deleg_half ''bob''. sample_power b) < 2 ^ 128" by (simp add: sample_given sample_power_def)
  show "ensure_setup deleg_half = Ok ()" by (simp add: ensure_setup_def deleg_half_def deleg_bob_def deleg_start_def)
qed (simp_all add: log_removal_laws log_laws sample_env_def sample_block_def next_height_def sample_sums sent_by_def
    sample_delegation_def)

end
