(* ===== verification/Spec2Isabelle.thy ===== *)
theory Spec2Isabelle
  imports Dao_System Proposal_Multiple_Claims Pre_Propose_With_Single Pre_Propose_With_Multiple
    Cw20_Dao Vote_Delegation_Claims
begin

text \<open>
  \<^bold>\<open>A verification of the governance core of DAO DAO.\<close>

  A DAO is a core contract (\<open>contracts/dao-dao-core\<close>) with one voting module, which answers how
  much voting power an account has at a height, and any number of proposal modules. Members create
  proposals in a proposal module, vote on them with the power the voting module reports at the
  height of the proposal's creation, and execute proposals that passed: the proposal module sends
  the proposal's messages to the core, which accepts them from its enabled proposal modules and
  emits them as its own. A vetoer may stop or release a passed proposal during a timelock. A
  delegation contract may add delegated power to a vote; when a delegator votes, the delegate's
  ballot is reduced. Receivers of hooks hear of proposals and votes. A pre-propose contract may stand
  in front of a proposal module: it decides who may submit, takes a deposit and returns it when
  the proposal is completed.

  \<^bold>\<open>How the code is modelled.\<close> Each contract is a record of its storage items, named as in
  its \<open>state.rs\<close> (an \<open>Item\<close> is an option, a \<open>Map\<close> a partial function), and each handler a
  function from the querier, the storage, the block and the sender to a result: \<open>Ok\<close> with the
  new storage and the response, \<open>Err\<close> with the contract's own error, or \<open>Panic\<close> where the code
  unwraps, indexes out of range or overflows an unchecked operation; after an error the chain
  reverts the storage. Attributes of responses are left out. \<open>u64\<close> values are 64-bit words;
  \<open>Uint128\<close> amounts are naturals with the range check of each checked or panicking operation
  written out; \<open>Decimal\<close> and \<open>Uint256\<close> are scaled naturals with their checks. What other
  contracts and crates answer is a parameter: \<open>cw_env\<close> holds address validation and the
  functions of \<open>cw_utils\<close> on expirations, \<open>dao_querier\<close> the queries to the core, the voting module
  and the delegation contract, whose own code is modelled as well.

  \<^bold>\<open>The theories.\<close>

  \<^item> \<open>Prelude\<close>: results with their simplification rules (collection \<open>result_ok\<close>), folds and
    maps that stop at the first error, 128-bit and 64-bit arithmetic, bounded words, ordered maps
    and their ranges, blocks, expirations, messages and replies.
  \<^item> \<open>Dao_Interface\<close> (\<open>packages/dao-interface\<close>): module records, instantiation messages, updates.
  \<^item> \<open>Cw_Hooks\<close> (\<open>packages/cw-hooks\<close>), \<open>Dao_Hooks\<close> (\<open>packages/dao-hooks\<close>): the registry of
    receivers and the messages they get.
  \<^item> \<open>Dao_Voting\<close> (\<open>packages/dao-voting\<close>): thresholds, the votes of yes, no and abstain, the
    comparison of counts with thresholds at the precision the code uses, statuses, veto
    configurations, reply identifiers and creation policies. The comparison is shown to be exact
    for nine decimal places, and not beyond.
  \<^item> \<open>Dao_Delegation\<close> (\<open>packages/dao-voting/src/delegation.rs\<close>): the override of delegates'
    ballots, and the locale \<open>vote_tally\<close>, the contract between a tally and the ballots it counts,
    from which the tally invariant follows for any kind of vote.
  \<^item> \<open>Proposal_Module\<close>: the storage that both proposal modules have, numbering of proposals, and the
    locale \<open>module_tally\<close> that lifts \<open>vote_tally\<close> to a module's storage. \<open>Proposal_Lifecycle\<close>:
    which status can follow which, runs of a module, and the locales \<open>proposal_lifecycle\<close> and
    \<open>counted_lifecycle\<close>: what each step promises, and what follows for runs (at most one dispatch
    per proposal, settled statuses, votes that only grow).
  \<^item> \<open>Single_Proposal\<close>, \<open>Proposal_Single\<close> (\<open>contracts/proposal/dao-proposal-single\<close>,
    \<open>proposal.rs\<close> and \<open>contract.rs\<close>, with \<open>v1_state.rs\<close>): the status of a proposal and every
    handler, reply, query and migration. \<open>Proposal_Single_Effects\<close> inverts the handlers: what a
    success did and why it was allowed. \<open>Proposal_Single_Props\<close> has the invariant, the steps and
    the interpretations of the locales. \<open>Proposal_Single_Claims\<close> states what is promised of
    every reachable state, with a concrete run.
  \<^item> \<open>Multiple_Choice\<close> (\<open>packages/dao-voting/src/multiple_choice.rs\<close>), \<open>Multiple_Proposal\<close>,
    \<open>Proposal_Multiple\<close> (\<open>contracts/proposal/dao-proposal-multiple\<close>), with
    \<open>Proposal_Multiple_Effects\<close>, \<open>Proposal_Multiple_Props\<close> and \<open>Proposal_Multiple_Claims\<close>: the
    same for votes with many options, on the same locales. The rule of the vote is stated abstractly
    (a strict leader, beyond the reach of the votes to come) and the optimised check of the code
    against the second highest weight is shown to compute it.
  \<^item> \<open>Condorcet_Election\<close>: ranked ballots, margins and Condorcet winners, and what the outstanding
    votes can still decide, without reference to code. \<open>Condorcet_Matrix\<close> (\<open>cell.rs\<close>, \<open>m.rs\<close> of
    \<open>contracts/proposal/dao-proposal-condorcet\<close>): signed cells and the upper triangle of an
    antisymmetric matrix, shown to behave as the whole matrix of integers. \<open>Condorcet_Tally\<close>
    (\<open>vote.rs\<close>, \<open>M::stats\<close>, \<open>tally.rs\<close>): the locale \<open>margin_matrix\<close> is what the tally relies on;
    recording a ballot adds its preferences to the margins, and the winner is exact.
    \<open>Condorcet_Contract\<close>, \<open>Condorcet_Props\<close> and \<open>Condorcet_Claims\<close>: every handler, runs with a log of
    the votes, and what is promised of them.
  \<^item> \<open>Cw_Denom\<close> (\<open>packages/cw-denom\<close>), \<open>Dao_Deposit\<close>
    (\<open>packages/dao-voting/src/deposit.rs\<close>): denominations, transfers and proposal deposits.
    \<open>Pre_Propose_Base\<close> (\<open>packages/dao-pre-propose-base\<close>) and \<open>Pre_Propose_Modules\<close>
    (\<open>contracts/pre-propose/dao-pre-propose-single\<close> and \<open>-multiple\<close>): who may submit proposals,
    and the deposit that is taken and returned. \<open>Pre_Propose_System\<close> puts such a contract in
    front of a proposal module: the locale \<open>completing_module\<close> states what the payouts rely on, and
    \<open>Pre_Propose_With_Single\<close> and \<open>Pre_Propose_With_Multiple\<close> show it of the two modules.
  \<^item> \<open>Staking_Store\<close>: the snapshot maps and claims of the storage crates, as parameters with their
    documented laws, and what it means for the stakes of accounts to be balanced with their total.
    \<open>Voting_Token_Staked\<close> (\<open>contracts/voting/dao-voting-token-staked\<close>): every handler, reply,
    query and the migration of the voting module for staked native tokens;
    \<open>Voting_Token_Props\<close> has runs with a log of payments and the invariant of custody, and
    \<open>Voting_Token_Claims\<close> what is promised of them.
  \<^item> \<open>Condorcet_Voting\<close>: the ranked-choice module beside a voting module; the locale
    \<open>voting_source\<close> states what proposal modules rely on (the past is fixed, powers are shares of the
    total). \<open>Staked_Voting\<close> interprets it on the staking module.
  \<^item> \<open>Cw20_Stake\<close> (\<open>contracts/staking/cw20-stake\<close>): shares of the cw20 tokens that a contract holds,
    with every handler, query and the migration. \<open>Cw20_Stake_Props\<close> has an abstract vault (deposits,
    withdrawals and donations), shows that the contract refines it, and the invariant of
    solvency. \<open>Voting_Cw20_Staked\<close> (\<open>contracts/voting/dao-voting-cw20-staked\<close>) is the voting module on
    top; \<open>Cw20_Claims\<close> interprets \<open>voting_source\<close> on the shares and states what is promised.
    \<open>Cw20_Dao\<close> puts four contracts together: the ranked-choice module asks the core, the core its
    voting module and that one the staking contract, each answering by its own query function.
  \<^item> \<open>Cw_Wormhole\<close> (\<open>packages/cw-wormhole\<close>): values that change at future times, where an update
    applies to every later value. \<open>Cw_Snapshot_Vector_Map\<close> (\<open>packages/cw-snapshot-vector-map\<close>): lists
    with expirations whose past is readable, over a snapshot map with its documented laws.
    \<open>Vote_Delegation\<close> (\<open>contracts/delegation/dao-vote-delegation\<close>): every handler, hook, query and the
    migration of the delegation module. \<open>Vote_Delegation_Props\<close> has the invariants of its four records
    of a delegation and of the delegated power, kept by every operation; \<open>Vote_Delegation_Run\<close> runs
    beside a membership whose changes are reported by hooks; \<open>Vote_Delegation_Claims\<close> what is
    promised of them, and by how much a renewal puts the account out.
  \<^item> \<open>Cw_Paginate\<close> (\<open>packages/cw-paginate-storage\<close>): pages of a map, which together are the map.
  \<^item> \<open>Dao_Core\<close> (\<open>contracts/dao-dao-core\<close>): every handler, reply, query and migration of the core,
    with prefixes of proposal modules; \<open>Dao_Core_Props\<close> has the registry invariant, who can
    change what, and runs; \<open>Dao_Core_Claims\<close> the statements and their examples.
  \<^item> \<open>Dao_System\<close>: a proposal module beside the core. A message that reaches the core from
    \<open>dao-proposal-single\<close> is traced back to a passed proposal.
  \<^item> \<open>Samples\<close>: a concrete chain and membership for the examples.

  \<^bold>\<open>What the statements show.\<close> Tallies are the sums of the ballots in every reachable state;
  proposals are numbered without gaps; statuses move only along the lifecycle and messages are
  dispatched at most once, only for passed proposals or by a vetoer entitled to it; a decision
  taken before the expiration is the decision that the final tally gives; settings change only by
  the DAO; failed executions are recorded by their reply; without delegation a vote is accepted
  exactly when it is in time, of a voter with power, and a first vote or an allowed change; deposits are taken in full and paid out exactly once. The ranked-choice
  module stores the margins of the votes it accepted, its verdict on the winner is exact against every
  use of the outstanding power, decisions are final and only the Condorcet winner is executed. The
  module for staked tokens neither loses nor creates a token, its powers at a height add up to the total
  of that height and never change later, and stakes can be taken back. The cw20 staking contract is
  solvent in its own token, refines a vault whose price per share never falls, and rounds against whoever moves.
  Members with staked power who have not voted can vote on an open ranked-choice proposal. The delegation module
  credits a delegate, at every later height, with exactly what the delegations in force give, unless
  a partial delegation is renewed before it expires; members never delegate more than the whole, delegates
  do not delegate, and a delegation can be taken back while the module is set up. In the core the
  counters agree with the registry of modules; messages are forwarded only for the admin, an enabled
  module, a module being registered that returns a callback, or as initial actions; a pause stops
  everyone but the admin; an admin other than the DAO is only replaced by a nominee of the admin who
  accepted; new modules are registered under fresh prefixes.

  \<^bold>\<open>Bounds.\<close> No fuel is used: loops are folds or recursions over lists, the loop of module
  prefixes is a function with a proof that its argument decreases. Reply identifiers carry 61 bits of
  the proposal number, so the statements about replies suppose numbers below \<open>2 ^ 61\<close>; decisions
  are exact for percentages with nine decimal places; totals fit \<open>Uint128\<close> where a statement
  says that a computation does not fail.

  \<^bold>\<open>Not modelled.\<close> Serialisation and attributes; the chain itself, except that a reply on
  error arrives after its message and that a failed message leaves no storage change. Of the
  other contracts, the other voting modules enter by their answers to queries and by the messages
  sent to them, and their own code is left for later, as are the build of
  the staking module for the Thorchain token factory, the pre-propose modules with approval,
  staking, distribution, vesting, gauges and role-based authorisation;
  bonding curves rest on the roots of a decimal crate; factories, the issuer and the migrator build
  messages for other contracts and keep no governance state.
\<close>

end
